(* ===== verification/Prelude.thy ===== *)
theory Prelude
  imports Main "HOL-Library.Word" "HOL-Library.AList"
begin

text \<open>
  Shared vocabulary of the development: machine-integer types, Rust's checked and saturating
  arithmetic on them, the state-and-result monad in which every \<open>&mut self\<close> method and
  every file operation of the host is written, and the weakest-precondition calculus that
  carries the proofs about it.

  A Rust function returning \<open>Result<T, E>\<close> and mutating a state \<open>s\<close> is a function
  \<open>s \<Rightarrow> (E + T) \<times> s\<close>: the state is returned on the error path too, because the
  code often mutates \<open>self\<close> or the file system before it returns early.
\<close>

named_theorems wp_simps \<open>weakest precondition of the monad's combinators\<close>
named_theorems run_simps \<open>unfoldings that run a monadic program on a concrete state\<close>

subsection \<open>Machine integers\<close>

type_synonym byte = "8 word"
type_synonym u16 = "16 word"
type_synonym u32 = "32 word"
type_synonym u64 = "64 word"
type_synonym uuid = "128 word"

definition checked_add :: "'a::len word \<Rightarrow> 'a word \<Rightarrow> 'a word option" where
  "checked_add x y = (if unat x + unat y < 2 ^ LENGTH('a) then Some (x + y) else None)"

definition saturating_sub :: "'a::len word \<Rightarrow> 'a word \<Rightarrow> 'a word" where
  "saturating_sub x y = (if x < y then 0 else x - y)"

definition saturating_add :: "'a::len word \<Rightarrow> 'a word \<Rightarrow> 'a word" where
  "saturating_add x y = (case checked_add x y of Some z \<Rightarrow> z | None \<Rightarrow> - 1)"

definition is_nil :: "uuid \<Rightarrow> bool" where
  "is_nil u \<longleftrightarrow> u = 0"

lemmas word_run_defs [run_simps] =
  checked_add_def saturating_sub_def saturating_add_def is_nil_def Let_def

lemma unat_lt2p: "unat (x :: 'a::len word) < 2 ^ LENGTH('a)"
  by (rule unsigned_less)

lemma unat_of_nat_small: "k < 2 ^ LENGTH('a::len) \<Longrightarrow> unat (of_nat k :: 'a word) = k"
  by (simp only: unat_of_nat mod_less)

lemma checked_add_unat:
  fixes x y z :: "'a::len word"
  assumes "checked_add x y = Some z"
  shows "unat z = unat x + unat y"
proof -
  from assms have lt: "unat x + unat y < 2 ^ LENGTH('a)" and z: "z = x + y"
    by (auto simp: checked_add_def split: if_splits)
  from lt show ?thesis unfolding z by (simp add: unat_word_ariths)
qed

lemma checked_add_one_less:
  fixes x y :: "'a::len word"
  assumes "checked_add x 1 = Some y"
  shows "x < y"
  using checked_add_unat [OF assms] by (simp add: word_less_nat_alt)

lemma checked_add_one_next:
  fixes x y z :: "'a::len word"
  assumes "checked_add x 1 = Some y" and "z < y"
  shows "z \<le> x"
proof -
  have "unat y = unat x + 1" using checked_add_unat [OF assms(1)] by simp
  with assms(2) show ?thesis by (simp add: word_less_nat_alt word_le_nat_alt)
qed

lemma checked_add_one_pos:
  fixes x y :: "'a::len word"
  assumes "checked_add x 1 = Some y"
  shows "0 < y"
  using checked_add_unat [OF assms] by (simp add: word_less_nat_alt)

subsection \<open>The state-and-result monad\<close>

type_synonym ('s, 'e, 'a) rm = "'s \<Rightarrow> ('e + 'a) \<times> 's"

definition ret :: "'a \<Rightarrow> ('s, 'e, 'a) rm" where
  "ret x = (\<lambda>s. (Inr x, s))"

definition fail :: "'e \<Rightarrow> ('s, 'e, 'a) rm" where
  "fail e = (\<lambda>s. (Inl e, s))"

definition bindR :: "('s, 'e, 'a) rm \<Rightarrow> ('a \<Rightarrow> ('s, 'e, 'b) rm) \<Rightarrow> ('s, 'e, 'b) rm" where
  "bindR m f = (\<lambda>s. case m s of (r, s') \<Rightarrow> (case r of Inl e \<Rightarrow> (Inl e, s') | Inr x \<Rightarrow> f x s'))"

definition seqR :: "('s, 'e, unit) rm \<Rightarrow> ('s, 'e, 'b) rm \<Rightarrow> ('s, 'e, 'b) rm" where
  "seqR m n = bindR m (\<lambda>_. n)"

definition gets :: "('s \<Rightarrow> 'a) \<Rightarrow> ('s, 'e, 'a) rm" where
  "gets f = (\<lambda>s. (Inr (f s), s))"

definition modify :: "('s \<Rightarrow> 's) \<Rightarrow> ('s, 'e, unit) rm" where
  "modify f = (\<lambda>s. (Inr (), f s))"

text \<open>\<open>reject c e\<close> is the source's \<open>if c { return Err(e); }\<close>.\<close>

definition reject :: "bool \<Rightarrow> 'e \<Rightarrow> ('s, 'e, unit) rm" where
  "reject c e = (if c then fail e else ret ())"

text \<open>\<open>ok_or x e\<close> is \<open>x.ok_or(e)?\<close>; \<open>of_result r\<close> is \<open>r?\<close> on a pure result.\<close>

definition ok_or :: "'a option \<Rightarrow> 'e \<Rightarrow> ('s, 'e, 'a) rm" where
  "ok_or x e = (case x of None \<Rightarrow> fail e | Some v \<Rightarrow> ret v)"

definition of_result :: "'e + 'a \<Rightarrow> ('s, 'e, 'a) rm" where
  "of_result r = (\<lambda>s. (r, s))"

text \<open>\<open>map_err\<close>, and a \<open>match\<close> on the error of a call that does not propagate it.\<close>

definition map_err :: "('e \<Rightarrow> 'f) \<Rightarrow> ('s, 'e, 'a) rm \<Rightarrow> ('s, 'f, 'a) rm" where
  "map_err f m = (\<lambda>s. case m s of (r, s') \<Rightarrow> (case r of Inl e \<Rightarrow> Inl (f e) | Inr x \<Rightarrow> Inr x, s'))"

definition catchR :: "('s, 'e, 'a) rm \<Rightarrow> ('e \<Rightarrow> ('s, 'f, 'a) rm) \<Rightarrow> ('s, 'f, 'a) rm" where
  "catchR m h = (\<lambda>s. case m s of (r, s') \<Rightarrow> (case r of Inl e \<Rightarrow> h e s' | Inr x \<Rightarrow> (Inr x, s')))"

text \<open>Running a call and keeping its result as a value, for a \<open>match\<close> on it.\<close>

definition attempt :: "('s, 'e, 'a) rm \<Rightarrow> ('s, 'f, 'e + 'a) rm" where
  "attempt m = (\<lambda>s. case m s of (r, s') \<Rightarrow> (Inr r, s'))"

text \<open>Running a call on a part of the state: a field of \<open>self\<close>, or the world.\<close>

definition zoom :: "('s \<Rightarrow> 't) \<Rightarrow> ('t \<Rightarrow> 's \<Rightarrow> 's) \<Rightarrow> ('t, 'e, 'a) rm \<Rightarrow> ('s, 'e, 'a) rm" where
  "zoom get put m = (\<lambda>s. case m (get s) of (r, t) \<Rightarrow> (r, put t s))"

definition on_snd :: "('w, 'e, 'a) rm \<Rightarrow> ('c \<times> 'w, 'e, 'a) rm" where
  "on_snd m = (\<lambda>s. case m (snd s) of (r, w) \<Rightarrow> (r, (fst s, w)))"

lemmas monad_defs [run_simps] =
  ret_def fail_def bindR_def seqR_def gets_def modify_def reject_def ok_or_def of_result_def
  map_err_def catchR_def attempt_def zoom_def on_snd_def

subsection \<open>Weakest preconditions\<close>

text \<open>
  \<open>wp m Q E s\<close>: running \<open>m\<close> from \<open>s\<close> ends in a success satisfying \<open>Q\<close> or in an
  error satisfying \<open>E\<close>.
\<close>

definition wp ::
    "('s, 'e, 'a) rm \<Rightarrow> ('a \<Rightarrow> 's \<Rightarrow> bool) \<Rightarrow> ('e \<Rightarrow> 's \<Rightarrow> bool) \<Rightarrow> 's \<Rightarrow> bool" where
  "wp m Q E s = (case m s of (r, s') \<Rightarrow> (case r of Inl e \<Rightarrow> E e s' | Inr x \<Rightarrow> Q x s'))"

lemma wp_ret [wp_simps]: "wp (ret x) Q E = Q x"
  by (simp add: wp_def ret_def fun_eq_iff)

lemma wp_fail [wp_simps]: "wp (fail e) Q E = E e"
  by (simp add: wp_def fail_def fun_eq_iff)

lemma wp_bindR [wp_simps]: "wp (bindR m f) Q E = wp m (\<lambda>x. wp (f x) Q E) E"
  by (simp add: wp_def bindR_def fun_eq_iff split: prod.split sum.split)

lemma wp_seqR [wp_simps]: "wp (seqR m n) Q E = wp m (\<lambda>_. wp n Q E) E"
  by (simp add: seqR_def wp_bindR)

lemma wp_gets [wp_simps]: "wp (gets f) Q E = (\<lambda>s. Q (f s) s)"
  by (simp add: wp_def gets_def fun_eq_iff)

lemma wp_modify [wp_simps]: "wp (modify f) Q E = (\<lambda>s. Q () (f s))"
  by (simp add: wp_def modify_def fun_eq_iff)

lemma wp_reject [wp_simps]: "wp (reject c e) Q E = (if c then E e else Q ())"
  by (simp add: reject_def wp_ret wp_fail)

lemma wp_ok_or [wp_simps]:
  "wp (ok_or x e) Q E = (case x of None \<Rightarrow> E e | Some v \<Rightarrow> Q v)"
  by (simp add: ok_or_def wp_ret wp_fail split: option.split)

lemma wp_of_result [wp_simps]:
  "wp (of_result r) Q E = (case r of Inl e \<Rightarrow> E e | Inr x \<Rightarrow> Q x)"
  by (simp add: wp_def of_result_def fun_eq_iff split: sum.split)

lemma wp_map_err [wp_simps]: "wp (map_err f m) Q E = wp m Q (\<lambda>e. E (f e))"
  by (simp add: wp_def map_err_def fun_eq_iff split: prod.split sum.split)

lemma wp_catchR [wp_simps]: "wp (catchR m h) Q E = wp m Q (\<lambda>e. wp (h e) Q E)"
  by (simp add: wp_def catchR_def fun_eq_iff split: prod.split sum.split)

lemma wp_attempt [wp_simps]: "wp (attempt m) Q E = wp m (\<lambda>x. Q (Inr x)) (\<lambda>e. Q (Inl e))"
  by (simp add: wp_def attempt_def fun_eq_iff split: prod.split sum.split)

lemma wp_zoom [wp_simps]:
  "wp (zoom get put m) Q E =
     (\<lambda>s. wp m (\<lambda>x t. Q x (put t s)) (\<lambda>e t. E e (put t s)) (get s))"
  by (simp add: wp_def zoom_def fun_eq_iff split: prod.split sum.split)

lemma wp_on_snd [wp_simps]:
  "wp (on_snd m) Q E =
     (\<lambda>s. wp m (\<lambda>x w. Q x (fst s, w)) (\<lambda>e w. E e (fst s, w)) (snd s))"
  by (simp add: wp_def on_snd_def fun_eq_iff split: prod.split sum.split)

lemma wp_if [wp_simps]:
  "wp (if c then m else n) Q E = (if c then wp m Q E else wp n Q E)"
  by simp

lemma wp_case_option [wp_simps]:
  "wp (case x of None \<Rightarrow> m | Some v \<Rightarrow> f v) Q E = (case x of None \<Rightarrow> wp m Q E | Some v \<Rightarrow> wp (f v) Q E)"
  by (simp split: option.split)

lemma wp_case_sum [wp_simps]:
  "wp (case x of Inl a \<Rightarrow> f a | Inr b \<Rightarrow> g b) Q E = (case x of Inl a \<Rightarrow> wp (f a) Q E | Inr b \<Rightarrow> wp (g b) Q E)"
  by (simp split: sum.split)

lemma wp_case_prod [wp_simps]:
  "wp (case x of (a, b) \<Rightarrow> f a b) Q E = (case x of (a, b) \<Rightarrow> wp (f a b) Q E)"
  by (simp split: prod.split)

lemma wp_mono:
  assumes "wp m Q E s"
    and "\<And>x s'. Q x s' \<Longrightarrow> Q' x s'" and "\<And>e s'. E e s' \<Longrightarrow> E' e s'"
  shows "wp m Q' E' s"
  using assms by (auto simp: wp_def split: prod.splits sum.splits)

lemma wp_conj:
  assumes "wp m Q E s" and "wp m Q' E' s"
  shows "wp m (\<lambda>x t. Q x t \<and> Q' x t) (\<lambda>e t. E e t \<and> E' e t) s"
  using assms by (auto simp: wp_def split: prod.splits sum.splits)

text \<open>From a run of the program to the calculus, and back.\<close>

lemma wp_okD: "m s = (Inr x, s') \<Longrightarrow> wp m Q E s \<Longrightarrow> Q x s'"
  by (simp add: wp_def)

lemma wp_errD: "m s = (Inl e, s') \<Longrightarrow> wp m Q E s \<Longrightarrow> E e s'"
  by (simp add: wp_def)

lemma wp_runI:
  assumes "\<And>x s'. m s = (Inr x, s') \<Longrightarrow> Q x s'" and "\<And>e s'. m s = (Inl e, s') \<Longrightarrow> E e s'"
  shows "wp m Q E s"
  using assms by (auto simp: wp_def split: prod.splits sum.splits)

lemma wp_top: "wp m (\<lambda>_ _. True) (\<lambda>_ _. True) s"
  by (simp add: wp_def split: prod.splits sum.splits)

subsection \<open>Lists\<close>

lemma list_all_find_None: "find P xs = None \<longleftrightarrow> (\<forall>x\<in>set xs. \<not> P x)"
  by (auto simp: find_None_iff)

lemma find_SomeD: "find P xs = Some x \<Longrightarrow> P x \<and> x \<in> set xs"
  by (auto simp: find_Some_iff)

lemma find_snoc_None: "find P xs = None \<Longrightarrow> find P (xs @ [y]) = (if P y then Some y else None)"
  by (induction xs) (auto split: if_splits)

lemma append_eq_same_length:
  "length xs = length ys \<Longrightarrow> xs @ us = ys @ vs \<longleftrightarrow> xs = ys \<and> us = vs"
  by simp

end
