(* ===== verification/Host_Error.thy ===== *)
theory Host_Error
  imports Prelude
begin

text \<open>
  \<open>error.rs\<close>: the error type every fallible function of the host returns, and the two places
  where an error is turned into text: \<open>Display\<close> and the wire category of
  \<open>host_loop.rs\<close>. An I/O error keeps the one fact the host inspects, its
  \<open>ErrorKind\<close>. Where the source builds a message with \<open>format!\<close>, the model keeps the
  format string.
\<close>

datatype io_error_kind = NotFound | AlreadyExists | InvalidData | UnexpectedEof | OtherIo

datatype fcp_error =
    Io io_error_kind
  | Json
  | Windows u32
  | Tpm
  | Crypto string
  | Format string
  | Protocol string
  | Capability string
  | UserActionable string
  | UserVerificationNotConfigured

type_synonym 'a fcp_result = "fcp_error + 'a"
type_synonym ('s, 'a) host = "('s, fcp_error, 'a) rm"

text \<open>\<open>host_loop.rs: error_category\<close>, the only part of an error that crosses the protocol.\<close>

fun error_category :: "fcp_error \<Rightarrow> string" where
  "error_category (Io _) = ''io''"
| "error_category Json = ''json''"
| "error_category (Windows _) = ''windows_provider''"
| "error_category Tpm = ''tpm_provider''"
| "error_category (Crypto _) = ''crypto''"
| "error_category (Format _) = ''vault_format''"
| "error_category (Protocol _) = ''protocol''"
| "error_category (Capability _) = ''capability''"
| "error_category (UserActionable code) = code"
| "error_category UserVerificationNotConfigured = ''hello_not_configured''"

text \<open>\<open>std::error::Error::source\<close>: only wrapped platform errors have one.\<close>

fun has_source :: "fcp_error \<Rightarrow> bool" where
  "has_source (Io _) = True"
| "has_source Json = True"
| "has_source (Windows _) = True"
| "has_source Tpm = True"
| "has_source (Crypto _) = False"
| "has_source (Format _) = False"
| "has_source (Protocol _) = False"
| "has_source (Capability _) = False"
| "has_source (UserActionable _) = False"
| "has_source UserVerificationNotConfigured = False"

text \<open>The prefix \<open>Display\<close> writes; the rest is the wrapped text.\<close>

fun display_prefix :: "fcp_error \<Rightarrow> string" where
  "display_prefix (Io _) = ''I/O error: ''"
| "display_prefix Json = ''JSON error: ''"
| "display_prefix (Windows _) = ''Windows API error: ''"
| "display_prefix Tpm = ''TPM error: ''"
| "display_prefix (Crypto _) = ''cryptographic operation failed: ''"
| "display_prefix (Format _) = ''vault format error: ''"
| "display_prefix (Protocol _) = ''protocol error: ''"
| "display_prefix (Capability _) = ''capability rejected: ''"
| "display_prefix (UserActionable _) = ''user action required: ''"
| "display_prefix UserVerificationNotConfigured =
     ''no user verification method is set up for this account''"

text \<open>
  No message text reaches the wire category: two errors of the same variant other than
  \<open>UserActionable\<close> have the same category whatever they carry.
\<close>

lemma error_category_redacts:
  "error_category (Format m) = error_category (Format m')"
  "error_category (Protocol m) = error_category (Protocol m')"
  "error_category (Capability m) = error_category (Capability m')"
  "error_category (Crypto m) = error_category (Crypto m')"
  "error_category (Io k) = error_category (Io k')"
  by simp_all

end
