(* ===== verification/Rust_String.thy ===== *)
theory Rust_String
  imports Prelude "HOL-Library.Sublist"
begin

text \<open>
  The string operations of the Rust standard library that the host applies to user-supplied text.
  A Rust \<open>String\<close> is its UTF-8 bytes, so lengths are byte lengths and \<open>trim\<close> removes the
  encodings of Unicode white space.
\<close>

definition utf8_spaces :: "string list" where
  "utf8_spaces = map (map char_of)
     [[9], [10], [11], [12], [13], [32], [194, 133], [194, 160], [225, 154, 128],
      [226, 128, 128], [226, 128, 129], [226, 128, 130], [226, 128, 131], [226, 128, 132],
      [226, 128, 133], [226, 128, 134], [226, 128, 135], [226, 128, 136], [226, 128, 137],
      [226, 128, 138], [226, 128, 168], [226, 128, 169], [226, 128, 175], [226, 129, 159],
      [227, 128, 128::nat]]"

text \<open>Removing leading occurrences of any of a list of non-empty patterns.\<close>

function strip_any :: "string list \<Rightarrow> string \<Rightarrow> string" where
  "strip_any ps cs = (case find (\<lambda>p. p \<noteq> [] \<and> prefix p cs) ps of
       None \<Rightarrow> cs | Some p \<Rightarrow> strip_any ps (drop (length p) cs))"
  by pat_completeness auto
termination
proof (relation "measure (\<lambda>(ps, cs). length cs)", goal_cases)
  case (2 ps cs p)
  then have "p \<noteq> []" and "prefix p cs" by (auto dest: find_SomeD)
  then have "0 < length p" and "length p \<le> length cs" by (auto dest: prefix_length_le)
  then have "length cs - length p < length cs" by linarith
  then show ?case by simp
qed simp

declare strip_any.simps [simp del]

definition trim_start :: "string \<Rightarrow> string" where
  "trim_start cs = strip_any utf8_spaces cs"

definition trim_end :: "string \<Rightarrow> string" where
  "trim_end cs = rev (strip_any (map rev utf8_spaces) (rev cs))"

definition trim :: "string \<Rightarrow> string" where
  "trim cs = trim_end (trim_start cs)"

definition trim_start_dots :: "string \<Rightarrow> string" where
  "trim_start_dots cs = dropWhile (\<lambda>c. c = CHR ''.'') cs"

definition ascii_lower_char :: "char \<Rightarrow> char" where
  "ascii_lower_char c =
     (let v = of_char c :: nat in if 65 \<le> v \<and> v \<le> 90 then char_of (v + 32) else c)"

definition to_ascii_lowercase :: "string \<Rightarrow> string" where
  "to_ascii_lowercase cs = map ascii_lower_char cs"

definition is_ascii_digit :: "char \<Rightarrow> bool" where
  "is_ascii_digit c = (let v = of_char c :: nat in 48 \<le> v \<and> v \<le> 57)"

definition is_ascii_lowercase :: "char \<Rightarrow> bool" where
  "is_ascii_lowercase c = (let v = of_char c :: nat in 97 \<le> v \<and> v \<le> 122)"

definition is_ascii_uppercase :: "char \<Rightarrow> bool" where
  "is_ascii_uppercase c = (let v = of_char c :: nat in 65 \<le> v \<and> v \<le> 90)"

definition is_ascii_alphanumeric :: "char \<Rightarrow> bool" where
  "is_ascii_alphanumeric c \<longleftrightarrow> is_ascii_digit c \<or> is_ascii_lowercase c \<or> is_ascii_uppercase c"

definition ends_with :: "string \<Rightarrow> string \<Rightarrow> bool" where
  "ends_with cs s \<longleftrightarrow> suffix s cs"

definition contains :: "string \<Rightarrow> string \<Rightarrow> bool" where
  "contains cs s \<longleftrightarrow> sublist s cs"

text \<open>\<open>str::split(c)\<close>: always at least one piece.\<close>

fun split_on :: "char \<Rightarrow> string \<Rightarrow> string list" where
  "split_on c [] = [[]]"
| "split_on c (x # xs) =
     (if x = c then [] # split_on c xs
      else (case split_on c xs of [] \<Rightarrow> [[x]] | p # ps \<Rightarrow> (x # p) # ps))"

fun decimal_value :: "nat \<Rightarrow> string \<Rightarrow> nat" where
  "decimal_value acc [] = acc"
| "decimal_value acc (c # cs) = decimal_value (10 * acc + (of_char c - 48)) cs"

text \<open>
  \<open>str::parse::<u64>\<close>: an optional \<open>+\<close>, then at least one decimal digit, within range.
\<close>

definition parse_u64 :: "string \<Rightarrow> u64 option" where
  "parse_u64 cs =
     (let ds = (case cs of c # rest \<Rightarrow> if c = CHR ''+'' then rest else cs | [] \<Rightarrow> []) in
      if ds = [] \<or> \<not> list_all is_ascii_digit ds \<or> 2 ^ 64 \<le> decimal_value 0 ds then None
      else Some (of_nat (decimal_value 0 ds)))"

text \<open>\<open>Ipv4Addr::from_str\<close>: four decimal octets, at most three digits, no leading zero.\<close>

definition is_ipv4_octet :: "string \<Rightarrow> bool" where
  "is_ipv4_octet cs \<longleftrightarrow> cs \<noteq> [] \<and> length cs \<le> 3 \<and> list_all is_ascii_digit cs
     \<and> (hd cs = CHR ''0'' \<longrightarrow> length cs = 1) \<and> decimal_value 0 cs \<le> 255"

definition is_ipv4 :: "string \<Rightarrow> bool" where
  "is_ipv4 cs \<longleftrightarrow> length (split_on (CHR ''.'') cs) = 4 \<and> list_all is_ipv4_octet (split_on (CHR ''.'') cs)"

lemma strip_any_suffix: "suffix (strip_any ps cs) cs"
proof (induction ps cs rule: strip_any.induct)
  case (1 ps cs)
  show ?case
  proof (cases "find (\<lambda>p. p \<noteq> [] \<and> prefix p cs) ps")
    case None
    then show ?thesis by (subst strip_any.simps) simp
  next
    case (Some p)
    from "1.IH" [OF Some] have "suffix (strip_any ps (drop (length p) cs)) (drop (length p) cs)" .
    moreover have "suffix (drop (length p) cs) cs" by (rule suffix_drop)
    ultimately have "suffix (strip_any ps (drop (length p) cs)) cs" by (rule suffix_order.trans)
    with Some show ?thesis by (subst strip_any.simps) simp
  qed
qed

lemma length_to_ascii_lowercase [simp]: "length (to_ascii_lowercase cs) = length cs"
  by (simp add: to_ascii_lowercase_def)

lemma ascii_lower_char_idem [simp]: "ascii_lower_char (ascii_lower_char c) = ascii_lower_char c"
proof -
  have "(of_char (char_of (of_char c + 32 :: nat)) :: nat) = of_char c + 32" if "(of_char c :: nat) \<le> 90"
    using that by simp
  then show ?thesis by (auto simp: ascii_lower_char_def Let_def)
qed

lemma to_ascii_lowercase_idem [simp]:
  "to_ascii_lowercase (to_ascii_lowercase cs) = to_ascii_lowercase cs"
  by (simp add: to_ascii_lowercase_def)

end
