(* ===== verification/Bytes.thy ===== *)
theory Bytes
  imports Prelude
begin

text \<open>
  Byte-level encodings the host uses: little- and big-endian integers
  (\<open>to_le_bytes\<close>, \<open>from_be_bytes\<close>), UUID bytes, and the hexadecimal codecs of
  \<open>protocol/messages.rs\<close>, \<open>config.rs\<close>, \<open>audit.rs\<close> and
  \<open>crypto/webauthn_codec.rs\<close>.

  The interface the binary formats rely on is the locale \<open>fixed_codec\<close>: a fixed-width
  encoding with both round-trip laws. It is interpreted on every integer width the formats use.
\<close>

subsection \<open>Integers as bytes\<close>

fun le_nat :: "byte list \<Rightarrow> nat" where
  "le_nat [] = 0"
| "le_nat (b # bs) = unat b + 256 * le_nat bs"

fun nat_le :: "nat \<Rightarrow> nat \<Rightarrow> byte list" where
  "nat_le 0 k = []"
| "nat_le (Suc n) k = of_nat (k mod 256) # nat_le n (k div 256)"

definition u16_to_le :: "u16 \<Rightarrow> byte list" where
  "u16_to_le x = nat_le 2 (unat x)"

definition u16_from_le :: "byte list \<Rightarrow> u16" where
  "u16_from_le bs = of_nat (le_nat bs)"

definition u32_to_le :: "u32 \<Rightarrow> byte list" where
  "u32_to_le x = nat_le 4 (unat x)"

definition u32_from_le :: "byte list \<Rightarrow> u32" where
  "u32_from_le bs = of_nat (le_nat bs)"

definition u64_to_le :: "u64 \<Rightarrow> byte list" where
  "u64_to_le x = nat_le 8 (unat x)"

definition u64_from_le :: "byte list \<Rightarrow> u64" where
  "u64_from_le bs = of_nat (le_nat bs)"

definition be_nat :: "byte list \<Rightarrow> nat" where
  "be_nat bs = le_nat (rev bs)"

text \<open>\<open>Uuid::as_bytes\<close> and \<open>Uuid::from_bytes\<close>: the 128-bit value in network order.\<close>

definition uuid_as_bytes :: "uuid \<Rightarrow> byte list" where
  "uuid_as_bytes u = rev (nat_le 16 (unat u))"

definition uuid_from_bytes :: "byte list \<Rightarrow> uuid" where
  "uuid_from_bytes bs = of_nat (be_nat bs)"

subsection \<open>Hexadecimal\<close>

definition char_of_byte :: "byte \<Rightarrow> char" where
  "char_of_byte b = char_of (unat b)"

definition byte_of_char :: "char \<Rightarrow> byte" where
  "byte_of_char c = of_nat (of_char c)"

definition HEX :: string where
  "HEX = ''0123456789abcdef''"

text \<open>The encoder's inner step: high nibble, then low nibble, through the digit table.\<close>

definition hex_byte :: "byte \<Rightarrow> string" where
  "hex_byte b = [HEX ! (unat b div 16), HEX ! (unat b mod 16)]"

definition encode_hex :: "byte list \<Rightarrow> string" where
  "encode_hex bytes = concat (map hex_byte bytes)"

text \<open>
  \<open>decode_nibble\<close> accepts \<open>0-9a-f\<close> only; \<open>hex_nibble\<close> of the credential registry
  accepts upper case too.
\<close>

definition decode_nibble :: "char \<Rightarrow> nat option" where
  "decode_nibble c =
     (let v = of_char c :: nat in
      if 48 \<le> v \<and> v \<le> 57 then Some (v - 48)
      else if 97 \<le> v \<and> v \<le> 102 then Some (v - 97 + 10)
      else None)"

definition hex_nibble :: "char \<Rightarrow> nat option" where
  "hex_nibble c =
     (let v = of_char c :: nat in
      if 48 \<le> v \<and> v \<le> 57 then Some (v - 48)
      else if 97 \<le> v \<and> v \<le> 102 then Some (v - 97 + 10)
      else if 65 \<le> v \<and> v \<le> 70 then Some (v - 65 + 10)
      else None)"

fun decode_pairs :: "(char \<Rightarrow> nat option) \<Rightarrow> string \<Rightarrow> byte list option" where
  "decode_pairs nib [] = Some []"
| "decode_pairs nib [c] = None"
| "decode_pairs nib (c # d # cs) =
     (case nib c of None \<Rightarrow> None
      | Some h \<Rightarrow> (case nib d of None \<Rightarrow> None
        | Some l \<Rightarrow> map_option ((#) (of_nat (16 * h + l))) (decode_pairs nib cs)))"

text \<open>\<open>u8::from_str_radix(.., 16)\<close> on two characters: an optional \<open>+\<close>, either case.\<close>

definition radix_pair :: "char \<Rightarrow> char \<Rightarrow> byte option" where
  "radix_pair c d =
     (if c = CHR ''+'' then map_option of_nat (hex_nibble d)
      else case (hex_nibble c, hex_nibble d) of
        (Some h, Some l) \<Rightarrow> Some (of_nat (16 * h + l)) | _ \<Rightarrow> None)"

definition CAPABILITY_NONCE_BYTES :: nat where
  "CAPABILITY_NONCE_BYTES = 32"

definition decode_nonce :: "string \<Rightarrow> byte list option" where
  "decode_nonce encoded =
     (if length encoded \<noteq> CAPABILITY_NONCE_BYTES * 2 then None
      else decode_pairs decode_nibble encoded)"

subsection \<open>UTF-8\<close>

text \<open>\<open>String::from_utf8\<close> and \<open>chars().count()\<close>.\<close>

definition utf8_tail :: "byte \<Rightarrow> bool" where
  "utf8_tail b \<longleftrightarrow> 0x80 \<le> b \<and> b \<le> 0xBF"

fun valid_utf8 :: "byte list \<Rightarrow> bool" where
  "valid_utf8 [] = True"
| "valid_utf8 (a # bs) =
     (if a < 0x80 then valid_utf8 bs
      else if 0xC2 \<le> a \<and> a \<le> 0xDF then (case bs of b # cs \<Rightarrow> utf8_tail b \<and> valid_utf8 cs | _ \<Rightarrow> False)
      else if 0xE0 \<le> a \<and> a \<le> 0xEF then (case bs of
          b # c # cs \<Rightarrow> utf8_tail b \<and> utf8_tail c \<and> (a = 0xE0 \<longrightarrow> 0xA0 \<le> b) \<and> (a = 0xED \<longrightarrow> b \<le> 0x9F) \<and> valid_utf8 cs
        | _ \<Rightarrow> False)
      else if 0xF0 \<le> a \<and> a \<le> 0xF4 then (case bs of
          b # c # d # cs \<Rightarrow> utf8_tail b \<and> utf8_tail c \<and> utf8_tail d \<and>
            (a = 0xF0 \<longrightarrow> 0x90 \<le> b) \<and> (a = 0xF4 \<longrightarrow> b \<le> 0x8F) \<and> valid_utf8 cs
        | _ \<Rightarrow> False)
      else False)"

definition chars_count :: "byte list \<Rightarrow> nat" where
  "chars_count bs = length (filter (\<lambda>b. \<not> utf8_tail b) bs)"

subsection \<open>Fixed-width codecs\<close>

locale fixed_codec =
  fixes enc :: "'a \<Rightarrow> byte list"
    and dec :: "byte list \<Rightarrow> 'a"
    and width :: nat
  assumes enc_length: "length (enc x) = width"
    and dec_enc: "dec (enc x) = x"
    and enc_dec: "length bs = width \<Longrightarrow> enc (dec bs) = bs"
begin

lemma enc_inj: "enc x = enc y \<longleftrightarrow> x = y"
  by (metis dec_enc)

lemma enc_append_inj: "enc x @ us = enc y @ vs \<longleftrightarrow> x = y \<and> us = vs"
  by (simp add: enc_length enc_inj)

lemma take_enc: "take width (enc x @ us) = enc x"
  by (simp add: enc_length)

lemma drop_enc: "drop width (enc x @ us) = us"
  by (simp add: enc_length)

lemma dec_inj: "length bs = width \<Longrightarrow> length cs = width \<Longrightarrow> dec bs = dec cs \<longleftrightarrow> bs = cs"
  by (metis enc_dec)

end

lemma length_nat_le [simp]: "length (nat_le n k) = n"
  by (induction n arbitrary: k) auto

lemma le_nat_nat_le: "le_nat (nat_le n k) = k mod 256 ^ n"
proof (induction n arbitrary: k)
  case 0
  then show ?case by simp
next
  case (Suc n)
  have u: "unat (of_nat (k mod 256) :: byte) = k mod 256"
    by (simp add: unat_of_nat)
  show ?case by (simp add: Suc.IH u mod_mult2_eq)
qed

lemma le_nat_bound: "le_nat bs < 256 ^ length bs"
proof (induction bs)
  case Nil
  then show ?case by simp
next
  case (Cons b bs)
  have "unat b < 256" using unat_lt2p [of b] by simp
  with Cons show ?case by simp
qed

lemma nat_le_le_nat: "nat_le (length bs) (le_nat bs) = bs"
proof (induction bs)
  case Nil
  then show ?case by simp
next
  case (Cons b bs)
  have b: "unat b < 256" using unat_lt2p [of b] by simp
  have "(unat b + 256 * le_nat bs) mod 256 = unat b" using b by simp
  moreover have "(unat b + 256 * le_nat bs) div 256 = le_nat bs" using b by simp
  ultimately show ?case using Cons by simp
qed

lemma nat_le_of_le_nat: "length bs = n \<Longrightarrow> nat_le n (le_nat bs) = bs"
  using nat_le_le_nat by blast

interpretation u16_le: fixed_codec u16_to_le u16_from_le 2
proof
  fix x :: u16 and bs :: "byte list"
  show "length (u16_to_le x) = 2" by (simp add: u16_to_le_def)
  have "unat x mod 256 ^ 2 = unat x" using unat_lt2p [of x] by simp
  then show "u16_from_le (u16_to_le x) = x" by (simp add: u16_to_le_def u16_from_le_def le_nat_nat_le)
  assume l: "length bs = 2"
  then have "le_nat bs < 2 ^ 16" using le_nat_bound [of bs] by simp
  then show "u16_to_le (u16_from_le bs) = bs"
    by (simp add: u16_to_le_def u16_from_le_def unat_of_nat nat_le_of_le_nat l)
qed

interpretation u32_le: fixed_codec u32_to_le u32_from_le 4
proof
  fix x :: u32 and bs :: "byte list"
  show "length (u32_to_le x) = 4" by (simp add: u32_to_le_def)
  have "unat x mod 256 ^ 4 = unat x" using unat_lt2p [of x] by simp
  then show "u32_from_le (u32_to_le x) = x" by (simp add: u32_to_le_def u32_from_le_def le_nat_nat_le)
  assume l: "length bs = 4"
  then have "le_nat bs < 2 ^ 32" using le_nat_bound [of bs] by simp
  then show "u32_to_le (u32_from_le bs) = bs"
    by (simp add: u32_to_le_def u32_from_le_def unat_of_nat nat_le_of_le_nat l)
qed

interpretation u64_le: fixed_codec u64_to_le u64_from_le 8
proof
  fix x :: u64 and bs :: "byte list"
  show "length (u64_to_le x) = 8" by (simp add: u64_to_le_def)
  have "unat x mod 256 ^ 8 = unat x" using unat_lt2p [of x] by simp
  then show "u64_from_le (u64_to_le x) = x" by (simp add: u64_to_le_def u64_from_le_def le_nat_nat_le)
  assume l: "length bs = 8"
  then have "le_nat bs < 2 ^ 64" using le_nat_bound [of bs] by simp
  then show "u64_to_le (u64_from_le bs) = bs"
    by (simp add: u64_to_le_def u64_from_le_def unat_of_nat nat_le_of_le_nat l)
qed

interpretation uuid_be: fixed_codec uuid_as_bytes uuid_from_bytes 16
proof
  fix x :: uuid and bs :: "byte list"
  show "length (uuid_as_bytes x) = 16" by (simp add: uuid_as_bytes_def)
  have "unat x mod 256 ^ 16 = unat x" using unat_lt2p [of x] by simp
  then show "uuid_from_bytes (uuid_as_bytes x) = x"
    by (simp add: uuid_as_bytes_def uuid_from_bytes_def be_nat_def le_nat_nat_le)
  assume l: "length bs = 16"
  then have "be_nat bs < 2 ^ 128" using le_nat_bound [of "rev bs"] by (simp add: be_nat_def)
  moreover have "nat_le 16 (be_nat bs) = rev bs" using l by (simp add: be_nat_def nat_le_of_le_nat)
  ultimately show "uuid_as_bytes (uuid_from_bytes bs) = bs"
    by (simp add: uuid_as_bytes_def uuid_from_bytes_def unat_of_nat)
qed

lemmas enc_lengths [simp] =
  u16_le.enc_length u32_le.enc_length u64_le.enc_length uuid_be.enc_length

lemmas codec_append_inj =
  u16_le.enc_append_inj u32_le.enc_append_inj u64_le.enc_append_inj uuid_be.enc_append_inj

lemmas codec_dec_enc [simp] =
  u16_le.dec_enc u32_le.dec_enc u64_le.dec_enc uuid_be.dec_enc

subsection \<open>Hexadecimal round trips\<close>

lemma length_encode_hex [simp]: "length (encode_hex bs) = 2 * length bs"
  by (induction bs) (auto simp: encode_hex_def hex_byte_def)

lemma nibble_cases: "(n::nat) < 16 \<Longrightarrow> n \<in> {0, 1, 2, 3, 4, 5, 6, 7, 8, 9, 10, 11, 12, 13, 14, 15}"
  by (simp, arith)

lemma HEX_nibble:
  assumes "n < 16"
  shows "decode_nibble (HEX ! n) = Some n" and "hex_nibble (HEX ! n) = Some n"
  using nibble_cases [OF assms]
  by (elim insertE emptyE; simp add: HEX_def decode_nibble_def hex_nibble_def)+

lemma hex_byte_pair:
  "unat (b :: byte) div 16 < 16" "unat (b :: byte) mod 16 < 16"
  "(of_nat (16 * (unat b div 16) + unat b mod 16) :: byte) = b"
proof -
  have "unat b < 256" using unat_lt2p [of b] by simp
  then show "unat b div 16 < 16" by simp
  show "unat b mod 16 < 16" by simp
  show "(of_nat (16 * (unat b div 16) + unat b mod 16) :: byte) = b" by simp
qed

lemma decode_pairs_encode_hex:
  assumes "\<And>n. n < 16 \<Longrightarrow> nib (HEX ! n) = Some n"
  shows "decode_pairs nib (encode_hex bs) = Some bs"
proof (induction bs)
  case Nil
  then show ?case by (simp add: encode_hex_def)
next
  case (Cons b bs)
  have "decode_pairs nib (encode_hex (b # bs)) =
      decode_pairs nib (HEX ! (unat b div 16) # HEX ! (unat b mod 16) # encode_hex bs)"
    by (simp add: encode_hex_def hex_byte_def)
  also have "\<dots> = Some (of_nat (16 * (unat b div 16) + unat b mod 16) # bs)"
    using hex_byte_pair(1,2) [of b] by (simp add: assms Cons)
  finally show ?case by (simp only: hex_byte_pair(3))
qed

lemma of_char_HEX:
  assumes "n < 16"
  shows "(of_char (HEX ! n) :: nat) = (if n < 10 then n + 48 else n + 87)"
  using nibble_cases [OF assms] by (elim insertE emptyE; simp add: HEX_def)

lemma decode_nibble_HEX:
  assumes "decode_nibble c = Some n"
  shows "n < 16 \<and> HEX ! n = c"
proof -
  from assms have n: "n < 16" and v: "(of_char c :: nat) = (if n < 10 then n + 48 else n + 87)"
    by (auto simp: decode_nibble_def Let_def split: if_splits)
  from v have "(of_char c :: nat) = of_char (HEX ! n)" by (simp only: of_char_HEX [OF n])
  with n show ?thesis by simp
qed

lemma encode_hex_decode_pairs:
  "decode_pairs decode_nibble cs = Some bs \<Longrightarrow> encode_hex bs = cs"
proof (induction decode_nibble cs arbitrary: bs rule: decode_pairs.induct)
  case 1
  then show ?case by (simp add: encode_hex_def)
next
  case (2 c)
  then show ?case by simp
next
  case (3 c d cs)
  from "3.prems" obtain h l ds where hl: "decode_nibble c = Some h" "decode_nibble d = Some l"
      and ds: "decode_pairs decode_nibble cs = Some ds" and bs: "bs = of_nat (16 * h + l) # ds"
    by (auto split: option.splits)
  from hl have h: "h < 16" "HEX ! h = c" and l: "l < 16" "HEX ! l = d"
    by (auto dest: decode_nibble_HEX)
  then have u: "unat (of_nat (16 * h + l) :: byte) = 16 * h + l"
    by (intro unat_of_nat_small) simp
  have "encode_hex ds = cs" using "3.hyps" [OF hl ds] .
  moreover have "hex_byte (of_nat (16 * h + l)) = [c, d]"
    unfolding hex_byte_def u using h l by simp
  ultimately show ?case unfolding bs encode_hex_def by simp
qed

lemma decode_pairs_length: "decode_pairs nib cs = Some bs \<Longrightarrow> length cs = 2 * length bs"
  by (induction nib cs arbitrary: bs rule: decode_pairs.induct) (auto split: option.splits)

end
