(* ===== verification/World.thy ===== *)
theory World
  imports Host_Error
begin

text \<open>
  The part of the Rust standard library and the operating system the host uses: files,
  the clock, the random source. Every interaction advances \<open>tick\<close>; what the environment
  does at a tick is given by functions of the tick, so a theorem for every world is a theorem for
  every pattern of I/O failures, clock readings and random draws.

  A process crash after tick \<open>n\<close> is the fault pattern in which every I/O call from
  \<open>n\<close> on fails: no later call has an effect on the files. Theorems about error results for
  every fault pattern therefore also describe the files a crash leaves behind.

  \<^item> \<open>io_fault w n = Some k\<close>: the I/O call at tick \<open>n\<close> fails; a failing write has
    already written \<open>k\<close> bytes.
  \<^item> \<open>stat_fault w n\<close>: the metadata query at tick \<open>n\<close> fails. \<open>Path::exists\<close>
    then answers false, as the standard library documents.
\<close>

text \<open>
  A path is the list of its components. A component that the source builds with
  \<open>format!("{id}suffix")\<close> from a UUID is \<open>IdName id suffix\<close>.
\<close>

datatype seg = Name string | IdName uuid string

type_synonym path = "seg list"

record world =
  files :: "(path \<times> byte list) list"
  dirs :: "path list"
  tick :: nat
  io_fault :: "nat \<Rightarrow> nat option"
  stat_fault :: "nat \<Rightarrow> bool"
  clock_ms :: "nat \<Rightarrow> u64 option"
  rng_byte :: "nat \<Rightarrow> nat \<Rightarrow> byte"
  rng_uuid :: "nat \<Rightarrow> uuid"

definition lookup :: "world \<Rightarrow> path \<Rightarrow> byte list option" where
  "lookup w p = map_of (files w) p"

definition put_file :: "path \<Rightarrow> byte list \<Rightarrow> world \<Rightarrow> world" where
  "put_file p bs w = w\<lparr>files := AList.update p bs (files w)\<rparr>"

definition del_file :: "path \<Rightarrow> world \<Rightarrow> world" where
  "del_file p w = w\<lparr>files := AList.delete p (files w)\<rparr>"

definition advance :: "world \<Rightarrow> world" where
  "advance w = w\<lparr>tick := Suc (tick w)\<rparr>"

definition path_parent :: "path \<Rightarrow> path option" where
  "path_parent p = (if p = [] then None else Some (butlast p))"

definition file_name :: "path \<Rightarrow> seg option" where
  "file_name p = (if p = [] then None else Some (last p))"

fun seg_append :: "seg \<Rightarrow> string \<Rightarrow> seg" where
  "seg_append (Name s) t = Name (s @ t)"
| "seg_append (IdName u s) t = IdName u (s @ t)"

definition with_file_name :: "path \<Rightarrow> seg \<Rightarrow> path" where
  "with_file_name p s = butlast p @ [s]"

subsection \<open>Calls\<close>

text \<open>An I/O call: one tick; on a fault it fails with \<open>on_fault\<close> applied to the world.\<close>

definition io_call :: "(nat \<Rightarrow> world \<Rightarrow> world) \<Rightarrow> (world, 'a) host \<Rightarrow> (world, 'a) host" where
  "io_call on_fault m = (\<lambda>w. case io_fault w (tick w) of
       Some k \<Rightarrow> (Inl (Io OtherIo), on_fault k (advance w))
     | None \<Rightarrow> m (advance w))"

abbreviation no_effect :: "nat \<Rightarrow> world \<Rightarrow> world" where
  "no_effect \<equiv> \<lambda>_ w. w"

definition fs_read :: "path \<Rightarrow> (world, byte list) host" where
  "fs_read p = io_call no_effect (\<lambda>w. case lookup w p of
       None \<Rightarrow> (Inl (Io NotFound), w)
     | Some bs \<Rightarrow> (Inr bs, w))"

text \<open>\<open>OpenOptions::create_new\<close>: refuses an existing file, otherwise creates it empty.\<close>

definition fs_create_new :: "path \<Rightarrow> (world, unit) host" where
  "fs_create_new p = io_call no_effect (\<lambda>w. case lookup w p of
       None \<Rightarrow> (Inr (), put_file p [] w)
     | Some _ \<Rightarrow> (Inl (Io AlreadyExists), w))"

text \<open>\<open>write_all\<close> on a handle opened at the end of the file; a failure keeps a prefix.\<close>

definition append_file :: "path \<Rightarrow> byte list \<Rightarrow> world \<Rightarrow> world" where
  "append_file p bs w = put_file p ((case lookup w p of None \<Rightarrow> [] | Some old \<Rightarrow> old) @ bs) w"

definition fs_write_all :: "path \<Rightarrow> byte list \<Rightarrow> (world, unit) host" where
  "fs_write_all p bs = io_call (\<lambda>k. append_file p (take k bs)) (\<lambda>w. (Inr (), append_file p bs w))"

definition fs_sync :: "(world, unit) host" where
  "fs_sync = io_call no_effect (\<lambda>w. (Inr (), w))"

definition fs_rename :: "path \<Rightarrow> path \<Rightarrow> (world, unit) host" where
  "fs_rename src dst = io_call no_effect (\<lambda>w. case lookup w src of
       None \<Rightarrow> (Inl (Io NotFound), w)
     | Some bs \<Rightarrow> (Inr (), put_file dst bs (del_file src w)))"

definition fs_remove_file :: "path \<Rightarrow> (world, unit) host" where
  "fs_remove_file p = io_call no_effect (\<lambda>w. case lookup w p of
       None \<Rightarrow> (Inl (Io NotFound), w)
     | Some _ \<Rightarrow> (Inr (), del_file p w))"

definition fs_create_dir_all :: "path \<Rightarrow> (world, unit) host" where
  "fs_create_dir_all d = io_call no_effect (\<lambda>w. (Inr (), w\<lparr>dirs := d # dirs w\<rparr>))"

text \<open>\<open>fs::read_dir\<close>: the files directly inside a directory, in the system's order.\<close>

definition in_dir :: "path \<Rightarrow> path \<Rightarrow> bool" where
  "in_dir d p \<longleftrightarrow> p \<noteq> [] \<and> butlast p = d"

definition fs_read_dir :: "path \<Rightarrow> (world, path list) host" where
  "fs_read_dir d = io_call no_effect (\<lambda>w. (Inr (filter (in_dir d) (remdups (map fst (files w)))), w))"

definition is_present :: "world \<Rightarrow> path \<Rightarrow> bool" where
  "is_present w p \<longleftrightarrow> lookup w p \<noteq> None \<or> List.member (dirs w) p
     \<or> list_ex (in_dir p) (map fst (files w))"

definition fs_exists :: "path \<Rightarrow> (world, bool) host" where
  "fs_exists p = (\<lambda>w. (Inr (\<not> stat_fault w (tick w) \<and> is_present w p), advance w))"

text \<open>\<open>audit.rs: unix_ms\<close> on \<open>SystemTime::now\<close>: \<open>None\<close> is a clock before the epoch.\<close>

definition unix_ms :: "(world, u64) host" where
  "unix_ms = (\<lambda>w. case clock_ms w (tick w) of
       None \<Rightarrow> (Inl (Io InvalidData), advance w)
     | Some t \<Rightarrow> (Inr t, advance w))"

definition fill_random :: "nat \<Rightarrow> (world, byte list) host" where
  "fill_random n = io_call no_effect (\<lambda>w. (Inr (map (rng_byte w (tick w)) [0..<n]), w))"

definition new_v4 :: "(world, uuid) host" where
  "new_v4 = (\<lambda>w. (Inr (rng_uuid w (tick w)), advance w))"

text \<open>A JSON codec of \<open>serde_json\<close> for one type: \<open>to_vec\<close> and \<open>from_slice\<close>.\<close>

record 'a codec =
  to_vec :: "'a \<Rightarrow> byte list option"
  from_slice :: "byte list \<Rightarrow> 'a option"

definition json_to_vec :: "'a codec \<Rightarrow> 'a \<Rightarrow> byte list fcp_result" where
  "json_to_vec c x = (case to_vec c x of None \<Rightarrow> Inl Json | Some bs \<Rightarrow> Inr bs)"

definition json_from_slice :: "'a codec \<Rightarrow> byte list \<Rightarrow> 'a fcp_result" where
  "json_from_slice c bs = (case from_slice c bs of None \<Rightarrow> Inl Json | Some x \<Rightarrow> Inr x)"

lemmas world_defs [run_simps] =
  lookup_def put_file_def del_file_def advance_def path_parent_def file_name_def
  with_file_name_def io_call_def fs_read_def fs_create_new_def append_file_def fs_write_all_def
  fs_sync_def fs_rename_def fs_remove_file_def fs_create_dir_all_def in_dir_def fs_read_dir_def
  is_present_def fs_exists_def unix_ms_def fill_random_def new_v4_def json_to_vec_def
  json_from_slice_def

subsection \<open>Laws of the file store\<close>

lemma lookup_put_file [simp]: "lookup (put_file p bs w) q = (if q = p then Some bs else lookup w q)"
  by (simp add: lookup_def put_file_def update_conv')

lemma lookup_del_file [simp]: "lookup (del_file p w) q = (if q = p then None else lookup w q)"
  by (simp add: lookup_def del_file_def delete_conv')

lemma lookup_advance [simp]: "lookup (advance w) p = lookup w p"
  by (simp add: lookup_def advance_def)

lemma lookup_dirs [simp]: "lookup (w\<lparr>dirs := d\<rparr>) p = lookup w p"
  by (simp add: lookup_def)

lemma lookup_append_file [simp]:
  "lookup (append_file p bs w) q =
     (if q = p then Some ((case lookup w p of None \<Rightarrow> [] | Some old \<Rightarrow> old) @ bs) else lookup w q)"
  by (simp add: append_file_def)

lemma world_frame [simp]:
  "io_fault (put_file p bs w) = io_fault w" "io_fault (del_file p w) = io_fault w"
  "io_fault (advance w) = io_fault w" "io_fault (append_file p bs w) = io_fault w"
  "stat_fault (put_file p bs w) = stat_fault w" "stat_fault (del_file p w) = stat_fault w"
  "stat_fault (advance w) = stat_fault w" "stat_fault (append_file p bs w) = stat_fault w"
  "tick (put_file p bs w) = tick w" "tick (del_file p w) = tick w"
  "tick (advance w) = Suc (tick w)" "tick (append_file p bs w) = tick w"
  by (simp_all add: put_file_def del_file_def advance_def append_file_def)

lemma is_present_file: "lookup w p \<noteq> None \<Longrightarrow> is_present w p"
  by (simp add: is_present_def)

text \<open>
  The rules of the calls. They keep what the host's code can rely on and drop the tick: what a
  call does to the files, and under which results.
\<close>

lemma wp_io_call [wp_simps]:
  "wp (io_call f m) Q E w =
     (case io_fault w (tick w) of
        Some k \<Rightarrow> E (Io OtherIo) (f k (advance w))
      | None \<Rightarrow> wp m Q E (advance w))"
  by (simp add: wp_def io_call_def split: option.split)

lemma wp_fs_exists [wp_simps]:
  "wp (fs_exists p) Q E w = Q (\<not> stat_fault w (tick w) \<and> is_present w p) (advance w)"
  by (simp add: wp_def fs_exists_def)

lemma wp_unix_ms [wp_simps]:
  "wp unix_ms Q E w = (case clock_ms w (tick w) of
       None \<Rightarrow> E (Io InvalidData) (advance w) | Some t \<Rightarrow> Q t (advance w))"
  by (simp add: wp_def unix_ms_def split: option.split)

lemma wp_new_v4 [wp_simps]: "wp new_v4 Q E w = Q (rng_uuid w (tick w)) (advance w)"
  by (simp add: wp_def new_v4_def)

lemma wp_fs_read [wp_simps]:
  "wp (fs_read p) Q E w = (case io_fault w (tick w) of
       Some k \<Rightarrow> E (Io OtherIo) (advance w)
     | None \<Rightarrow> (case lookup w p of
         None \<Rightarrow> E (Io NotFound) (advance w) | Some bs \<Rightarrow> Q bs (advance w)))"
  by (simp add: wp_def fs_read_def io_call_def split: option.split)

lemma wp_fs_create_new [wp_simps]:
  "wp (fs_create_new p) Q E w = (case io_fault w (tick w) of
       Some k \<Rightarrow> E (Io OtherIo) (advance w)
     | None \<Rightarrow> (case lookup w p of
         None \<Rightarrow> Q () (put_file p [] (advance w)) | Some _ \<Rightarrow> E (Io AlreadyExists) (advance w)))"
  by (simp add: wp_def fs_create_new_def io_call_def split: option.split)

lemma wp_fs_write_all [wp_simps]:
  "wp (fs_write_all p bs) Q E w = (case io_fault w (tick w) of
       Some k \<Rightarrow> E (Io OtherIo) (append_file p (take k bs) (advance w))
     | None \<Rightarrow> Q () (append_file p bs (advance w)))"
  by (simp add: wp_def fs_write_all_def io_call_def split: option.split)

lemma wp_fs_sync [wp_simps]:
  "wp fs_sync Q E w = (case io_fault w (tick w) of
       Some k \<Rightarrow> E (Io OtherIo) (advance w) | None \<Rightarrow> Q () (advance w))"
  by (simp add: wp_def fs_sync_def io_call_def split: option.split)

lemma wp_fs_rename [wp_simps]:
  "wp (fs_rename src dst) Q E w = (case io_fault w (tick w) of
       Some k \<Rightarrow> E (Io OtherIo) (advance w)
     | None \<Rightarrow> (case lookup w src of
         None \<Rightarrow> E (Io NotFound) (advance w)
       | Some bs \<Rightarrow> Q () (put_file dst bs (del_file src (advance w)))))"
  by (simp add: wp_def fs_rename_def io_call_def split: option.split)

lemma wp_fs_remove_file [wp_simps]:
  "wp (fs_remove_file p) Q E w = (case io_fault w (tick w) of
       Some k \<Rightarrow> E (Io OtherIo) (advance w)
     | None \<Rightarrow> (case lookup w p of
         None \<Rightarrow> E (Io NotFound) (advance w) | Some _ \<Rightarrow> Q () (del_file p (advance w))))"
  by (simp add: wp_def fs_remove_file_def io_call_def split: option.split)

lemma wp_fs_create_dir_all [wp_simps]:
  "wp (fs_create_dir_all d) Q E w = (case io_fault w (tick w) of
       Some k \<Rightarrow> E (Io OtherIo) (advance w)
     | None \<Rightarrow> Q () (advance w\<lparr>dirs := d # dirs w\<rparr>))"
  by (simp add: wp_def fs_create_dir_all_def io_call_def advance_def split: option.split)

lemma wp_fill_random [wp_simps]:
  "wp (fill_random n) Q E w = (case io_fault w (tick w) of
       Some k \<Rightarrow> E (Io OtherIo) (advance w)
     | None \<Rightarrow> Q (map (rng_byte w (Suc (tick w))) [0..<n]) (advance w))"
  by (simp add: wp_def fill_random_def io_call_def advance_def split: option.split)

lemma wp_fs_read_dir [wp_simps]:
  "wp (fs_read_dir d) Q E w = (case io_fault w (tick w) of
       Some k \<Rightarrow> E (Io OtherIo) (advance w)
     | None \<Rightarrow> Q (filter (in_dir d) (remdups (map fst (files w)))) (advance w))"
  by (simp add: wp_def fs_read_dir_def io_call_def advance_def split: option.split)

subsection \<open>A concrete environment\<close>

text \<open>
  The environment in which the concrete instances of the theorems run: no files, no failures, a
  clock that advances one millisecond per call from one second, and random sources that never
  return zero. \<open>table_codec xs\<close> is a codec that writes a value as its index in \<open>xs\<close>.
\<close>

definition quiet_world :: world where
  "quiet_world = \<lparr>files = [], dirs = [], tick = 0, io_fault = (\<lambda>_. None), stat_fault = (\<lambda>_. False),
     clock_ms = (\<lambda>n. Some (1000 + of_nat n)), rng_byte = (\<lambda>n i. of_nat (Suc (n mod 200))),
     rng_uuid = (\<lambda>n. of_nat (100 + n))\<rparr>"

definition table_codec :: "'a list \<Rightarrow> 'a codec" where
  "table_codec xs = \<lparr>
     to_vec = (\<lambda>x. map_option (\<lambda>i. [of_nat i]) (find (\<lambda>i. xs ! i = x) [0..<length xs])),
     from_slice = (\<lambda>bs. case bs of [b] \<Rightarrow> (if unat b < length xs then Some (xs ! unat b) else None) | _ \<Rightarrow> None)\<rparr>"

lemma table_codec_read_back:
  assumes "to_vec (table_codec xs) x = Some bs" and "length xs \<le> 256"
  shows "from_slice (table_codec xs) bs = Some x"
proof -
  from assms(1) obtain i where "find (\<lambda>i. xs ! i = x) [0..<length xs] = Some i" and bs: "bs = [of_nat i]"
    by (auto simp: table_codec_def)
  then have i: "i < length xs" "xs ! i = x" by (auto dest: find_SomeD)
  then have "unat (of_nat i :: byte) = i" using assms(2) by (intro unat_of_nat_small) simp
  with i show ?thesis by (simp add: bs table_codec_def)
qed

end
