(* ===== verification/Atomic_File.thy ===== *)
theory Atomic_File
  imports World
begin

text \<open>
  \<open>atomic_file.rs\<close>: the write/sync/read-back/verify/rename/sync-directory discipline that every
  durable file of the host goes through, and the digest classification that resolves a write whose
  durability is unknown.

  The locale \<open>durable_write\<close> is the contract the stores rely on; it is interpreted on
  \<open>write_verified_durable\<close>.
\<close>

datatype durable_write_result = NotCommitted | Committed | DurabilityUnknown

record durable_write_failure =
  dwf_result :: durable_write_result
  dwf_error :: fcp_error

datatype object_classification = Previous | Target | Missing | Neither

type_synonym object_digest = "byte list"

definition temporary_path :: "path \<Rightarrow> path fcp_result" where
  "temporary_path target = (case file_name target of
       None \<Rightarrow> Inl (Format ''atomic target has no UTF-8 file name'')
     | Some name \<Rightarrow> Inr (with_file_name target (seg_append name ''.tmp'')))"

definition atomic_replace :: "path \<Rightarrow> path \<Rightarrow> (world, unit) host" where
  "atomic_replace source target = fs_rename source target"

definition sync_directory :: "path \<Rightarrow> (world, unit) host" where
  "sync_directory directory = seqR fs_sync fs_sync"

text \<open>
  The closure of \<open>write_verified_durable\<close>; the first component of its state is the local
  variable \<open>replaced\<close>.
\<close>

definition write_body ::
    "path \<Rightarrow> path \<Rightarrow> path \<Rightarrow> byte list \<Rightarrow> (byte list \<Rightarrow> unit fcp_result)
     \<Rightarrow> (bool \<times> world, unit) host" where
  "write_body target parent temporary bytes verify =
     seqR (on_snd (fs_create_new temporary))
    (seqR (on_snd (fs_write_all temporary bytes))
    (seqR (on_snd fs_sync)
    (bindR (on_snd (fs_read temporary)) (\<lambda>persisted.
     seqR (of_result (verify persisted))
    (seqR (on_snd (atomic_replace temporary target))
    (seqR (modify (\<lambda>(_, w). (True, w)))
          (on_snd (sync_directory parent))))))))"

definition remove_temporary :: "path \<Rightarrow> (world, unit) host" where
  "remove_temporary temporary =
     bindR (fs_exists temporary) (\<lambda>present.
       if present then catchR (fs_remove_file temporary) (\<lambda>_. ret ()) else ret ())"

definition not_committed :: "fcp_error \<Rightarrow> durable_write_failure" where
  "not_committed e = \<lparr>dwf_result = NotCommitted, dwf_error = e\<rparr>"

text \<open>
  From the closure's result to the function's: on an error the temporary file is removed if it is
  there, and the flag decides between the two failure classes.
\<close>

definition run_write ::
    "path \<Rightarrow> path \<Rightarrow> path \<Rightarrow> byte list \<Rightarrow> (byte list \<Rightarrow> unit fcp_result)
     \<Rightarrow> (world, durable_write_failure, durable_write_result) rm" where
  "run_write target parent temporary bytes verify = (\<lambda>w.
     case write_body target parent temporary bytes verify (False, w) of
       (Inr _, (_, w')) \<Rightarrow> (Inr Committed, w')
     | (Inl error, (replaced, w')) \<Rightarrow>
         (Inl \<lparr>dwf_result = (if replaced then DurabilityUnknown else NotCommitted),
               dwf_error = error\<rparr>,
          snd (remove_temporary temporary w')))"

definition write_verified_durable ::
    "path \<Rightarrow> byte list \<Rightarrow> (byte list \<Rightarrow> unit fcp_result)
     \<Rightarrow> (world, durable_write_failure, durable_write_result) rm" where
  "write_verified_durable target bytes verify =
     bindR (ok_or (path_parent target)
             (not_committed (Format ''atomic target has no parent directory''))) (\<lambda>parent.
     seqR (map_err not_committed (fs_create_dir_all parent))
    (bindR (map_err not_committed (of_result (temporary_path target))) (\<lambda>temporary.
     run_write target parent temporary bytes verify)))"

definition write_verified ::
    "path \<Rightarrow> byte list \<Rightarrow> (byte list \<Rightarrow> unit fcp_result) \<Rightarrow> (world, unit) host" where
  "write_verified target bytes verify =
     bindR (map_err dwf_error (write_verified_durable target bytes verify)) (\<lambda>_. ret ())"

text \<open>\<open>classify_object\<close>, with the digest function of \<open>sha2\<close> as a parameter.\<close>

definition classify_object ::
    "(byte list \<Rightarrow> object_digest) \<Rightarrow> path \<Rightarrow> object_digest option \<Rightarrow> object_digest
     \<Rightarrow> (world, object_classification) host" where
  "classify_object sha256 p previous target = (\<lambda>w. case fs_read p w of
       (Inl (Io NotFound), w') \<Rightarrow> (Inr Missing, w')
     | (Inl e, w') \<Rightarrow> (Inl e, w')
     | (Inr bytes, w') \<Rightarrow>
         (let actual = sha256 bytes in
          (Inr (if actual = target then Target
                else if previous = Some actual then Previous
                else Neither), w')))"

lemmas atomic_defs [run_simps] =
  temporary_path_def atomic_replace_def sync_directory_def write_body_def remove_temporary_def
  not_committed_def run_write_def write_verified_durable_def write_verified_def classify_object_def

subsection \<open>The write protocol\<close>

text \<open>The temporary file is a different file in the same directory.\<close>

lemma seg_append_neq: "t \<noteq> [] \<Longrightarrow> seg_append s t \<noteq> s"
  by (cases s) auto

lemma temporary_path_neq: "temporary_path target = Inr t \<Longrightarrow> t \<noteq> target"
  by (auto simp: temporary_path_def file_name_def with_file_name_def seg_append_neq
      dest!: arg_cong [where f = last] split: if_splits)

text \<open>
  What the body does to the files: only the temporary and the target may change; before the
  rename the target is untouched, after it the target holds exactly the verified bytes.
\<close>

definition body_outcome ::
    "path \<Rightarrow> path \<Rightarrow> byte list \<Rightarrow> (byte list \<Rightarrow> unit fcp_result) \<Rightarrow> world \<Rightarrow> bool \<Rightarrow> world \<Rightarrow> bool" where
  "body_outcome target temporary bytes verify w replaced w' \<longleftrightarrow>
     (\<forall>p. p \<noteq> target \<and> p \<noteq> temporary \<longrightarrow> lookup w' p = lookup w p) \<and>
     (if replaced then lookup w' target = Some bytes \<and> verify bytes = Inr ()
      else lookup w' target = lookup w target)"

lemma write_body_outcome:
  assumes "temporary \<noteq> target"
  shows "wp (write_body target parent temporary bytes verify)
           (\<lambda>_ (replaced, w'). replaced \<and> body_outcome target temporary bytes verify w True w')
           (\<lambda>_ (replaced, w'). body_outcome target temporary bytes verify w replaced w')
           (False, w)"
  using assms
  by (auto simp: write_body_def atomic_replace_def sync_directory_def wp_simps body_outcome_def
      split: option.split sum.split)

lemma remove_temporary_frame:
  "p \<noteq> temporary \<Longrightarrow> lookup (snd (remove_temporary temporary w)) p = lookup w p"
  by (simp add: remove_temporary_def fs_remove_file_def run_simps split: option.splits)

definition write_outcome ::
    "path \<Rightarrow> byte list \<Rightarrow> (byte list \<Rightarrow> unit fcp_result) \<Rightarrow> world
     \<Rightarrow> durable_write_failure + durable_write_result \<Rightarrow> world \<Rightarrow> bool" where
  "write_outcome target bytes verify w r w' \<longleftrightarrow>
     (case r of
        Inr d \<Rightarrow> d = Committed \<and> lookup w' target = Some bytes \<and> verify bytes = Inr ()
      | Inl f \<Rightarrow>
          dwf_result f = NotCommitted \<and> lookup w' target = lookup w target \<or>
          dwf_result f = DurabilityUnknown \<and> lookup w' target = Some bytes \<and> verify bytes = Inr ())"

lemma run_write_spec:
  assumes "temporary \<noteq> target"
  shows "wp (run_write target parent temporary bytes verify)
      (\<lambda>d w'. write_outcome target bytes verify w (Inr d) w' \<and>
         (\<forall>p. p \<noteq> target \<and> p \<noteq> temporary \<longrightarrow> lookup w' p = lookup w p))
      (\<lambda>f w'. write_outcome target bytes verify w (Inl f) w' \<and>
         (\<forall>p. p \<noteq> target \<and> p \<noteq> temporary \<longrightarrow> lookup w' p = lookup w p)) w"
  using write_body_outcome [OF assms, where w = w and parent = parent and bytes = bytes
      and verify = verify] assms
  by (auto simp: wp_def run_write_def body_outcome_def write_outcome_def remove_temporary_frame
      split: prod.splits sum.splits if_splits)

lemma write_verified_durable_spec:
  "wp (write_verified_durable target bytes verify)
      (\<lambda>d w'. write_outcome target bytes verify w (Inr d) w' \<and>
         (\<forall>p. p \<noteq> target \<and> temporary_path target \<noteq> Inr p \<longrightarrow> lookup w' p = lookup w p))
      (\<lambda>f w'. write_outcome target bytes verify w (Inl f) w' \<and>
         (\<forall>p. p \<noteq> target \<and> temporary_path target \<noteq> Inr p \<longrightarrow> lookup w' p = lookup w p)) w"
proof (cases "temporary_path target")
  case (Inl e)
  then show ?thesis
    by (simp add: write_verified_durable_def wp_simps write_outcome_def not_committed_def
        split: option.split)
next
  case (Inr temporary)
  note run = run_write_spec [OF temporary_path_neq [OF Inr]]
  show ?thesis using Inr
    by (auto simp: write_verified_durable_def wp_simps write_outcome_def not_committed_def
        intro!: wp_mono [OF run] split: option.split)
qed

subsection \<open>The contract of a durable write\<close>

text \<open>What a typed file holds: its bytes decoded.\<close>

definition stored :: "'a codec \<Rightarrow> path \<Rightarrow> world \<Rightarrow> 'a option" where
  "stored c p w = Option.bind (lookup w p) (from_slice c)"

locale durable_write =
  fixes replace :: "path \<Rightarrow> byte list \<Rightarrow> (byte list \<Rightarrow> unit fcp_result)
     \<Rightarrow> (world, durable_write_failure, durable_write_result) rm"
    and scratch :: "path \<Rightarrow> path \<Rightarrow> bool"
  assumes outcome: "replace t bs v w = (r, w') \<Longrightarrow> write_outcome t bs v w r w'"
    and frame: "replace t bs v w = (r, w') \<Longrightarrow> p \<noteq> t \<Longrightarrow> \<not> scratch t p \<Longrightarrow> lookup w' p = lookup w p"
    and scratch_other: "\<not> scratch t t"
begin

lemma committed:
  assumes "replace t bs v w = (Inr d, w')"
  shows "d = Committed \<and> lookup w' t = Some bs \<and> v bs = Inr ()"
  using outcome [OF assms] by (simp add: write_outcome_def)

text \<open>Whatever fails, and wherever, the file is the old one or the whole verified new one.\<close>

lemma never_partial:
  assumes "replace t bs v w = (r, w')"
  shows "lookup w' t = lookup w t \<or> lookup w' t = Some bs \<and> v bs = Inr ()"
  using outcome [OF assms] by (auto simp: write_outcome_def split: sum.splits)

lemma failure_class:
  assumes "replace t bs v w = (Inl f, w')"
  shows "dwf_result f = NotCommitted \<and> lookup w' t = lookup w t \<or>
         dwf_result f = DurabilityUnknown \<and> lookup w' t = Some bs \<and> v bs = Inr ()"
  using outcome [OF assms] by (simp add: write_outcome_def)

lemma never_committed_failure:
  assumes "replace t bs v w = (Inl f, w')"
  shows "dwf_result f \<noteq> Committed"
  using failure_class [OF assms] by auto

text \<open>
  A typed store: when the verifier accepts only bytes that decode to \<open>x\<close>, success means the
  file holds \<open>x\<close>, and failure leaves the old value or \<open>x\<close>.
\<close>

lemma wp_typed:
  assumes "v bs = Inr () \<Longrightarrow> from_slice c bs = Some x"
  shows "wp (replace t bs v)
           (\<lambda>_ w'. stored c t w' = Some x \<and> (\<forall>p. p \<noteq> t \<and> \<not> scratch t p \<longrightarrow> lookup w' p = lookup w p))
           (\<lambda>_ w'. (stored c t w' = stored c t w \<or> stored c t w' = Some x) \<and>
              (\<forall>p. p \<noteq> t \<and> \<not> scratch t p \<longrightarrow> lookup w' p = lookup w p)) w"
  using assms
  by (auto intro!: wp_runI simp: stored_def dest: committed never_partial frame)

end

definition write_scratch :: "path \<Rightarrow> path \<Rightarrow> bool" where
  "write_scratch t p \<longleftrightarrow> temporary_path t = Inr p"

interpretation dw: durable_write write_verified_durable write_scratch
proof
  fix t bs v w r w' p
  assume run: "write_verified_durable t bs v w = (r, w')"
  have "write_outcome t bs v w r w' \<and> (\<forall>p. p \<noteq> t \<and> temporary_path t \<noteq> Inr p \<longrightarrow> lookup w' p = lookup w p)"
    using write_verified_durable_spec [of t bs v w] run by (simp add: wp_def split: sum.splits)
  then show "write_outcome t bs v w r w'"
    and "p \<noteq> t \<Longrightarrow> \<not> write_scratch t p \<Longrightarrow> lookup w' p = lookup w p"
    by (auto simp: write_scratch_def)
next
  show "\<not> write_scratch t t" for t
    using temporary_path_neq [of t t] by (auto simp: write_scratch_def)
qed

lemma wp_write_verified [wp_simps]:
  "wp (write_verified t bs v) Q E =
     wp (write_verified_durable t bs v) (\<lambda>_. Q ()) (\<lambda>f. E (dwf_error f))"
  by (simp add: write_verified_def wp_simps)

lemma wp_classify_object [wp_simps]:
  "wp (classify_object h p previous target) Q E w = (case io_fault w (tick w) of
       Some k \<Rightarrow> E (Io OtherIo) (advance w)
     | None \<Rightarrow> (case lookup w p of
         None \<Rightarrow> Q Missing (advance w)
       | Some bs \<Rightarrow> Q (if h bs = target then Target else if previous = Some (h bs) then Previous else Neither)
                      (advance w)))"
  by (simp add: wp_def classify_object_def fs_read_def io_call_def Let_def split: option.split)

text \<open>Without I/O failures, and with no stale temporary file, a write the verifier accepts commits.\<close>

lemma write_verified_durable_commits:
  assumes "\<And>n. io_fault w n = None" and "temporary_path t = Inr tmp" and "lookup w tmp = None"
    and "v bs = Inr ()"
  shows "\<exists>w'. write_verified_durable t bs v w = (Inr Committed, w')"
proof -
  have parent: "path_parent t \<noteq> None" using assms(2)
    by (auto simp: temporary_path_def file_name_def path_parent_def split: if_splits)
  have "wp (write_body t d tmp bs v) (\<lambda>_ _. True) (\<lambda>_ _. False) (False, u)"
    if "\<And>n. io_fault u n = None" "lookup u tmp = None" for u d
    using that assms(4)
    by (simp add: write_body_def wp_simps atomic_replace_def sync_directory_def)
  then have "wp (run_write t d tmp bs v) (\<lambda>r _. r = Committed) (\<lambda>_ _. False) u"
    if "\<And>n. io_fault u n = None" "lookup u tmp = None" for u d
    using that by (fastforce simp: wp_def run_write_def split: prod.splits sum.splits)
  then have "wp (write_verified_durable t bs v) (\<lambda>r _. r = Committed) (\<lambda>_ _. False) w"
    using assms(1-3) parent by (auto simp: write_verified_durable_def wp_simps)
  then show ?thesis by (auto simp: wp_def split: prod.splits sum.splits)
qed

text \<open>A temporary file left by a crash makes one write fail; that failure removes it.\<close>

lemma stale_temporary_run:
  assumes "\<And>n. io_fault w n = None" and "\<And>n. \<not> stat_fault w n" and "temporary_path t = Inr tmp"
    and "lookup w tmp = Some junk"
  shows "wp (write_verified_durable t bs v) (\<lambda>_ _. False)
     (\<lambda>f w'. f = \<lparr>dwf_result = NotCommitted, dwf_error = Io AlreadyExists\<rparr> \<and> lookup w' tmp = None \<and>
        (\<forall>p. p \<noteq> tmp \<longrightarrow> lookup w' p = lookup w p) \<and> (\<forall>n. io_fault w' n = None)) w"
proof -
  have parent: "path_parent t \<noteq> None" using assms(3)
    by (auto simp: temporary_path_def file_name_def path_parent_def split: if_splits)
  have run: "wp (run_write t d tmp bs v) (\<lambda>_ _. False)
     (\<lambda>f w'. f = \<lparr>dwf_result = NotCommitted, dwf_error = Io AlreadyExists\<rparr> \<and> lookup w' tmp = None \<and>
        (\<forall>p. p \<noteq> tmp \<longrightarrow> lookup w' p = lookup u p) \<and> (\<forall>n. io_fault w' n = None)) u"
    if u: "\<And>n. io_fault u n = None" "\<And>n. \<not> stat_fault u n" "lookup u tmp = Some junk" for u d
    using u
    by (simp add: wp_def run_write_def write_body_def remove_temporary_def monad_defs fs_create_new_def
        fs_exists_def fs_remove_file_def io_call_def is_present_def)
  show ?thesis using assms parent
    by (auto simp: write_verified_durable_def wp_simps intro!: wp_mono [OF run])
qed

subsection \<open>Properties\<close>

text \<open>
  C5. The three outcomes of a durable write, for every pattern of I/O failures and so for a crash at
  any point: committed, and the target holds exactly the verified bytes; not committed, and the
  target is untouched; durability unknown, and the target holds exactly the verified bytes. No
  other file but the temporary one changes.
\<close>

theorem durable_write_outcomes:
  assumes "write_verified_durable t bs v w = (r, w')"
  shows "(case r of
        Inr d \<Rightarrow> d = Committed \<and> lookup w' t = Some bs \<and> v bs = Inr ()
      | Inl f \<Rightarrow> dwf_result f = NotCommitted \<and> lookup w' t = lookup w t \<or>
          dwf_result f = DurabilityUnknown \<and> lookup w' t = Some bs \<and> v bs = Inr ()) \<and>
     (\<forall>p. p \<noteq> t \<and> temporary_path t \<noteq> Inr p \<longrightarrow> lookup w' p = lookup w p)"
  using dw.outcome [OF assms] dw.frame [OF assms] by (simp add: write_outcome_def write_scratch_def)

text \<open>
  A crash between creating and renaming the temporary file costs one write and heals itself: with
  a stale temporary file present and no other failure, the next write fails as not committed with
  the target untouched, and the write after it commits.
\<close>

theorem stale_temporary_heals:
  assumes "\<And>n. io_fault w n = None" and "\<And>n. \<not> stat_fault w n" and "temporary_path t = Inr tmp"
    and "lookup w tmp = Some junk" and "v bs = Inr ()"
  shows "\<exists>w1 w2. write_verified_durable t bs v w =
        (Inl \<lparr>dwf_result = NotCommitted, dwf_error = Io AlreadyExists\<rparr>, w1) \<and>
      lookup w1 t = lookup w t \<and>
      write_verified_durable t bs v w1 = (Inr Committed, w2) \<and> lookup w2 t = Some bs"
proof -
  obtain w1 where run1: "write_verified_durable t bs v w =
        (Inl \<lparr>dwf_result = NotCommitted, dwf_error = Io AlreadyExists\<rparr>, w1)"
      and w1: "lookup w1 tmp = None" "lookup w1 t = lookup w t" "\<And>n. io_fault w1 n = None"
    using stale_temporary_run [OF assms(1-4), of bs v] temporary_path_neq [OF assms(3)]
    by (auto simp: wp_def split: prod.splits sum.splits)
  from write_verified_durable_commits [where v = v and bs = bs, OF w1(3) assms(3) w1(1) assms(5)] obtain w2 where
    run2: "write_verified_durable t bs v w1 = (Inr Committed, w2)" by blast
  from dw.committed [OF run2] run1 run2 w1(2) show ?thesis by blast
qed

definition ex_target :: path where
  "ex_target = [Name ''data'', Name ''f'']"

definition ex_stale_world :: world where
  "ex_stale_world = quiet_world\<lparr>files := [([Name ''data'', Name ''f.tmp''], [9])]\<rparr>"

theorem durable_write_outcomes_witness:
  "\<exists>w'. write_verified_durable ex_target [1, 2] (\<lambda>_. Inr ()) quiet_world = (Inr Committed, w') \<and>
     lookup w' ex_target = Some [1, 2]"
proof -
  let ?run = "write_verified_durable ex_target [1, 2] (\<lambda>_. Inr ()) quiet_world"
  have "fst ?run = Inr Committed" by (simp add: run_simps ex_target_def quiet_world_def)
  then have run: "?run = (Inr Committed, snd ?run)" by (simp add: prod_eq_iff)
  from durable_write_outcomes [OF run] run show ?thesis by auto
qed

theorem stale_temporary_heals_witness:
  "\<exists>w1 w2. write_verified_durable ex_target [1, 2] (\<lambda>_. Inr ()) ex_stale_world =
        (Inl \<lparr>dwf_result = NotCommitted, dwf_error = Io AlreadyExists\<rparr>, w1) \<and>
      write_verified_durable ex_target [1, 2] (\<lambda>_. Inr ()) w1 = (Inr Committed, w2)"
  using stale_temporary_heals [of ex_stale_world ex_target "[Name ''data'', Name ''f.tmp'']" "[9]" "\<lambda>_. Inr ()" "[1, 2]"]
  by (auto simp: ex_stale_world_def quiet_world_def ex_target_def temporary_path_def file_name_def
      with_file_name_def lookup_def)

end
