(* ===== verification/Config.thy ===== *)
theory Config
  imports Host_Error Rust_String Bytes World Atomic_File
begin

text \<open>
  \<open>config.rs\<close>: the account-group configuration, its validation, the policy table and the
  migrating loader. The public-suffix list (\<open>psl::domain_str\<close>), the SHA-256 digest and the
  JSON reader and printer are parameters. A JSON document is the datatype \<open>json\<close>, which is
  what the loader's migration edits.
\<close>

definition MAX_GROUPS :: nat where "MAX_GROUPS = 32"
definition MAX_SCOPE_LEN :: nat where "MAX_SCOPE_LEN = 253"

datatype policy_level = Critical | Balanced | Convenient | Monitor

datatype store_policy = NormalProfile

record account_group =
  ag_id :: uuid
  ag_display_name :: string
  ag_scope :: string
  ag_policy_level :: policy_level
  ag_store_policy :: store_policy

record account_groups_config =
  cfg_version :: u16
  cfg_compatibility_version :: u16
  cfg_groups :: "account_group list"

definition LEASE_BACKSTOP_MS :: u64 where
  "LEASE_BACKSTOP_MS = 12 * 60 * 60000"

record policy_parameters =
  lease_duration_ms :: u64
  idle_threshold_seconds :: u64
  last_tab_grace_ms :: u64
  monitoring_only :: bool

fun parameters :: "policy_level \<Rightarrow> policy_parameters" where
  "parameters Critical =
     \<lparr>lease_duration_ms = LEASE_BACKSTOP_MS, idle_threshold_seconds = 5 * 60,
      last_tab_grace_ms = 0, monitoring_only = False\<rparr>"
| "parameters Balanced =
     \<lparr>lease_duration_ms = LEASE_BACKSTOP_MS, idle_threshold_seconds = 15 * 60,
      last_tab_grace_ms = 2 * 60000, monitoring_only = False\<rparr>"
| "parameters Convenient =
     \<lparr>lease_duration_ms = LEASE_BACKSTOP_MS, idle_threshold_seconds = 60 * 60,
      last_tab_grace_ms = 15 * 60000, monitoring_only = False\<rparr>"
| "parameters Monitor =
     \<lparr>lease_duration_ms = 0, idle_threshold_seconds = 0,
      last_tab_grace_ms = 0, monitoring_only = True\<rparr>"

subsection \<open>Validation\<close>

definition normalize_scope :: "string \<Rightarrow> string" where
  "normalize_scope scope = to_ascii_lowercase (trim_start_dots scope)"

text \<open>The parameter \<open>domain_str\<close> is the registrable domain of a host name, if it has one.\<close>

definition is_valid_scope :: "(string \<Rightarrow> string option) \<Rightarrow> string \<Rightarrow> bool" where
  "is_valid_scope domain_str scope \<longleftrightarrow>
     (if scope = ''localhost'' then True
      else if scope = [] \<or> MAX_SCOPE_LEN < length scope \<or> ends_with scope ''.''
           \<or> contains scope ''..''
           \<or> \<not> list_all (\<lambda>c. is_ascii_alphanumeric c \<or> c = CHR ''.'' \<or> c = CHR ''-'') scope
      then False
      else if is_ipv4 scope then True
      else domain_str scope = Some scope)"

definition scopes_clash :: "string \<Rightarrow> string \<Rightarrow> bool" where
  "scopes_clash scope existing \<longleftrightarrow>
     scope = existing \<or> ends_with scope (CHR ''.'' # existing) \<or> ends_with existing (CHR ''.'' # scope)"

text \<open>The loop of \<open>AccountGroupsConfig::validate\<close>, with its two accumulators.\<close>

fun validate_groups ::
    "(string \<Rightarrow> string option) \<Rightarrow> uuid list \<Rightarrow> string list \<Rightarrow> account_group list \<Rightarrow> unit fcp_result" where
  "validate_groups domain_str ids scopes [] = Inr ()"
| "validate_groups domain_str ids scopes (g # gs) =
     (if is_nil (ag_id g) \<or> List.member ids (ag_id g)
      then Inl (Format ''account-group UUID is nil or duplicated'')
      else if trim (ag_display_name g) = []
      then Inl (Format ''account-group has an empty required field'')
      else let scope = normalize_scope (ag_scope g) in
        if list_ex (scopes_clash scope) scopes
        then Inl (Format ''account-group scopes overlap'')
        else if \<not> is_valid_scope domain_str scope
        then Inl (Format ''account-group scope is invalid'')
        else validate_groups domain_str (ag_id g # ids) (scopes @ [scope]) gs)"

definition config_validate ::
    "(string \<Rightarrow> string option) \<Rightarrow> account_groups_config \<Rightarrow> unit fcp_result" where
  "config_validate domain_str cfg =
     (if cfg_version cfg \<noteq> 3 \<or> cfg_compatibility_version cfg \<noteq> 3
      then Inl (Format ''unsupported account-group config version'')
      else if MAX_GROUPS < length (cfg_groups cfg)
      then Inl (Format ''account-group count is outside bounds'')
      else validate_groups domain_str [] [] (cfg_groups cfg))"

subsection \<open>Loading\<close>

datatype json =
    JNull
  | JBool bool
  | JNumber u64
  | JOtherNumber string
  | JString string
  | JArray "json list"
  | JObject "(string \<times> json) list"

record config_ext =
  ce_domain_str :: "string \<Rightarrow> string option"
  ce_sha256 :: "byte list \<Rightarrow> byte list"
  ce_config_json :: "account_groups_config codec"
  ce_value_json :: "json codec"
  ce_bundled :: "byte list"

record loaded_config =
  lc_config :: account_groups_config
  lc_digest :: string

fun json_get :: "string \<Rightarrow> json \<Rightarrow> json option" where
  "json_get k (JObject kvs) = map_of kvs k"
| "json_get k _ = None"

fun json_set :: "string \<Rightarrow> json \<Rightarrow> json \<Rightarrow> json" where
  "json_set k v (JObject kvs) = JObject (AList.update k v kvs)"
| "json_set k v j = j"

text \<open>Removing \<open>eviction_triggers\<close> from every legacy group; a group must be an object.\<close>

fun strip_triggers :: "json list \<Rightarrow> json list fcp_result" where
  "strip_triggers [] = Inr []"
| "strip_triggers (JObject kvs # js) =
     (case strip_triggers js of Inl e \<Rightarrow> Inl e
      | Inr js' \<Rightarrow> Inr (JObject (AList.delete ''eviction_triggers'' kvs) # js'))"
| "strip_triggers (_ # js) = Inl (Format ''legacy config group is malformed'')"

definition migrate_v2 :: "json \<Rightarrow> json fcp_result" where
  "migrate_v2 value = (case json_get ''groups'' value of
       Some (JArray groups) \<Rightarrow>
         (case strip_triggers groups of Inl e \<Rightarrow> Inl e
          | Inr groups' \<Rightarrow>
              Inr (json_set ''compatibility_version'' (JNumber 3)
                    (json_set ''version'' (JNumber 3)
                      (json_set ''groups'' (JArray groups') value))))
     | _ \<Rightarrow> Inl (Format ''legacy config groups are malformed''))"

definition verify_config_bytes :: "config_ext \<Rightarrow> byte list \<Rightarrow> unit fcp_result" where
  "verify_config_bytes x candidate =
     (case json_from_slice (ce_config_json x) candidate of Inl e \<Rightarrow> Inl e
      | Inr migrated \<Rightarrow> config_validate (ce_domain_str x) migrated)"

definition config_load :: "config_ext \<Rightarrow> path \<Rightarrow> (world, loaded_config) host" where
  "config_load x installed_path =
     bindR (fs_exists installed_path) (\<lambda>installed.
     bindR (if installed then fs_read installed_path else ret (ce_bundled x)) (\<lambda>bytes.
     bindR (of_result (json_from_slice (ce_value_json x) bytes)) (\<lambda>value.
     bindR (if json_get ''version'' value = Some (JNumber 2)
            then bindR (of_result (migrate_v2 value)) (\<lambda>value'.
                 bindR (of_result (json_to_vec (ce_value_json x) value')) (\<lambda>bytes'.
                 bindR (fs_exists installed_path) (\<lambda>installed'.
                 seqR (if installed' then write_verified installed_path bytes' (verify_config_bytes x)
                       else ret ())
                      (ret bytes'))))
            else ret bytes) (\<lambda>bytes.
     bindR (of_result (json_from_slice (ce_config_json x) bytes)) (\<lambda>config.
     seqR (of_result (config_validate (ce_domain_str x) config))
          (ret \<lparr>lc_config = config, lc_digest = encode_hex (ce_sha256 x bytes)\<rparr>))))))"

text \<open>\<open>dispatcher.rs: config_rejection_code\<close>, which reads the message of a validation error.\<close>

definition config_rejection_code :: "fcp_error \<Rightarrow> string" where
  "config_rejection_code error = (case error of
       Format message \<Rightarrow>
         if contains message ''overlap'' then ''scope_overlaps_existing''
         else if contains message ''scope is invalid'' then ''scope_invalid''
         else if contains message ''outside bounds'' then ''group_limit_reached''
         else ''config_invalid''
     | _ \<Rightarrow> ''config_invalid'')"

subsection \<open>What validation means\<close>

text \<open>The hosts a scope claims: itself and every name below it.\<close>

definition covers :: "string \<Rightarrow> string \<Rightarrow> bool" where
  "covers scope host \<longleftrightarrow> host = scope \<or> ends_with host (CHR ''.'' # scope)"

definition group_ok :: "(string \<Rightarrow> string option) \<Rightarrow> account_group \<Rightarrow> bool" where
  "group_ok domain_str g \<longleftrightarrow>
     \<not> is_nil (ag_id g) \<and> trim (ag_display_name g) \<noteq> [] \<and>
     is_valid_scope domain_str (normalize_scope (ag_scope g))"

text \<open>The declarative specification of an acceptable configuration.\<close>

definition config_ok :: "(string \<Rightarrow> string option) \<Rightarrow> account_groups_config \<Rightarrow> bool" where
  "config_ok domain_str cfg \<longleftrightarrow>
     cfg_version cfg = 3 \<and> cfg_compatibility_version cfg = 3 \<and>
     length (cfg_groups cfg) \<le> MAX_GROUPS \<and>
     (\<forall>g \<in> set (cfg_groups cfg). group_ok domain_str g) \<and>
     distinct (map ag_id (cfg_groups cfg)) \<and>
     sorted_wrt (\<lambda>g h. \<not> scopes_clash (normalize_scope (ag_scope h)) (normalize_scope (ag_scope g)))
       (cfg_groups cfg)"

lemma validate_groups_iff:
  "validate_groups d ids scopes gs = Inr () \<longleftrightarrow>
     (\<forall>g \<in> set gs. group_ok d g \<and> ag_id g \<notin> set ids \<and>
        (\<forall>s \<in> set scopes. \<not> scopes_clash (normalize_scope (ag_scope g)) s)) \<and>
     distinct (map ag_id gs) \<and>
     sorted_wrt (\<lambda>g h. \<not> scopes_clash (normalize_scope (ag_scope h)) (normalize_scope (ag_scope g))) gs"
proof (induction gs arbitrary: ids scopes)
  case Nil
  then show ?case by simp
next
  case (Cons g gs)
  show ?case
  proof (cases "group_ok d g \<and> ag_id g \<notin> set ids \<and>
        (\<forall>s \<in> set scopes. \<not> scopes_clash (normalize_scope (ag_scope g)) s)")
    case True
    then have "validate_groups d ids scopes (g # gs) =
        validate_groups d (ag_id g # ids) (scopes @ [normalize_scope (ag_scope g)]) gs"
      by (auto simp: group_ok_def Let_def list_ex_iff)
    then show ?thesis using True by (auto simp: Cons.IH image_iff)
  next
    case False
    then have "validate_groups d ids scopes (g # gs) \<noteq> Inr ()"
      by (auto simp: group_ok_def Let_def list_ex_iff)
    moreover have "\<not> (\<forall>h \<in> set (g # gs). group_ok d h \<and> ag_id h \<notin> set ids \<and>
        (\<forall>s \<in> set scopes. \<not> scopes_clash (normalize_scope (ag_scope h)) s))"
      using False by (meson list.set_intros(1))
    ultimately show ?thesis by blast
  qed
qed

lemma config_validate_iff: "config_validate d cfg = Inr () \<longleftrightarrow> config_ok d cfg"
  by (auto simp: config_validate_def config_ok_def validate_groups_iff)

lemma scopes_clash_sym: "scopes_clash a b \<longleftrightarrow> scopes_clash b a"
  by (auto simp: scopes_clash_def)

lemma dotted_suffixes_clash:
  assumes "suffix (CHR ''.'' # a) h" and "suffix (CHR ''.'' # b) h"
  shows "scopes_clash a b"
proof -
  have step: "scopes_clash x y" if "suffix (CHR ''.'' # y) (CHR ''.'' # x)" for x y
    using that by (auto simp: suffix_Cons scopes_clash_def ends_with_def)
  from suffix_same_cases [OF assms] show ?thesis
    by (auto dest: step simp: scopes_clash_sym)
qed

lemma covers_clash: "covers a h \<Longrightarrow> covers b h \<Longrightarrow> scopes_clash a b"
  by (auto simp: covers_def ends_with_def intro: dotted_suffixes_clash)
    (auto simp: scopes_clash_def ends_with_def)

lemma config_ok_no_clash:
  assumes ok: "config_ok d cfg" and g: "g \<in> set (cfg_groups cfg)" and h: "h \<in> set (cfg_groups cfg)"
    and clash: "scopes_clash (normalize_scope (ag_scope g)) (normalize_scope (ag_scope h))"
  shows "g = h"
proof (rule ccontr)
  assume "g \<noteq> h"
  from g h obtain i j where ij: "i < length (cfg_groups cfg)" "j < length (cfg_groups cfg)"
      and e: "cfg_groups cfg ! i = g" "cfg_groups cfg ! j = h" by (auto simp: in_set_conv_nth)
  with \<open>g \<noteq> h\<close> have "i \<noteq> j" by auto
  moreover have "\<not> scopes_clash (normalize_scope (ag_scope (cfg_groups cfg ! l)))
      (normalize_scope (ag_scope (cfg_groups cfg ! k)))" if "k < l" "l < length (cfg_groups cfg)" for k l
    using ok that by (auto simp: config_ok_def sorted_wrt_iff_nth_less)
  ultimately show False using clash ij e by (metis scopes_clash_sym linorder_neqE_nat)
qed

subsection \<open>Properties\<close>

text \<open>
  C28. Validation accepts exactly the configurations the declarative specification describes:
  version 3, at most 32 groups, distinct non-nil identifiers, non-blank names, valid scopes, and no
  two groups with overlapping scopes.
\<close>

theorem config_validate_spec: "config_validate d cfg = Inr () \<longleftrightarrow> config_ok d cfg"
  by (rule config_validate_iff)

text \<open>
  Cookie ownership is unambiguous: in a configuration that validates, no host name is covered
  by the scopes of two groups.
\<close>

theorem host_owned_by_one_group:
  assumes "config_validate d cfg = Inr ()" and "g \<in> set (cfg_groups cfg)" and "h \<in> set (cfg_groups cfg)"
    and "covers (normalize_scope (ag_scope g)) host" and "covers (normalize_scope (ag_scope h)) host"
  shows "g = h"
  using config_ok_no_clash [OF _ assms(2,3) covers_clash [OF assms(4,5)]] assms(1)
  by (simp add: config_validate_iff)

text \<open>Two sibling scopes under a public-suffix list that knows \<open>org\<close>.\<close>

definition ex_group :: "uuid \<Rightarrow> string \<Rightarrow> account_group" where
  "ex_group i scope = \<lparr>ag_id = i, ag_display_name = ''Site'', ag_scope = scope, ag_policy_level = Balanced,
     ag_store_policy = NormalProfile\<rparr>"

definition ex_config :: account_groups_config where
  "ex_config = \<lparr>cfg_version = 3, cfg_compatibility_version = 3,
     cfg_groups = [ex_group 1 ''.alpha.org'', ex_group 2 ''beta.org'']\<rparr>"

lemma ex_trim: "trim ''Site'' = ''Site''"
  by (simp add: trim_def trim_start_def trim_end_def strip_any.simps utf8_spaces_def char_of_def)

lemma ex_config_valid: "config_validate (\<lambda>s. Some s) ex_config = Inr ()"
  by (simp add: config_validate_iff config_ok_def ex_config_def ex_group_def group_ok_def ex_trim is_nil_def
      normalize_scope_def trim_start_dots_def to_ascii_lowercase_def ascii_lower_char_def char_of_def
      is_valid_scope_def MAX_SCOPE_LEN_def MAX_GROUPS_def scopes_clash_def ends_with_def contains_def
      suffix_Cons sublist_Cons_right is_ascii_alphanumeric_def is_ascii_digit_def is_ascii_lowercase_def)

theorem host_owned_by_one_group_witness:
  "covers (normalize_scope (ag_scope (ex_group 1 ''.alpha.org''))) ''www.alpha.org'' \<and>
   \<not> covers (normalize_scope (ag_scope (ex_group 2 ''beta.org''))) ''www.alpha.org''"
proof -
  have "covers (normalize_scope (ag_scope (ex_group 1 ''.alpha.org''))) ''www.alpha.org''"
    by (simp add: covers_def ex_group_def normalize_scope_def trim_start_dots_def to_ascii_lowercase_def
        ascii_lower_char_def char_of_def ends_with_def suffix_Cons)
  moreover have "ex_group 1 ''.alpha.org'' \<noteq> ex_group 2 ''beta.org''" by (simp add: ex_group_def)
  ultimately show ?thesis
    using host_owned_by_one_group [OF ex_config_valid, of "ex_group 1 ''.alpha.org''" "ex_group 2 ''beta.org''" "''www.alpha.org''"]
    by (auto simp: ex_config_def)
qed

end
