(* ===== verification/Messages.thy ===== *)
theory Messages
  imports Config
begin

text \<open>
  \<open>protocol/messages.rs\<close>: the wire messages between extension and host, field by field,
  the capability payload with its canonical byte encoding, and the monitor event with its
  validation. A browser's \<open>f64\<close> expiration date is kept as its 64-bit pattern: the host stores
  and returns it and never computes with it.
\<close>

subsection \<open>Capabilities\<close>

definition CAPABILITY_DOMAIN :: "byte list" where
  "CAPABILITY_DOMAIN = map byte_of_char ''FCPHCAP1''"

definition CAPABILITY_MAX_LIFETIME_MS :: u64 where
  "CAPABILITY_MAX_LIFETIME_MS = 60000"

datatype capability_operation = CapInject | CapRecoverProfile

fun operation_byte :: "capability_operation \<Rightarrow> byte" where
  "operation_byte CapInject = 1"
| "operation_byte CapRecoverProfile = 2"

text \<open>\<open>Nonce32\<close> is a byte array; \<open>nonce_ok\<close> is the length its Rust type fixes.\<close>

type_synonym nonce32 = "byte list"

definition nonce_ok :: "nonce32 \<Rightarrow> bool" where
  "nonce_ok n \<longleftrightarrow> length n = CAPABILITY_NONCE_BYTES"

record capability_payload =
  cp_account_group_id :: uuid
  cp_operation :: capability_operation
  cp_expiry_unix_ms :: u64
  cp_monotonic_sequence :: u64
  cp_nonce :: nonce32

record signed_capability =
  sc_payload :: capability_payload
  sc_signature :: "byte list"
  sc_proof_context :: "byte list"

definition canonical_bytes :: "capability_payload \<Rightarrow> byte list" where
  "canonical_bytes p =
     CAPABILITY_DOMAIN @ uuid_as_bytes (cp_account_group_id p) @ [operation_byte (cp_operation p)]
     @ u64_to_le (cp_expiry_unix_ms p) @ u64_to_le (cp_monotonic_sequence p) @ cp_nonce p"

definition validate_shape :: "capability_payload \<Rightarrow> unit fcp_result" where
  "validate_shape p =
     (if is_nil (cp_account_group_id p)
      then Inl (Capability ''account_group_id must not be nil'')
      else if cp_monotonic_sequence p = 0
      then Inl (Capability ''monotonic_sequence must start at one'')
      else if list_all (\<lambda>b. b = 0) (cp_nonce p)
      then Inl (Capability ''nonce must not be all-zero'')
      else Inr ())"

subsection \<open>Message payloads\<close>

datatype same_site_status = NoRestriction | Lax | Strict | Unspecified

datatype group_state = Uninitialized | Sealed | Unlocking | Leased | Evicting | Degraded

datatype lease_purpose = PurposeInject | PurposeEnroll

datatype evict_phase = EvictBegin | EvictSnapshotRequired

datatype cookie_disposition = Remove | RetainLeased

datatype operation_kind_wire = WireEnrollment | WireEviction | WireReconciliation

datatype operation_required_action =
    SendSnapshot | ClassifyDurability | PrepareRemoval | VerifyBrowserState | ActionCompleted
  | ActionReconciliationRequired

datatype session_invalidation_reason = ExternalLogout | RestoreRejected | ScopeEmpty

datatype monitor_severity = Info | Medium | High

datatype monitor_signal =
    RemoteDebuggingPort
  | RemoteDebuggingPipe
  | ProcessInspectionWmiConnectAccessDenied
  | ProcessInspectionWmiConnectFailed
  | ProcessInspectionWmiPollAccessDenied
  | ProcessInspectionWmiPollFailed
  | ProcessInspectionCommandLineAccessDenied
  | ProcessInspectionCommandLineUnavailable
  | HostDisconnect
  | HostDisconnectActiveLease
  | ReconnectSuccess
  | ReconciliationFailed
  | AuditIntegrityRecovered
  | LeaseOutsideCookieCreated
  | SelectorChanged
  | MonitorQueueOverflow

datatype monitor_source = Extension | NativeHost

record cookie_partition_key =
  ck_top_level_site :: "string option"
  ck_has_cross_site_ancestor :: "bool option"

record cookie_record =
  cr_domain :: string
  cr_expiration_date :: "u64 option"
  cr_host_only :: bool
  cr_http_only :: bool
  cr_name :: string
  cr_partition_key :: "cookie_partition_key option"
  cr_path :: string
  cr_same_site :: same_site_status
  cr_secure :: bool
  cr_session :: bool
  cr_store_id :: string
  cr_value :: string

record handshake =
  hs_protocol_version :: u16
  hs_extension_id :: string
  hs_profile_id :: uuid
  hs_extension_version :: string
  hs_min_host_version :: string
  hs_capabilities :: "string list"
  hs_cached_config_digest :: "string option"

record handshake_group_state =
  hg_account_group_id :: uuid
  hg_group_state :: group_state
  hg_reconciliation_required :: bool
  hg_lease_id :: "uuid option"
  hg_lease_expiry_unix_ms :: "u64 option"

record recovery_candidate =
  rc_profile_id :: uuid
  rc_display_name :: string
  rc_browser :: string
  rc_last_used_unix_ms :: u64
  rc_site_count :: u32

record handshake_ack =
  ha_protocol_version :: u16
  ha_config_digest :: string
  ha_config :: account_groups_config
  ha_groups :: "handshake_group_state list"
  ha_host_version :: string
  ha_min_extension_version :: string
  ha_capabilities :: "string list"
  ha_recovery_candidates :: "recovery_candidate list"

record recovery_adopt =
  ra_profile_id :: uuid

record recovery_adopted =
  rd_profile_id :: uuid

record group_add =
  ga_scope :: string
  ga_display_name :: string
  ga_policy_level :: policy_level

record group_set_policy =
  gp_account_group_id :: uuid
  gp_policy_level :: policy_level

record group_remove =
  gr_account_group_id :: uuid

record config_updated =
  cu_config_digest :: string
  cu_config :: account_groups_config
  cu_groups :: "handshake_group_state list"

record config_rejected =
  cj_reason :: string

record operation_error =
  oe_request_id :: uuid
  oe_account_group_id :: "uuid option"
  oe_code :: string

record lease_request =
  lr_account_group_id :: uuid
  lr_purpose :: lease_purpose

record lease_grant =
  lg_account_group_id :: uuid
  lg_lease_id :: uuid
  lg_expiry_unix_ms :: u64
  lg_capability_sequence :: "u64 option"

record lease_deny =
  ld_account_group_id :: uuid
  ld_reason :: string

record cookies_inject_chunk =
  ic_account_group_id :: uuid
  ic_lease_id :: uuid
  ic_chunk_index :: u32
  ic_chunk_count :: u32
  ic_cookie_count :: u32
  ic_cookies :: "cookie_record list"

record inject_result =
  ir_account_group_id :: uuid
  ir_lease_id :: uuid
  ir_success :: bool
  ir_health_check :: string

record evict_request =
  er_account_group_id :: uuid
  er_lease_id :: "uuid option"
  er_operation_id :: uuid
  er_phase :: evict_phase
  er_reason :: string

record cookies_snapshot_chunk =
  sn_account_group_id :: uuid
  sn_lease_id :: "uuid option"
  sn_operation_id :: uuid
  sn_chunk_index :: u32
  sn_chunk_count :: u32
  sn_cookie_count :: u32
  sn_cookies :: "cookie_record list"
  sn_operation_sequence :: "u64 option"
  sn_attempt_id :: "uuid option"
  sn_purpose :: "string option"

record evict_confirmed =
  ec_account_group_id :: uuid
  ec_lease_id :: "uuid option"
  ec_operation_id :: uuid
  ec_vault_sequence :: u64
  ec_cookie_disposition :: cookie_disposition
  ec_operation_sequence :: "u64 option"
  ec_attempt_id :: "uuid option"

record evict_result =
  et_account_group_id :: uuid
  et_lease_id :: "uuid option"
  et_operation_id :: uuid
  et_success :: bool
  et_remaining_cookie_count :: u32
  et_operation_sequence :: "u64 option"
  et_attempt_id :: "uuid option"

record operation_begin =
  ob_account_group_id :: uuid
  ob_lease_id :: "uuid option"
  ob_attempt_id :: uuid
  ob_kind :: operation_kind_wire
  ob_reason :: string

record operation_snapshot_required =
  os_account_group_id :: uuid
  os_operation_id :: uuid
  os_operation_sequence :: u64
  os_lease_id :: "uuid option"
  os_attempt_id :: uuid

record operation_status_query =
  oq_account_group_id :: uuid
  oq_operation_id :: uuid
  oq_operation_sequence :: u64
  oq_lease_id :: "uuid option"

record operation_status =
  ot_account_group_id :: uuid
  ot_operation_id :: uuid
  ot_operation_sequence :: u64
  ot_lease_id :: "uuid option"
  ot_phase :: string
  ot_required_action :: operation_required_action

record evict_remove_prepare =
  ep_account_group_id :: uuid
  ep_operation_id :: uuid
  ep_operation_sequence :: u64
  ep_lease_id :: "uuid option"
  ep_attempt_id :: uuid

record evict_remove_authorized =
  ea_account_group_id :: uuid
  ea_operation_id :: uuid
  ea_operation_sequence :: u64
  ea_lease_id :: "uuid option"
  ea_attempt_id :: uuid

record operation_completed =
  oc_account_group_id :: uuid
  oc_operation_id :: uuid
  oc_operation_sequence :: u64
  oc_lease_id :: "uuid option"
  oc_success :: bool

record session_invalidate =
  si_account_group_id :: uuid
  si_lease_id :: "uuid option"
  si_reason :: session_invalidation_reason

record session_invalidated =
  sd_account_group_id :: uuid
  sd_reason :: session_invalidation_reason

record auth_cache_clear =
  ac_account_group_id :: uuid
  ac_reason :: string

record monitor_event =
  me_event_id :: uuid
  me_observed_at_unix_ms :: u64
  me_source :: monitor_source
  me_signal :: monitor_signal
  me_severity :: monitor_severity
  me_account_group_id :: "uuid option"
  me_occurrence_count :: u32

record monitor_poll =
  mp_max_events :: u16

record monitor_alert =
  ml_event :: monitor_event

text \<open>The tagged union of the protocol, in the order the source declares it.\<close>

datatype message =
    Handshake handshake
  | HandshakeAck handshake_ack
  | RecoveryAdopt recovery_adopt
  | RecoveryAdopted recovery_adopted
  | LeaseRequest lease_request
  | LeaseGrant lease_grant
  | LeaseDeny lease_deny
  | CookiesInjectChunk cookies_inject_chunk
  | InjectResult inject_result
  | EvictRequest evict_request
  | CookiesSnapshotChunk cookies_snapshot_chunk
  | EvictConfirmed evict_confirmed
  | EvictResult evict_result
  | OperationBegin operation_begin
  | OperationSnapshotRequired operation_snapshot_required
  | OperationStatusQuery operation_status_query
  | OperationStatus operation_status
  | EvictRemovePrepare evict_remove_prepare
  | EvictRemoveAuthorized evict_remove_authorized
  | OperationCompleted operation_completed
  | SessionInvalidate session_invalidate
  | SessionInvalidated session_invalidated
  | AuthCacheClear auth_cache_clear
  | MonitorEvent monitor_event
  | MonitorPoll monitor_poll
  | MonitorAlert monitor_alert
  | GroupAdd group_add
  | GroupRemove group_remove
  | GroupSetPolicy group_set_policy
  | ConfigUpdated config_updated
  | ConfigRejected config_rejected
  | OperationError operation_error

text \<open>The serde tag of each variant.\<close>

fun message_type :: "message \<Rightarrow> string" where
  "message_type (Handshake _) = ''handshake''"
| "message_type (HandshakeAck _) = ''handshake.ack''"
| "message_type (RecoveryAdopt _) = ''recovery.adopt''"
| "message_type (RecoveryAdopted _) = ''recovery.adopted''"
| "message_type (LeaseRequest _) = ''lease.request''"
| "message_type (LeaseGrant _) = ''lease.grant''"
| "message_type (LeaseDeny _) = ''lease.deny''"
| "message_type (CookiesInjectChunk _) = ''cookies.inject.chunk''"
| "message_type (InjectResult _) = ''inject.result''"
| "message_type (EvictRequest _) = ''evict.request''"
| "message_type (CookiesSnapshotChunk _) = ''cookies.snapshot.chunk''"
| "message_type (EvictConfirmed _) = ''evict.confirmed''"
| "message_type (EvictResult _) = ''evict.result''"
| "message_type (OperationBegin _) = ''operation.begin''"
| "message_type (OperationSnapshotRequired _) = ''operation.snapshot_required''"
| "message_type (OperationStatusQuery _) = ''operation.status.query''"
| "message_type (OperationStatus _) = ''operation.status''"
| "message_type (EvictRemovePrepare _) = ''evict.remove.prepare''"
| "message_type (EvictRemoveAuthorized _) = ''evict.remove.authorized''"
| "message_type (OperationCompleted _) = ''operation.completed''"
| "message_type (SessionInvalidate _) = ''session.invalidate''"
| "message_type (SessionInvalidated _) = ''session.invalidated''"
| "message_type (AuthCacheClear _) = ''auth.cache.clear''"
| "message_type (MonitorEvent _) = ''monitor.event''"
| "message_type (MonitorPoll _) = ''monitor.poll''"
| "message_type (MonitorAlert _) = ''monitor.alert''"
| "message_type (GroupAdd _) = ''group.add''"
| "message_type (GroupRemove _) = ''group.remove''"
| "message_type (GroupSetPolicy _) = ''group.set_policy''"
| "message_type (ConfigUpdated _) = ''config.updated''"
| "message_type (ConfigRejected _) = ''config.rejected''"
| "message_type (OperationError _) = ''operation.error''"

subsection \<open>Monitor signals\<close>

fun severity :: "monitor_signal \<Rightarrow> monitor_severity" where
  "severity RemoteDebuggingPort = High"
| "severity RemoteDebuggingPipe = High"
| "severity HostDisconnectActiveLease = High"
| "severity ReconciliationFailed = High"
| "severity AuditIntegrityRecovered = High"
| "severity LeaseOutsideCookieCreated = Medium"
| "severity MonitorQueueOverflow = Medium"
| "severity HostDisconnect = Info"
| "severity ReconnectSuccess = Info"
| "severity SelectorChanged = Info"
| "severity ProcessInspectionWmiConnectAccessDenied = Info"
| "severity ProcessInspectionWmiConnectFailed = Info"
| "severity ProcessInspectionWmiPollAccessDenied = Info"
| "severity ProcessInspectionWmiPollFailed = Info"
| "severity ProcessInspectionCommandLineAccessDenied = Info"
| "severity ProcessInspectionCommandLineUnavailable = Info"

fun audit_code :: "monitor_signal \<Rightarrow> string" where
  "audit_code RemoteDebuggingPort = ''remote_debugging_port''"
| "audit_code RemoteDebuggingPipe = ''remote_debugging_pipe''"
| "audit_code ProcessInspectionWmiConnectAccessDenied =
     ''process_inspection_wmi_connect_wbem_access_denied_0x80041003''"
| "audit_code ProcessInspectionWmiConnectFailed = ''process_inspection_wmi_connect_failed''"
| "audit_code ProcessInspectionWmiPollAccessDenied =
     ''process_inspection_wmi_poll_wbem_access_denied_0x80041003''"
| "audit_code ProcessInspectionWmiPollFailed = ''process_inspection_wmi_poll_failed''"
| "audit_code ProcessInspectionCommandLineAccessDenied =
     ''process_inspection_command_line_wbem_access_denied_0x80041003''"
| "audit_code ProcessInspectionCommandLineUnavailable =
     ''process_inspection_command_line_unavailable''"
| "audit_code HostDisconnect = ''host_disconnect''"
| "audit_code HostDisconnectActiveLease = ''host_disconnect_active_lease''"
| "audit_code ReconnectSuccess = ''reconnect_success''"
| "audit_code ReconciliationFailed = ''reconciliation_failed''"
| "audit_code AuditIntegrityRecovered = ''audit_integrity_recovered''"
| "audit_code LeaseOutsideCookieCreated = ''lease_outside_cookie_created''"
| "audit_code SelectorChanged = ''selector_changed''"
| "audit_code MonitorQueueOverflow = ''monitor_queue_overflow''"

definition monitor_event_validate :: "monitor_event \<Rightarrow> unit fcp_result" where
  "monitor_event_validate e =
     (if is_nil (me_event_id e)
      then Inl (Protocol ''monitor event id must not be nil'')
      else if me_severity e \<noteq> severity (me_signal e)
      then Inl (Protocol ''monitor severity does not match signal'')
      else if me_occurrence_count e = 0 \<or> 1000 < me_occurrence_count e
      then Inl (Protocol ''monitor occurrence count is out of range'')
      else Inr ())"

subsection \<open>The signed bytes determine the capability\<close>

lemma operation_byte_inj [simp]: "operation_byte a = operation_byte b \<longleftrightarrow> a = b"
  by (cases a; cases b) simp_all

lemma length_canonical_bytes:
  "nonce_ok (cp_nonce p) \<Longrightarrow> length (canonical_bytes p) = 73"
  by (simp add: canonical_bytes_def CAPABILITY_DOMAIN_def nonce_ok_def CAPABILITY_NONCE_BYTES_def)

lemma canonical_bytes_inj:
  "canonical_bytes p = canonical_bytes q \<longleftrightarrow> p = q"
  by (auto simp: canonical_bytes_def codec_append_inj intro!: capability_payload.equality)

lemma validate_shape_iff:
  "validate_shape p = Inr () \<longleftrightarrow>
     cp_account_group_id p \<noteq> 0 \<and> 0 < cp_monotonic_sequence p \<and> (\<exists>b \<in> set (cp_nonce p). b \<noteq> 0)"
  by (auto simp: validate_shape_def is_nil_def list_all_iff word_gt_0)

lemma audit_code_inj: "audit_code a = audit_code b \<Longrightarrow> a = b"
  by (cases a; cases b; simp only: audit_code.simps; simp)

text \<open>
  C30. The bytes a capability signature covers determine the capability: two payloads with the same
  canonical bytes are the same payload, so a signature cannot be transferred to another group,
  operation, expiry, sequence or nonce.
\<close>

theorem canonical_bytes_injective: "canonical_bytes p = canonical_bytes q \<longleftrightarrow> p = q"
  by (rule canonical_bytes_inj)

end
