(* ===== verification/Capability_Ledger.thy ===== *)
theory Capability_Ledger
  imports Messages
begin

text \<open>
  \<open>crypto/capability.rs\<close>, \<open>lease/state_machine.rs\<close> and \<open>lease/store.rs\<close>: issuing a
  capability, reserving and consuming it in the per-group ledger, and the file that makes the
  ledger survive the process. A method of \<open>CapabilityLedger\<close> runs on the pair of the in-memory
  ledger and the world; the store it persists through (the trait \<open>CapabilityLedgerStore\<close>) is an
  argument, whose contract is the locale \<open>ledger_store\<close>.
\<close>

definition REPLAY_NONCE_WINDOW :: nat where
  "REPLAY_NONCE_WINDOW = 128"

record consumed_capability =
  cc_account_group_id :: uuid
  cc_operation :: capability_operation
  cc_monotonic_sequence :: u64

record capability_ledger =
  cl_account_group_id :: uuid
  cl_last_issued_sequence :: u64
  cl_last_consumed_sequence :: u64
  cl_consumed_nonces :: "nonce32 list"
  cl_pending :: "capability_payload option"

type_synonym ledger_store_fn = "capability_ledger \<Rightarrow> (world, unit) host"
type_synonym verifier_fn = "signed_capability \<Rightarrow> unit fcp_result"

definition new_payload ::
    "uuid \<Rightarrow> capability_operation \<Rightarrow> u64 \<Rightarrow> u64 \<Rightarrow> u64 \<Rightarrow> (world, capability_payload) host" where
  "new_payload account_group_id operation now_unix_ms lifetime_ms monotonic_sequence =
     seqR (reject (lifetime_ms = 0 \<or> CAPABILITY_MAX_LIFETIME_MS < lifetime_ms)
            (Capability ''lifetime must be within 1..={CAPABILITY_MAX_LIFETIME_MS} ms''))
    (bindR (ok_or (checked_add now_unix_ms lifetime_ms) (Capability ''expiry overflow'')) (\<lambda>expiry.
     bindR (fill_random 32) (\<lambda>nonce.
       let payload = \<lparr>cp_account_group_id = account_group_id, cp_operation = operation,
             cp_expiry_unix_ms = expiry, cp_monotonic_sequence = monotonic_sequence,
             cp_nonce = nonce\<rparr>
       in seqR (of_result (validate_shape payload)) (ret payload))))"

definition ledger_new :: "uuid \<Rightarrow> capability_ledger fcp_result" where
  "ledger_new account_group_id =
     (if is_nil account_group_id then Inl (Capability ''account group must not be nil'')
      else Inr \<lparr>cl_account_group_id = account_group_id, cl_last_issued_sequence = 0,
                cl_last_consumed_sequence = 0, cl_consumed_nonces = [], cl_pending = None\<rparr>)"

text \<open>\<open>store.persist(&next)?; *self = next;\<close>\<close>

definition commit_ledger ::
    "ledger_store_fn \<Rightarrow> capability_ledger \<Rightarrow> (capability_ledger \<times> world, unit) host" where
  "commit_ledger persist n = seqR (on_snd (persist n)) (modify (\<lambda>(_, w). (n, w)))"

definition reserve ::
    "ledger_store_fn \<Rightarrow> capability_operation \<Rightarrow> u64 \<Rightarrow> u64
     \<Rightarrow> (capability_ledger \<times> world, capability_payload) host" where
  "reserve persist operation now_unix_ms lifetime_ms =
     bindR (gets fst) (\<lambda>self.
     seqR (reject (cl_pending self \<noteq> None) (Capability ''another capability is already pending''))
    (bindR (ok_or (checked_add (cl_last_issued_sequence self) 1)
              (Capability ''monotonic sequence exhausted'')) (\<lambda>sequence.
     bindR (on_snd (new_payload (cl_account_group_id self) operation now_unix_ms lifetime_ms sequence))
       (\<lambda>payload.
         seqR (commit_ledger persist
                 (self\<lparr>cl_last_issued_sequence := sequence, cl_pending := Some payload\<rparr>))
              (ret payload)))))"

definition cancel_pending :: "ledger_store_fn \<Rightarrow> (capability_ledger \<times> world, unit) host" where
  "cancel_pending persist =
     bindR (gets fst) (\<lambda>self. commit_ledger persist (self\<lparr>cl_pending := None\<rparr>))"

text \<open>The loop that pops the oldest nonce while the window is over \<open>REPLAY_NONCE_WINDOW\<close>.\<close>

fun trim_window :: "nonce32 list \<Rightarrow> nonce32 list" where
  "trim_window xs = (if REPLAY_NONCE_WINDOW < length xs then trim_window (tl xs) else xs)"

declare trim_window.simps [simp del]

definition consumed_ledger :: "capability_payload \<Rightarrow> capability_ledger \<Rightarrow> capability_ledger" where
  "consumed_ledger p l = l\<lparr>cl_last_consumed_sequence := cp_monotonic_sequence p, cl_pending := None,
      cl_consumed_nonces := trim_window (cl_consumed_nonces l @ [cp_nonce p])\<rparr>"

definition verify_and_consume ::
    "ledger_store_fn \<Rightarrow> verifier_fn \<Rightarrow> signed_capability \<Rightarrow> capability_operation \<Rightarrow> u64
     \<Rightarrow> (capability_ledger \<times> world, consumed_capability) host" where
  "verify_and_consume persist verify_signature cap expected_operation now_unix_ms =
     (let p = sc_payload cap in
     bindR (gets fst) (\<lambda>self.
     seqR (of_result (validate_shape p))
    (seqR (of_result (verify_signature cap))
    (seqR (reject (cp_account_group_id p \<noteq> cl_account_group_id self)
             (Capability ''account group mismatch''))
    (seqR (reject (cp_operation p \<noteq> expected_operation) (Capability ''operation mismatch''))
    (seqR (reject (cp_expiry_unix_ms p < now_unix_ms) (Capability ''capability expired''))
    (seqR (reject (CAPABILITY_MAX_LIFETIME_MS < saturating_sub (cp_expiry_unix_ms p) now_unix_ms)
             (Capability ''capability expiry exceeds maximum remaining lifetime''))
    (seqR (reject (cp_monotonic_sequence p \<le> cl_last_consumed_sequence self)
             (Capability ''sequence replay detected''))
    (seqR (reject (List.member (cl_consumed_nonces self) (cp_nonce p))
             (Capability ''nonce replay detected''))
    (bindR (ok_or (cl_pending self) (Capability ''no capability is pending'')) (\<lambda>pending.
     seqR (reject (pending \<noteq> p)
             (Capability ''signed payload does not match the reserved transition''))
    (seqR (commit_ledger persist (consumed_ledger p self))
          (ret \<lparr>cc_account_group_id = cp_account_group_id p, cc_operation = cp_operation p,
                cc_monotonic_sequence = cp_monotonic_sequence p\<rparr>)))))))))))))"

subsection \<open>The ledger file\<close>

definition verify_ledger_bytes ::
    "capability_ledger codec \<Rightarrow> capability_ledger \<Rightarrow> byte list \<Rightarrow> unit fcp_result" where
  "verify_ledger_bytes c snapshot persisted =
     (case json_from_slice c persisted of Inl e \<Rightarrow> Inl e
      | Inr verified \<Rightarrow> if verified \<noteq> snapshot
          then Inl (Capability ''capability ledger read-back mismatch'') else Inr ())"

definition ledger_persist :: "capability_ledger codec \<Rightarrow> path \<Rightarrow> ledger_store_fn" where
  "ledger_persist c p snapshot =
     bindR (of_result (json_to_vec c snapshot)) (\<lambda>bytes.
       write_verified p bytes (verify_ledger_bytes c snapshot))"

definition ledger_load :: "capability_ledger codec \<Rightarrow> path \<Rightarrow> (world, capability_ledger) host" where
  "ledger_load c p = bindR (fs_read p) (\<lambda>bytes. of_result (json_from_slice c bytes))"

definition ledger_load_or_initialize ::
    "capability_ledger codec \<Rightarrow> path \<Rightarrow> uuid \<Rightarrow> (world, capability_ledger) host" where
  "ledger_load_or_initialize c p group_id =
     bindR (fs_exists p) (\<lambda>present.
       if present
       then bindR (ledger_load c p) (\<lambda>ledger.
              seqR (reject (cl_account_group_id ledger \<noteq> group_id)
                      (Capability ''persisted capability ledger belongs to another group''))
                   (ret ledger))
       else bindR (of_result (ledger_new group_id)) (\<lambda>ledger.
              seqR (ledger_persist c p ledger) (ret ledger)))"

lemmas ledger_defs [run_simps] =
  new_payload_def ledger_new_def commit_ledger_def reserve_def cancel_pending_def
  trim_window.simps consumed_ledger_def verify_and_consume_def verify_ledger_bytes_def
  ledger_persist_def ledger_load_def ledger_load_or_initialize_def
  validate_shape_def CAPABILITY_MAX_LIFETIME_MS_def REPLAY_NONCE_WINDOW_def

text \<open>The payload a reservation hands out, and the ledger that records it.\<close>

definition reservation ::
    "capability_ledger \<Rightarrow> capability_operation \<Rightarrow> u64 \<Rightarrow> u64 \<Rightarrow> capability_payload \<Rightarrow> bool" where
  "reservation l op now life p \<longleftrightarrow>
     cl_pending l = None \<and>
     checked_add (cl_last_issued_sequence l) 1 = Some (cp_monotonic_sequence p) \<and>
     cp_account_group_id p = cl_account_group_id l \<and> cp_operation p = op \<and>
     validate_shape p = Inr () \<and> nonce_ok (cp_nonce p) \<and>
     checked_add now life = Some (cp_expiry_unix_ms p) \<and>
     0 < life \<and> life \<le> CAPABILITY_MAX_LIFETIME_MS"

definition reserved_ledger :: "capability_payload \<Rightarrow> capability_ledger \<Rightarrow> capability_ledger" where
  "reserved_ledger p l =
     l\<lparr>cl_last_issued_sequence := cp_monotonic_sequence p, cl_pending := Some p\<rparr>"

lemmas ledger_result_defs [run_simps] = reserved_ledger_def

subsection \<open>The store's contract and what it gives the ledger\<close>

text \<open>
  The documented duty of a \<open>CapabilityLedgerStore\<close>: it replaces the snapshot atomically. After
  success the durable ledger is the new one; after a failure it is the old or the new one.
\<close>

locale ledger_store =
  fixes persist :: ledger_store_fn
    and durable :: "world \<Rightarrow> capability_ledger option"
  assumes persist_ok: "persist n w = (Inr (), w') \<Longrightarrow> durable w' = Some n"
    and persist_err: "persist n w = (Inl e, w') \<Longrightarrow> durable w' = durable w \<or> durable w' = Some n"
    and durable_advance: "durable (advance w) = durable w"
begin

lemma wp_commit_ledger:
  assumes "\<And>w'. durable w' = Some n \<Longrightarrow> Q () (n, w')"
    and "\<And>e w'. durable w' = durable w \<or> durable w' = Some n \<Longrightarrow> E e (l, w')"
  shows "wp (commit_ledger persist n) Q E (l, w)"
  using assms persist_ok persist_err
  by (auto simp: commit_ledger_def wp_simps intro!: wp_runI)

text \<open>
  Every outcome of a ledger method at once: on success memory and disk agree on the new ledger, on
  failure memory is untouched and the disk holds the old ledger or the one being written.
\<close>

lemma wp_new_payload:
  assumes "\<And>p w'. durable w' = durable w \<Longrightarrow> cp_account_group_id p = g \<Longrightarrow>
      cp_operation p = op \<Longrightarrow> cp_monotonic_sequence p = s \<Longrightarrow> validate_shape p = Inr () \<Longrightarrow>
      nonce_ok (cp_nonce p) \<Longrightarrow> checked_add now life = Some (cp_expiry_unix_ms p) \<Longrightarrow>
      0 < life \<and> life \<le> CAPABILITY_MAX_LIFETIME_MS \<Longrightarrow> Q p w'"
    and "\<And>e w'. durable w' = durable w \<Longrightarrow> E e w'"
  shows "wp (new_payload g op now life s) Q E w"
  unfolding new_payload_def
  by (auto simp: wp_simps Let_def durable_advance
      nonce_ok_def CAPABILITY_NONCE_BYTES_def word_gt_0 linorder_not_less
      split: option.split sum.split intro!: assms)

lemma wp_reserve:
  "wp (reserve persist op now life)
     (\<lambda>p (l', w'). durable w' = Some l' \<and> l' = reserved_ledger p l \<and> reservation l op now life p)
     (\<lambda>e (l', w'). l' = l \<and> (durable w' = durable w \<or>
        (\<exists>p. durable w' = Some (reserved_ledger p l) \<and> reservation l op now life p)))
     (l, w)"
  unfolding reserve_def
  by (auto simp: wp_simps reservation_def reserved_ledger_def
      split: option.split intro!: wp_new_payload wp_commit_ledger)

lemma wp_cancel_pending:
  "wp (cancel_pending persist)
     (\<lambda>_ (l', w'). durable w' = Some l' \<and> l' = l\<lparr>cl_pending := None\<rparr>)
     (\<lambda>e (l', w'). l' = l \<and> (durable w' = durable w \<or> durable w' = Some (l\<lparr>cl_pending := None\<rparr>)))
     (l, w)"
  unfolding cancel_pending_def by (auto simp: wp_simps intro!: wp_commit_ledger)

lemma wp_verify_and_consume:
  "wp (verify_and_consume persist verify cap op now)
     (\<lambda>cc (l', w'). durable w' = Some l' \<and> l' = consumed_ledger (sc_payload cap) l \<and>
        verify cap = Inr () \<and> cl_pending l = Some (sc_payload cap) \<and>
        cl_last_consumed_sequence l < cp_monotonic_sequence (sc_payload cap) \<and>
        cp_nonce (sc_payload cap) \<notin> set (cl_consumed_nonces l) \<and>
        cp_operation (sc_payload cap) = op \<and>
        cp_account_group_id (sc_payload cap) = cl_account_group_id l \<and>
        now \<le> cp_expiry_unix_ms (sc_payload cap) \<and>
        cc_account_group_id cc = cl_account_group_id l \<and> cc_operation cc = op \<and>
        cc_monotonic_sequence cc = cp_monotonic_sequence (sc_payload cap))
     (\<lambda>e (l', w'). l' = l \<and> (durable w' = durable w \<or>
        durable w' = Some (consumed_ledger (sc_payload cap) l) \<and> cl_pending l = Some (sc_payload cap)))
     (l, w)"
  unfolding verify_and_consume_def
  by (auto simp: wp_simps Let_def linorder_not_less linorder_not_le
      split: option.split sum.split intro!: wp_commit_ledger)

end

lemma verify_ledger_bytes_ok: "verify_ledger_bytes c n bs = Inr () \<Longrightarrow> from_slice c bs = Some n"
  by (auto simp: verify_ledger_bytes_def json_from_slice_def split: option.splits if_splits)

lemma wp_ledger_persist:
  "wp (ledger_persist c p n) (\<lambda>_ w'. stored c p w' = Some n)
     (\<lambda>e w'. stored c p w' = stored c p w \<or> stored c p w' = Some n) w"
proof (cases "json_to_vec c n")
  case (Inl e)
  then show ?thesis by (simp add: ledger_persist_def wp_simps)
next
  case (Inr bs)
  then show ?thesis unfolding ledger_persist_def
    by (simp add: wp_simps)
      (rule wp_mono [OF dw.wp_typed [where c = c and x = n]], auto dest: verify_ledger_bytes_ok)
qed

interpretation ledger_file: ledger_store "ledger_persist c p" "stored c p" for c p
proof
  show "ledger_persist c p n w = (Inr (), w') \<Longrightarrow> stored c p w' = Some n" for n w w'
    using wp_okD [OF _ wp_ledger_persist] by blast
  show "ledger_persist c p n w = (Inl e, w') \<Longrightarrow> stored c p w' = stored c p w \<or> stored c p w' = Some n"
    for n w e w'
    using wp_errD [OF _ wp_ledger_persist] by blast
  show "stored c p (advance w) = stored c p w" for w
    by (simp add: stored_def)
qed

subsection \<open>The ledger invariant\<close>

lemma trim_window_eq: "trim_window xs = drop (length xs - REPLAY_NONCE_WINDOW) xs"
proof (induction xs rule: trim_window.induct)
  case (1 xs)
  show ?case
  proof (cases "REPLAY_NONCE_WINDOW < length xs")
    case True
    then obtain y ys where xs: "xs = y # ys" by (cases xs) auto
    with True have "trim_window xs = drop (length ys - REPLAY_NONCE_WINDOW) ys"
      using 1 by (subst trim_window.simps) simp
    with True show ?thesis by (simp add: xs Suc_diff_le less_Suc_eq_le)
  next
    case False
    then show ?thesis by (simp add: trim_window.simps [of xs])
  qed
qed

definition ledger_inv :: "capability_ledger \<Rightarrow> bool" where
  "ledger_inv l \<longleftrightarrow>
     cl_account_group_id l \<noteq> 0 \<and>
     cl_last_consumed_sequence l \<le> cl_last_issued_sequence l \<and>
     length (cl_consumed_nonces l) \<le> REPLAY_NONCE_WINDOW \<and>
     list_all nonce_ok (cl_consumed_nonces l) \<and>
     (case cl_pending l of None \<Rightarrow> True | Some p \<Rightarrow>
        cp_account_group_id p = cl_account_group_id l \<and>
        cp_monotonic_sequence p = cl_last_issued_sequence l \<and>
        cl_last_consumed_sequence l < cp_monotonic_sequence p \<and>
        validate_shape p = Inr () \<and> nonce_ok (cp_nonce p))"

lemma ledger_inv_new: "ledger_new g = Inr l \<Longrightarrow> ledger_inv l"
  by (auto simp: ledger_new_def ledger_inv_def is_nil_def split: if_splits)

lemma ledger_inv_cancel: "ledger_inv l \<Longrightarrow> ledger_inv (l\<lparr>cl_pending := None\<rparr>)"
  by (simp add: ledger_inv_def)

lemma ledger_inv_reserved:
  assumes "ledger_inv l" and "reservation l op now life p"
  shows "ledger_inv (reserved_ledger p l)"
proof -
  have "cl_last_issued_sequence l < cp_monotonic_sequence p"
    using assms(2) by (auto simp: reservation_def intro: checked_add_one_less)
  with assms show ?thesis by (auto simp: ledger_inv_def reservation_def reserved_ledger_def)
qed

lemma ledger_inv_consumed:
  assumes "ledger_inv l" and "cl_pending l = Some p"
  shows "ledger_inv (consumed_ledger p l)"
  using assms
  by (auto simp: ledger_inv_def consumed_ledger_def trim_window_eq list_all_iff dest: in_set_dropD)

subsection \<open>Runs of the ledger across failures and restarts\<close>

text \<open>
  A run interleaves the methods, with any arguments and any I/O failure the world holds, with the
  loss of the process and its restart through \<open>load_or_initialize\<close>, and with steps of the
  environment that leave the ledger file alone. The state is the in-memory ledger (\<open>None\<close>
  while no process runs), the world, and the history of the capabilities handed out as consumed.
  A restart step is taken only where the metadata query behind \<open>Path::exists\<close> answers: the code
  takes a failed query for an absent file and starts a fresh ledger, which
  \<open>unreadable_ledger_is_forgotten\<close> states.
\<close>

type_synonym ledger_sys = "capability_ledger option \<times> world \<times> consumed_capability list"

inductive ledger_step ::
    "capability_ledger codec \<Rightarrow> path \<Rightarrow> uuid \<Rightarrow> verifier_fn \<Rightarrow> ledger_sys \<Rightarrow> ledger_sys \<Rightarrow> bool"
  for c p g verify where
    Reserve: "reserve (ledger_persist c p) op now life (l, w) = (r, (l', w')) \<Longrightarrow>
      ledger_step c p g verify (Some l, w, log) (Some l', w', log)"
  | Cancel: "cancel_pending (ledger_persist c p) (l, w) = (r, (l', w')) \<Longrightarrow>
      ledger_step c p g verify (Some l, w, log) (Some l', w', log)"
  | Consume: "verify_and_consume (ledger_persist c p) verify cap op now (l, w) = (Inr cc, (l', w')) \<Longrightarrow>
      ledger_step c p g verify (Some l, w, log) (Some l', w', log @ [cc])"
  | Consume_Err: "verify_and_consume (ledger_persist c p) verify cap op now (l, w) = (Inl e, (l', w')) \<Longrightarrow>
      ledger_step c p g verify (Some l, w, log) (Some l', w', log)"
  | Crash: "ledger_step c p g verify (m, w, log) (None, w, log)"
  | Restart: "\<not> stat_fault w (tick w) \<Longrightarrow> ledger_load_or_initialize c p g w = (Inr l, w') \<Longrightarrow>
      ledger_step c p g verify (None, w, log) (Some l, w', log)"
  | Restart_Err: "\<not> stat_fault w (tick w) \<Longrightarrow> ledger_load_or_initialize c p g w = (Inl e, w') \<Longrightarrow>
      ledger_step c p g verify (None, w, log) (None, w', log)"
  | Env: "lookup w' p = lookup w p \<Longrightarrow> ledger_step c p g verify (m, w, log) (m, w', log)"

definition ledger_reachable ::
    "capability_ledger codec \<Rightarrow> path \<Rightarrow> uuid \<Rightarrow> verifier_fn \<Rightarrow> ledger_sys \<Rightarrow> bool" where
  "ledger_reachable c p g verify s \<longleftrightarrow>
     (\<exists>w0. lookup w0 p = None \<and> rtranclp (ledger_step c p g verify) (None, w0, []) s)"

text \<open>What holds of any copy of the ledger, in memory or on disk, given the history.\<close>

definition copy_ok :: "uuid \<Rightarrow> consumed_capability list \<Rightarrow> capability_ledger \<Rightarrow> bool" where
  "copy_ok g log l \<longleftrightarrow> ledger_inv l \<and> cl_account_group_id l = g \<and>
     (\<forall>cc \<in> set log. cc_monotonic_sequence cc \<le> cl_last_consumed_sequence l)"

definition sys_inv :: "capability_ledger codec \<Rightarrow> path \<Rightarrow> uuid \<Rightarrow> ledger_sys \<Rightarrow> bool" where
  "sys_inv c p g = (\<lambda>(m, w, log).
     pred_option (copy_ok g log) m \<and> pred_option (copy_ok g log) (stored c p w) \<and>
     (log \<noteq> [] \<longrightarrow> stored c p w \<noteq> None) \<and>
     sorted_wrt (<) (map cc_monotonic_sequence log) \<and>
     (\<forall>cc \<in> set log. cc_account_group_id cc = g))"

lemma copy_ok_cancel: "copy_ok g log l \<Longrightarrow> copy_ok g log (l\<lparr>cl_pending := None\<rparr>)"
  by (auto simp: copy_ok_def ledger_inv_cancel)

lemma copy_ok_reserved:
  "copy_ok g log l \<Longrightarrow> reservation l op now life p \<Longrightarrow> copy_ok g log (reserved_ledger p l)"
  by (auto simp: copy_ok_def ledger_inv_reserved) (simp_all add: reserved_ledger_def)

lemma copy_ok_consumed:
  assumes "copy_ok g log l" and "cl_pending l = Some p"
  shows "copy_ok g log (consumed_ledger p l)"
    and "cc_monotonic_sequence cc = cp_monotonic_sequence p \<Longrightarrow> copy_ok g (log @ [cc]) (consumed_ledger p l)"
proof -
  have less: "cl_last_consumed_sequence l < cp_monotonic_sequence p"
    using assms by (auto simp: copy_ok_def ledger_inv_def)
  have inv: "ledger_inv (consumed_ledger p l)"
    using assms by (simp add: copy_ok_def ledger_inv_consumed)
  from less inv assms show "copy_ok g log (consumed_ledger p l)"
    and "cc_monotonic_sequence cc = cp_monotonic_sequence p \<Longrightarrow> copy_ok g (log @ [cc]) (consumed_ledger p l)"
    by (auto simp: copy_ok_def consumed_ledger_def intro: order.strict_implies_order order.trans)
qed

lemmas copy_ok_intros = copy_ok_cancel copy_ok_reserved copy_ok_consumed(1)

lemma load_or_initialize_spec:
  assumes "\<not> stat_fault w (tick w)"
  shows "wp (ledger_load_or_initialize c p g)
     (\<lambda>l w'. stored c p w' = Some l \<and> cl_account_group_id l = g \<and>
        (stored c p w = Some l \<or> lookup w p = None \<and> ledger_new g = Inr l))
     (\<lambda>e w'. stored c p w' = stored c p w \<or>
        lookup w p = None \<and> (\<exists>l. ledger_new g = Inr l \<and> stored c p w' = Some l)) w"
proof (cases "is_present w p")
  case True
  then show ?thesis using assms unfolding ledger_load_or_initialize_def ledger_load_def
    by (auto simp: wp_simps stored_def json_from_slice_def split: option.split)
next
  case False
  then have none: "lookup w p = None" by (auto simp: is_present_def)
  have w: "stored c p (advance w) = stored c p w" by (simp add: stored_def)
  show ?thesis using False none unfolding ledger_load_or_initialize_def
    by (cases "ledger_new g")
      (auto simp: wp_simps w ledger_new_def split: if_splits
        intro!: wp_mono [OF wp_ledger_persist])
qed

lemma sys_inv_initial: "lookup w p = None \<Longrightarrow> sys_inv c p g (None, w, [])"
  by (simp add: sys_inv_def stored_def)

lemma sys_inv_step:
  assumes "ledger_step c p g verify s t" and "sys_inv c p g s"
  shows "sys_inv c p g t"
  using assms
proof (induction rule: ledger_step.induct)
  case (Reserve op now life l w r l' w' log)
  show ?case
    using ledger_file.wp_reserve [of c p op now life l w] Reserve
    by (cases r) (auto simp: wp_def sys_inv_def intro: copy_ok_intros)
next
  case (Cancel l w r l' w' log)
  show ?case
    using ledger_file.wp_cancel_pending [of c p l w] Cancel
    by (cases r) (auto simp: wp_def sys_inv_def intro: copy_ok_intros)
next
  case (Consume cap op now l w cc l' w' log)
  have "stored c p w' = Some l' \<and> l' = consumed_ledger (sc_payload cap) l \<and>
      cl_pending l = Some (sc_payload cap) \<and>
      cl_last_consumed_sequence l < cp_monotonic_sequence (sc_payload cap) \<and>
      cc_account_group_id cc = cl_account_group_id l \<and>
      cc_monotonic_sequence cc = cp_monotonic_sequence (sc_payload cap)"
    using ledger_file.wp_verify_and_consume [of c p verify cap op now l w] Consume(1)
    by (auto simp: wp_def)
  with Consume(2) show ?case
    by (auto simp: sys_inv_def sorted_wrt_append copy_ok_consumed(2))
      (auto simp: copy_ok_def)
next
  case (Consume_Err cap op now l w e l' w' log)
  show ?case
    using ledger_file.wp_verify_and_consume [of c p verify cap op now l w] Consume_Err
    by (auto simp: wp_def sys_inv_def intro: copy_ok_intros)
next
  case (Crash m w log)
  then show ?case by (simp add: sys_inv_def)
next
  case (Restart w l w' log)
  show ?case
    using load_or_initialize_spec [OF Restart(1), of c p g] Restart(2,3)
    by (auto simp: wp_def sys_inv_def copy_ok_def stored_def ledger_inv_new)
next
  case (Restart_Err w e w' log)
  show ?case
    using load_or_initialize_spec [OF Restart_Err(1), of c p g] Restart_Err(2,3)
    by (auto simp: wp_def sys_inv_def copy_ok_def stored_def ledger_inv_new)
      (auto simp: ledger_new_def split: if_splits)
next
  case (Env w' w m log)
  then show ?case by (simp add: sys_inv_def stored_def)
qed

lemma sys_inv_reachable: "ledger_reachable c p g verify s \<Longrightarrow> sys_inv c p g s"
proof (unfold ledger_reachable_def, elim exE conjE)
  fix w0
  assume "lookup w0 p = None" and run: "rtranclp (ledger_step c p g verify) (None, w0, []) s"
  then have "sys_inv c p g (None, w0, [])" by (intro sys_inv_initial)
  from run this show "sys_inv c p g s"
    by (induction rule: rtranclp_induct) (auto intro: sys_inv_step)
qed

subsection \<open>Properties\<close>

text \<open>
  C3. Single use across failures and restarts. In every run of the ledger from an empty store,
  whatever reads, writes, renames and synchronisations fail and wherever the process dies and
  restarts, the capabilities handed out as consumed carry strictly increasing sequence numbers, so
  no capability is ever consumed twice, and every one of them belongs to the ledger's group. The
  hypotheses, which are the steps of the run: the metadata query with which a restart looks for the
  ledger file answers, and nobody but the ledger's own code changes that file.
\<close>

theorem capability_single_use:
  assumes "ledger_reachable c p g verify (m, w, log)"
  shows "sorted_wrt (<) (map cc_monotonic_sequence log) \<and> (\<forall>cc \<in> set log. cc_account_group_id cc = g)"
  using sys_inv_reachable [OF assms] by (simp add: sys_inv_def)

text \<open>
  In every such run the ledger in memory and the ledger on disk satisfy the ledger invariant:
  consumed never overtakes issued, a pending capability is the last one issued and still
  consumable, and the replay window holds at most 128 nonces of 32 bytes.
\<close>

theorem ledger_invariant:
  assumes "ledger_reachable c p g verify (m, w, log)" and "m = Some l \<or> stored c p w = Some l"
  shows "ledger_inv l"
  using sys_inv_reachable [OF assms(1)] assms(2) by (auto simp: sys_inv_def copy_ok_def)

text \<open>
  A capability is returned as consumed only after the ledger that records the consumption is
  durable: the file decodes to exactly the new in-memory ledger, in which the sequence is consumed
  and nothing is pending. The capability was the pending one, its signature verified, and it had
  not expired. On an error the in-memory ledger is unchanged.
\<close>

theorem consume_durable_before_return:
  assumes "verify_and_consume (ledger_persist c p) verify cap op now (l, w) = (r, (l', w'))"
  shows "case r of
      Inl e \<Rightarrow> l' = l
    | Inr cc \<Rightarrow> stored c p w' = Some l' \<and> cl_pending l' = None \<and>
        cl_last_consumed_sequence l' = cc_monotonic_sequence cc \<and>
        cl_pending l = Some (sc_payload cap) \<and> verify cap = Inr () \<and>
        cc_monotonic_sequence cc = cp_monotonic_sequence (sc_payload cap) \<and>
        cc_operation cc = op \<and> cc_account_group_id cc = cl_account_group_id l \<and>
        now \<le> cp_expiry_unix_ms (sc_payload cap)"
  using ledger_file.wp_verify_and_consume [of c p verify cap op now l w] assms
  by (auto simp: wp_def consumed_ledger_def split: sum.splits)

text \<open>
  Whatever the store and the verifier do, a capability whose sequence the ledger has already
  consumed is refused, and refused without touching the store.
\<close>

theorem consumed_capability_refused:
  assumes "cp_monotonic_sequence (sc_payload cap) \<le> cl_last_consumed_sequence l"
  shows "\<exists>e. verify_and_consume persist verify cap op now (l, w) = (Inl e, (l, w))"
proof -
  have "wp (verify_and_consume persist verify cap op now) (\<lambda>_ _. False) (\<lambda>_ s. s = (l, w)) (l, w)"
    using assms by (auto simp: verify_and_consume_def wp_simps Let_def split: option.split sum.split)
  then show ?thesis by (auto simp: wp_def split: prod.splits sum.splits)
qed

text \<open>
  Where the metadata query fails, a restart that succeeds has forgotten the ledger: whatever the file
  held, it is replaced by a new ledger in which no sequence number is issued or consumed.
\<close>

theorem unreadable_ledger_is_forgotten:
  assumes "stat_fault w (tick w)" and "ledger_load_or_initialize c p g w = (Inr l, w')"
  shows "cl_last_issued_sequence l = 0 \<and> cl_last_consumed_sequence l = 0 \<and> cl_consumed_nonces l = [] \<and>
    stored c p w' = Some l"
proof -
  have "wp (ledger_load_or_initialize c p g) (\<lambda>l w'. ledger_new g = Inr l \<and> stored c p w' = Some l) (\<lambda>_ _. True) w"
    using assms(1) unfolding ledger_load_or_initialize_def
    by (auto simp: wp_simps split: sum.split intro!: wp_mono [OF wp_ledger_persist])
  from wp_okD [OF assms(2) this] show ?thesis by (auto simp: ledger_new_def split: if_splits)
qed

text \<open>When the pending capability may be consumed now.\<close>

definition consumable :: "capability_ledger \<Rightarrow> verifier_fn \<Rightarrow> signed_capability \<Rightarrow> capability_operation \<Rightarrow> u64 \<Rightarrow> bool" where
  "consumable l verify cap op now \<longleftrightarrow> verify cap = Inr () \<and> cp_operation (sc_payload cap) = op \<and>
     now \<le> cp_expiry_unix_ms (sc_payload cap) \<and>
     cp_expiry_unix_ms (sc_payload cap) - now \<le> CAPABILITY_MAX_LIFETIME_MS \<and>
     cp_nonce (sc_payload cap) \<notin> set (cl_consumed_nonces l)"

text \<open>
  C36. Exactly when a reserved capability can be consumed: let it be the pending one of a well-formed
  ledger. If its signature verifies, it is for the expected operation, it has not expired and expires
  within a minute from now, and its nonce is not in the replay window, then the outcome is the outcome
  of the store alone: if the store accepts the new ledger, the capability is returned as consumed and
  the new ledger is in memory; if the store fails, its error is returned and the old ledger stays in
  memory. If one of these conditions fails, it is refused without touching the ledger or the store.
\<close>

theorem pending_capability_consumable:
  assumes "ledger_inv l" and "cl_pending l = Some (sc_payload cap)"
  shows "if consumable l verify cap op now
    then verify_and_consume persist verify cap op now (l, w) =
      (case persist (consumed_ledger (sc_payload cap) l) w of
         (Inl e, w') \<Rightarrow> (Inl e, (l, w'))
       | (Inr _, w') \<Rightarrow> (Inr \<lparr>cc_account_group_id = cl_account_group_id l, cc_operation = op,
             cc_monotonic_sequence = cp_monotonic_sequence (sc_payload cap)\<rparr>,
           (consumed_ledger (sc_payload cap) l, w')))
    else \<exists>e. verify_and_consume persist verify cap op now (l, w) = (Inl e, (l, w))"
proof (cases "consumable l verify cap op now")
  case True
  then show ?thesis using assms
    by (auto simp: consumable_def verify_and_consume_def commit_ledger_def monad_defs ledger_inv_def Let_def
        saturating_sub_def linorder_not_less linorder_not_le split: prod.split sum.split)
next
  case False
  have "wp (verify_and_consume persist verify cap op now) (\<lambda>_ _. False) (\<lambda>_ s. s = (l, w)) (l, w)"
    using False assms
    by (auto simp: consumable_def verify_and_consume_def wp_simps Let_def saturating_sub_def ledger_inv_def linorder_not_less
        linorder_not_le split: option.split sum.split)
  with False show ?thesis by (auto simp: wp_def split: prod.splits sum.splits)
qed

text \<open>
  A reservation hands out the next sequence number of this group with a lifetime of at most a
  minute, and only after the ledger file records it as pending; on an error the in-memory ledger is
  unchanged.
\<close>

theorem reserve_durable_before_return:
  assumes "reserve (ledger_persist c p) op now life (l, w) = (r, (l', w'))"
  shows "case r of
      Inl e \<Rightarrow> l' = l
    | Inr q \<Rightarrow> stored c p w' = Some l' \<and> cl_pending l' = Some q \<and> cl_pending l = None \<and>
        unat (cp_monotonic_sequence q) = unat (cl_last_issued_sequence l) + 1 \<and>
        cp_account_group_id q = cl_account_group_id l \<and> cp_operation q = op \<and>
        unat (cp_expiry_unix_ms q) = unat now + unat life \<and> unat life \<le> 60000"
proof -
  have "unat life \<le> 60000" if "life \<le> CAPABILITY_MAX_LIFETIME_MS"
    using that by (simp add: CAPABILITY_MAX_LIFETIME_MS_def word_le_nat_alt)
  with ledger_file.wp_reserve [of c p op now life l w] assms show ?thesis
    by (auto simp: wp_def reservation_def reserved_ledger_def dest!: checked_add_unat split: sum.splits)
qed

subsection \<open>A concrete run\<close>

text \<open>
  Group 5 starts with an empty store, reserves one inject capability, and consumes it.
\<close>

definition ex_path :: path where
  "ex_path = [Name ''data'', Name ''ledger.json'']"

definition ex_fresh :: capability_ledger where
  "ex_fresh = \<lparr>cl_account_group_id = 5, cl_last_issued_sequence = 0, cl_last_consumed_sequence = 0,
     cl_consumed_nonces = [], cl_pending = None\<rparr>"

definition ex_payload :: capability_payload where
  "ex_payload = \<lparr>cp_account_group_id = 5, cp_operation = CapInject, cp_expiry_unix_ms = 61000,
     cp_monotonic_sequence = 1, cp_nonce = map (\<lambda>_. 11) [0..<32]\<rparr>"

definition ex_cap :: signed_capability where
  "ex_cap = \<lparr>sc_payload = ex_payload, sc_signature = [], sc_proof_context = []\<rparr>"

definition ex_cc :: consumed_capability where
  "ex_cc = \<lparr>cc_account_group_id = 5, cc_operation = CapInject, cc_monotonic_sequence = 1\<rparr>"

definition ex_codec :: "capability_ledger codec" where
  "ex_codec = table_codec [ex_fresh, reserved_ledger ex_payload ex_fresh,
     consumed_ledger ex_payload (reserved_ledger ex_payload ex_fresh)]"

definition ex_w1 :: world where
  "ex_w1 = snd (ledger_load_or_initialize ex_codec ex_path 5 quiet_world)"

definition ex_s2 :: "capability_ledger \<times> world" where
  "ex_s2 = snd (reserve (ledger_persist ex_codec ex_path) CapInject 1000 60000 (ex_fresh, ex_w1))"

definition ex_s3 :: "capability_ledger \<times> world" where
  "ex_s3 = snd (verify_and_consume (ledger_persist ex_codec ex_path) (\<lambda>_. Inr ()) ex_cap CapInject 2000 ex_s2)"

lemmas ex_defs =
  ex_codec_def ex_path_def quiet_world_def table_codec_def ex_fresh_def ex_payload_def ex_cap_def
  upt_rec

lemma ex_load: "fst (ledger_load_or_initialize ex_codec ex_path 5 quiet_world) = Inr ex_fresh"
  by (simp add: run_simps ex_defs)

lemma ex_reserve:
  "fst (reserve (ledger_persist ex_codec ex_path) CapInject 1000 60000 (ex_fresh, ex_w1)) = Inr ex_payload"
  by (simp add: run_simps ex_defs ex_w1_def)

lemma ex_s2_memory: "fst ex_s2 = reserved_ledger ex_payload ex_fresh"
  by (simp add: run_simps ex_defs ex_w1_def ex_s2_def)

lemma ex_consume:
  "fst (verify_and_consume (ledger_persist ex_codec ex_path) (\<lambda>_. Inr ()) ex_cap CapInject 2000 ex_s2) =
     Inr ex_cc"
  by (simp add: run_simps ex_defs ex_w1_def ex_s2_def ex_cc_def)

lemma ex_load_run: "ledger_load_or_initialize ex_codec ex_path 5 quiet_world = (Inr ex_fresh, ex_w1)"
  by (simp add: prod_eq_iff ex_load ex_w1_def)

lemma ex_reserve_run:
  "reserve (ledger_persist ex_codec ex_path) CapInject 1000 60000 (ex_fresh, ex_w1) =
     (Inr ex_payload, (fst ex_s2, snd ex_s2))"
  by (simp add: prod_eq_iff ex_reserve ex_s2_def)

lemma ex_consume_run:
  "verify_and_consume (ledger_persist ex_codec ex_path) (\<lambda>_. Inr ()) ex_cap CapInject 2000
     (fst ex_s2, snd ex_s2) = (Inr ex_cc, (fst ex_s3, snd ex_s3))"
  by (simp add: prod_eq_iff ex_consume ex_s3_def)

lemma ex_reachable:
  "ledger_reachable ex_codec ex_path 5 (\<lambda>_. Inr ()) (Some (fst ex_s3), snd ex_s3, [ex_cc])"
proof -
  let ?step = "ledger_step ex_codec ex_path 5 (\<lambda>_. Inr ())"
  have "?step (None, quiet_world, []) (Some ex_fresh, ex_w1, [])"
    by (rule ledger_step.Restart) (simp add: quiet_world_def, rule ex_load_run)
  moreover have "?step (Some ex_fresh, ex_w1, []) (Some (fst ex_s2), snd ex_s2, [])"
    by (rule ledger_step.Reserve [OF ex_reserve_run])
  moreover have "?step (Some (fst ex_s2), snd ex_s2, []) (Some (fst ex_s3), snd ex_s3, [] @ [ex_cc])"
    by (rule ledger_step.Consume [OF ex_consume_run])
  ultimately have "rtranclp ?step (None, quiet_world, []) (Some (fst ex_s3), snd ex_s3, [ex_cc])"
    by (auto intro: converse_rtranclp_into_rtranclp)
  then show ?thesis unfolding ledger_reachable_def
    by (intro exI [of _ quiet_world]) (simp add: quiet_world_def lookup_def)
qed

theorem capability_single_use_witness:
  "ledger_reachable ex_codec ex_path 5 (\<lambda>_. Inr ()) (Some (fst ex_s3), snd ex_s3, [ex_cc]) \<and>
   sorted_wrt (<) (map cc_monotonic_sequence [ex_cc]) \<and> cc_account_group_id ex_cc = 5"
  using ex_reachable capability_single_use [OF ex_reachable] by simp

theorem ledger_invariant_witness:
  "ledger_reachable ex_codec ex_path 5 (\<lambda>_. Inr ()) (Some (fst ex_s3), snd ex_s3, [ex_cc]) \<and>
   ledger_inv (fst ex_s3)"
  using ex_reachable ledger_invariant [OF ex_reachable] by simp

theorem consume_durable_before_return_witness:
  "stored ex_codec ex_path (snd ex_s3) = Some (fst ex_s3) \<and>
   cl_last_consumed_sequence (fst ex_s3) = 1 \<and> cl_pending (fst ex_s2) = Some ex_payload"
  using consume_durable_before_return [OF ex_consume_run] by (simp add: ex_cc_def ex_cap_def)

theorem consumed_capability_refused_witness:
  "\<exists>e. verify_and_consume (ledger_persist ex_codec ex_path) (\<lambda>_. Inr ()) ex_cap CapInject 2000
     (consumed_ledger ex_payload ex_fresh, quiet_world) =
     (Inl e, (consumed_ledger ex_payload ex_fresh, quiet_world))"
  by (rule consumed_capability_refused) (simp add: ex_cap_def consumed_ledger_def)

lemma ex_pending:
  "ledger_inv (reserved_ledger ex_payload ex_fresh)" "cl_pending (reserved_ledger ex_payload ex_fresh) = Some (sc_payload ex_cap)"
  by (simp_all add: ex_defs reserved_ledger_def ledger_inv_def REPLAY_NONCE_WINDOW_def validate_shape_def is_nil_def
      nonce_ok_def CAPABILITY_NONCE_BYTES_def)

theorem pending_capability_consumable_witness:
  "verify_and_consume (\<lambda>_. ret ()) (\<lambda>_. Inr ()) ex_cap CapInject 2000 (reserved_ledger ex_payload ex_fresh, quiet_world) =
     (Inr ex_cc, (consumed_ledger ex_payload (reserved_ledger ex_payload ex_fresh), quiet_world)) \<and>
   verify_and_consume (\<lambda>_. fail Json) (\<lambda>_. Inr ()) ex_cap CapInject 2000 (reserved_ledger ex_payload ex_fresh, quiet_world) =
     (Inl Json, (reserved_ledger ex_payload ex_fresh, quiet_world)) \<and>
   (\<exists>e. verify_and_consume (\<lambda>_. ret ()) (\<lambda>_. Inr ()) ex_cap CapInject 62000 (reserved_ledger ex_payload ex_fresh, quiet_world) =
     (Inl e, (reserved_ledger ex_payload ex_fresh, quiet_world)))"
proof -
  have "consumable (reserved_ledger ex_payload ex_fresh) (\<lambda>_. Inr ()) ex_cap CapInject 2000"
    "\<not> consumable (reserved_ledger ex_payload ex_fresh) (\<lambda>_. Inr ()) ex_cap CapInject 62000"
    by (simp_all add: consumable_def ex_defs reserved_ledger_def CAPABILITY_MAX_LIFETIME_MS_def)
  then show ?thesis
    using pending_capability_consumable [OF ex_pending, of "\<lambda>_. Inr ()" CapInject 2000 "\<lambda>_. ret ()" quiet_world]
      pending_capability_consumable [OF ex_pending, of "\<lambda>_. Inr ()" CapInject 2000 "\<lambda>_. fail Json" quiet_world]
      pending_capability_consumable [OF ex_pending, of "\<lambda>_. Inr ()" CapInject 62000 "\<lambda>_. ret ()" quiet_world]
    by (simp add: ret_def fail_def ex_cc_def ex_cap_def) (simp add: ex_payload_def ex_fresh_def reserved_ledger_def)
qed

theorem unreadable_ledger_is_forgotten_witness:
  "\<exists>l w'. ledger_load_or_initialize ex_codec ex_path 5 (put_file ex_path [2] (quiet_world\<lparr>stat_fault := (\<lambda>_. True)\<rparr>)) = (Inr l, w') \<and>
     stored ex_codec ex_path (put_file ex_path [2] quiet_world) = Some (consumed_ledger ex_payload (reserved_ledger ex_payload ex_fresh)) \<and>
     cl_last_consumed_sequence l = 0"
proof -
  let ?w = "put_file ex_path [2] (quiet_world\<lparr>stat_fault := (\<lambda>_. True)\<rparr>)"
  have "fst (ledger_load_or_initialize ex_codec ex_path 5 ?w) = Inr ex_fresh"
    by (simp add: run_simps ex_defs)
  then obtain w' where run: "ledger_load_or_initialize ex_codec ex_path 5 ?w = (Inr ex_fresh, w')" by (metis prod.collapse)
  have "stat_fault ?w (tick ?w)" by simp
  from unreadable_ledger_is_forgotten [OF this run] run show ?thesis
    by (simp add: stored_def ex_codec_def table_codec_def lookup_def put_file_def quiet_world_def)
qed

theorem reserve_durable_before_return_witness:
  "stored ex_codec ex_path (snd ex_s2) = Some (fst ex_s2) \<and> cl_pending (fst ex_s2) = Some ex_payload"
  using reserve_durable_before_return [OF ex_reserve_run] by simp

end
