(* ===== verification/Vault_Format.thy ===== *)
theory Vault_Format
  imports Messages
begin

text \<open>
  \<open>vault/format.rs\<close>, \<open>vault/payload.rs\<close> and \<open>crypto/aead.rs\<close>: the binary vault
  record, its strict decoder, and sealing and opening of the cookie payload. AES-256-GCM
  (\<open>aes_gcm\<close>) and the payload's JSON codec are parameters.
\<close>

definition DEK_BYTES :: nat where "DEK_BYTES = 32"
definition GCM_NONCE_BYTES :: nat where "GCM_NONCE_BYTES = 12"
definition GCM_TAG_BYTES :: nat where "GCM_TAG_BYTES = 16"
definition WRAPPED_DEK_BYTES :: nat where "WRAPPED_DEK_BYTES = 256"

definition VAULT_MAGIC :: "byte list" where "VAULT_MAGIC = map byte_of_char ''FCPV''"
definition VAULT_FORMAT_VERSION :: u16 where "VAULT_FORMAT_VERSION = 1"
definition AEAD_ALG_AES_256_GCM :: u16 where "AEAD_ALG_AES_256_GCM = 1"
definition WRAP_ALG_RSA_2048_OAEP_SHA256 :: u16 where "WRAP_ALG_RSA_2048_OAEP_SHA256 = 1"
definition MAX_CIPHERTEXT_BYTES :: nat where "MAX_CIPHERTEXT_BYTES = 4 * 1024 * 1024"
definition FIXED_HEADER_BYTES :: nat where
  "FIXED_HEADER_BYTES = 4 + 2 + 2 + 16 + 2 + 2 + 16 + GCM_NONCE_BYTES + 2 + WRAPPED_DEK_BYTES + 4"
definition PAYLOAD_SCHEMA_VERSION :: u16 where "PAYLOAD_SCHEMA_VERSION = 1"

text \<open>The number of values of a \<open>usize\<close>.\<close>

definition usize_limit :: nat where "usize_limit = 2 ^ 64"

lemmas format_consts =
  GCM_NONCE_BYTES_def GCM_TAG_BYTES_def WRAPPED_DEK_BYTES_def FIXED_HEADER_BYTES_def
  MAX_CIPHERTEXT_BYTES_def usize_limit_def

type_synonym secret_dek = "byte list"

subsection \<open>Authenticated encryption\<close>

text \<open>
  The operations of \<open>Aes256Gcm\<close> as parameters: key, nonce, associated data, text; the detached
  encryption returns the ciphertext and the tag.
\<close>

record aead =
  aead_encrypt :: "byte list \<Rightarrow> byte list \<Rightarrow> byte list \<Rightarrow> byte list \<Rightarrow> (byte list \<times> byte list) option"
  aead_decrypt :: "byte list \<Rightarrow> byte list \<Rightarrow> byte list \<Rightarrow> byte list \<Rightarrow> byte list \<Rightarrow> byte list option"

definition dek_generate :: "(world, secret_dek) host" where
  "dek_generate = fill_random DEK_BYTES"

definition generate_nonce :: "(world, byte list) host" where
  "generate_nonce = fill_random GCM_NONCE_BYTES"

definition encrypt ::
    "aead \<Rightarrow> secret_dek \<Rightarrow> byte list \<Rightarrow> byte list \<Rightarrow> byte list \<Rightarrow> (byte list \<times> byte list) fcp_result" where
  "encrypt a dek nonce aad plaintext =
     (if length dek \<noteq> DEK_BYTES then Inl (Crypto ''invalid AES-256 key length'')
      else case aead_encrypt a dek nonce aad plaintext of
        None \<Rightarrow> Inl (Crypto ''AES-256-GCM encryption failed'')
      | Some r \<Rightarrow> Inr r)"

definition decrypt ::
    "aead \<Rightarrow> secret_dek \<Rightarrow> byte list \<Rightarrow> byte list \<Rightarrow> byte list \<Rightarrow> byte list \<Rightarrow> byte list fcp_result" where
  "decrypt a dek nonce aad ciphertext tag =
     (if length dek \<noteq> DEK_BYTES then Inl (Crypto ''invalid AES-256 key length'')
      else case aead_decrypt a dek nonce aad ciphertext tag of
        None \<Rightarrow> Inl (Crypto ''AES-256-GCM authentication failed'')
      | Some r \<Rightarrow> Inr r)"

text \<open>
  Documented behaviour of detached AES-GCM: the ciphertext has the length of the plaintext, the
  tag has 16 bytes, and decryption with the same key, nonce and associated data returns the
  plaintext.
\<close>

definition aead_correct :: "aead \<Rightarrow> bool" where
  "aead_correct a \<longleftrightarrow> (\<forall>k n aad pt ct t. aead_encrypt a k n aad pt = Some (ct, t) \<longrightarrow>
     length ct = length pt \<and> length t = GCM_TAG_BYTES \<and> aead_decrypt a k n aad ct t = Some pt)"

subsection \<open>The record\<close>

record vault_payload =
  vp_schema_version :: u16
  vp_vault_sequence :: u64
  vp_cookies :: "cookie_record list"

definition payload_empty :: vault_payload where
  "payload_empty = \<lparr>vp_schema_version = PAYLOAD_SCHEMA_VERSION, vp_vault_sequence = 0, vp_cookies = []\<rparr>"

record vault_header =
  vh_group_id :: uuid
  vh_kek_key_id :: "byte list"
  vh_nonce :: "byte list"
  vh_wrapped_dek :: "byte list"
  vh_ciphertext_len :: u32

record vault_record =
  vr_header :: vault_header
  vr_ciphertext :: "byte list"
  vr_tag :: "byte list"

definition header_new ::
    "uuid \<Rightarrow> byte list \<Rightarrow> byte list \<Rightarrow> byte list \<Rightarrow> nat \<Rightarrow> vault_header fcp_result" where
  "header_new group_id kek_key_id nonce wrapped_dek ciphertext_len =
     (if is_nil group_id then Inl (Format ''group_id must not be nil'')
      else if length wrapped_dek \<noteq> WRAPPED_DEK_BYTES
      then Inl (Format ''wrapped DEK must be {WRAPPED_DEK_BYTES} bytes'')
      else if MAX_CIPHERTEXT_BYTES < ciphertext_len
      then Inl (Format ''ciphertext exceeds {MAX_CIPHERTEXT_BYTES} byte limit'')
      else if 2 ^ 32 \<le> ciphertext_len then Inl (Format ''ciphertext length exceeds u32'')
      else Inr \<lparr>vh_group_id = group_id, vh_kek_key_id = kek_key_id, vh_nonce = nonce,
                vh_wrapped_dek = wrapped_dek, vh_ciphertext_len = of_nat ciphertext_len\<rparr>)"

definition header_validate :: "vault_header \<Rightarrow> unit fcp_result" where
  "header_validate h =
     (if is_nil (vh_group_id h) then Inl (Format ''group_id must not be nil'')
      else if length (vh_wrapped_dek h) \<noteq> WRAPPED_DEK_BYTES
      then Inl (Format ''wrapped DEK must be {WRAPPED_DEK_BYTES} bytes'')
      else if MAX_CIPHERTEXT_BYTES < unat (vh_ciphertext_len h)
      then Inl (Format ''ciphertext length exceeds limit'')
      else Inr ())"

definition header_encode :: "vault_header \<Rightarrow> byte list fcp_result" where
  "header_encode h = (case header_validate h of Inl e \<Rightarrow> Inl e | Inr _ \<Rightarrow>
     Inr (VAULT_MAGIC @ u16_to_le VAULT_FORMAT_VERSION @ u16_to_le (of_nat FIXED_HEADER_BYTES)
          @ uuid_as_bytes (vh_group_id h) @ u16_to_le AEAD_ALG_AES_256_GCM
          @ u16_to_le WRAP_ALG_RSA_2048_OAEP_SHA256 @ vh_kek_key_id h @ vh_nonce h
          @ u16_to_le (of_nat WRAPPED_DEK_BYTES) @ vh_wrapped_dek h
          @ u32_to_le (vh_ciphertext_len h)))"

definition record_validate :: "vault_record \<Rightarrow> unit fcp_result" where
  "record_validate r = (case header_validate (vr_header r) of Inl e \<Rightarrow> Inl e | Inr _ \<Rightarrow>
     if length (vr_ciphertext r) \<noteq> unat (vh_ciphertext_len (vr_header r))
     then Inl (Format ''ciphertext length does not match authenticated header'') else Inr ())"

definition record_encode :: "vault_record \<Rightarrow> byte list fcp_result" where
  "record_encode r = (case record_validate r of Inl e \<Rightarrow> Inl e | Inr _ \<Rightarrow>
     (case header_encode (vr_header r) of Inl e \<Rightarrow> Inl e
      | Inr bytes \<Rightarrow> Inr (bytes @ vr_ciphertext r @ vr_tag r)))"

subsection \<open>Sealing and opening\<close>

definition seal ::
    "aead \<Rightarrow> vault_payload codec \<Rightarrow> uuid \<Rightarrow> byte list \<Rightarrow> byte list \<Rightarrow> secret_dek \<Rightarrow> vault_payload
     \<Rightarrow> (world, vault_record) host" where
  "seal a c group_id kek_key_id wrapped_dek dek payload =
     seqR (reject (vp_schema_version payload \<noteq> PAYLOAD_SCHEMA_VERSION)
             (Format ''unsupported payload schema version {}''))
    (bindR (of_result (json_to_vec c payload)) (\<lambda>plaintext.
     bindR generate_nonce (\<lambda>nonce.
     bindR (of_result (header_new group_id kek_key_id nonce wrapped_dek (length plaintext))) (\<lambda>header.
     bindR (of_result (header_encode header)) (\<lambda>aad.
     bindR (of_result (encrypt a dek nonce aad plaintext)) (\<lambda>(ciphertext, tag).
       ret \<lparr>vr_header = header, vr_ciphertext = ciphertext, vr_tag = tag\<rparr>))))))"

definition open_record ::
    "aead \<Rightarrow> vault_payload codec \<Rightarrow> vault_record \<Rightarrow> secret_dek \<Rightarrow> vault_payload fcp_result" where
  "open_record a c r dek =
     (case record_validate r of Inl e \<Rightarrow> Inl e | Inr _ \<Rightarrow>
     (case header_encode (vr_header r) of Inl e \<Rightarrow> Inl e | Inr aad \<Rightarrow>
     (case decrypt a dek (vh_nonce (vr_header r)) aad (vr_ciphertext r) (vr_tag r) of
        Inl e \<Rightarrow> Inl e | Inr plaintext \<Rightarrow>
     (case json_from_slice c plaintext of Inl e \<Rightarrow> Inl e | Inr payload \<Rightarrow>
        if vp_schema_version payload \<noteq> PAYLOAD_SCHEMA_VERSION
        then Inl (Format ''unsupported payload schema version {}'') else Inr payload))))"

subsection \<open>The decoder\<close>

record cursor =
  cur_bytes :: "byte list"
  cur_position :: nat

definition cursor_take :: "nat \<Rightarrow> (cursor, byte list) host" where
  "cursor_take n = (\<lambda>c. let e = cur_position c + n in
     if usize_limit \<le> e then (Inl (Format ''vault cursor overflow''), c)
     else if length (cur_bytes c) < e then (Inl (Format ''vault record is truncated''), c)
     else (Inr (take n (drop (cur_position c) (cur_bytes c))), c\<lparr>cur_position := e\<rparr>))"

definition require_u16 :: "u16 \<Rightarrow> (cursor, unit) host" where
  "require_u16 expected = bindR (cursor_take 2) (\<lambda>b.
     reject (u16_from_le b \<noteq> expected) (Format ''unsupported {field}: expected {expected}, got {actual}''))"

definition decode_body :: "byte list \<Rightarrow> (cursor, vault_record) host" where
  "decode_body bytes =
     bindR (cursor_take 4) (\<lambda>magic.
     seqR (reject (magic \<noteq> VAULT_MAGIC) (Format ''vault magic mismatch''))
    (seqR (require_u16 VAULT_FORMAT_VERSION)
    (seqR (require_u16 (of_nat FIXED_HEADER_BYTES))
    (bindR (cursor_take 16) (\<lambda>group_bytes.
     seqR (require_u16 AEAD_ALG_AES_256_GCM)
    (seqR (require_u16 WRAP_ALG_RSA_2048_OAEP_SHA256)
    (bindR (cursor_take 16) (\<lambda>kek_key_id.
     bindR (cursor_take GCM_NONCE_BYTES) (\<lambda>nonce.
     seqR (require_u16 (of_nat WRAPPED_DEK_BYTES))
    (bindR (cursor_take WRAPPED_DEK_BYTES) (\<lambda>wrapped_dek.
     bindR (cursor_take 4) (\<lambda>len_bytes.
       let ciphertext_len = unat (u32_from_le len_bytes);
           expected_len = FIXED_HEADER_BYTES + ciphertext_len + GCM_TAG_BYTES
       in
     seqR (reject (MAX_CIPHERTEXT_BYTES < ciphertext_len) (Format ''ciphertext length exceeds limit''))
    (seqR (reject (usize_limit \<le> expected_len) (Format ''vault length overflow''))
    (seqR (reject (length bytes \<noteq> expected_len)
             (Format ''vault length mismatch: expected {expected_len}, got {}''))
    (bindR (cursor_take ciphertext_len) (\<lambda>ciphertext.
     bindR (cursor_take GCM_TAG_BYTES) (\<lambda>tag.
     bindR (of_result (header_new (uuid_from_bytes group_bytes) kek_key_id nonce wrapped_dek ciphertext_len))
       (\<lambda>header.
         let r = \<lparr>vr_header = header, vr_ciphertext = ciphertext, vr_tag = tag\<rparr> in
         seqR (of_result (record_validate r)) (ret r)))))))))))))))))))"

definition record_decode :: "byte list \<Rightarrow> vault_record fcp_result" where
  "record_decode bytes =
     (if length bytes < FIXED_HEADER_BYTES + GCM_TAG_BYTES then Inl (Format ''vault record is truncated'')
      else fst (decode_body bytes \<lparr>cur_bytes = bytes, cur_position = 0\<rparr>))"

lemmas format_defs [run_simps] =
  encrypt_def decrypt_def header_new_def header_validate_def header_encode_def record_validate_def
  record_encode_def seal_def open_record_def cursor_take_def require_u16_def decode_body_def
  record_decode_def dek_generate_def generate_nonce_def VAULT_MAGIC_def VAULT_FORMAT_VERSION_def
  AEAD_ALG_AES_256_GCM_def WRAP_ALG_RSA_2048_OAEP_SHA256_def PAYLOAD_SCHEMA_VERSION_def DEK_BYTES_def

text \<open>The array lengths that the Rust types of a record fix.\<close>

definition record_typed :: "vault_record \<Rightarrow> bool" where
  "record_typed r \<longleftrightarrow> length (vh_kek_key_id (vr_header r)) = 16 \<and>
     length (vh_nonce (vr_header r)) = GCM_NONCE_BYTES \<and> length (vr_tag r) = GCM_TAG_BYTES"

definition record_ok :: "vault_record \<Rightarrow> bool" where
  "record_ok r \<longleftrightarrow> record_typed r \<and> record_validate r = Inr ()"

lemma wp_cursor_take [wp_simps]:
  "wp (cursor_take n) Q E c =
     (if usize_limit \<le> cur_position c + n then E (Format ''vault cursor overflow'') c
      else if length (cur_bytes c) < cur_position c + n then E (Format ''vault record is truncated'') c
      else Q (take n (drop (cur_position c) (cur_bytes c))) (c\<lparr>cur_position := cur_position c + n\<rparr>))"
  by (simp add: wp_def cursor_take_def Let_def)

lemma wp_require_u16 [wp_simps]:
  "wp (require_u16 x) Q E =
     wp (cursor_take 2) (\<lambda>b. if u16_from_le b \<noteq> x
        then E (Format ''unsupported {field}: expected {expected}, got {actual}'') else Q ()) E"
  by (simp add: require_u16_def wp_bindR wp_reject)

subsection \<open>Decoding is the inverse of encoding\<close>

lemma slice_step: "k + n = m \<Longrightarrow> drop k xs = take n (drop k xs) @ drop m xs"
  by (metis append_take_drop_id drop_drop add.commute)

text \<open>The layout of a record of \<open>n\<close> ciphertext bytes, as slices.\<close>

lemma record_slices:
  assumes "length bs = 318 + n + 16"
  shows "bs = take 4 bs @ take 2 (drop 4 bs) @ take 2 (drop 6 bs) @ take 16 (drop 8 bs)
    @ take 2 (drop 24 bs) @ take 2 (drop 26 bs) @ take 16 (drop 28 bs) @ take 12 (drop 44 bs)
    @ take 2 (drop 56 bs) @ take 256 (drop 58 bs) @ take 4 (drop 314 bs) @ take n (drop 318 bs)
    @ take 16 (drop (318 + n) bs)"
proof -
  have "bs = take 4 bs @ drop 4 bs" by simp
  also have "drop 4 bs = take 2 (drop 4 bs) @ drop 6 bs" by (rule slice_step) simp
  also have "drop 6 bs = take 2 (drop 6 bs) @ drop 8 bs" by (rule slice_step) simp
  also have "drop 8 bs = take 16 (drop 8 bs) @ drop 24 bs" by (rule slice_step) simp
  also have "drop 24 bs = take 2 (drop 24 bs) @ drop 26 bs" by (rule slice_step) simp
  also have "drop 26 bs = take 2 (drop 26 bs) @ drop 28 bs" by (rule slice_step) simp
  also have "drop 28 bs = take 16 (drop 28 bs) @ drop 44 bs" by (rule slice_step) simp
  also have "drop 44 bs = take 12 (drop 44 bs) @ drop 56 bs" by (rule slice_step) simp
  also have "drop 56 bs = take 2 (drop 56 bs) @ drop 58 bs" by (rule slice_step) simp
  also have "drop 58 bs = take 256 (drop 58 bs) @ drop 314 bs" by (rule slice_step) simp
  also have "drop 314 bs = take 4 (drop 314 bs) @ drop 318 bs" by (rule slice_step) simp
  also have "drop 318 bs = take n (drop 318 bs) @ drop (318 + n) bs" by (rule slice_step) simp
  also have "drop (318 + n) bs = take 16 (drop (318 + n) bs)" using assms by simp
  finally show ?thesis .
qed

lemma u16_field: "length b = 2 \<Longrightarrow> u16_from_le b = x \<longleftrightarrow> b = u16_to_le x"
  by (metis u16_le.dec_enc u16_le.enc_dec)

lemma u32_field: "length b = 4 \<Longrightarrow> u32_to_le (u32_from_le b) = b"
  by (rule u32_le.enc_dec)

text \<open>The record those slices make, and that it encodes back to them.\<close>

definition sliced_record :: "byte list \<Rightarrow> vault_record" where
  "sliced_record bs = (let n = unat (u32_from_le (take 4 (drop 314 bs))) in
     \<lparr>vr_header = \<lparr>vh_group_id = uuid_from_bytes (take 16 (drop 8 bs)),
        vh_kek_key_id = take 16 (drop 28 bs), vh_nonce = take 12 (drop 44 bs),
        vh_wrapped_dek = take 256 (drop 58 bs), vh_ciphertext_len = u32_from_le (take 4 (drop 314 bs))\<rparr>,
      vr_ciphertext = take n (drop 318 bs), vr_tag = take 16 (drop (318 + n) bs)\<rparr>)"

definition sliced_ok :: "byte list \<Rightarrow> bool" where
  "sliced_ok bs \<longleftrightarrow>
     length bs = 318 + unat (u32_from_le (take 4 (drop 314 bs))) + 16 \<and>
     take 4 bs = VAULT_MAGIC \<and>
     u16_from_le (take 2 (drop 4 bs)) = VAULT_FORMAT_VERSION \<and>
     u16_from_le (take 2 (drop 6 bs)) = of_nat FIXED_HEADER_BYTES \<and>
     u16_from_le (take 2 (drop 24 bs)) = AEAD_ALG_AES_256_GCM \<and>
     u16_from_le (take 2 (drop 26 bs)) = WRAP_ALG_RSA_2048_OAEP_SHA256 \<and>
     u16_from_le (take 2 (drop 56 bs)) = of_nat WRAPPED_DEK_BYTES"

lemma sliced_record_encode:
  assumes ok: "sliced_ok bs" and valid: "record_validate (sliced_record bs) = Inr ()"
  shows "record_encode (sliced_record bs) = Inr bs"
proof -
  let ?n = "unat (u32_from_le (take 4 (drop 314 bs)))"
  from ok have len: "length bs = 318 + ?n + 16" unfolding sliced_ok_def by (rule conjunct1)
  then have "334 \<le> length bs" by linarith
  then have w: "length (take 2 (drop 4 bs)) = 2" "length (take 2 (drop 6 bs)) = 2"
    "length (take 2 (drop 24 bs)) = 2" "length (take 2 (drop 26 bs)) = 2"
    "length (take 2 (drop 56 bs)) = 2" "length (take 4 (drop 314 bs)) = 4"
    "length (take 16 (drop 8 bs)) = 16" by simp_all
  have f: "VAULT_MAGIC = take 4 bs" "u16_to_le VAULT_FORMAT_VERSION = take 2 (drop 4 bs)"
    "u16_to_le (of_nat FIXED_HEADER_BYTES) = take 2 (drop 6 bs)"
    "u16_to_le AEAD_ALG_AES_256_GCM = take 2 (drop 24 bs)"
    "u16_to_le WRAP_ALG_RSA_2048_OAEP_SHA256 = take 2 (drop 26 bs)"
    "u16_to_le (of_nat WRAPPED_DEK_BYTES) = take 2 (drop 56 bs)"
    using ok unfolding sliced_ok_def by (metis u16_field w)+
  have g: "uuid_as_bytes (uuid_from_bytes (take 16 (drop 8 bs))) = take 16 (drop 8 bs)"
    "u32_to_le (u32_from_le (take 4 (drop 314 bs))) = take 4 (drop 314 bs)"
    by (rule uuid_be.enc_dec [OF w(7)], rule u32_le.enc_dec [OF w(6)])
  have h: "header_validate (vr_header (sliced_record bs)) = Inr ()"
    using valid by (auto simp: record_validate_def split: sum.splits)
  have "record_encode (sliced_record bs) =
      Inr (take 4 bs @ take 2 (drop 4 bs) @ take 2 (drop 6 bs) @ take 16 (drop 8 bs)
    @ take 2 (drop 24 bs) @ take 2 (drop 26 bs) @ take 16 (drop 28 bs) @ take 12 (drop 44 bs)
    @ take 2 (drop 56 bs) @ take 256 (drop 58 bs) @ take 4 (drop 314 bs) @ take ?n (drop 318 bs)
    @ take 16 (drop (318 + ?n) bs))"
    unfolding record_encode_def valid header_encode_def h f
    by (simp only: sliced_record_def Let_def vault_record.simps vault_header.simps g sum.case append_assoc)
  also have "\<dots> = Inr bs" by (simp only: record_slices [OF len, symmetric])
  finally show ?thesis .
qed

lemma decode_body_sliced:
  "wp (decode_body bs)
     (\<lambda>r _. sliced_ok bs \<and> r = sliced_record bs \<and> record_validate r = Inr ()) (\<lambda>_ _. True)
     \<lparr>cur_bytes = bs, cur_position = 0\<rparr>"
  by (simp add: decode_body_def wp_simps Let_def header_new_def format_consts sliced_ok_def
      sliced_record_def split: sum.split del: take_all drop_all)

lemma decode_sound:
  assumes "record_decode bs = Inr r"
  shows "record_ok r \<and> record_encode r = Inr bs"
proof -
  have r: "sliced_ok bs" "r = sliced_record bs" "record_validate r = Inr ()"
    using decode_body_sliced [of bs] assms
    by (auto simp: wp_def record_decode_def split: if_splits prod.splits)
  moreover have "record_typed r"
    using r(1) unfolding r(2)
    by (simp add: sliced_ok_def record_typed_def sliced_record_def Let_def format_consts
        del: take_all drop_all)
  ultimately show ?thesis by (simp add: record_ok_def sliced_record_encode)
qed

lemma sliced_record_validate:
  "record_validate (sliced_record bs) = Inr () \<Longrightarrow>
     \<not> is_nil (uuid_from_bytes (take 16 (drop 8 bs))) \<and> length (take 256 (drop 58 bs)) = WRAPPED_DEK_BYTES \<and>
     unat (u32_from_le (take 4 (drop 314 bs))) \<le> MAX_CIPHERTEXT_BYTES"
  by (auto simp: record_validate_def header_validate_def sliced_record_def Let_def split: if_splits)

lemma decode_body_complete:
  assumes ok: "sliced_ok bs" and valid: "record_validate (sliced_record bs) = Inr ()"
  shows "wp (decode_body bs) (\<lambda>r _. r = sliced_record bs) (\<lambda>_ _. False)
     \<lparr>cur_bytes = bs, cur_position = 0\<rparr>"
proof -
  let ?n = "unat (u32_from_le (take 4 (drop 314 bs)))"
  have "length bs = 318 + ?n + 16" using ok unfolding sliced_ok_def by (rule conjunct1)
  moreover have n: "?n \<le> 4194304" and "\<not> is_nil (uuid_from_bytes (take 16 (drop 8 bs)))"
    and "length (take 256 (drop 58 bs)) = 256"
    using sliced_record_validate [OF valid] by (simp_all add: format_consts)
  moreover have "334 \<le> length bs" using calculation by linarith
  moreover have "sliced_record bs =
      \<lparr>vr_header = \<lparr>vh_group_id = uuid_from_bytes (take 16 (drop 8 bs)),
        vh_kek_key_id = take 16 (drop 28 bs), vh_nonce = take 12 (drop 44 bs),
        vh_wrapped_dek = take 256 (drop 58 bs), vh_ciphertext_len = u32_from_le (take 4 (drop 314 bs))\<rparr>,
      vr_ciphertext = take ?n (drop 318 bs), vr_tag = take 16 (drop (318 + ?n) bs)\<rparr>"
    by (simp only: sliced_record_def Let_def)
  ultimately show ?thesis using ok valid
    by (simp add: decode_body_def wp_simps Let_def header_new_def format_consts sliced_ok_def
        del: take_all drop_all)
qed

lemma encode_sliced:
  assumes ok: "record_ok r" and enc: "record_encode r = Inr bs"
  shows "sliced_ok bs \<and> sliced_record bs = r"
proof -
  let ?h = "vr_header r"
  have hv: "header_validate ?h = Inr ()"
    using ok by (auto simp: record_ok_def record_validate_def split: sum.splits)
  have len: "length (vh_kek_key_id ?h) = 16" "length (vh_nonce ?h) = 12" "length (vr_tag r) = 16"
    "length (vh_wrapped_dek ?h) = 256" "length (vr_ciphertext r) = unat (vh_ciphertext_len ?h)"
    "length VAULT_MAGIC = 4"
    using ok hv
    by (auto simp: record_ok_def record_typed_def record_validate_def header_validate_def
        format_consts VAULT_MAGIC_def split: if_splits)
  have bs: "bs = VAULT_MAGIC @ u16_to_le VAULT_FORMAT_VERSION @ u16_to_le (of_nat FIXED_HEADER_BYTES)
      @ uuid_as_bytes (vh_group_id ?h) @ u16_to_le AEAD_ALG_AES_256_GCM
      @ u16_to_le WRAP_ALG_RSA_2048_OAEP_SHA256 @ vh_kek_key_id ?h @ vh_nonce ?h
      @ u16_to_le (of_nat WRAPPED_DEK_BYTES) @ vh_wrapped_dek ?h
      @ u32_to_le (vh_ciphertext_len ?h) @ vr_ciphertext r @ vr_tag r"
    using enc ok hv by (simp add: record_encode_def header_encode_def record_ok_def)
  have n: "take 4 (drop 314 bs) = u32_to_le (vh_ciphertext_len ?h)"
    unfolding bs by (simp add: len)
  then have u: "u32_from_le (take 4 (drop 314 bs)) = vh_ciphertext_len ?h" by simp
  have "sliced_ok bs"
    unfolding sliced_ok_def u by (simp add: bs len)
  moreover have "sliced_record bs = r"
    unfolding sliced_record_def u Let_def by (simp add: bs len)
  ultimately show ?thesis by simp
qed

lemma decode_complete:
  assumes ok: "record_ok r" and enc: "record_encode r = Inr bs"
  shows "record_decode bs = Inr r"
proof -
  have s: "sliced_ok bs" "sliced_record bs = r" using encode_sliced [OF assms] by simp_all
  then have "length bs = 318 + unat (u32_from_le (take 4 (drop 314 bs))) + 16"
    unfolding sliced_ok_def by blast
  then have "\<not> length bs < FIXED_HEADER_BYTES + GCM_TAG_BYTES"
    unfolding format_consts by linarith
  moreover have "record_validate (sliced_record bs) = Inr ()" using ok s by (simp add: record_ok_def)
  ultimately show ?thesis
    using decode_body_complete [OF s(1)] s(2)
    by (auto simp: record_decode_def wp_def split: prod.splits sum.splits)
qed

text \<open>What \<open>seal\<close> produces opens to the payload it was given.\<close>

lemma header_new_ok:
  "header_new g k n d l = Inr h \<longleftrightarrow>
     g \<noteq> 0 \<and> length d = WRAPPED_DEK_BYTES \<and> l \<le> MAX_CIPHERTEXT_BYTES \<and>
     h = \<lparr>vh_group_id = g, vh_kek_key_id = k, vh_nonce = n, vh_wrapped_dek = d, vh_ciphertext_len = of_nat l\<rparr>"
  by (auto simp: header_new_def is_nil_def format_consts)

lemma seal_wp:
  assumes "aead_correct a" and "length k = 16"
    and "\<And>bs. to_vec c x = Some bs \<Longrightarrow> from_slice c bs = Some x"
  shows "wp (seal a c g k d dek x)
     (\<lambda>r w'. record_ok r \<and> vh_group_id (vr_header r) = g \<and> vh_kek_key_id (vr_header r) = k \<and>
        vh_wrapped_dek (vr_header r) = d \<and> open_record a c r dek = Inr x \<and> lookup w' = lookup w)
     (\<lambda>_ w'. lookup w' = lookup w) w"
proof -
  have u: "unat (of_nat l :: u32) = l" if "l \<le> MAX_CIPHERTEXT_BYTES" for l
    using that by (intro unat_of_nat_small) (simp add: format_consts)
  show ?thesis
    using assms unfolding seal_def generate_nonce_def
    by (auto simp: wp_simps header_new_ok json_to_vec_def header_encode_def header_validate_def u
        is_nil_def encrypt_def aead_correct_def open_record_def record_validate_def decrypt_def
        json_from_slice_def record_ok_def record_typed_def GCM_NONCE_BYTES_def fun_eq_iff
        split: option.split sum.split prod.split)
qed

subsection \<open>Properties\<close>

lemma record_encode_ok: "record_ok r \<Longrightarrow> \<exists>bs. record_encode r = Inr bs"
  by (auto simp: record_ok_def record_encode_def record_validate_def header_encode_def split: sum.splits)

text \<open>
  C12. Round trip of the vault file format: every well-formed vault record encodes, and decoding
  the encoding gives the record back.
\<close>

theorem vault_record_round_trip:
  assumes "record_ok r"
  shows "\<exists>bs. record_encode r = Inr bs \<and> record_decode bs = Inr r"
  using record_encode_ok [OF assms] decode_complete [OF assms] by blast

text \<open>
  The decoder accepts only canonical encodings: if a byte string decodes to a record, the
  record is well-formed and encodes to exactly that byte string. In particular a truncated file, a
  file with trailing bytes, another magic, version, algorithm or header length, or an oversized
  ciphertext is refused, and no two different files decode to the same record.
\<close>

theorem vault_decode_canonical:
  assumes "record_decode bs = Inr r"
  shows "record_ok r \<and> record_encode r = Inr bs"
  using assms by (rule decode_sound)

text \<open>
  Sealing then storing then opening: under the documented behaviour of AES-GCM and a JSON codec
  that reads back the payload, a sealed record survives encoding and decoding, names the group, key
  id and wrapped key it was sealed for, and opens under the same key to the payload; sealing
  changes no file.
\<close>

theorem seal_open_round_trip:
  assumes "aead_correct a" and "length kek_key_id = 16"
    and "\<And>bs. to_vec c payload = Some bs \<Longrightarrow> from_slice c bs = Some payload"
    and "seal a c g kek_key_id wrapped dek payload w = (Inr r, w')"
  shows "\<exists>bs. record_encode r = Inr bs \<and> record_decode bs = Inr r \<and>
     open_record a c r dek = Inr payload \<and> vh_group_id (vr_header r) = g \<and>
     vh_wrapped_dek (vr_header r) = wrapped \<and> lookup w' = lookup w"
proof -
  have "record_ok r \<and> vh_group_id (vr_header r) = g \<and> vh_wrapped_dek (vr_header r) = wrapped \<and>
      open_record a c r dek = Inr payload \<and> lookup w' = lookup w"
    using wp_okD [OF assms(4) seal_wp [OF assms(1-3)]] by blast
  then show ?thesis using record_encode_ok decode_complete by blast
qed

subsection \<open>A concrete record\<close>

definition ex_aead :: aead where
  "ex_aead = \<lparr>aead_encrypt = (\<lambda>k n aad pt. Some (pt, replicate 16 0)),
              aead_decrypt = (\<lambda>k n aad ct t. Some ct)\<rparr>"

definition ex_vault_payload :: vault_payload where
  "ex_vault_payload = \<lparr>vp_schema_version = 1, vp_vault_sequence = 1, vp_cookies = []\<rparr>"

definition ex_vault_codec :: "vault_payload codec" where
  "ex_vault_codec = table_codec [ex_vault_payload]"

definition ex_dek :: secret_dek where
  "ex_dek = replicate 32 7"

definition ex_record :: vault_record where
  "ex_record = \<lparr>vr_header = \<lparr>vh_group_id = 5, vh_kek_key_id = replicate 16 1, vh_nonce = replicate 12 2,
     vh_wrapped_dek = replicate 256 9, vh_ciphertext_len = 1\<rparr>, vr_ciphertext = [0], vr_tag = replicate 16 0\<rparr>"

lemma ex_record_ok: "record_ok ex_record"
  by (simp add: ex_record_def record_ok_def record_typed_def record_validate_def header_validate_def
      format_consts is_nil_def)

lemma ex_record_decode: "\<exists>bs. record_decode bs = Inr ex_record"
  using record_encode_ok [OF ex_record_ok] decode_complete [OF ex_record_ok] by blast

theorem vault_record_round_trip_witness:
  "record_ok ex_record \<and> (\<exists>bs. record_encode ex_record = Inr bs \<and> record_decode bs = Inr ex_record)"
  using ex_record_ok vault_record_round_trip [OF ex_record_ok] by simp

theorem vault_decode_canonical_witness:
  "\<exists>bs. record_decode bs = Inr ex_record \<and> record_encode ex_record = Inr bs"
  using ex_record_decode vault_decode_canonical by blast

lemma ex_seal:
  "fst (seal ex_aead ex_vault_codec 5 (replicate 16 1) (replicate 256 9) ex_dek ex_vault_payload quiet_world)
     = Inr \<lparr>vr_header = \<lparr>vh_group_id = 5, vh_kek_key_id = replicate 16 1, vh_nonce = map (\<lambda>_. 2) [0..<12],
       vh_wrapped_dek = replicate 256 9, vh_ciphertext_len = 1\<rparr>, vr_ciphertext = [0], vr_tag = replicate 16 0\<rparr>"
  by (simp add: run_simps ex_aead_def ex_vault_codec_def table_codec_def ex_vault_payload_def ex_dek_def
      quiet_world_def format_consts is_nil_def del: replicate_0)

theorem seal_open_round_trip_witness:
  "\<exists>r. fst (seal ex_aead ex_vault_codec 5 (replicate 16 1) (replicate 256 9) ex_dek ex_vault_payload quiet_world) = Inr r
     \<and> open_record ex_aead ex_vault_codec r ex_dek = Inr ex_vault_payload \<and> vh_group_id (vr_header r) = 5"
proof -
  let ?run = "seal ex_aead ex_vault_codec 5 (replicate 16 1) (replicate 256 9) ex_dek ex_vault_payload quiet_world"
  obtain r where r: "fst ?run = Inr r" using ex_seal by blast
  then have run: "?run = (Inr r, snd ?run)" by (simp add: prod_eq_iff)
  have "aead_correct ex_aead" by (simp add: aead_correct_def ex_aead_def GCM_TAG_BYTES_def)
  then have "open_record ex_aead ex_vault_codec r ex_dek = Inr ex_vault_payload \<and> vh_group_id (vr_header r) = 5"
    using seal_open_round_trip [OF _ _ table_codec_read_back run [unfolded ex_vault_codec_def]]
    by (simp add: ex_vault_codec_def) blast
  with r show ?thesis by blast
qed

end
