(* ===== verification/Vault_Store.thy ===== *)
theory Vault_Store
  imports Vault_Format
begin

text \<open>
  \<open>vault/store.rs\<close>: one encrypted vault file per group under a root directory, the verified
  write of a prepared record, and the staged deletion that makes group removal recoverable.
  \<open>Uuid::parse_str\<close> is a parameter of the directory scan.
\<close>

type_synonym vault_store = path

definition path_for :: "vault_store \<Rightarrow> uuid \<Rightarrow> path" where
  "path_for root group_id = root @ [IdName group_id ''.fcpv'']"

definition staged_delete_path_for :: "vault_store \<Rightarrow> uuid \<Rightarrow> path" where
  "staged_delete_path_for root group_id = root @ [IdName group_id ''.fcpv.delete-pending'']"

definition vault_read :: "vault_store \<Rightarrow> uuid \<Rightarrow> (world, vault_record) host" where
  "vault_read root group_id =
     bindR (fs_read (path_for root group_id)) (\<lambda>bytes. of_result (record_decode bytes))"

definition vault_read_bytes :: "vault_store \<Rightarrow> uuid \<Rightarrow> (world, byte list) host" where
  "vault_read_bytes root group_id = fs_read (path_for root group_id)"

definition remove_if_exists :: "path \<Rightarrow> (world, unit) host" where
  "remove_if_exists p = catchR (fs_remove_file p) (\<lambda>e. if e = Io NotFound then ret () else fail e)"

definition vault_delete :: "vault_store \<Rightarrow> uuid \<Rightarrow> (world, unit) host" where
  "vault_delete root group_id =
     catchR (fs_remove_file (path_for root group_id)) (\<lambda>e. if e = Io NotFound then ret () else fail e)"

definition stage_delete :: "vault_store \<Rightarrow> uuid \<Rightarrow> (world, unit) host" where
  "stage_delete root group_id =
     seqR (fs_create_dir_all root)
    (bindR (fs_exists (path_for root group_id)) (\<lambda>present.
     if \<not> present then ret ()
     else bindR (fs_exists (staged_delete_path_for root group_id)) (\<lambda>staged.
       seqR (reject staged (Format ''vault deletion is already staged''))
            (fs_rename (path_for root group_id) (staged_delete_path_for root group_id)))))"

definition rollback_staged_delete :: "vault_store \<Rightarrow> uuid \<Rightarrow> (world, unit) host" where
  "rollback_staged_delete root group_id =
     bindR (fs_exists (staged_delete_path_for root group_id)) (\<lambda>staged.
     if \<not> staged then ret ()
     else bindR (fs_exists (path_for root group_id)) (\<lambda>present.
       seqR (reject present (Format ''cannot restore staged vault over an existing vault''))
            (fs_rename (staged_delete_path_for root group_id) (path_for root group_id))))"

definition commit_staged_delete :: "vault_store \<Rightarrow> uuid \<Rightarrow> (world, unit) host" where
  "commit_staged_delete root group_id = remove_if_exists (staged_delete_path_for root group_id)"

definition staged_suffix :: string where
  "staged_suffix = ''.fcpv.delete-pending''"

text \<open>
  A component built from a UUID parses back to it exactly when nothing but the suffix follows the
  UUID; any other name goes through \<open>Uuid::parse_str\<close>.
\<close>

fun staged_group_seg :: "(string \<Rightarrow> uuid option) \<Rightarrow> seg \<Rightarrow> uuid option" where
  "staged_group_seg parse_str (IdName u s) = (if s = staged_suffix then Some u else None)"
| "staged_group_seg parse_str (Name s) =
     (if ends_with s staged_suffix then parse_str (take (length s - length staged_suffix) s) else None)"

definition staged_group_id :: "(string \<Rightarrow> uuid option) \<Rightarrow> path \<Rightarrow> uuid option" where
  "staged_group_id parse_str p = Option.bind (file_name p) (staged_group_seg parse_str)"

text \<open>The loop over the directory entries.\<close>

fun recover_entries ::
    "(string \<Rightarrow> uuid option) \<Rightarrow> vault_store \<Rightarrow> uuid list \<Rightarrow> path list \<Rightarrow> (world, unit) host" where
  "recover_entries parse_str root configured [] = ret ()"
| "recover_entries parse_str root configured (p # ps) =
     (case staged_group_id parse_str p of
        None \<Rightarrow> recover_entries parse_str root configured ps
      | Some group_id \<Rightarrow>
          seqR (if List.member configured group_id
                then bindR (fs_exists (path_for root group_id)) (\<lambda>present.
                  if \<not> present then fs_rename p (path_for root group_id) else remove_if_exists p)
                else remove_if_exists p)
               (recover_entries parse_str root configured ps))"

definition recover_staged_deletions ::
    "(string \<Rightarrow> uuid option) \<Rightarrow> vault_store \<Rightarrow> uuid list \<Rightarrow> (world, unit) host" where
  "recover_staged_deletions parse_str root configured =
     bindR (fs_exists root) (\<lambda>present.
     if \<not> present then ret ()
     else bindR (fs_read_dir root) (recover_entries parse_str root configured))"

text \<open>The verifier of a prepared write: the same bytes, the right group, and they open.\<close>

definition verify_prepared ::
    "aead \<Rightarrow> vault_payload codec \<Rightarrow> uuid \<Rightarrow> byte list \<Rightarrow> secret_dek \<Rightarrow> byte list \<Rightarrow> unit fcp_result" where
  "verify_prepared a c group_id bytes dek persisted =
     (if persisted \<noteq> bytes then Inl (Format ''prepared vault bytes changed before commit'')
      else case record_decode persisted of Inl e \<Rightarrow> Inl e | Inr verified \<Rightarrow>
        if vh_group_id (vr_header verified) \<noteq> group_id then Inl (Format ''prepared vault group mismatch'')
        else case open_record a c verified dek of Inl e \<Rightarrow> Inl e | Inr _ \<Rightarrow> Inr ())"

definition write_prepared ::
    "aead \<Rightarrow> vault_payload codec \<Rightarrow> vault_store \<Rightarrow> uuid \<Rightarrow> byte list \<Rightarrow> secret_dek
     \<Rightarrow> (world, durable_write_failure, durable_write_result) rm" where
  "write_prepared a c root group_id bytes dek =
     write_verified_durable (path_for root group_id) bytes (verify_prepared a c group_id bytes dek)"

definition vault_write_verified ::
    "aead \<Rightarrow> vault_payload codec \<Rightarrow> vault_store \<Rightarrow> vault_record \<Rightarrow> secret_dek \<Rightarrow> (world, unit) host" where
  "vault_write_verified a c root r dek =
     bindR (of_result (record_encode r)) (\<lambda>bytes.
     bindR (map_err dwf_error (write_prepared a c root (vh_group_id (vr_header r)) bytes dek)) (\<lambda>_. ret ()))"

lemmas vault_store_defs [run_simps] =
  path_for_def staged_delete_path_for_def vault_read_def vault_read_bytes_def remove_if_exists_def
  vault_delete_def stage_delete_def rollback_staged_delete_def commit_staged_delete_def
  staged_suffix_def staged_group_id_def recover_staged_deletions_def verify_prepared_def
  write_prepared_def vault_write_verified_def

subsection \<open>Paths\<close>

lemma path_for_inj [simp]: "path_for root g = path_for root h \<longleftrightarrow> g = h"
  by (simp add: path_for_def)

lemma staged_path_inj [simp]: "staged_delete_path_for root g = staged_delete_path_for root h \<longleftrightarrow> g = h"
  by (simp add: staged_delete_path_for_def)

lemma path_not_staged [simp]:
  "path_for root g \<noteq> staged_delete_path_for root h" "staged_delete_path_for root h \<noteq> path_for root g"
  by (simp_all add: path_for_def staged_delete_path_for_def)

lemma staged_group_id_staged [simp]: "staged_group_id ps (staged_delete_path_for root g) = Some g"
  by (simp add: staged_group_id_def file_name_def staged_delete_path_for_def staged_suffix_def)

lemma staged_group_id_path_for [simp]: "staged_group_id ps (path_for root g) = None"
  by (simp add: staged_group_id_def file_name_def path_for_def staged_suffix_def)

text \<open>
  Vault files are leaves: no directory exists at a vault's path, and no file lies below one. This
  is the layout the host itself creates.
\<close>

definition leaf :: "world \<Rightarrow> path \<Rightarrow> bool" where
  "leaf w p \<longleftrightarrow> p \<notin> set (dirs w) \<and> (\<forall>q \<in> set (map fst (files w)). \<not> in_dir p q)"

lemma leaf_present: "leaf w p \<Longrightarrow> is_present w p \<longleftrightarrow> lookup w p \<noteq> None"
  by (auto simp: leaf_def is_present_def list_ex_iff)

subsection \<open>The verified write\<close>

definition holds_vault :: "aead \<Rightarrow> vault_payload codec \<Rightarrow> vault_store \<Rightarrow> uuid \<Rightarrow> secret_dek \<Rightarrow> byte list \<Rightarrow> world \<Rightarrow> bool" where
  "holds_vault a c root g dek bytes w \<longleftrightarrow> lookup w (path_for root g) = Some bytes \<and>
     (\<exists>r payload. record_decode bytes = Inr r \<and> vh_group_id (vr_header r) = g \<and>
        open_record a c r dek = Inr payload)"

lemma verify_prepared_ok:
  "verify_prepared a c g bytes dek bs = Inr () \<longleftrightarrow> bs = bytes \<and>
     (\<exists>r payload. record_decode bytes = Inr r \<and> vh_group_id (vr_header r) = g \<and>
        open_record a c r dek = Inr payload)"
  by (auto simp: verify_prepared_def split: sum.splits if_splits)

lemma write_prepared_cases:
  assumes "write_prepared a c root g bytes dek w = (res, w')"
  shows "case res of
      Inr d \<Rightarrow> d = Committed \<and> holds_vault a c root g dek bytes w'
    | Inl f \<Rightarrow> dwf_result f = NotCommitted \<and> lookup w' (path_for root g) = lookup w (path_for root g) \<or>
        dwf_result f = DurabilityUnknown \<and> holds_vault a c root g dek bytes w'"
  using dw.outcome [OF assms [unfolded write_prepared_def]]
  by (auto simp: write_outcome_def verify_prepared_ok holds_vault_def split: sum.splits)

subsection \<open>Staged deletion\<close>

text \<open>
  The vault paths are leaves: no directory stands at one of them. A store is ready when, besides,
  all metadata queries answer.
\<close>

definition store_leaves :: "vault_store \<Rightarrow> world \<Rightarrow> bool" where
  "store_leaves root w \<longleftrightarrow> (\<forall>g. leaf w (path_for root g) \<and> leaf w (staged_delete_path_for root g))"

definition store_ready :: "vault_store \<Rightarrow> world \<Rightarrow> bool" where
  "store_ready root w \<longleftrightarrow> (\<forall>n. \<not> stat_fault w n) \<and> store_leaves root w"

lemma in_root_not_below:
  "\<not> in_dir (path_for root g) (path_for root h)" "\<not> in_dir (path_for root g) (staged_delete_path_for root h)"
  "\<not> in_dir (staged_delete_path_for root g) (path_for root h)"
  "\<not> in_dir (staged_delete_path_for root g) (staged_delete_path_for root h)"
  by (simp_all add: in_dir_def path_for_def staged_delete_path_for_def)

lemma files_put_file: "fst ` set (files (put_file p bs w)) = insert p (fst ` set (files w))"
  by (simp add: put_file_def dom_update)

lemma files_del_file: "fst ` set (files (del_file p w)) = fst ` set (files w) - {p}"
  by (auto simp: del_file_def delete_keys simp flip: set_map)

lemma dirs_frame [simp]:
  "dirs (put_file p bs w) = dirs w" "dirs (del_file p w) = dirs w" "dirs (advance w) = dirs w"
  "files (advance w) = files w"
  by (simp_all add: put_file_def del_file_def advance_def)

lemma store_leaves_frame:
  "store_leaves root (advance w) = store_leaves root w"
  "store_leaves root w \<Longrightarrow> store_leaves root (del_file p w)"
  "store_leaves root w \<Longrightarrow> store_leaves root (put_file (path_for root g) bs w)"
  "store_leaves root w \<Longrightarrow> store_leaves root (put_file (staged_delete_path_for root g) bs w)"
  by (auto simp: store_leaves_def leaf_def files_del_file files_put_file in_root_not_below simp flip: image_iff)

lemma leaves_present:
  "store_leaves root w \<Longrightarrow> is_present w (path_for root g) \<longleftrightarrow> lookup w (path_for root g) \<noteq> None"
  "store_leaves root w \<Longrightarrow> is_present w (staged_delete_path_for root g) \<longleftrightarrow>
     lookup w (staged_delete_path_for root g) \<noteq> None"
  by (simp_all add: store_leaves_def leaf_present)

lemma store_ready_advance [simp]: "store_ready root (advance w) = store_ready root w"
  by (simp add: store_ready_def store_leaves_frame)

lemma store_ready_del: "store_ready root w \<Longrightarrow> store_ready root (del_file p w)"
  by (simp add: store_ready_def store_leaves_frame)

lemma store_ready_put: "store_ready root w \<Longrightarrow> store_ready root (put_file (path_for root g) bs w)"
  by (simp add: store_ready_def store_leaves_frame)

lemma store_ready_put_staged:
  "store_ready root w \<Longrightarrow> store_ready root (put_file (staged_delete_path_for root g) bs w)"
  by (simp add: store_ready_def store_leaves_frame)

lemma ready_stat:
  "store_ready root w \<Longrightarrow> stat_fault w n = False"
  "store_ready root w \<Longrightarrow> is_present w (path_for root g) \<longleftrightarrow> lookup w (path_for root g) \<noteq> None"
  "store_ready root w \<Longrightarrow> is_present w (staged_delete_path_for root g) \<longleftrightarrow>
     lookup w (staged_delete_path_for root g) \<noteq> None"
  by (simp_all add: store_ready_def leaves_present)

text \<open>
  \<open>recovered root configured w w'\<close>: every vault of a configured group is still there, in
  place if it was in place or else in place or still staged; other groups' vaults and all other
  files are untouched.
\<close>

definition recovered :: "vault_store \<Rightarrow> uuid list \<Rightarrow> world \<Rightarrow> world \<Rightarrow> bool" where
  "recovered root configured w w' \<longleftrightarrow>
     (\<forall>g b. lookup w (path_for root g) = Some b \<longrightarrow> lookup w' (path_for root g) = Some b) \<and>
     (\<forall>g b. g \<in> set configured \<longrightarrow> lookup w (path_for root g) = None \<longrightarrow>
        lookup w (staged_delete_path_for root g) = Some b \<longrightarrow>
        lookup w' (path_for root g) = Some b \<or>
        lookup w' (path_for root g) = None \<and> lookup w' (staged_delete_path_for root g) = Some b) \<and>
     (\<forall>g. lookup w (staged_delete_path_for root g) = None \<longrightarrow> lookup w' (staged_delete_path_for root g) = None) \<and>
     (\<forall>g. g \<notin> set configured \<longrightarrow> lookup w' (path_for root g) = lookup w (path_for root g)) \<and>
     (\<forall>p. (\<forall>g. p \<noteq> path_for root g \<and> p \<noteq> staged_delete_path_for root g) \<longrightarrow> lookup w' p = lookup w p)"

lemma recovered_refl: "lookup w' = lookup w \<Longrightarrow> recovered root configured w w'"
  by (auto simp: recovered_def)

lemma recovered_in_place:
  "recovered root cs u v \<Longrightarrow> lookup u (path_for root g) = Some b \<Longrightarrow> lookup v (path_for root g) = Some b"
  by (simp add: recovered_def)

lemma recovered_staged:
  "recovered root cs u v \<Longrightarrow> g \<in> set cs \<Longrightarrow> lookup u (path_for root g) = None \<Longrightarrow>
     lookup u (staged_delete_path_for root g) = Some b \<Longrightarrow>
     lookup v (path_for root g) = Some b \<or>
     lookup v (path_for root g) = None \<and> lookup v (staged_delete_path_for root g) = Some b"
  by (simp add: recovered_def)

lemma recovered_trans:
  assumes "recovered root cs u v" and "recovered root cs v w"
  shows "recovered root cs u w"
proof -
  have "lookup w (path_for root g) = Some b" if "lookup u (path_for root g) = Some b" for g b
    using recovered_in_place assms that by metis
  moreover have "lookup w (path_for root g) = Some b \<or>
      lookup w (path_for root g) = None \<and> lookup w (staged_delete_path_for root g) = Some b"
    if "g \<in> set cs" "lookup u (path_for root g) = None" "lookup u (staged_delete_path_for root g) = Some b" for g b
    using recovered_staged [OF assms(1) that]
      recovered_in_place [OF assms(2)] recovered_staged [OF assms(2) that(1)] by blast
  ultimately show ?thesis using assms by (simp add: recovered_def)
qed

definition recover_one :: "vault_store \<Rightarrow> uuid list \<Rightarrow> uuid \<Rightarrow> (world, unit) host" where
  "recover_one root cs g = (if List.member cs g
     then bindR (fs_exists (path_for root g)) (\<lambda>present.
       if \<not> present then fs_rename (staged_delete_path_for root g) (path_for root g)
       else remove_if_exists (staged_delete_path_for root g))
     else remove_if_exists (staged_delete_path_for root g))"

lemma wp_recover_one:
  assumes "store_ready root w"
  shows "wp (recover_one root cs g)
     (\<lambda>_ w'. store_ready root w' \<and> recovered root cs w w' \<and> lookup w' (staged_delete_path_for root g) = None)
     (\<lambda>_ w'. store_ready root w' \<and> recovered root cs w w') w"
  using assms unfolding recover_one_def remove_if_exists_def
  by (auto simp: wp_simps ready_stat recovered_def store_ready_del store_ready_put split: option.split)

text \<open>The directory holds no file whose name \<open>Uuid::parse_str\<close> also reads as a staged vault.\<close>

definition own_names :: "(string \<Rightarrow> uuid option) \<Rightarrow> vault_store \<Rightarrow> path list \<Rightarrow> bool" where
  "own_names parse_str root ps \<longleftrightarrow>
     (\<forall>p \<in> set ps. \<forall>g. staged_group_id parse_str p = Some g \<longrightarrow> p = staged_delete_path_for root g)"

lemma wp_recover_entries:
  assumes "store_ready root w" and "own_names parse_str root ps"
  shows "wp (recover_entries parse_str root cs ps)
     (\<lambda>_ w'. recovered root cs w w' \<and>
        (\<forall>g. staged_delete_path_for root g \<in> set ps \<longrightarrow> lookup w' (staged_delete_path_for root g) = None))
     (\<lambda>_ w'. recovered root cs w w') w"
  using assms
proof (induction ps arbitrary: w)
  case Nil
  then show ?case by (simp add: wp_simps recovered_refl)
next
  case (Cons p ps)
  have own: "own_names parse_str root ps" using Cons.prems(2) by (simp add: own_names_def)
  show ?case
  proof (cases "staged_group_id parse_str p")
    case None
    then have "p \<noteq> staged_delete_path_for root g" for g by auto
    with None show ?thesis using Cons.IH [OF Cons.prems(1) own]
      by (auto elim: wp_mono)
  next
    case (Some h)
    then have p: "p = staged_delete_path_for root h" using Cons.prems(2) by (simp add: own_names_def)
    have rest: "wp (recover_entries parse_str root cs ps)
       (\<lambda>_ w'. recovered root cs w w' \<and> (\<forall>g. staged_delete_path_for root g \<in> set (p # ps) \<longrightarrow>
          lookup w' (staged_delete_path_for root g) = None))
       (\<lambda>_ w'. recovered root cs w w') v"
      if v: "store_ready root v" "recovered root cs w v" "lookup v (staged_delete_path_for root h) = None" for v
      using Cons.IH [OF v(1) own]
    proof (rule wp_mono)
      fix w' assume "recovered root cs v w' \<and>
        (\<forall>g. staged_delete_path_for root g \<in> set ps \<longrightarrow> lookup w' (staged_delete_path_for root g) = None)"
      then show "recovered root cs w w' \<and> (\<forall>g. staged_delete_path_for root g \<in> set (p # ps) \<longrightarrow>
          lookup w' (staged_delete_path_for root g) = None)"
        using v recovered_trans [OF v(2)] by (auto simp: p recovered_def)
    qed (use recovered_trans [OF v(2)] in blast)
    have "recover_entries parse_str root cs (p # ps) =
        seqR (recover_one root cs h) (recover_entries parse_str root cs ps)"
      by (simp add: p recover_one_def)
    then show ?thesis
      by (simp only: wp_seqR) (rule wp_mono [OF wp_recover_one [OF Cons.prems(1)]], blast intro: rest, blast)
  qed
qed

lemma recover_staged_deletions_wp:
  assumes "store_ready root w" and "own_names parse_str root (map fst (files w))"
  shows "wp (recover_staged_deletions parse_str root cs)
     (\<lambda>_ w'. recovered root cs w w' \<and>
        (\<forall>g. lookup w (staged_delete_path_for root g) \<noteq> None \<longrightarrow> lookup w' (staged_delete_path_for root g) = None))
     (\<lambda>_ w'. recovered root cs w w') w"
proof -
  let ?ps = "filter (in_dir root) (remdups (map fst (files w)))"
  have own: "own_names parse_str root ?ps" using assms(2) by (auto simp: own_names_def)
  have listed: "staged_delete_path_for root g \<in> set ?ps"
    if "lookup w (staged_delete_path_for root g) \<noteq> None" for g
    using that by (auto simp: lookup_def in_dir_def staged_delete_path_for_def dest!: map_of_SomeD intro: rev_image_eqI)
  have present: "is_present w root" if "lookup w (staged_delete_path_for root g) \<noteq> None" for g
    using listed [OF that] by (force simp: is_present_def list_ex_iff)
  have fr: "recovered root cs (advance (advance w)) w' \<longleftrightarrow> recovered root cs w w'" for w'
    by (simp add: recovered_def)
  have "store_ready root (advance (advance w))" using assms(1) by simp
  from wp_recover_entries [OF this own, of cs] show ?thesis
    unfolding recover_staged_deletions_def
    using assms(1) listed present
    by (auto simp: wp_simps ready_stat fr split: option.split intro!: recovered_refl elim!: wp_mono)
qed

text \<open>
  A group's only copy, in place or staged, with content \<open>old\<close>. Recovery keeps it for a configured
  group even where metadata queries fail.
\<close>

definition parked :: "vault_store \<Rightarrow> uuid \<Rightarrow> byte list option \<Rightarrow> world \<Rightarrow> bool" where
  "parked root g old w \<longleftrightarrow>
     lookup w (path_for root g) = old \<and> lookup w (staged_delete_path_for root g) = None \<or>
     lookup w (path_for root g) = None \<and> lookup w (staged_delete_path_for root g) = old"

lemma parked_cong:
  "lookup w' (path_for root g) = lookup w (path_for root g) \<Longrightarrow>
   lookup w' (staged_delete_path_for root g) = lookup w (staged_delete_path_for root g) \<Longrightarrow>
   parked root g old w' = parked root g old w"
  by (simp add: parked_def)

abbreviation keeps_copy :: "vault_store \<Rightarrow> uuid \<Rightarrow> byte list option \<Rightarrow> world \<Rightarrow> bool" where
  "keeps_copy root g old w \<equiv> store_leaves root w \<and> parked root g old w"

lemma wp_recover_one_parked:
  assumes "keeps_copy root g old w" and "g \<in> set cs"
  shows "wp (recover_one root cs h) (\<lambda>_. keeps_copy root g old) (\<lambda>_. keeps_copy root g old) w"
proof (cases "h = g")
  case True
  then show ?thesis using assms unfolding recover_one_def remove_if_exists_def
    by (auto simp: wp_simps leaves_present store_leaves_frame parked_def split: option.split)
next
  case False
  then show ?thesis using assms unfolding recover_one_def remove_if_exists_def
    by (auto simp: wp_simps leaves_present store_leaves_frame parked_def split: option.split)
qed

lemma wp_recover_entries_parked:
  assumes "keeps_copy root g old w" and "own_names parse_str root ps" and "g \<in> set cs"
  shows "wp (recover_entries parse_str root cs ps) (\<lambda>_. keeps_copy root g old) (\<lambda>_. keeps_copy root g old) w"
  using assms(1,2)
proof (induction ps arbitrary: w)
  case Nil
  then show ?case by (simp add: wp_simps)
next
  case (Cons p ps)
  have own: "own_names parse_str root ps" using Cons.prems(2) by (simp add: own_names_def)
  show ?case
  proof (cases "staged_group_id parse_str p")
    case None
    then show ?thesis using Cons.IH [OF Cons.prems(1) own] by simp
  next
    case (Some h)
    then have "p = staged_delete_path_for root h" using Cons.prems(2) by (simp add: own_names_def)
    then have "recover_entries parse_str root cs (p # ps) =
        seqR (recover_one root cs h) (recover_entries parse_str root cs ps)"
      by (simp add: recover_one_def)
    then show ?thesis
      using wp_mono [OF wp_recover_one_parked [OF Cons.prems(1) assms(3)]] Cons.IH own by (simp only: wp_seqR)
  qed
qed

lemma wp_recover_parked:
  assumes "keeps_copy root g old w" and "own_names parse_str root (map fst (files w))" and "g \<in> set cs"
  shows "wp (recover_staged_deletions parse_str root cs) (\<lambda>_. keeps_copy root g old) (\<lambda>_. keeps_copy root g old) w"
proof -
  have again: "keeps_copy root g old (advance v)" if "keeps_copy root g old v" for v
    using that by (simp add: store_leaves_frame parked_def)
  have own: "own_names parse_str root (filter (in_dir root) (remdups (map fst (files w))))"
    using assms(2) by (auto simp: own_names_def)
  note entries = wp_recover_entries_parked [OF again [OF again [OF assms(1)]] own assms(3)]
  show ?thesis unfolding recover_staged_deletions_def
    using again [OF assms(1)] again [OF again [OF assms(1)]] entries
    by (auto simp: wp_simps split: option.split)
qed

lemma stage_delete_wp:
  assumes "store_ready root w" and "lookup w (staged_delete_path_for root g) = None"
  shows "wp (stage_delete root g)
     (\<lambda>_ w'. store_ready root w' \<and>
        (\<forall>p. lookup w' p = (if p = path_for root g then None
             else if p = staged_delete_path_for root g then lookup w (path_for root g) else lookup w p)))
     (\<lambda>_ w'. store_ready root w' \<and> lookup w' = lookup w) w"
proof -
  have dir: "store_ready root (v\<lparr>dirs := root # dirs v\<rparr>)" if "store_ready root v" for v
    using that by (auto simp: store_ready_def store_leaves_def leaf_def path_for_def staged_delete_path_for_def)
  show ?thesis using assms(1,2) unfolding stage_delete_def
    by (auto simp: wp_simps dir [of "advance w", simplified] ready_stat fun_eq_iff
        store_ready_put_staged store_ready_del split: option.split)
qed

lemma rollback_wp:
  assumes "store_ready root w" and "lookup w (path_for root g) = None"
  shows "wp (rollback_staged_delete root g)
     (\<lambda>_ w'. \<forall>p. lookup w' p = (if p = path_for root g then lookup w (staged_delete_path_for root g)
             else if p = staged_delete_path_for root g then None else lookup w p))
     (\<lambda>_ w'. lookup w' = lookup w) w"
  using assms unfolding rollback_staged_delete_def
  by (auto simp: wp_simps ready_stat fun_eq_iff split: option.split)

subsection \<open>Properties\<close>

text \<open>
  A vault write is all or nothing, and what is committed is readable: if it reports committed
  the group's file holds exactly the prepared bytes, they decode to a record of this group and open
  under the key; a failure classified as not committed left the old file; a failure of unknown
  durability left the complete, verified new file.
\<close>

theorem vault_write_all_or_nothing:
  assumes "write_prepared a c root g bytes dek w = (res, w')"
  shows "case res of
      Inr d \<Rightarrow> d = Committed \<and> holds_vault a c root g dek bytes w'
    | Inl f \<Rightarrow> dwf_result f = NotCommitted \<and> lookup w' (path_for root g) = lookup w (path_for root g) \<or>
        dwf_result f = DurabilityUnknown \<and> holds_vault a c root g dek bytes w'"
  using assms by (rule write_prepared_cases)

text \<open>
  C29. Recovery of staged deletions never loses the only copy of a configured group's vault. Whatever
  fails during it, metadata queries included, such a copy, in place or staged, is afterwards in place
  or staged with the same content. If the metadata queries answer (the code takes a failed one for an
  absent file), then moreover, also for groups with both copies, of which the staged one is deleted: a
  vault in place stays as it is, a configured group's staged vault without one in place ends in place
  or stays staged, no other file changes, and success leaves no staged file. The
  hypotheses are that no directory stands at a vault path and that every file of the directory whose
  name reads as a staged vault has the name the host gives to that group's staged vault.
\<close>

theorem staged_recovery_safe:
  assumes "store_leaves root w" and "own_names parse_str root (map fst (files w))"
    and "recover_staged_deletions parse_str root configured w = (r, w')"
  shows "(\<forall>g old. g \<in> set configured \<longrightarrow> parked root g old w \<longrightarrow> parked root g old w') \<and>
    ((\<forall>n. \<not> stat_fault w n) \<longrightarrow> recovered root configured w w' \<and>
       (r = Inr () \<longrightarrow> (\<forall>g. lookup w' (staged_delete_path_for root g) = None)))"
proof (intro conjI allI impI)
  fix g old assume "g \<in> set configured" "parked root g old w"
  then have "wp (recover_staged_deletions parse_str root configured) (\<lambda>_. keeps_copy root g old) (\<lambda>_. keeps_copy root g old) w"
    using assms(1,2) by (intro wp_recover_parked) simp_all
  then show "parked root g old w'" using assms(3) by (auto simp: wp_def split: sum.splits)
next
  assume "\<forall>n. \<not> stat_fault w n"
  then have "store_ready root w" using assms(1) by (simp add: store_ready_def)
  note rec = recover_staged_deletions_wp [OF this assms(2), of configured]
  show "recovered root configured w w'" using rec assms(3) by (auto simp: wp_def split: sum.splits)
  fix g assume "r = Inr ()"
  then show "lookup w' (staged_delete_path_for root g) = None"
    using rec assms(3) by (cases "lookup w (staged_delete_path_for root g)") (auto simp: wp_def recovered_def)
qed

text \<open>
  Rolling back a staged deletion restores the store: if staging and then rolling back both
  succeed, every file has the content it had before.
\<close>

theorem stage_rollback_restores:
  assumes "store_ready root w" and "lookup w (staged_delete_path_for root g) = None"
    and "stage_delete root g w = (Inr (), w1)" and "rollback_staged_delete root g w1 = (Inr (), w2)"
  shows "lookup w2 = lookup w"
proof -
  have 1: "store_ready root w1" "lookup w1 p = (if p = path_for root g then None
      else if p = staged_delete_path_for root g then lookup w (path_for root g) else lookup w p)" for p
    using wp_okD [OF assms(3) stage_delete_wp [OF assms(1,2)]] by auto
  then have "lookup w1 (path_for root g) = None" by simp
  from wp_okD [OF assms(4) rollback_wp [OF 1(1) this]] show ?thesis
    using assms(2) by (auto simp: 1(2) fun_eq_iff)
qed

subsection \<open>Concrete runs\<close>

definition exv_world :: world where
  "exv_world = quiet_world\<lparr>files := [(path_for [Name ''v''] 5, [1]), (staged_delete_path_for [Name ''v''] 6, [2])]\<rparr>"

lemma exv_ready: "store_ready [Name ''v''] exv_world" "store_ready [Name ''v''] quiet_world"
  by (simp_all add: store_ready_def store_leaves_def leaf_def exv_world_def quiet_world_def in_root_not_below)

lemma exv_own: "own_names (\<lambda>_. None) [Name ''v''] (map fst (files exv_world))"
  by (simp add: own_names_def exv_world_def)

theorem vault_write_all_or_nothing_witness:
  "\<exists>res w'. write_prepared ex_aead ex_vault_codec [Name ''v''] 5 [1] ex_dek quiet_world = (Inl res, w') \<and>
     dwf_result res = NotCommitted \<and> lookup w' (path_for [Name ''v''] 5) = None"
proof -
  let ?run = "write_prepared ex_aead ex_vault_codec [Name ''v''] 5 [1] ex_dek quiet_world"
  have r: "fst ?run = Inl \<lparr>dwf_result = NotCommitted, dwf_error = Format ''vault record is truncated''\<rparr>"
    by (simp add: run_simps quiet_world_def format_consts)
  then have run: "?run = (Inl \<lparr>dwf_result = NotCommitted, dwf_error = Format ''vault record is truncated''\<rparr>, snd ?run)"
    by (simp add: prod_eq_iff)
  from vault_write_all_or_nothing [OF run] have "lookup (snd ?run) (path_for [Name ''v''] 5) = None"
    by (simp add: quiet_world_def lookup_def)
  with run show ?thesis by (metis durable_write_failure.select_convs(1))
qed

theorem staged_recovery_safe_witness:
  "\<exists>w'. recover_staged_deletions (\<lambda>_. None) [Name ''v''] [5, 6] exv_world = (Inr (), w') \<and>
     lookup w' (path_for [Name ''v''] 5) = Some [1] \<and> lookup w' (path_for [Name ''v''] 6) = Some [2]"
proof -
  let ?run = "recover_staged_deletions (\<lambda>_. None) [Name ''v''] [5, 6] exv_world"
  have "fst ?run = Inr ()"
    by (simp add: run_simps exv_world_def quiet_world_def)
  then have run: "?run = (Inr (), snd ?run)" by (simp add: prod_eq_iff)
  have "lookup exv_world (path_for [Name ''v''] 5) = Some [1]" "lookup exv_world (path_for [Name ''v''] 6) = None"
      "lookup exv_world (staged_delete_path_for [Name ''v''] 6) = Some [2]"
    by (simp_all add: exv_world_def lookup_def)
  note start = this
  have rec: "recovered [Name ''v''] [5, 6] exv_world (snd ?run)"
      and gone: "lookup (snd ?run) (staged_delete_path_for [Name ''v''] g) = None" for g
    using staged_recovery_safe [OF _ exv_own run] exv_ready(1) by (simp_all add: store_ready_def)
  have "lookup (snd ?run) (path_for [Name ''v''] 5) = Some [1]"
    by (rule recovered_in_place [OF rec start(1)])
  moreover have "lookup (snd ?run) (path_for [Name ''v''] 6) = Some [2]"
    using recovered_staged [OF rec _ start(2,3)] gone [of 6] by simp
  ultimately show ?thesis using run by blast
qed

theorem stage_rollback_restores_witness:
  "\<exists>w1 w2. stage_delete [Name ''v''] 5 exv_world = (Inr (), w1) \<and>
     rollback_staged_delete [Name ''v''] 5 w1 = (Inr (), w2) \<and> lookup w2 = lookup exv_world"
proof -
  let ?w1 = "snd (stage_delete [Name ''v''] 5 exv_world)"
  have "fst (stage_delete [Name ''v''] 5 exv_world) = Inr ()"
    "fst (rollback_staged_delete [Name ''v''] 5 ?w1) = Inr ()"
    by (simp_all add: run_simps exv_world_def quiet_world_def)
  then have "stage_delete [Name ''v''] 5 exv_world = (Inr (), ?w1)"
    "rollback_staged_delete [Name ''v''] 5 ?w1 = (Inr (), snd (rollback_staged_delete [Name ''v''] 5 ?w1))"
    by (simp_all add: prod_eq_iff)
  moreover have "lookup exv_world (staged_delete_path_for [Name ''v''] 5) = None"
    by (simp add: exv_world_def lookup_def)
  ultimately show ?thesis using stage_rollback_restores [OF exv_ready(1)] by blast
qed

end
