(* ===== verification/Operation_Journal.thy ===== *)
theory Operation_Journal
  imports Messages
begin

text \<open>
  \<open>operation/model.rs\<close> and \<open>operation/journal.rs\<close>: the durable operation journal of a
  group, the phase machine of an operation, and the store that persists the journal through the
  atomic write protocol. SHA-256 and the two JSON codecs are parameters.
\<close>

definition OPERATION_JOURNAL_VERSION :: u16 where
  "OPERATION_JOURNAL_VERSION = 1"

datatype operation_kind = Enrollment | Eviction | Reconciliation

datatype operation_phase =
    PhNotCommitted | PhDurabilityUnknown | PhCommitted | BrowserRemovalPending | Completed | Aborted
  | ReconciliationRequired

fun can_transition_to :: "operation_phase \<Rightarrow> operation_phase \<Rightarrow> bool" where
  "can_transition_to PhNotCommitted n =
     List.member [PhDurabilityUnknown, PhCommitted, Aborted, ReconciliationRequired] n"
| "can_transition_to PhDurabilityUnknown n =
     List.member [PhNotCommitted, PhCommitted, ReconciliationRequired] n"
| "can_transition_to PhCommitted n = List.member [BrowserRemovalPending, ReconciliationRequired] n"
| "can_transition_to BrowserRemovalPending n = List.member [Completed, ReconciliationRequired] n"
| "can_transition_to Completed n = False"
| "can_transition_to Aborted n = False"
| "can_transition_to ReconciliationRequired n = False"

fun is_terminal :: "operation_phase \<Rightarrow> bool" where
  "is_terminal Completed = True"
| "is_terminal Aborted = True"
| "is_terminal ReconciliationRequired = True"
| "is_terminal PhNotCommitted = False"
| "is_terminal PhDurabilityUnknown = False"
| "is_terminal PhCommitted = False"
| "is_terminal BrowserRemovalPending = False"

type_synonym digest32 = "byte list"

record operation_request =
  rq_operation_id :: uuid
  rq_attempt_id :: "uuid option"
  rq_kind :: operation_kind
  rq_lease_id :: "uuid option"
  rq_reason_code :: string
  rq_base_vault_sequence :: u64

record bound_request =
  br_domain :: string
  br_account_group_id :: uuid
  br_request :: operation_request

record snapshot_binding =
  sb_snapshot_tag :: digest32
  sb_previous_vault_digest :: "digest32 option"
  sb_target_vault_digest :: digest32
  sb_target_vault_sequence :: u64
  sb_cookie_count :: u32
  sb_aggregate_bytes :: u64

record journal_operation =
  jo_operation_id :: uuid
  jo_attempt_id :: "uuid option"
  jo_sequence :: u64
  jo_request_fingerprint :: digest32
  jo_kind :: operation_kind
  jo_lease_id :: "uuid option"
  jo_reason_code :: string
  jo_base_vault_sequence :: u64
  jo_phase :: operation_phase
  jo_snapshot :: "snapshot_binding option"

record operation_journal =
  oj_version :: u16
  oj_account_group_id :: uuid
  oj_sequence_high_water :: u64
  oj_operations :: "journal_operation list"

text \<open>The third-party functions the journal calls.\<close>

record journal_ext =
  je_sha256 :: "byte list \<Rightarrow> digest32"
  je_request_json :: "bound_request \<Rightarrow> byte list option"
  je_journal_json :: "operation_journal codec"

definition request_validate :: "operation_request \<Rightarrow> unit fcp_result" where
  "request_validate r =
     (if is_nil (rq_operation_id r) then Inl (Protocol ''operation id must not be nil'')
      else if (case rq_attempt_id r of Some a \<Rightarrow> is_nil a | None \<Rightarrow> False)
      then Inl (Protocol ''operation attempt id must not be nil'')
      else if rq_reason_code r = [] \<or> 64 < length (rq_reason_code r) \<or>
        \<not> list_all (\<lambda>c. is_ascii_lowercase c \<or> is_ascii_digit c \<or> c = CHR ''_'') (rq_reason_code r)
      then Inl (Protocol ''operation reason code is not canonical'')
      else Inr ())"

definition request_fingerprint :: "journal_ext \<Rightarrow> uuid \<Rightarrow> operation_request \<Rightarrow> digest32 fcp_result" where
  "request_fingerprint x g r =
     (case request_validate r of Inl e \<Rightarrow> Inl e | Inr _ \<Rightarrow>
       (case je_request_json x \<lparr>br_domain = ''FCP-OP-REQUEST-1'', br_account_group_id = g, br_request = r\<rparr> of
          None \<Rightarrow> Inl Json | Some bytes \<Rightarrow> Inr (je_sha256 x bytes)))"

definition journal_empty :: "uuid \<Rightarrow> operation_journal" where
  "journal_empty g = \<lparr>oj_version = OPERATION_JOURNAL_VERSION, oj_account_group_id = g,
     oj_sequence_high_water = 0, oj_operations = []\<rparr>"

definition operation_request_of :: "journal_operation \<Rightarrow> operation_request" where
  "operation_request_of op = \<lparr>rq_operation_id = jo_operation_id op, rq_attempt_id = jo_attempt_id op,
     rq_kind = jo_kind op, rq_lease_id = jo_lease_id op, rq_reason_code = jo_reason_code op,
     rq_base_vault_sequence = jo_base_vault_sequence op\<rparr>"

text \<open>The loop of \<open>OperationJournal::validate\<close>; it returns the last sequence it saw.\<close>

fun validate_operations ::
    "journal_ext \<Rightarrow> uuid \<Rightarrow> u64 \<Rightarrow> u64 \<Rightarrow> uuid list \<Rightarrow> journal_operation list \<Rightarrow> u64 fcp_result" where
  "validate_operations x g high previous ids [] = Inr previous"
| "validate_operations x g high previous ids (op # ops) =
     (if jo_sequence op \<le> previous \<or> high < jo_sequence op \<or> is_nil (jo_operation_id op)
         \<or> List.member ids (jo_operation_id op)
      then Inl (Format ''operation journal sequence is invalid'')
      else case request_fingerprint x g (operation_request_of op) of Inl e \<Rightarrow> Inl e
      | Inr fp \<Rightarrow>
        if fp \<noteq> jo_request_fingerprint op
        then Inl (Format ''operation journal request fingerprint mismatch'')
        else if List.member [PhCommitted, BrowserRemovalPending, Completed] (jo_phase op)
             \<and> jo_snapshot op = None
        then Inl (Format ''committed operation is missing its snapshot binding'')
        else validate_operations x g high (jo_sequence op) (jo_operation_id op # ids) ops)"

definition journal_validate :: "journal_ext \<Rightarrow> uuid \<Rightarrow> operation_journal \<Rightarrow> unit fcp_result" where
  "journal_validate x g j =
     (if oj_version j \<noteq> OPERATION_JOURNAL_VERSION \<or> oj_account_group_id j \<noteq> g
      then Inl (Format ''operation journal identity or version mismatch'')
      else case validate_operations x g (oj_sequence_high_water j) 0 [] (oj_operations j) of
        Inl e \<Rightarrow> Inl e
      | Inr previous \<Rightarrow> if previous \<noteq> oj_sequence_high_water j
          then Inl (Format ''operation journal high-water mark mismatch'') else Inr ())"

subsection \<open>The store\<close>

datatype begin_result = Created journal_operation | Duplicate journal_operation

record journal_store =
  js_path :: path
  js_account_group_id :: uuid
  js_journal :: operation_journal

type_synonym 'a journal_m = "(journal_store \<times> world, 'a) host"

definition journal_open :: "journal_ext \<Rightarrow> path \<Rightarrow> uuid \<Rightarrow> (world, journal_store) host" where
  "journal_open x p g =
     bindR (fs_exists p) (\<lambda>present.
     bindR (if present
            then bindR (fs_read p) (\<lambda>bytes. of_result (json_from_slice (je_journal_json x) bytes))
            else ret (journal_empty g)) (\<lambda>journal.
     seqR (of_result (journal_validate x g journal))
          (ret \<lparr>js_path = p, js_account_group_id = g, js_journal = journal\<rparr>)))"

definition find_operation :: "uuid \<Rightarrow> operation_journal \<Rightarrow> journal_operation option" where
  "find_operation operation_id j = find (\<lambda>op. jo_operation_id op = operation_id) (oj_operations j)"

text \<open>\<open>find_mut\<close> followed by an assignment: the first operation with the id is replaced.\<close>

fun update_operation ::
    "uuid \<Rightarrow> (journal_operation \<Rightarrow> journal_operation) \<Rightarrow> journal_operation list \<Rightarrow> journal_operation list" where
  "update_operation i f [] = []"
| "update_operation i f (op # ops) =
     (if jo_operation_id op = i then f op # ops else op # update_operation i f ops)"

definition verify_journal_bytes ::
    "journal_ext \<Rightarrow> uuid \<Rightarrow> operation_journal \<Rightarrow> byte list \<Rightarrow> unit fcp_result" where
  "verify_journal_bytes x g n persisted =
     (case json_from_slice (je_journal_json x) persisted of Inl e \<Rightarrow> Inl e | Inr decoded \<Rightarrow>
       (case journal_validate x g decoded of Inl e \<Rightarrow> Inl e | Inr _ \<Rightarrow>
          if decoded \<noteq> n then Inl (Format ''operation journal read-back mismatch'') else Inr ()))"

definition set_journal :: "operation_journal \<Rightarrow> unit journal_m" where
  "set_journal n = modify (\<lambda>(s, w). (s\<lparr>js_journal := n\<rparr>, w))"

text \<open>The \<open>match\<close> on the outcome of the durable write in \<open>persist\<close>.\<close>

definition resolve_journal_write ::
    "journal_ext \<Rightarrow> path \<Rightarrow> byte list option \<Rightarrow> byte list \<Rightarrow> operation_journal
     \<Rightarrow> durable_write_failure + durable_write_result \<Rightarrow> unit journal_m" where
  "resolve_journal_write x p previous target_bytes n outcome = (case outcome of
       Inr d \<Rightarrow> if d = Committed then set_journal n
                else fail (Format ''unexpected successful durable write result {other:?}'')
     | Inl failure \<Rightarrow>
         if dwf_result failure = DurabilityUnknown
         then bindR (on_snd (classify_object (je_sha256 x) p (map_option (je_sha256 x) previous)
                      (je_sha256 x target_bytes))) (\<lambda>classification.
                case classification of
                  Target \<Rightarrow> set_journal n
                | Previous \<Rightarrow> fail (dwf_error failure)
                | Missing \<Rightarrow> fail (dwf_error failure)
                | Neither \<Rightarrow> fail (Format ''operation journal durability could not be classified''))
         else fail (dwf_error failure))"

definition journal_persist :: "journal_ext \<Rightarrow> operation_journal \<Rightarrow> unit journal_m" where
  "journal_persist x n =
     bindR (gets fst) (\<lambda>self.
     seqR (of_result (journal_validate x (js_account_group_id self) n))
    (bindR (of_result (json_to_vec (je_journal_json x) n)) (\<lambda>target_bytes.
     bindR (on_snd (fs_exists (js_path self))) (\<lambda>present.
     bindR (if present then bindR (on_snd (fs_read (js_path self))) (\<lambda>b. ret (Some b)) else ret None)
       (\<lambda>previous_bytes.
     bindR (on_snd (attempt (write_verified_durable (js_path self) target_bytes
              (verify_journal_bytes x (js_account_group_id self) n)))) (\<lambda>outcome.
       resolve_journal_write x (js_path self) previous_bytes target_bytes n outcome))))))"

definition journal_begin :: "journal_ext \<Rightarrow> operation_request \<Rightarrow> begin_result journal_m" where
  "journal_begin x request =
     bindR (gets fst) (\<lambda>self.
     bindR (of_result (request_fingerprint x (js_account_group_id self) request)) (\<lambda>fingerprint.
     case find_operation (rq_operation_id request) (js_journal self) of
       Some existing \<Rightarrow>
         if jo_request_fingerprint existing = fingerprint then ret (Duplicate existing)
         else fail (Protocol ''operation id was reused with a different request payload'')
     | None \<Rightarrow>
         bindR (ok_or (checked_add (oj_sequence_high_water (js_journal self)) 1)
                  (Format ''operation sequence exhausted'')) (\<lambda>sequence.
           let operation = \<lparr>jo_operation_id = rq_operation_id request,
                 jo_attempt_id = rq_attempt_id request, jo_sequence = sequence,
                 jo_request_fingerprint = fingerprint, jo_kind = rq_kind request,
                 jo_lease_id = rq_lease_id request, jo_reason_code = rq_reason_code request,
                 jo_base_vault_sequence = rq_base_vault_sequence request,
                 jo_phase = PhNotCommitted, jo_snapshot = None\<rparr>
           in seqR (journal_persist x ((js_journal self)\<lparr>oj_sequence_high_water := sequence,
                      oj_operations := oj_operations (js_journal self) @ [operation]\<rparr>))
                   (ret (Created operation)))))"

definition journal_issue ::
    "journal_ext \<Rightarrow> operation_kind \<Rightarrow> uuid option \<Rightarrow> string \<Rightarrow> u64 \<Rightarrow> journal_operation journal_m" where
  "journal_issue x kind lease_id reason_code base_vault_sequence =
     bindR (on_snd new_v4) (\<lambda>operation_id.
     bindR (journal_begin x \<lparr>rq_operation_id = operation_id, rq_attempt_id = None, rq_kind = kind,
              rq_lease_id = lease_id, rq_reason_code = reason_code,
              rq_base_vault_sequence = base_vault_sequence\<rparr>) (\<lambda>r. case r of
         Created operation \<Rightarrow> ret operation
       | Duplicate _ \<Rightarrow> fail (Format ''newly generated operation id collided with the journal'')))"

definition bind_snapshot :: "journal_ext \<Rightarrow> uuid \<Rightarrow> snapshot_binding \<Rightarrow> unit journal_m" where
  "bind_snapshot x operation_id binding =
     bindR (gets (js_journal \<circ> fst)) (\<lambda>j.
     bindR (ok_or (find_operation operation_id j) (Protocol ''unknown operation id'')) (\<lambda>operation.
     seqR (reject (jo_phase operation \<noteq> PhNotCommitted \<and> jo_phase operation \<noteq> PhDurabilityUnknown)
             (Protocol ''snapshot cannot be bound in the current operation phase''))
          (case jo_snapshot operation of
             Some existing \<Rightarrow> if existing = binding then ret ()
               else fail (Protocol ''operation snapshot payload conflicts with the durable binding'')
           | None \<Rightarrow> journal_persist x (j\<lparr>oj_operations :=
               update_operation operation_id (\<lambda>op. op\<lparr>jo_snapshot := Some binding\<rparr>) (oj_operations j)\<rparr>))))"

definition transition :: "journal_ext \<Rightarrow> uuid \<Rightarrow> operation_phase \<Rightarrow> unit journal_m" where
  "transition x operation_id next_phase =
     bindR (gets (js_journal \<circ> fst)) (\<lambda>j.
     bindR (ok_or (find_operation operation_id j) (Protocol ''unknown operation id'')) (\<lambda>operation.
     if jo_phase operation = next_phase then ret ()
     else seqR (reject (\<not> can_transition_to (jo_phase operation) next_phase)
                  (Protocol ''illegal operation phase transition from {:?} to {:?}''))
         (seqR (reject (next_phase = PhCommitted \<and> jo_snapshot operation = None)
                  (Protocol ''operation cannot commit without a snapshot binding''))
               (journal_persist x (j\<lparr>oj_operations :=
                  update_operation operation_id (\<lambda>op. op\<lparr>jo_phase := next_phase\<rparr>) (oj_operations j)\<rparr>)))))"

lemmas journal_defs [run_simps] =
  request_validate_def request_fingerprint_def journal_empty_def operation_request_of_def
  journal_validate_def journal_open_def find_operation_def verify_journal_bytes_def set_journal_def
  resolve_journal_write_def journal_persist_def journal_begin_def journal_issue_def
  bind_snapshot_def transition_def OPERATION_JOURNAL_VERSION_def

subsection \<open>The phase machine\<close>

text \<open>Phases reachable from a phase along legal transitions.\<close>

definition phase_reaches :: "operation_phase \<Rightarrow> operation_phase \<Rightarrow> bool" where
  "phase_reaches = rtranclp can_transition_to"

lemma phase_reaches_refl [simp]: "phase_reaches a a"
  by (simp add: phase_reaches_def)

lemma phase_reaches_step: "can_transition_to a b \<Longrightarrow> phase_reaches a b"
  by (auto simp: phase_reaches_def)

lemma phase_reaches_trans: "phase_reaches a b \<Longrightarrow> phase_reaches b c \<Longrightarrow> phase_reaches a c"
  by (simp add: phase_reaches_def)

lemma terminal_no_exit: "is_terminal a \<longleftrightarrow> (\<forall>b. \<not> can_transition_to a b)"
proof
  show "is_terminal a \<Longrightarrow> \<forall>b. \<not> can_transition_to a b" by (cases a) auto
  assume "\<forall>b. \<not> can_transition_to a b"
  then have "\<not> can_transition_to a ReconciliationRequired" by blast
  then show "is_terminal a" by (cases a) simp_all
qed

lemma terminal_reaches: "is_terminal a \<Longrightarrow> phase_reaches a b \<longleftrightarrow> b = a"
  unfolding phase_reaches_def by (metis terminal_no_exit converse_rtranclpE rtranclp.rtrancl_refl)

text \<open>The phases before and after the vault commit.\<close>

definition precommit :: "operation_phase \<Rightarrow> bool" where
  "precommit a \<longleftrightarrow> a = PhNotCommitted \<or> a = PhDurabilityUnknown"

definition postcommit :: "operation_phase \<Rightarrow> bool" where
  "postcommit a \<longleftrightarrow> a = PhCommitted \<or> a = BrowserRemovalPending \<or> a = Completed"

lemma enter_postcommit: "can_transition_to a b \<Longrightarrow> postcommit b \<Longrightarrow> \<not> postcommit a \<Longrightarrow> b = PhCommitted"
  by (cases a) (auto simp: postcommit_def)

subsection \<open>Validity\<close>

abbreviation journal_ok :: "journal_ext \<Rightarrow> uuid \<Rightarrow> operation_journal \<Rightarrow> bool" where
  "journal_ok x g j \<equiv> journal_validate x g j = Inr ()"

definition operation_ok :: "journal_ext \<Rightarrow> uuid \<Rightarrow> journal_operation \<Rightarrow> bool" where
  "operation_ok x g op \<longleftrightarrow> jo_operation_id op \<noteq> 0 \<and>
     request_fingerprint x g (operation_request_of op) = Inr (jo_request_fingerprint op) \<and>
     (postcommit (jo_phase op) \<longrightarrow> jo_snapshot op \<noteq> None)"

lemma validate_operations_iff:
  "validate_operations x g high prev ids ops = Inr q \<longleftrightarrow>
     (\<forall>op \<in> set ops. operation_ok x g op \<and> jo_operation_id op \<notin> set ids \<and> jo_sequence op \<le> high) \<and>
     distinct (map jo_operation_id ops) \<and>
     sorted_wrt (<) (prev # map jo_sequence ops) \<and> q = last (prev # map jo_sequence ops)"
proof (induction ops arbitrary: prev ids)
  case Nil
  then show ?case by auto
next
  case (Cons op ops)
  show ?case
  proof (cases "operation_ok x g op \<and> jo_operation_id op \<notin> set ids \<and> jo_sequence op \<le> high \<and> prev < jo_sequence op")
    case True
    then have "validate_operations x g high prev ids (op # ops) =
        validate_operations x g high (jo_sequence op) (jo_operation_id op # ids) ops"
      by (auto simp: operation_ok_def is_nil_def postcommit_def linorder_not_le linorder_not_less)
    then show ?thesis using True by (auto simp: Cons.IH simp del: validate_operations.simps)
      (auto simp: image_iff)
  next
    case False
    then have "validate_operations x g high prev ids (op # ops) \<noteq> Inr q"
      by (auto simp: operation_ok_def is_nil_def postcommit_def linorder_not_le linorder_not_less
          split: sum.splits)
    with False show ?thesis by auto
  qed
qed

lemma journal_ok_iff:
  "journal_ok x g j \<longleftrightarrow>
     oj_version j = OPERATION_JOURNAL_VERSION \<and> oj_account_group_id j = g \<and>
     (\<forall>op \<in> set (oj_operations j). operation_ok x g op) \<and>
     distinct (map jo_operation_id (oj_operations j)) \<and>
     sorted_wrt (<) (0 # map jo_sequence (oj_operations j)) \<and>
     oj_sequence_high_water j = last (0 # map jo_sequence (oj_operations j))"
proof -
  let ?ss = "map jo_sequence (oj_operations j)"
  have le: "s \<le> last (0 # ss)" if "sorted_wrt (<) (0 # ss)" "s \<in> set ss" for s :: u64 and ss
    using that by (induction ss rule: rev_induct) (auto simp: sorted_wrt_append)
  have "(\<exists>q. validate_operations x g (oj_sequence_high_water j) 0 [] (oj_operations j) = Inr q \<and>
        q = oj_sequence_high_water j) \<longleftrightarrow>
     (\<forall>op \<in> set (oj_operations j). operation_ok x g op) \<and>
     distinct (map jo_operation_id (oj_operations j)) \<and>
     sorted_wrt (<) (0 # ?ss) \<and> oj_sequence_high_water j = last (0 # ?ss)"
    unfolding validate_operations_iff using le [of ?ss] by fastforce
  moreover have "journal_ok x g j \<longleftrightarrow> oj_version j = OPERATION_JOURNAL_VERSION \<and>
     oj_account_group_id j = g \<and> (\<exists>q. validate_operations x g (oj_sequence_high_water j) 0 [] (oj_operations j)
       = Inr q \<and> q = oj_sequence_high_water j)"
    by (auto simp: journal_validate_def split: sum.splits)
  ultimately show ?thesis by blast
qed

lemma set_phase_same [simp]: "op\<lparr>jo_phase := ph\<rparr> = op \<longleftrightarrow> jo_phase op = ph"
  by (cases op) auto

subsection \<open>How a journal evolves\<close>

text \<open>
  An operation keeps its identity, its phase moves along the phase machine, and a snapshot once
  bound stays; a journal keeps its operations in place and appends new ones above the old
  high-water mark.
\<close>

definition operation_evolves :: "journal_operation \<Rightarrow> journal_operation \<Rightarrow> bool" where
  "operation_evolves a b \<longleftrightarrow>
     b = a\<lparr>jo_phase := jo_phase b, jo_snapshot := jo_snapshot b\<rparr> \<and>
     phase_reaches (jo_phase a) (jo_phase b) \<and>
     (\<forall>s. jo_snapshot a = Some s \<longrightarrow> jo_snapshot b = Some s)"

definition journal_evolves :: "operation_journal \<Rightarrow> operation_journal \<Rightarrow> bool" where
  "journal_evolves j k \<longleftrightarrow>
     oj_account_group_id k = oj_account_group_id j \<and>
     oj_sequence_high_water j \<le> oj_sequence_high_water k \<and>
     (\<exists>olds news. oj_operations k = olds @ news \<and> list_all2 operation_evolves (oj_operations j) olds \<and>
        (\<forall>op \<in> set news. oj_sequence_high_water j < jo_sequence op))"

lemma operation_evolves_refl [simp]: "operation_evolves a a"
  by (simp add: operation_evolves_def)

lemma operation_evolves_trans:
  assumes "operation_evolves a b" and "operation_evolves b c"
  shows "operation_evolves a c"
proof -
  have "phase_reaches (jo_phase a) (jo_phase c)"
    using assms by (auto simp: operation_evolves_def intro: phase_reaches_trans)
  moreover have "c = a\<lparr>jo_phase := jo_phase c, jo_snapshot := jo_snapshot c\<rparr>"
    using assms unfolding operation_evolves_def
    by (metis (no_types, lifting) journal_operation.surjective journal_operation.update_convs(9,10))
  ultimately show ?thesis using assms by (auto simp: operation_evolves_def)
qed

lemma list_all2_evolves_refl [simp]: "list_all2 operation_evolves ops ops"
  by (simp add: list_all2_refl)

lemma journal_evolves_refl [simp]: "journal_evolves j j"
  unfolding journal_evolves_def
  by (intro conjI exI [of _ "oj_operations j"] exI [of _ "[]"]) simp_all

lemma operation_evolves_fixed:
  assumes "operation_evolves a b"
  shows "jo_sequence b = jo_sequence a" "jo_operation_id b = jo_operation_id a"
    "jo_request_fingerprint b = jo_request_fingerprint a" "jo_attempt_id b = jo_attempt_id a"
    "operation_request_of b = operation_request_of a"
proof -
  have b: "b = a\<lparr>jo_phase := jo_phase b, jo_snapshot := jo_snapshot b\<rparr>"
    using assms by (simp add: operation_evolves_def)
  from arg_cong [OF b, of jo_sequence] show "jo_sequence b = jo_sequence a" by simp
  from arg_cong [OF b, of jo_operation_id] show "jo_operation_id b = jo_operation_id a" by simp
  from arg_cong [OF b, of jo_request_fingerprint]
  show "jo_request_fingerprint b = jo_request_fingerprint a" by simp
  from arg_cong [OF b, of jo_attempt_id] show "jo_attempt_id b = jo_attempt_id a" by simp
  have "operation_request_of (a\<lparr>jo_phase := p, jo_snapshot := t\<rparr>) = operation_request_of a" for p t
    by (simp add: operation_request_of_def)
  with arg_cong [OF b, of operation_request_of]
  show "operation_request_of b = operation_request_of a" by (simp only:)
qed

lemma evolves_above:
  "list_all2 operation_evolves as bs \<Longrightarrow> \<forall>op \<in> set as. h < jo_sequence op \<Longrightarrow>
     \<forall>op \<in> set bs. h < jo_sequence op"
  by (induction rule: list_all2_induct) (auto simp: operation_evolves_fixed(1))

lemma journal_evolves_trans:
  assumes "journal_evolves i j" and "journal_evolves j k"
  shows "journal_evolves i k"
proof -
  obtain o1 n1 where j: "oj_operations j = o1 @ n1" "list_all2 operation_evolves (oj_operations i) o1"
      "\<forall>op \<in> set n1. oj_sequence_high_water i < jo_sequence op"
    using assms(1) by (auto simp: journal_evolves_def)
  obtain o2 n2 where k: "oj_operations k = o2 @ n2" "list_all2 operation_evolves (o1 @ n1) o2"
      "\<forall>op \<in> set n2. oj_sequence_high_water j < jo_sequence op"
    using assms(2) j(1) by (auto simp: journal_evolves_def)
  obtain p1 p2 where o2: "o2 = p1 @ p2" "list_all2 operation_evolves o1 p1" "list_all2 operation_evolves n1 p2"
    using k(2) by (auto simp: list_all2_append1)
  have hw: "oj_sequence_high_water i \<le> oj_sequence_high_water j" using assms(1) by (simp add: journal_evolves_def)
  have "\<forall>op \<in> set p2. oj_sequence_high_water i < jo_sequence op"
    using o2(3) j(3) by (rule evolves_above)
  moreover have "\<forall>op \<in> set n2. oj_sequence_high_water i < jo_sequence op" using k(3) hw by force
  moreover have "list_all2 operation_evolves (oj_operations i) p1"
    by (rule list_all2_trans [OF _ j(2) o2(2)]) (rule operation_evolves_trans)
  ultimately show ?thesis
    using assms k(1) o2(1) unfolding journal_evolves_def
    by (intro conjI exI [of _ p1] exI [of _ "p2 @ n2"]) auto
qed

lemma update_operation_split:
  assumes "find_operation i j = Some op"
  obtains us vs where "oj_operations j = us @ op # vs" "jo_operation_id op = i"
    "\<And>f. update_operation i f (oj_operations j) = us @ f op # vs"
proof -
  have *: "\<exists>us vs. ops = us @ op # vs \<and> jo_operation_id op = i \<and>
      (\<forall>f. update_operation i f ops = us @ f op # vs)"
    if "find (\<lambda>op. jo_operation_id op = i) ops = Some op" for ops
    using that
  proof (induction ops)
    case Nil
    then show ?case by simp
  next
    case (Cons a ops)
    show ?case
    proof (cases "jo_operation_id a = i")
      case True
      with Cons.prems show ?thesis by (intro exI [of _ "[]"] exI [of _ ops]) simp
    next
      case False
      with Cons obtain us vs where "ops = us @ op # vs" "jo_operation_id op = i"
          "\<forall>f. update_operation i f ops = us @ f op # vs" by auto
      with False show ?thesis by (intro exI [of _ "a # us"] exI [of _ vs]) simp
    qed
  qed
  from * [of "oj_operations j"] assms that show ?thesis by (auto simp: find_operation_def)
qed

lemma update_evolves:
  assumes "find_operation i j = Some op" and "operation_evolves op (f op)"
  shows "journal_evolves j (j\<lparr>oj_operations := update_operation i f (oj_operations j)\<rparr>)"
proof -
  obtain us vs where ops: "oj_operations j = us @ op # vs"
      "update_operation i f (oj_operations j) = us @ f op # vs"
    using update_operation_split [OF assms(1)] by metis
  have "list_all2 operation_evolves (us @ op # vs) (us @ f op # vs)"
    using assms(2) by (simp add: list_all2_append)
  then have "\<exists>olds news. us @ f op # vs = olds @ news \<and> list_all2 operation_evolves (us @ op # vs) olds \<and>
      (\<forall>op \<in> set news. oj_sequence_high_water j < jo_sequence op)"
    by (intro exI [of _ "us @ f op # vs"] exI [where x = "[]"]) simp
  then show ?thesis unfolding journal_evolves_def
    by (simp add: ops(1) ops(2) [unfolded ops(1)])
qed

lemma find_operation_update:
  assumes "find_operation i j = Some op" and "jo_operation_id (f op) = i"
  shows "find_operation k (j\<lparr>oj_operations := update_operation i f (oj_operations j)\<rparr>) =
    (if k = i then Some (f op) else find_operation k j)"
proof -
  have "find (\<lambda>op. jo_operation_id op = k) (update_operation i f ops) =
      (if k = i then Some (f op) else find (\<lambda>op. jo_operation_id op = k) ops)"
    if "find (\<lambda>op. jo_operation_id op = i) ops = Some op" for ops
    using that assms(2) by (induction ops) auto
  with assms(1) show ?thesis by (simp add: find_operation_def)
qed

lemma append_evolves:
  assumes "oj_sequence_high_water j < jo_sequence op"
  shows "journal_evolves j (j\<lparr>oj_sequence_high_water := jo_sequence op, oj_operations := oj_operations j @ [op]\<rparr>)"
  using assms unfolding journal_evolves_def
  by (intro conjI exI [of _ "oj_operations j"] exI [of _ "[op]"]) simp_all

subsection \<open>The store's methods\<close>

definition journal_frame :: "path \<Rightarrow> world \<Rightarrow> world \<Rightarrow> bool" where
  "journal_frame p w w' \<longleftrightarrow> (\<forall>q. q \<noteq> p \<and> \<not> write_scratch p q \<longrightarrow> lookup w' q = lookup w q)"

lemma journal_frame_trans:
  "journal_frame p u v \<Longrightarrow> journal_frame p v w \<Longrightarrow> journal_frame p u w"
  by (simp add: journal_frame_def)

lemma journal_frame_advance [simp]: "journal_frame p w (advance v) = journal_frame p w v"
  by (simp add: journal_frame_def)

lemma verify_journal_bytes_ok:
  "verify_journal_bytes x g n bs = Inr () \<Longrightarrow> from_slice (je_journal_json x) bs = Some n"
  by (auto simp: verify_journal_bytes_def json_from_slice_def split: option.splits sum.splits if_splits)

lemma wp_journal_write:
  assumes v: "\<And>bs. v bs = Inr () \<Longrightarrow> from_slice c bs = Some n"
    and Q: "\<And>w'. stored c p w' = Some n \<Longrightarrow> journal_frame p w w' \<Longrightarrow> Q (Inr Committed) w'"
    and U: "\<And>e w'. stored c p w' = Some n \<Longrightarrow> lookup w' p = Some bs \<Longrightarrow> journal_frame p w w' \<Longrightarrow>
        Q (Inl \<lparr>dwf_result = DurabilityUnknown, dwf_error = e\<rparr>) w'"
    and N: "\<And>e w'. lookup w' p = lookup w p \<Longrightarrow> journal_frame p w w' \<Longrightarrow>
        Q (Inl \<lparr>dwf_result = NotCommitted, dwf_error = e\<rparr>) w'"
  shows "wp (attempt (write_verified_durable p bs v)) Q E w"
proof -
  have frame: "journal_frame p w w'" if "write_verified_durable p bs v w = (r, w')" for r w'
    using that dw.frame by (auto simp: journal_frame_def)
  have ok: "Q (Inr d) w'" if run: "write_verified_durable p bs v w = (Inr d, w')" for d w'
    using dw.committed [OF run] v Q frame [OF run] by (auto simp: stored_def)
  have err: "Q (Inl f) w'" if run: "write_verified_durable p bs v w = (Inl f, w')" for f w'
  proof -
    obtain rs e where f: "f = \<lparr>dwf_result = rs, dwf_error = e\<rparr>" by (cases f) auto
    from dw.failure_class [OF run] show ?thesis
      using v U N frame [OF run] by (auto simp: f stored_def)
  qed
  show ?thesis by (auto simp: wp_attempt intro!: wp_runI ok err)
qed

text \<open>
  The contract of \<open>persist\<close>: on success the new journal is valid and both in memory and on
  disk; on failure memory is unchanged and the disk holds the old journal or the new valid one.
\<close>

lemma wp_journal_persist:
  fixes s :: journal_store
  assumes Q: "\<And>w'. stored (je_journal_json x) (js_path s) w' = Some n \<Longrightarrow> journal_ok x (js_account_group_id s) n
        \<Longrightarrow> journal_frame (js_path s) w w' \<Longrightarrow> Q () (s\<lparr>js_journal := n\<rparr>, w')"
    and E: "\<And>e w'. lookup w' (js_path s) = lookup w (js_path s) \<or>
          stored (je_journal_json x) (js_path s) w' = Some n \<and> journal_ok x (js_account_group_id s) n \<Longrightarrow>
        journal_frame (js_path s) w w' \<Longrightarrow> E e (s, w')"
  shows "wp (journal_persist x n) Q E (s, w)"
proof -
  let ?c = "je_journal_json x" and ?p = "js_path s" and ?g = "js_account_group_id s"
  have st: "stored ?c ?p (advance w) = stored ?c ?p w" for w
    by (simp add: stored_def)
  have core: "wp (bindR (on_snd (attempt (write_verified_durable ?p bs (verify_journal_bytes x ?g n))))
        (\<lambda>outcome. resolve_journal_write x ?p prev bs n outcome)) Q E (s, v)"
    if v: "lookup v ?p = lookup w ?p" "journal_frame ?p w v" and ok: "journal_ok x ?g n" for v bs prev
    unfolding resolve_journal_write_def set_journal_def wp_bindR wp_on_snd
    by (rule wp_journal_write [where c = ?c and n = n], erule verify_journal_bytes_ok)
      (auto simp: wp_simps st v split: option.split intro!: Q E ok journal_frame_trans [OF v(2)])
  show ?thesis unfolding journal_persist_def
    by (auto simp: wp_simps st journal_frame_def split: option.split sum.split
        intro!: E core [unfolded wp_bindR wp_on_snd wp_attempt fst_conv snd_conv])
qed

text \<open>
  What a method that succeeds or fails leaves: memory and disk are in step, or memory is
  unchanged and the disk is the old journal or a valid successor.
\<close>

definition journal_moved ::
    "journal_ext \<Rightarrow> journal_store \<Rightarrow> world \<Rightarrow> operation_journal \<Rightarrow> journal_store \<times> world \<Rightarrow> bool" where
  "journal_moved x s w n t \<longleftrightarrow> fst t = s\<lparr>js_journal := n\<rparr> \<and> journal_frame (js_path s) w (snd t) \<and>
     (n = js_journal s \<and> lookup (snd t) = lookup w \<or>
      stored (je_journal_json x) (js_path s) (snd t) = Some n \<and> journal_ok x (js_account_group_id s) n)"

definition journal_kept ::
    "journal_ext \<Rightarrow> journal_store \<Rightarrow> world \<Rightarrow> journal_store \<times> world \<Rightarrow> bool" where
  "journal_kept x s w t \<longleftrightarrow> fst t = s \<and> journal_frame (js_path s) w (snd t) \<and>
     (lookup (snd t) (js_path s) = lookup w (js_path s) \<or>
      (\<exists>d. stored (je_journal_json x) (js_path s) (snd t) = Some d \<and> journal_evolves (js_journal s) d \<and>
         journal_ok x (js_account_group_id s) d))"

lemma journal_kept_same: "lookup w' = lookup w \<Longrightarrow> journal_kept x s w (s, w')"
  by (simp add: journal_kept_def journal_frame_def stored_def)

lemma set_same_journal [simp]: "s\<lparr>js_journal := js_journal s\<rparr> = (s :: journal_store)"
  by simp

lemma wp_transition:
  "wp (transition x i ph)
     (\<lambda>_ t. \<exists>op. find_operation i (js_journal s) = Some op \<and>
        (jo_phase op = ph \<and> t = (s, w) \<or>
         can_transition_to (jo_phase op) ph \<and> (ph = PhCommitted \<longrightarrow> jo_snapshot op \<noteq> None) \<and>
         journal_moved x s w ((js_journal s)\<lparr>oj_operations :=
           update_operation i (\<lambda>op. op\<lparr>jo_phase := ph\<rparr>) (oj_operations (js_journal s))\<rparr>) t))
     (\<lambda>_ t. journal_kept x s w t) (s, w)"
  unfolding transition_def
  by (auto simp: wp_simps journal_kept_same journal_moved_def split: option.split
      intro!: wp_journal_persist)
    (auto simp: journal_kept_def operation_evolves_def phase_reaches_step intro!: update_evolves)

lemma wp_bind_snapshot:
  "wp (bind_snapshot x i b)
     (\<lambda>_ t. \<exists>op. find_operation i (js_journal s) = Some op \<and> precommit (jo_phase op) \<and>
        (jo_snapshot op = Some b \<and> t = (s, w) \<or>
         jo_snapshot op = None \<and>
         journal_moved x s w ((js_journal s)\<lparr>oj_operations :=
           update_operation i (\<lambda>op. op\<lparr>jo_snapshot := Some b\<rparr>) (oj_operations (js_journal s))\<rparr>) t))
     (\<lambda>_ t. journal_kept x s w t) (s, w)"
  unfolding bind_snapshot_def
  by (auto simp: wp_simps journal_kept_same journal_moved_def precommit_def split: option.split
      intro!: wp_journal_persist)
    (auto simp: journal_kept_def operation_evolves_def intro!: update_evolves)

definition new_operation :: "operation_request \<Rightarrow> u64 \<Rightarrow> digest32 \<Rightarrow> journal_operation" where
  "new_operation request sequence fingerprint =
     \<lparr>jo_operation_id = rq_operation_id request, jo_attempt_id = rq_attempt_id request,
      jo_sequence = sequence, jo_request_fingerprint = fingerprint, jo_kind = rq_kind request,
      jo_lease_id = rq_lease_id request, jo_reason_code = rq_reason_code request,
      jo_base_vault_sequence = rq_base_vault_sequence request, jo_phase = PhNotCommitted,
      jo_snapshot = None\<rparr>"

lemma begin_evolves:
  assumes "checked_add (oj_sequence_high_water j) 1 = Some sq"
  shows "journal_evolves j
    (j\<lparr>oj_sequence_high_water := sq, oj_operations := oj_operations j @ [new_operation r sq fp]\<rparr>)"
  using append_evolves [of j "new_operation r sq fp"] checked_add_one_less [OF assms]
  by (simp add: new_operation_def)

lemma wp_journal_begin:
  "wp (journal_begin x r)
     (\<lambda>res t. \<exists>fp. request_fingerprint x (js_account_group_id s) r = Inr fp \<and>
        (case find_operation (rq_operation_id r) (js_journal s) of
           Some op \<Rightarrow> jo_request_fingerprint op = fp \<and> res = Duplicate op \<and> t = (s, w)
         | None \<Rightarrow> \<exists>sq. checked_add (oj_sequence_high_water (js_journal s)) 1 = Some sq \<and>
             res = Created (new_operation r sq fp) \<and>
             journal_moved x s w ((js_journal s)\<lparr>oj_sequence_high_water := sq,
               oj_operations := oj_operations (js_journal s) @ [new_operation r sq fp]\<rparr>) t))
     (\<lambda>_ t. journal_kept x s w t) (s, w)"
  unfolding journal_begin_def Let_def new_operation_def [symmetric]
  by (auto simp: wp_simps journal_kept_same journal_moved_def split: option.split sum.split
      intro!: wp_journal_persist)
    (auto simp: journal_kept_def begin_evolves)

text \<open>Every method, whatever its result, makes progress in this sense.\<close>

definition journal_progress ::
    "journal_ext \<Rightarrow> journal_store \<Rightarrow> world \<Rightarrow> journal_store \<times> world \<Rightarrow> bool" where
  "journal_progress x s w t \<longleftrightarrow> journal_kept x s w t \<or>
     (\<exists>n. journal_moved x s w n t \<and> journal_evolves (js_journal s) n)"

lemma journal_progress_refl: "journal_progress x s w (s, w)"
  by (simp add: journal_progress_def journal_kept_same)

lemma progress_begin: "journal_begin x r (s, w) = (res, t) \<Longrightarrow> journal_progress x s w t"
  using wp_journal_begin [of x r s w]
  by (cases res) (auto simp: wp_def journal_progress_def journal_kept_same
      split: option.splits dest: begin_evolves)

lemma progress_bind: "bind_snapshot x i b (s, w) = (res, t) \<Longrightarrow> journal_progress x s w t"
  using wp_bind_snapshot [of x i b s w]
  by (cases res) (auto simp: wp_def journal_progress_def journal_kept_same operation_evolves_def
      intro!: update_evolves)

lemma progress_transition: "transition x i ph (s, w) = (res, t) \<Longrightarrow> journal_progress x s w t"
  using wp_transition [of x i ph s w]
  by (cases res) (auto simp: wp_def journal_progress_def journal_kept_same operation_evolves_def
      phase_reaches_step intro!: update_evolves)

subsection \<open>Runs of the journal across failures and restarts\<close>

text \<open>
  A run interleaves the store's methods with process loss, reopening and environment steps that
  leave the journal file alone. Reopening is a step only where the metadata query behind
  \<open>Path::exists\<close> answers: the code takes a failed query for an absent journal and starts an empty
  one, which \<open>unreadable_journal_is_forgotten\<close> states. The third component is the journal a caller last saw: the one in
  memory, or the one that was in memory when the process died.
\<close>

type_synonym journal_sys = "journal_store option \<times> world \<times> operation_journal"

inductive journal_step :: "journal_ext \<Rightarrow> path \<Rightarrow> uuid \<Rightarrow> journal_sys \<Rightarrow> journal_sys \<Rightarrow> bool"
  for x p g where
    Begin: "journal_begin x r (s, w) = (res, (s', w')) \<Longrightarrow>
      journal_step x p g (Some s, w, a) (Some s', w', js_journal s')"
  | Bind: "bind_snapshot x i b (s, w) = (res, (s', w')) \<Longrightarrow>
      journal_step x p g (Some s, w, a) (Some s', w', js_journal s')"
  | Transition: "transition x i ph (s, w) = (res, (s', w')) \<Longrightarrow>
      journal_step x p g (Some s, w, a) (Some s', w', js_journal s')"
  | Crash: "journal_step x p g (m, w, a) (None, w, a)"
  | Reopen: "\<not> stat_fault w (tick w) \<Longrightarrow> journal_open x p g w = (Inr s, w') \<Longrightarrow>
      journal_step x p g (None, w, a) (Some s, w', js_journal s)"
  | Reopen_Err: "\<not> stat_fault w (tick w) \<Longrightarrow> journal_open x p g w = (Inl e, w') \<Longrightarrow>
      journal_step x p g (None, w, a) (None, w', a)"
  | Env: "lookup w' p = lookup w p \<Longrightarrow> journal_step x p g (m, w, a) (m, w', a)"

definition journal_sys_inv :: "journal_ext \<Rightarrow> path \<Rightarrow> uuid \<Rightarrow> journal_sys \<Rightarrow> bool" where
  "journal_sys_inv x p g = (\<lambda>(m, w, a).
     pred_option (\<lambda>s. js_path s = p \<and> js_account_group_id s = g \<and> js_journal s = a) m \<and>
     journal_ok x g a \<and>
     (lookup w p = None \<and> a = journal_empty g \<or>
      (\<exists>d. stored (je_journal_json x) p w = Some d \<and> journal_evolves a d \<and> journal_ok x g d)))"

definition journal_reaches :: "journal_ext \<Rightarrow> path \<Rightarrow> uuid \<Rightarrow> journal_sys \<Rightarrow> journal_sys \<Rightarrow> bool" where
  "journal_reaches x p g = rtranclp (journal_step x p g)"

lemma journal_empty_ok: "journal_ok x g (journal_empty g)"
  by (simp add: journal_ok_iff journal_empty_def)

lemma inv_progress:
  assumes "journal_sys_inv x p g (Some s, w, a)" and "journal_progress x s w (s', w')"
  shows "journal_sys_inv x p g (Some s', w', js_journal s') \<and> journal_evolves a (js_journal s')"
  using assms by (auto simp: journal_sys_inv_def journal_progress_def journal_kept_def journal_moved_def stored_def)

lemma journal_open_spec:
  assumes "\<not> stat_fault w (tick w)"
  shows "wp (journal_open x p g)
     (\<lambda>s w'. lookup w' = lookup w \<and> js_path s = p \<and> js_account_group_id s = g \<and> journal_ok x g (js_journal s) \<and>
        (lookup w p = None \<and> js_journal s = journal_empty g \<or>
         stored (je_journal_json x) p w = Some (js_journal s)))
     (\<lambda>_ w'. lookup w' = lookup w) w"
  using assms unfolding journal_open_def
  by (auto simp: wp_simps fun_eq_iff stored_def json_from_slice_def is_present_def
      split: option.split sum.split)

lemma journal_step_inv:
  assumes "journal_step x p g s t" and "journal_sys_inv x p g s"
  shows "journal_sys_inv x p g t \<and> journal_evolves (snd (snd s)) (snd (snd t))"
  using assms
proof (induction rule: journal_step.induct)
  case (Begin r s w res s' w' a)
  show ?case using inv_progress [OF Begin(2) progress_begin [OF Begin(1)]] by simp
next
  case (Bind i b s w res s' w' a)
  show ?case using inv_progress [OF Bind(2) progress_bind [OF Bind(1)]] by simp
next
  case (Transition i ph s w res s' w' a)
  show ?case using inv_progress [OF Transition(2) progress_transition [OF Transition(1)]] by simp
next
  case (Crash m w a)
  then show ?case by (simp add: journal_sys_inv_def)
next
  case (Reopen w s w' a)
  show ?case
    using journal_open_spec [OF Reopen(1), of x p g] Reopen(2,3)
    by (auto simp: wp_def journal_sys_inv_def stored_def)
next
  case (Reopen_Err w e w' a)
  show ?case
    using journal_open_spec [OF Reopen_Err(1), of x p g] Reopen_Err(2,3)
    by (auto simp: wp_def journal_sys_inv_def stored_def)
next
  case (Env w' w m a)
  then show ?case by (simp add: journal_sys_inv_def stored_def)
qed

lemma journal_sys_inv_initial: "lookup w p = None \<Longrightarrow> journal_sys_inv x p g (None, w, journal_empty g)"
  by (simp add: journal_sys_inv_def journal_empty_ok)

lemma journal_reaches_inv:
  assumes "journal_reaches x p g s t" and "journal_sys_inv x p g s"
  shows "journal_sys_inv x p g t \<and> journal_evolves (snd (snd s)) (snd (snd t))"
  using assms unfolding journal_reaches_def
proof (induction rule: rtranclp_induct)
  case base
  then show ?case by simp
next
  case (step t u)
  then show ?case using journal_step_inv [OF step(2)] journal_evolves_trans by blast
qed

lemma find_operation_id: "find_operation i j = Some op \<Longrightarrow> jo_operation_id op = i \<and> op \<in> set (oj_operations j)"
  by (auto simp: find_operation_def dest: find_SomeD)

text \<open>The two updating methods on one operation, for a caller that looks the operation up again.\<close>

lemma wp_transition_op:
  assumes Q: "\<And>op s' w'. find_operation i (js_journal s) = Some op \<Longrightarrow>
        find_operation i (js_journal s') = Some (op\<lparr>jo_phase := ph\<rparr>) \<Longrightarrow>
        \<forall>k. k \<noteq> i \<longrightarrow> find_operation k (js_journal s') = find_operation k (js_journal s) \<Longrightarrow>
        s' = s\<lparr>js_journal := js_journal s'\<rparr> \<Longrightarrow> journal_frame (js_path s) w w' \<Longrightarrow>
        jo_phase op = ph \<or> can_transition_to (jo_phase op) ph \<Longrightarrow> Q () (s', w')"
    and E: "\<And>e w'. journal_frame (js_path s) w w' \<Longrightarrow> E e (s, w')"
  shows "wp (transition x i ph) Q E (s, w)"
proof (rule wp_mono [OF wp_transition [of x i ph s w]])
  fix u and t :: "journal_store \<times> world"
  assume "\<exists>op. find_operation i (js_journal s) = Some op \<and>
        (jo_phase op = ph \<and> t = (s, w) \<or>
         can_transition_to (jo_phase op) ph \<and> (ph = PhCommitted \<longrightarrow> jo_snapshot op \<noteq> None) \<and>
         journal_moved x s w ((js_journal s)\<lparr>oj_operations :=
           update_operation i (\<lambda>op. op\<lparr>jo_phase := ph\<rparr>) (oj_operations (js_journal s))\<rparr>) t)"
  then obtain op where op: "find_operation i (js_journal s) = Some op"
      and d: "jo_phase op = ph \<and> t = (s, w) \<or> can_transition_to (jo_phase op) ph \<and>
         journal_moved x s w ((js_journal s)\<lparr>oj_operations :=
           update_operation i (\<lambda>op. op\<lparr>jo_phase := ph\<rparr>) (oj_operations (js_journal s))\<rparr>) t" by auto
  have id: "jo_operation_id (op\<lparr>jo_phase := ph\<rparr>) = i" using find_operation_id [OF op] by simp
  from d show "Q u t"
  proof
    assume "jo_phase op = ph \<and> t = (s, w)"
    then show ?thesis using Q [OF op, of s w] op by (auto simp: journal_frame_def)
  next
    assume "can_transition_to (jo_phase op) ph \<and> journal_moved x s w ((js_journal s)\<lparr>oj_operations :=
           update_operation i (\<lambda>op. op\<lparr>jo_phase := ph\<rparr>) (oj_operations (js_journal s))\<rparr>) t"
    then show ?thesis
      using Q [OF op, of "fst t" "snd t", unfolded prod.collapse] find_operation_update [where f = "\<lambda>op. op\<lparr>jo_phase := ph\<rparr>", OF op id] by (cases t) (auto simp: journal_moved_def)
  qed
qed (auto simp: journal_kept_def intro: E)

lemma wp_bind_op:
  assumes Q: "\<And>op s' w'. find_operation i (js_journal s) = Some op \<Longrightarrow> precommit (jo_phase op) \<Longrightarrow>
        find_operation i (js_journal s') = Some (op\<lparr>jo_snapshot := Some b\<rparr>) \<Longrightarrow>
        s' = s\<lparr>js_journal := js_journal s'\<rparr> \<Longrightarrow> journal_frame (js_path s) w w' \<Longrightarrow> Q () (s', w')"
    and E: "\<And>e w'. journal_frame (js_path s) w w' \<Longrightarrow> E e (s, w')"
  shows "wp (bind_snapshot x i b) Q E (s, w)"
proof (rule wp_mono [OF wp_bind_snapshot [of x i b s w]])
  fix u and t :: "journal_store \<times> world"
  assume "\<exists>op. find_operation i (js_journal s) = Some op \<and> precommit (jo_phase op) \<and>
        (jo_snapshot op = Some b \<and> t = (s, w) \<or> jo_snapshot op = None \<and>
         journal_moved x s w ((js_journal s)\<lparr>oj_operations :=
           update_operation i (\<lambda>op. op\<lparr>jo_snapshot := Some b\<rparr>) (oj_operations (js_journal s))\<rparr>) t)"
  then obtain op where op: "find_operation i (js_journal s) = Some op" "precommit (jo_phase op)"
      and d: "jo_snapshot op = Some b \<and> t = (s, w) \<or>
         journal_moved x s w ((js_journal s)\<lparr>oj_operations :=
           update_operation i (\<lambda>op. op\<lparr>jo_snapshot := Some b\<rparr>) (oj_operations (js_journal s))\<rparr>) t" by auto
  have id: "jo_operation_id (op\<lparr>jo_snapshot := Some b\<rparr>) = i" using find_operation_id [OF op(1)] by simp
  from d show "Q u t"
  proof
    assume "jo_snapshot op = Some b \<and> t = (s, w)"
    then show ?thesis using Q [OF op, of s w] op by (auto simp: journal_frame_def)
  next
    assume "journal_moved x s w ((js_journal s)\<lparr>oj_operations :=
           update_operation i (\<lambda>op. op\<lparr>jo_snapshot := Some b\<rparr>) (oj_operations (js_journal s))\<rparr>) t"
    then show ?thesis
      using Q [OF op, of "fst t" "snd t", unfolded prod.collapse] find_operation_update [where f = "\<lambda>op. op\<lparr>jo_snapshot := Some b\<rparr>", OF op(1) id] by (cases t) (auto simp: journal_moved_def)
  qed
qed (auto simp: journal_kept_def intro: E)

lemma transition_spec:
  assumes "transition x i ph (s, w) = (r, (s', w'))"
  shows "case r of
      Inl e \<Rightarrow> s' = s
    | Inr _ \<Rightarrow> (\<exists>op. find_operation i (js_journal s) = Some op \<and>
        find_operation i (js_journal s') = Some (op\<lparr>jo_phase := ph\<rparr>) \<and>
        (\<forall>k. k \<noteq> i \<longrightarrow> find_operation k (js_journal s') = find_operation k (js_journal s)) \<and>
        (jo_phase op = ph \<and> s' = s \<or>
         can_transition_to (jo_phase op) ph \<and> stored (je_journal_json x) (js_path s) w' = Some (js_journal s')))"
proof (cases r)
  case (Inl e)
  then show ?thesis using wp_transition [of x i ph s w] assms by (simp add: wp_def journal_kept_def)
next
  case (Inr u)
  then obtain op where op: "find_operation i (js_journal s) = Some op"
      and d: "jo_phase op = ph \<and> (s', w') = (s, w) \<or> can_transition_to (jo_phase op) ph \<and>
         journal_moved x s w ((js_journal s)\<lparr>oj_operations :=
           update_operation i (\<lambda>op. op\<lparr>jo_phase := ph\<rparr>) (oj_operations (js_journal s))\<rparr>) (s', w')"
    using wp_transition [of x i ph s w] assms by (auto simp: wp_def)
  have id: "jo_operation_id op = i" using op by (auto simp: find_operation_def dest: find_SomeD)
  from d show ?thesis
  proof
    assume "jo_phase op = ph \<and> (s', w') = (s, w)"
    then show ?thesis using op Inr by auto
  next
    assume m: "can_transition_to (jo_phase op) ph \<and>
         journal_moved x s w ((js_journal s)\<lparr>oj_operations :=
           update_operation i (\<lambda>op. op\<lparr>jo_phase := ph\<rparr>) (oj_operations (js_journal s))\<rparr>) (s', w')"
    have "jo_phase op \<noteq> ph" using m by (cases "jo_phase op") auto
    then have "(js_journal s)\<lparr>oj_operations := update_operation i (\<lambda>op. op\<lparr>jo_phase := ph\<rparr>)
        (oj_operations (js_journal s))\<rparr> \<noteq> js_journal s"
      using find_operation_update [OF op, of "\<lambda>op. op\<lparr>jo_phase := ph\<rparr>" i] op id set_phase_same [of ph op]
      by (metis option.inject journal_operation.simps(1) journal_operation.surjective journal_operation.update_convs(9))
    with m show ?thesis using op id Inr
      by (auto simp: journal_moved_def find_operation_update)
  qed
qed

subsection \<open>Properties\<close>

text \<open>
  C4. The acknowledged history of operations is never rewound. Along every run of the journal from
  an empty store, across failed reads and writes, process loss and reopening, a later journal extends
  every earlier one: operations stay in place with their identity, request and sequence, phases move
  only along legal transitions, a bound snapshot never changes, and new operations get sequences
  above the old high-water mark. The hypotheses, which are the steps of the run: the metadata query
  with which reopening looks for the journal file answers, and nobody but the journal's own code
  changes that file.
\<close>

theorem journal_never_rewinds:
  assumes "lookup w0 p = None" and "journal_reaches x p g (None, w0, journal_empty g) (m, w, a)"
    and "journal_reaches x p g (m, w, a) (m', w', a')"
  shows "journal_evolves a a'"
  using journal_reaches_inv [OF assms(3)]
    journal_reaches_inv [OF assms(2) journal_sys_inv_initial [OF assms(1)]] by simp

text \<open>
  Where the metadata query fails, reopening that succeeds has forgotten the journal, whatever the file
  holds; the file itself is left as it is until the next write.
\<close>

theorem unreadable_journal_is_forgotten:
  assumes "stat_fault w (tick w)" and "journal_open x p g w = (Inr s, w')"
  shows "js_journal s = journal_empty g \<and> lookup w' = lookup w"
  using assms by (auto simp: journal_open_def monad_defs fs_exists_def fun_eq_iff split: sum.splits)

text \<open>
  In every reachable state the journal a caller sees is valid for its group: identifiers are
  distinct and not nil, sequences increase strictly up to the high-water mark, each operation
  carries the fingerprint of its own request, and an operation that is committed, pending removal
  or completed has its snapshot bound.
\<close>

theorem journal_always_valid:
  assumes "lookup w0 p = None" and "journal_reaches x p g (None, w0, journal_empty g) (m, w, a)"
  shows "distinct (map jo_operation_id (oj_operations a)) \<and>
    sorted_wrt (<) (map jo_sequence (oj_operations a)) \<and>
    oj_sequence_high_water a = last (0 # map jo_sequence (oj_operations a)) \<and>
    (\<forall>op \<in> set (oj_operations a). jo_operation_id op \<noteq> 0 \<and>
       request_fingerprint x g (operation_request_of op) = Inr (jo_request_fingerprint op) \<and>
       (postcommit (jo_phase op) \<longrightarrow> jo_snapshot op \<noteq> None))"
  using journal_reaches_inv [OF assms(2) journal_sys_inv_initial [OF assms(1)]]
  by (auto simp: journal_sys_inv_def journal_ok_iff operation_ok_def)

text \<open>
  The phase machine: exactly the terminal phases have no exit, an operation completes only out
  of pending browser removal and reaches pending removal only out of committed, it can become
  uncommitted again only while its durability is unknown, and every live phase can escalate to
  reconciliation.
\<close>

theorem phase_machine:
  "(is_terminal a \<longleftrightarrow> (\<forall>b. \<not> can_transition_to a b)) \<and>
   (can_transition_to a Completed \<longleftrightarrow> a = BrowserRemovalPending) \<and>
   (can_transition_to a BrowserRemovalPending \<longleftrightarrow> a = PhCommitted) \<and>
   (can_transition_to a PhCommitted \<longleftrightarrow> precommit a) \<and>
   (can_transition_to a Aborted \<longleftrightarrow> a = PhNotCommitted) \<and>
   (can_transition_to a PhNotCommitted \<longleftrightarrow> a = PhDurabilityUnknown) \<and>
   (can_transition_to a ReconciliationRequired \<longleftrightarrow> \<not> is_terminal a)"
  using terminal_no_exit [of a] by (cases a) (simp_all add: precommit_def)

text \<open>
  Beginning an operation is idempotent: once a request has created an operation, the same
  request returns that operation as a duplicate and changes nothing, in any world.
\<close>

theorem begin_idempotent:
  assumes "journal_begin x r (s, w) = (Inr (Created op), (s', w'))"
  shows "journal_begin x r (s', v) = (Inr (Duplicate op), (s', v))"
proof -
  obtain fp sq where fp: "request_fingerprint x (js_account_group_id s) r = Inr fp"
      and none: "find_operation (rq_operation_id r) (js_journal s) = None"
      and op: "op = new_operation r sq fp"
      and s': "s' = s\<lparr>js_journal := (js_journal s)\<lparr>oj_sequence_high_water := sq,
          oj_operations := oj_operations (js_journal s) @ [new_operation r sq fp]\<rparr>\<rparr>"
    using wp_journal_begin [of x r s w] assms
    by (auto simp: wp_def journal_moved_def split: option.splits)
  have "find_operation (rq_operation_id r) (js_journal s') = Some op"
    using none by (simp add: s' op find_operation_def find_snoc_None new_operation_def)
  then show ?thesis
    using fp by (simp add: journal_begin_def monad_defs s' op new_operation_def)
qed

text \<open>
  An operation identifier cannot be reused for a different request: the journal refuses it and
  neither memory nor disk changes.
\<close>

theorem begin_conflict_refused:
  assumes "find_operation (rq_operation_id r) (js_journal s) = Some op"
    and "request_fingerprint x (js_account_group_id s) r = Inr fp" and "fp \<noteq> jo_request_fingerprint op"
  shows "journal_begin x r (s, w) =
    (Inl (Protocol ''operation id was reused with a different request payload''), (s, w))"
  using assms by (simp add: journal_begin_def monad_defs)

text \<open>
  A successful transition puts the operation in the requested phase and changes no other
  operation; if it changed anything the new journal is on disk when it returns. A failed one leaves
  the in-memory journal as it was.
\<close>

theorem transition_effect:
  assumes "transition x i ph (s, w) = (r, (s', w'))"
  shows "case r of
      Inl e \<Rightarrow> s' = s
    | Inr _ \<Rightarrow> (\<exists>op. find_operation i (js_journal s) = Some op \<and>
        find_operation i (js_journal s') = Some (op\<lparr>jo_phase := ph\<rparr>) \<and>
        (\<forall>k. k \<noteq> i \<longrightarrow> find_operation k (js_journal s') = find_operation k (js_journal s)) \<and>
        (jo_phase op = ph \<and> s' = s \<or>
         can_transition_to (jo_phase op) ph \<and> stored (je_journal_json x) (js_path s) w' = Some (js_journal s')))"
  using assms by (rule transition_spec)

subsection \<open>A concrete run\<close>

text \<open>Group 5 opens an empty journal, begins one eviction and marks its durability unknown.\<close>

definition exj_path :: path where
  "exj_path = [Name ''data'', Name ''journal.json'']"

definition exj_request :: operation_request where
  "exj_request = \<lparr>rq_operation_id = 9, rq_attempt_id = None, rq_kind = Eviction, rq_lease_id = None,
     rq_reason_code = ''idle'', rq_base_vault_sequence = 0\<rparr>"

definition exj_op :: journal_operation where
  "exj_op = new_operation exj_request 1 [0]"

definition exj_j1 :: operation_journal where
  "exj_j1 = \<lparr>oj_version = 1, oj_account_group_id = 5, oj_sequence_high_water = 1, oj_operations = [exj_op]\<rparr>"

definition exj_j2 :: operation_journal where
  "exj_j2 = exj_j1\<lparr>oj_operations := [exj_op\<lparr>jo_phase := PhDurabilityUnknown\<rparr>]\<rparr>"

definition exj_ext :: journal_ext where
  "exj_ext = \<lparr>je_sha256 = (\<lambda>bs. bs),
     je_request_json = (\<lambda>b. Some [ucast (rq_base_vault_sequence (br_request b))]),
     je_journal_json = table_codec [exj_j1, exj_j2]\<rparr>"

lemmas exj_defs =
  exj_path_def exj_request_def exj_op_def exj_j1_def exj_j2_def exj_ext_def new_operation_def
  quiet_world_def table_codec_def upt_rec

definition exj_s0 :: journal_store where
  "exj_s0 = \<lparr>js_path = exj_path, js_account_group_id = 5, js_journal = journal_empty 5\<rparr>"

definition exj_w0 :: world where
  "exj_w0 = snd (journal_open exj_ext exj_path 5 quiet_world)"

definition exj_t1 :: "journal_store \<times> world" where
  "exj_t1 = snd (journal_begin exj_ext exj_request (exj_s0, exj_w0))"

definition exj_t2 :: "journal_store \<times> world" where
  "exj_t2 = snd (transition exj_ext 9 PhDurabilityUnknown exj_t1)"

lemma exj_open_run: "journal_open exj_ext exj_path 5 quiet_world = (Inr exj_s0, exj_w0)"
proof -
  have "fst (journal_open exj_ext exj_path 5 quiet_world) = Inr exj_s0"
    by (simp add: run_simps exj_defs exj_s0_def)
  then show ?thesis by (simp add: prod_eq_iff exj_w0_def)
qed

lemma exj_begin_run:
  "journal_begin exj_ext exj_request (exj_s0, exj_w0) = (Inr (Created exj_op), (fst exj_t1, snd exj_t1))"
proof -
  have "fst (journal_begin exj_ext exj_request (exj_s0, exj_w0)) = Inr (Created exj_op)"
    by (simp add: run_simps exj_defs exj_s0_def exj_w0_def is_ascii_lowercase_def)
  then show ?thesis by (simp add: prod_eq_iff exj_t1_def)
qed

lemma exj_t1_memory: "fst exj_t1 = exj_s0\<lparr>js_journal := exj_j1\<rparr>"
  by (simp add: run_simps exj_defs exj_s0_def exj_w0_def exj_t1_def is_ascii_lowercase_def)

lemma exj_transition_run:
  "transition exj_ext 9 PhDurabilityUnknown (fst exj_t1, snd exj_t1) = (Inr (), (fst exj_t2, snd exj_t2))"
proof -
  have "fst (transition exj_ext 9 PhDurabilityUnknown (fst exj_t1, snd exj_t1)) = Inr ()"
    unfolding exj_t1_memory
    by (simp add: run_simps exj_defs exj_s0_def exj_w0_def exj_t1_def is_ascii_lowercase_def)
  then show ?thesis by (simp add: prod_eq_iff exj_t2_def)
qed

lemma exj_file_missing: "lookup quiet_world exj_path = None"
  by (simp add: quiet_world_def lookup_def)

lemma exj_reach1:
  "journal_reaches exj_ext exj_path 5 (None, quiet_world, journal_empty 5) (Some (fst exj_t1), snd exj_t1, js_journal (fst exj_t1))"
proof -
  have "journal_step exj_ext exj_path 5 (None, quiet_world, journal_empty 5) (Some exj_s0, exj_w0, js_journal exj_s0)"
    by (rule journal_step.Reopen [OF _ exj_open_run]) (simp add: quiet_world_def)
  moreover have "journal_step exj_ext exj_path 5 (Some exj_s0, exj_w0, js_journal exj_s0)
      (Some (fst exj_t1), snd exj_t1, js_journal (fst exj_t1))"
    by (rule journal_step.Begin [OF exj_begin_run])
  ultimately show ?thesis unfolding journal_reaches_def by (auto intro: converse_rtranclp_into_rtranclp)
qed

lemma exj_reach2:
  "journal_reaches exj_ext exj_path 5 (Some (fst exj_t1), snd exj_t1, js_journal (fst exj_t1))
     (Some (fst exj_t2), snd exj_t2, js_journal (fst exj_t2))"
  unfolding journal_reaches_def by (rule r_into_rtranclp) (rule journal_step.Transition [OF exj_transition_run])

theorem journal_never_rewinds_witness:
  "oj_operations (js_journal (fst exj_t1)) = [exj_op] \<and>
   journal_evolves (js_journal (fst exj_t1)) (js_journal (fst exj_t2))"
  using journal_never_rewinds [OF exj_file_missing exj_reach1 exj_reach2]
  by (simp add: exj_t1_memory exj_j1_def)

theorem unreadable_journal_is_forgotten_witness:
  "\<exists>s w'. journal_open exj_ext exj_path 5 (put_file exj_path [0] (quiet_world\<lparr>stat_fault := (\<lambda>_. True)\<rparr>)) = (Inr s, w') \<and>
     js_journal s = journal_empty 5 \<and> lookup w' exj_path = Some [0]"
proof -
  let ?w = "put_file exj_path [0] (quiet_world\<lparr>stat_fault := (\<lambda>_. True)\<rparr>)"
  have "fst (journal_open exj_ext exj_path 5 ?w) = Inr exj_s0"
    by (simp add: run_simps exj_defs exj_s0_def)
  then obtain w' where run: "journal_open exj_ext exj_path 5 ?w = (Inr exj_s0, w')" by (metis prod.collapse)
  have "stat_fault ?w (tick ?w)" by simp
  from unreadable_journal_is_forgotten [OF this run] run show ?thesis by simp
qed

theorem journal_always_valid_witness:
  "oj_operations (js_journal (fst exj_t1)) = [exj_op] \<and>
   oj_sequence_high_water (js_journal (fst exj_t1)) = jo_sequence exj_op"
  using journal_always_valid [OF exj_file_missing exj_reach1] by (simp add: exj_t1_memory exj_j1_def)

theorem begin_idempotent_witness:
  "journal_begin exj_ext exj_request (fst exj_t1, quiet_world) = (Inr (Duplicate exj_op), (fst exj_t1, quiet_world))"
  by (rule begin_idempotent [OF exj_begin_run])

theorem begin_conflict_refused_witness:
  "journal_begin exj_ext (exj_request\<lparr>rq_base_vault_sequence := 3\<rparr>) (exj_s0\<lparr>js_journal := exj_j1\<rparr>, quiet_world) =
     (Inl (Protocol ''operation id was reused with a different request payload''),
      (exj_s0\<lparr>js_journal := exj_j1\<rparr>, quiet_world))"
  by (rule begin_conflict_refused [where op = exj_op and fp = "[3]"])
    (simp_all add: run_simps exj_defs exj_s0_def is_ascii_lowercase_def)

theorem transition_effect_witness:
  "find_operation 9 (js_journal (fst exj_t1)) = Some exj_op \<and>
   find_operation 9 (js_journal (fst exj_t2)) = Some (exj_op\<lparr>jo_phase := PhDurabilityUnknown\<rparr>) \<and>
   stored (je_journal_json exj_ext) exj_path (snd exj_t2) = Some (js_journal (fst exj_t2))"
proof -
  have "find_operation 9 (js_journal (fst exj_t1)) = Some exj_op" "jo_phase exj_op = PhNotCommitted"
      "js_path (fst exj_t1) = exj_path"
    by (simp_all add: exj_t1_memory exj_j1_def find_operation_def exj_op_def new_operation_def exj_request_def exj_s0_def)
  then show ?thesis using transition_effect [OF exj_transition_run] by auto
qed

end
