(* ===== verification/Transaction.thy ===== *)
theory Transaction
  imports Capability_Ledger Vault_Store Operation_Journal
begin

text \<open>
  \<open>transaction.rs\<close>: the vault transactions of a group. Reading a vault for injection takes
  a consumed capability; writing one is prepared (sealed and digested) before it is committed. The
  hardware key-encryption key, the platform authorizer, AES-GCM, SHA-256 and the JSON codecs are
  parameters; the first two act on the world, because they talk to the TPM and to the user.
\<close>

definition CAPABILITY_LIFETIME_MS :: u64 where
  "CAPABILITY_LIFETIME_MS = 60000"

definition KEK_KEY_ID :: "byte list" where
  "KEK_KEY_ID = map byte_of_char ''VAULT-KEK-v1'' @ [0, 0, 0, 0]"

record platform_kek =
  kek_ensure_exists :: "(world, unit) host"
  kek_wrap_dek :: "secret_dek \<Rightarrow> (world, byte list) host"
  kek_unwrap_dek :: "byte list \<Rightarrow> (world, secret_dek) host"

record authorizer =
  auth_sign :: "capability_payload \<Rightarrow> (world, signed_capability) host"
  auth_verify_signature :: verifier_fn

record tx_ext =
  tx_aead :: aead
  tx_payload_json :: "vault_payload codec"
  tx_ledger_json :: "capability_ledger codec"
  tx_sha256 :: "byte list \<Rightarrow> digest32"
  tx_kek :: platform_kek

record prepared_vault_write =
  pw_group_id :: uuid
  pw_bytes :: "byte list"
  pw_dek :: secret_dek
  pw_previous_digest :: "digest32 option"
  pw_target_digest :: digest32
  pw_vault_sequence :: u64
  pw_commit_required :: bool

record vault_transactions =
  vt_group_id :: uuid
  vt_vault_store :: vault_store
  vt_capability_ledger :: capability_ledger
  vt_capability_store :: path

type_synonym 'a tx_m = "(vault_transactions \<times> world, 'a) host"

text \<open>A call on the ledger inside \<open>self\<close>.\<close>

definition on_ledger :: "(capability_ledger \<times> world, 'a) host \<Rightarrow> 'a tx_m" where
  "on_ledger m = zoom (\<lambda>(t, w). (vt_capability_ledger t, w))
     (\<lambda>(l, w) (t, _). (t\<lparr>vt_capability_ledger := l\<rparr>, w)) m"

definition transactions_open ::
    "tx_ext \<Rightarrow> uuid \<Rightarrow> vault_store \<Rightarrow> path \<Rightarrow> (world, vault_transactions) host" where
  "transactions_open x group_id vault_store capability_store = (\<lambda>w.
     case ledger_load_or_initialize (tx_ledger_json x) capability_store group_id w of
       (Inl e, w') \<Rightarrow> (Inl e, w')
     | (Inr ledger, w') \<Rightarrow>
        (case (if cl_pending ledger \<noteq> None
               then cancel_pending (ledger_persist (tx_ledger_json x) capability_store) else ret ())
              (ledger, w') of
           (Inl e, (_, w'')) \<Rightarrow> (Inl e, w'')
         | (Inr _, (ledger', w'')) \<Rightarrow>
             (Inr \<lparr>vt_group_id = group_id, vt_vault_store = vault_store,
                   vt_capability_ledger = ledger', vt_capability_store = capability_store\<rparr>, w'')))"

definition authorize_inject :: "tx_ext \<Rightarrow> authorizer \<Rightarrow> consumed_capability tx_m" where
  "authorize_inject x a =
     bindR (gets (vt_capability_store \<circ> fst)) (\<lambda>store.
     let persist = ledger_persist (tx_ledger_json x) store in
     bindR (on_snd unix_ms) (\<lambda>now.
     bindR (on_ledger (reserve persist CapInject now CAPABILITY_LIFETIME_MS)) (\<lambda>payload.
     bindR (on_snd (attempt (auth_sign a payload))) (\<lambda>r. case r of
         Inl error \<Rightarrow> seqR (on_ledger (cancel_pending persist)) (fail error)
       | Inr cap \<Rightarrow>
           bindR (on_snd unix_ms) (\<lambda>now'.
             on_ledger (verify_and_consume persist (auth_verify_signature a) cap CapInject now'))))))"

definition require_authorization ::
    "vault_transactions \<Rightarrow> consumed_capability \<Rightarrow> capability_operation \<Rightarrow> unit fcp_result" where
  "require_authorization t authorization expected_operation =
     (if cc_account_group_id authorization \<noteq> vt_group_id t
      then Inl (Capability ''consumed capability belongs to another account group'')
      else if cc_operation authorization \<noteq> expected_operation
      then Inl (Capability ''consumed capability operation does not authorize this transaction'')
      else Inr ())"

definition read_for_inject ::
    "tx_ext \<Rightarrow> vault_transactions \<Rightarrow> consumed_capability \<Rightarrow> (world, vault_payload) host" where
  "read_for_inject x t authorization =
     seqR (of_result (require_authorization t authorization CapInject))
    (bindR (vault_read (vt_vault_store t) (vt_group_id t)) (\<lambda>r.
     bindR (kek_unwrap_dek (tx_kek x) (vh_wrapped_dek (vr_header r))) (\<lambda>dek.
     of_result (open_record (tx_aead x) (tx_payload_json x) r dek))))"

definition vault_path :: "vault_transactions \<Rightarrow> path" where
  "vault_path t = path_for (vt_vault_store t) (vt_group_id t)"

text \<open>The two halves of \<open>prepare_after_snapshot\<close>: replacing a vault, and creating the first one.\<close>

definition prepare_opened ::
    "tx_ext \<Rightarrow> vault_transactions \<Rightarrow> cookie_record list \<Rightarrow> byte list \<Rightarrow> vault_record \<Rightarrow> secret_dek
     \<Rightarrow> vault_payload \<Rightarrow> (world, prepared_vault_write) host" where
  "prepare_opened x t cookies previous_bytes existing dek previous =
     (if cookies = [] then
       (let digest = tx_sha256 x previous_bytes in
        ret \<lparr>pw_group_id = vt_group_id t, pw_bytes = previous_bytes, pw_dek = dek,
             pw_previous_digest = Some digest, pw_target_digest = digest,
             pw_vault_sequence = vp_vault_sequence previous, pw_commit_required = False\<rparr>)
     else
       bindR (ok_or (checked_add (vp_vault_sequence previous) 1) (Format ''vault sequence exhausted''))
         (\<lambda>vault_sequence.
       bindR (seal (tx_aead x) (tx_payload_json x) (vt_group_id t)
                (vh_kek_key_id (vr_header existing)) (vh_wrapped_dek (vr_header existing)) dek
                \<lparr>vp_schema_version = PAYLOAD_SCHEMA_VERSION, vp_vault_sequence = vault_sequence,
                 vp_cookies = cookies\<rparr>) (\<lambda>replacement.
       bindR (of_result (record_encode replacement)) (\<lambda>bytes.
         ret \<lparr>pw_group_id = vt_group_id t, pw_bytes = bytes, pw_dek = dek,
              pw_previous_digest = Some (tx_sha256 x previous_bytes),
              pw_target_digest = tx_sha256 x bytes,
              pw_vault_sequence = vault_sequence, pw_commit_required = True\<rparr>))))"

definition prepare_replacement ::
    "tx_ext \<Rightarrow> vault_transactions \<Rightarrow> cookie_record list \<Rightarrow> (world, prepared_vault_write) host" where
  "prepare_replacement x t cookies =
     bindR (vault_read_bytes (vt_vault_store t) (vt_group_id t)) (\<lambda>previous_bytes.
     bindR (of_result (record_decode previous_bytes)) (\<lambda>existing.
     bindR (kek_unwrap_dek (tx_kek x) (vh_wrapped_dek (vr_header existing))) (\<lambda>dek.
     bindR (of_result (open_record (tx_aead x) (tx_payload_json x) existing dek)) (\<lambda>previous.
       prepare_opened x t cookies previous_bytes existing dek previous))))"

definition prepare_first ::
    "tx_ext \<Rightarrow> vault_transactions \<Rightarrow> cookie_record list \<Rightarrow> (world, prepared_vault_write) host" where
  "prepare_first x t cookies =
     seqR (reject (cookies = []) (Protocol ''cannot create an empty group vault''))
    (seqR (kek_ensure_exists (tx_kek x))
    (bindR dek_generate (\<lambda>dek.
     bindR (kek_wrap_dek (tx_kek x) dek) (\<lambda>wrapped_dek.
     bindR (seal (tx_aead x) (tx_payload_json x) (vt_group_id t) KEK_KEY_ID wrapped_dek dek
              \<lparr>vp_schema_version = PAYLOAD_SCHEMA_VERSION, vp_vault_sequence = 1, vp_cookies = cookies\<rparr>)
       (\<lambda>r.
     bindR (of_result (record_encode r)) (\<lambda>bytes.
       ret \<lparr>pw_group_id = vt_group_id t, pw_bytes = bytes, pw_dek = dek, pw_previous_digest = None,
            pw_target_digest = tx_sha256 x bytes, pw_vault_sequence = 1, pw_commit_required = True\<rparr>))))))"

definition prepare_after_snapshot ::
    "tx_ext \<Rightarrow> vault_transactions \<Rightarrow> cookie_record list \<Rightarrow> (world, prepared_vault_write) host" where
  "prepare_after_snapshot x t cookies =
     bindR (fs_exists (vault_path t)) (\<lambda>present.
       if present then prepare_replacement x t cookies else prepare_first x t cookies)"

definition commit_prepared ::
    "tx_ext \<Rightarrow> vault_transactions \<Rightarrow> prepared_vault_write
     \<Rightarrow> (world, durable_write_failure, durable_write_result) rm" where
  "commit_prepared x t prepared =
     (if \<not> pw_commit_required prepared then ret Committed
      else write_prepared (tx_aead x) (tx_payload_json x) (vt_vault_store t) (pw_group_id prepared)
             (pw_bytes prepared) (pw_dek prepared))"

text \<open>The common tail of \<open>enroll\<close> and \<open>update_after_snapshot\<close>.\<close>

definition prepare_and_commit :: "tx_ext \<Rightarrow> vault_transactions \<Rightarrow> cookie_record list \<Rightarrow> (world, u64) host" where
  "prepare_and_commit x t cookies =
     bindR (prepare_after_snapshot x t cookies) (\<lambda>prepared.
     bindR (map_err dwf_error (commit_prepared x t prepared)) (\<lambda>_.
       ret (pw_vault_sequence prepared)))"

definition enroll :: "tx_ext \<Rightarrow> vault_transactions \<Rightarrow> cookie_record list \<Rightarrow> (world, u64) host" where
  "enroll x t cookies =
     bindR (fs_exists (vault_path t)) (\<lambda>present.
     seqR (reject present (Format ''enrollment refused because the group vault already exists''))
          (prepare_and_commit x t cookies))"

definition update_after_snapshot :: "tx_ext \<Rightarrow> vault_transactions \<Rightarrow> cookie_record list \<Rightarrow> (world, u64) host" where
  "update_after_snapshot x t cookies =
     bindR (fs_exists (vault_path t)) (\<lambda>present.
     seqR (reject (\<not> present) (Format ''snapshot update refused because the group vault is missing''))
          (prepare_and_commit x t cookies))"

definition vault_exists :: "vault_transactions \<Rightarrow> (world, bool) host" where
  "vault_exists t = fs_exists (vault_path t)"

definition invalidate :: "vault_transactions \<Rightarrow> (world, unit) host" where
  "invalidate t = vault_delete (vt_vault_store t) (vt_group_id t)"

definition stage_invalidation :: "vault_transactions \<Rightarrow> (world, unit) host" where
  "stage_invalidation t = stage_delete (vt_vault_store t) (vt_group_id t)"

definition rollback_staged_invalidation :: "vault_transactions \<Rightarrow> (world, unit) host" where
  "rollback_staged_invalidation t = rollback_staged_delete (vt_vault_store t) (vt_group_id t)"

definition commit_staged_invalidation :: "vault_transactions \<Rightarrow> (world, unit) host" where
  "commit_staged_invalidation t = commit_staged_delete (vt_vault_store t) (vt_group_id t)"

lemmas transaction_defs [run_simps] =
  on_ledger_def transactions_open_def authorize_inject_def require_authorization_def
  read_for_inject_def vault_path_def prepare_opened_def prepare_replacement_def prepare_first_def
  prepare_after_snapshot_def commit_prepared_def prepare_and_commit_def enroll_def
  update_after_snapshot_def vault_exists_def invalidate_def stage_invalidation_def
  rollback_staged_invalidation_def commit_staged_invalidation_def CAPABILITY_LIFETIME_MS_def

lemma wp_on_ledger [wp_simps]:
  "wp (on_ledger m) Q E = (\<lambda>(t, w). wp m (\<lambda>x (l, w'). Q x (t\<lparr>vt_capability_ledger := l\<rparr>, w'))
     (\<lambda>e (l, w'). E e (t\<lparr>vt_capability_ledger := l\<rparr>, w')) (vt_capability_ledger t, w))"
  by (simp add: on_ledger_def wp_zoom case_prod_unfold fun_eq_iff)

subsection \<open>What the key-encryption key is relied on for\<close>

definition unwraps :: "platform_kek \<Rightarrow> byte list \<Rightarrow> secret_dek \<Rightarrow> bool" where
  "unwraps k wrapped dek \<longleftrightarrow> (\<exists>v v'. kek_unwrap_dek k wrapped v = (Inr dek, v'))"

definition unwraps_only :: "platform_kek \<Rightarrow> byte list \<Rightarrow> secret_dek \<Rightarrow> bool" where
  "unwraps_only k wrapped dek \<longleftrightarrow> (\<forall>d. unwraps k wrapped d \<longrightarrow> d = dek)"

text \<open>
  RSA-OAEP with one key: whenever a wrapped key is unwrapped it gives the key that was wrapped, and
  always the same one; no call of the key backend touches the file at \<open>p\<close>.
\<close>

definition kek_sound :: "platform_kek \<Rightarrow> path \<Rightarrow> bool" where
  "kek_sound k p \<longleftrightarrow>
     (\<forall>dek w wrapped w'. kek_wrap_dek k dek w = (Inr wrapped, w') \<longrightarrow>
        unwraps_only k wrapped dek) \<and>
     (\<forall>wrapped d. unwraps k wrapped d \<longrightarrow> unwraps_only k wrapped d) \<and>
     (\<forall>w r w'. kek_ensure_exists k w = (r, w') \<longrightarrow> lookup w' p = lookup w p) \<and>
     (\<forall>dek w r w'. kek_wrap_dek k dek w = (r, w') \<longrightarrow> lookup w' p = lookup w p) \<and>
     (\<forall>wrapped w r w'. kek_unwrap_dek k wrapped w = (r, w') \<longrightarrow> lookup w' p = lookup w p)"

lemma wp_kek_unwrap:
  assumes "kek_sound k p"
    and "\<And>d w'. unwraps k wrapped d \<Longrightarrow> unwraps_only k wrapped d \<Longrightarrow>
        lookup w' p = lookup w p \<Longrightarrow> Q d w'"
    and "\<And>e w'. lookup w' p = lookup w p \<Longrightarrow> E e w'"
  shows "wp (kek_unwrap_dek k wrapped) Q E w"
proof (rule wp_runI)
  fix d w' assume run: "kek_unwrap_dek k wrapped w = (Inr d, w')"
  then have "unwraps k wrapped d" by (auto simp: unwraps_def)
  moreover have "lookup w' p = lookup w p" using assms(1) run by (simp add: kek_sound_def)
  moreover have "unwraps_only k wrapped d"
    using assms(1) calculation(1) unfolding kek_sound_def by blast
  ultimately show "Q d w'" by (intro assms(2))
next
  fix e w' assume "kek_unwrap_dek k wrapped w = (Inl e, w')"
  then show "E e w'" using assms(1) by (intro assms(3)) (simp add: kek_sound_def)
qed

lemma wp_kek_wrap:
  assumes "kek_sound k p"
    and "\<And>wrapped w'. unwraps_only k wrapped dek \<Longrightarrow> lookup w' p = lookup w p \<Longrightarrow> Q wrapped w'"
    and "\<And>e w'. lookup w' p = lookup w p \<Longrightarrow> E e w'"
  shows "wp (kek_wrap_dek k dek) Q E w"
proof (rule wp_runI)
  fix wrapped w' assume run: "kek_wrap_dek k dek w = (Inr wrapped, w')"
  then have "unwraps_only k wrapped dek" "lookup w' p = lookup w p"
    using assms(1) unfolding kek_sound_def by blast+
  then show "Q wrapped w'" by (rule assms(2))
next
  fix e w' assume "kek_wrap_dek k dek w = (Inl e, w')"
  then show "E e w'" using assms(1) by (intro assms(3)) (simp add: kek_sound_def)
qed

lemma wp_kek_ensure:
  assumes "kek_sound k p"
    and "\<And>w'. lookup w' p = lookup w p \<Longrightarrow> Q () w'" and "\<And>e w'. lookup w' p = lookup w p \<Longrightarrow> E e w'"
  shows "wp (kek_ensure_exists k) Q E w"
  by (rule wp_runI) (use assms in \<open>auto simp: kek_sound_def\<close>)

text \<open>What the parameters of a transaction must do, for the file of its group.\<close>

definition tx_sound :: "tx_ext \<Rightarrow> vault_transactions \<Rightarrow> bool" where
  "tx_sound x t \<longleftrightarrow> aead_correct (tx_aead x) \<and> kek_sound (tx_kek x) (vault_path t) \<and>
     (\<forall>payload bs. to_vec (tx_payload_json x) payload = Some bs \<longrightarrow>
        from_slice (tx_payload_json x) bs = Some payload)"

text \<open>
  The bytes at a vault path hold a payload: they decode to a record, and whatever key the backend
  unwraps for it opens it to that payload.
\<close>

definition vault_holds :: "tx_ext \<Rightarrow> byte list \<Rightarrow> vault_payload \<Rightarrow> bool" where
  "vault_holds x bs payload \<longleftrightarrow> (\<exists>r. record_decode bs = Inr r \<and>
     (\<forall>d. unwraps (tx_kek x) (vh_wrapped_dek (vr_header r)) d \<longrightarrow>
        open_record (tx_aead x) (tx_payload_json x) r d = Inr payload))"

lemma read_for_inject_holds:
  assumes "kek_sound (tx_kek x) (vault_path t)" and "lookup w (vault_path t) = Some bs"
    and "vault_holds x bs payload" and "read_for_inject x t cc w = (Inr payload', w')"
  shows "payload' = payload"
proof -
  obtain r where r: "record_decode bs = Inr r"
      and op: "\<And>d. unwraps (tx_kek x) (vh_wrapped_dek (vr_header r)) d \<Longrightarrow>
        open_record (tx_aead x) (tx_payload_json x) r d = Inr payload"
    using assms(3) by (auto simp: vault_holds_def)
  have unwrap: "wp (bindR (kek_unwrap_dek (tx_kek x) (vh_wrapped_dek (vr_header r)))
      (\<lambda>dek. of_result (open_record (tx_aead x) (tx_payload_json x) r dek))) (\<lambda>p _. p = payload) (\<lambda>_ _. True) v" for v
    unfolding wp_bindR by (rule wp_kek_unwrap [OF assms(1)]) (simp_all add: op wp_simps)
  have "wp (read_for_inject x t cc) (\<lambda>p _. p = payload) (\<lambda>_ _. True) w"
    using assms(2) unwrap
    by (simp add: read_for_inject_def vault_read_def vault_path_def wp_simps r split: option.split sum.split)
  from wp_okD [OF assms(4) this] show ?thesis .
qed

text \<open>A prepared write of \<open>payload\<close>, under the key that the backend unwraps for it.\<close>

definition prepared_holds :: "tx_ext \<Rightarrow> vault_transactions \<Rightarrow> prepared_vault_write \<Rightarrow> vault_payload \<Rightarrow> bool" where
  "prepared_holds x t p payload \<longleftrightarrow>
     pw_group_id p = vt_group_id t \<and> pw_vault_sequence p = vp_vault_sequence payload \<and>
     pw_target_digest p = tx_sha256 x (pw_bytes p) \<and> vault_holds x (pw_bytes p) payload"

lemma wp_seal_encode:
  assumes "tx_sound x t" and "length kek_id = 16"
    and dek: "unwraps_only (tx_kek x) wrapped dek"
    and Q: "\<And>bs w'. vault_holds x bs payload \<Longrightarrow> lookup w' (vault_path t) = lookup w (vault_path t) \<Longrightarrow> Q bs w'"
    and E: "\<And>e w'. lookup w' (vault_path t) = lookup w (vault_path t) \<Longrightarrow> E e w'"
  shows "wp (bindR (seal (tx_aead x) (tx_payload_json x) (vt_group_id t) kek_id wrapped dek payload)
     (\<lambda>r. of_result (record_encode r))) Q E w"
proof -
  have "wp (seal (tx_aead x) (tx_payload_json x) (vt_group_id t) kek_id wrapped dek payload)
     (\<lambda>r w'. record_ok r \<and> vh_group_id (vr_header r) = vt_group_id t \<and> vh_kek_key_id (vr_header r) = kek_id \<and>
        vh_wrapped_dek (vr_header r) = wrapped \<and>
        open_record (tx_aead x) (tx_payload_json x) r dek = Inr payload \<and> lookup w' = lookup w)
     (\<lambda>_ w'. lookup w' = lookup w) w"
    using assms(1,2) by (intro seal_wp) (simp_all add: tx_sound_def)
  then show ?thesis unfolding wp_bindR wp_of_result
  proof (rule wp_mono)
    fix r w'
    assume r: "record_ok r \<and> vh_group_id (vr_header r) = vt_group_id t \<and> vh_kek_key_id (vr_header r) = kek_id \<and>
        vh_wrapped_dek (vr_header r) = wrapped \<and>
        open_record (tx_aead x) (tx_payload_json x) r dek = Inr payload \<and> lookup w' = lookup w"
    then obtain bs where bs: "record_encode r = Inr bs" using record_encode_ok by blast
    then have "record_decode bs = Inr r" using r decode_complete by blast
    with r dek have "vault_holds x bs payload" by (auto simp: vault_holds_def unwraps_only_def)
    with r bs show "(case record_encode r of Inl e \<Rightarrow> E e | Inr x \<Rightarrow> Q x) w'" by (simp add: Q)
  qed (simp add: E)
qed

lemma record_decode_key_id: "record_decode bs = Inr r \<Longrightarrow> length (vh_kek_key_id (vr_header r)) = 16"
  using decode_sound by (simp add: record_ok_def record_typed_def)

text \<open>
  What \<open>prepare\<close> promises: nothing is written, and the prepared bytes hold the given cookies with
  the next sequence number, or, for an empty snapshot, the old vault with its own.
\<close>

definition next_payload :: "tx_ext \<Rightarrow> vault_transactions \<Rightarrow> world \<Rightarrow> cookie_record list \<Rightarrow> vault_payload \<Rightarrow> bool" where
  "next_payload x t w cookies payload \<longleftrightarrow> vp_schema_version payload = PAYLOAD_SCHEMA_VERSION \<and>
     (case lookup w (vault_path t) of
        None \<Rightarrow> cookies \<noteq> [] \<and> vp_vault_sequence payload = 1 \<and> vp_cookies payload = cookies
      | Some old \<Rightarrow> \<exists>previous. vault_holds x old previous \<and>
          (if cookies = [] then payload = previous
           else checked_add (vp_vault_sequence previous) 1 = Some (vp_vault_sequence payload) \<and>
             vp_cookies payload = cookies))"

definition prepared_next ::
    "tx_ext \<Rightarrow> vault_transactions \<Rightarrow> world \<Rightarrow> cookie_record list \<Rightarrow> prepared_vault_write \<Rightarrow> bool" where
  "prepared_next x t w cookies p \<longleftrightarrow>
     (\<exists>payload. next_payload x t w cookies payload \<and> prepared_holds x t p payload \<and>
        pw_previous_digest p = map_option (tx_sha256 x) (lookup w (vault_path t)) \<and>
        (pw_commit_required p \<longleftrightarrow> cookies \<noteq> []) \<and>
        (\<not> pw_commit_required p \<longrightarrow> lookup w (vault_path t) = Some (pw_bytes p)))"

lemma wp_prepare_opened:
  assumes "tx_sound x t" and "length (vh_kek_key_id (vr_header r)) = 16"
    and "unwraps_only (tx_kek x) (vh_wrapped_dek (vr_header r)) dek"
    and "lookup w (vault_path t) = Some old" and "lookup v (vault_path t) = Some old"
    and "vault_holds x old previous" and "vp_schema_version previous = PAYLOAD_SCHEMA_VERSION"
  shows "wp (prepare_opened x t cookies old r dek previous)
     (\<lambda>p w'. lookup w' (vault_path t) = Some old \<and> prepared_next x t w cookies p)
     (\<lambda>_ w'. lookup w' (vault_path t) = Some old) v"
proof (cases "cookies = []")
  case True
  with assms show ?thesis
    by (auto simp: prepare_opened_def wp_simps Let_def next_payload_def prepared_holds_def prepared_next_def)
next
  case False
  note seal = wp_seal_encode [OF assms(1-3), unfolded wp_bindR wp_of_result]
  have q: "prepared_next x t w cookies
      \<lparr>pw_group_id = vt_group_id t, pw_bytes = bs, pw_dek = dek, pw_previous_digest = Some (tx_sha256 x old),
       pw_target_digest = tx_sha256 x bs, pw_vault_sequence = sq, pw_commit_required = True\<rparr>"
    if "checked_add (vp_vault_sequence previous) 1 = Some sq"
      "vault_holds x bs \<lparr>vp_schema_version = PAYLOAD_SCHEMA_VERSION, vp_vault_sequence = sq, vp_cookies = cookies\<rparr>"
    for bs sq
    unfolding prepared_next_def
    by (rule exI [of _ "\<lparr>vp_schema_version = PAYLOAD_SCHEMA_VERSION, vp_vault_sequence = sq, vp_cookies = cookies\<rparr>"])
      (use that assms False in \<open>auto simp: next_payload_def prepared_holds_def\<close>)
  show ?thesis using False assms(5)
    by (auto simp: prepare_opened_def wp_simps split: option.split intro!: seal q)
qed

lemma wp_prepare_replacement:
  assumes sound: "tx_sound x t" and old: "lookup w (vault_path t) = Some old"
  shows "wp (prepare_replacement x t cookies)
     (\<lambda>p w'. lookup w' (vault_path t) = Some old \<and> prepared_next x t w cookies p)
     (\<lambda>_ w'. lookup w' (vault_path t) = Some old) w"
    (is "wp _ ?Q ?E w")
proof (cases "record_decode old")
  case (Inl e)
  then show ?thesis using old
    by (simp add: prepare_replacement_def vault_read_bytes_def vault_path_def wp_simps split: option.split)
next
  case (Inr r)
  let ?wrapped = "vh_wrapped_dek (vr_header r)"
  have kek: "kek_sound (tx_kek x) (vault_path t)" using sound by (simp add: tx_sound_def)
  have opened: "vault_holds x old previous \<and> vp_schema_version previous = PAYLOAD_SCHEMA_VERSION"
    if "open_record (tx_aead x) (tx_payload_json x) r dek = Inr previous" "unwraps_only (tx_kek x) ?wrapped dek"
    for dek previous
    using that Inr by (auto simp: vault_holds_def unwraps_only_def open_record_def split: sum.splits if_splits)
  have "wp (bindR (kek_unwrap_dek (tx_kek x) ?wrapped) (\<lambda>dek.
      bindR (of_result (open_record (tx_aead x) (tx_payload_json x) r dek)) (\<lambda>previous.
        prepare_opened x t cookies old r dek previous))) ?Q ?E v"
    if v: "lookup v (vault_path t) = Some old" for v
    unfolding wp_bindR wp_of_result
    by (rule wp_kek_unwrap [OF kek])
      (auto simp: v old opened split: sum.split
        intro!: wp_prepare_opened [OF sound record_decode_key_id [OF Inr] _ old])
  then show ?thesis using old Inr
    by (simp add: prepare_replacement_def vault_read_bytes_def vault_path_def wp_fs_read wp_bindR [of "fs_read _"]
        wp_bindR [of "of_result (record_decode _)"] wp_of_result split: option.split)
qed

lemma length_KEK_KEY_ID: "length KEK_KEY_ID = 16"
  by (simp add: KEK_KEY_ID_def)

lemma wp_prepare_first:
  assumes sound: "tx_sound x t" and none: "lookup w (vault_path t) = None" "lookup v (vault_path t) = None"
  shows "wp (prepare_first x t cookies)
     (\<lambda>p w'. lookup w' (vault_path t) = None \<and> prepared_next x t w cookies p)
     (\<lambda>_ w'. lookup w' (vault_path t) = None) v"
proof -
  have kek: "kek_sound (tx_kek x) (vault_path t)" using sound by (simp add: tx_sound_def)
  have q: "prepared_next x t w cookies
      \<lparr>pw_group_id = vt_group_id t, pw_bytes = bs, pw_dek = dek, pw_previous_digest = None,
       pw_target_digest = tx_sha256 x bs, pw_vault_sequence = 1, pw_commit_required = True\<rparr>"
    if "cookies \<noteq> []"
      "vault_holds x bs \<lparr>vp_schema_version = PAYLOAD_SCHEMA_VERSION, vp_vault_sequence = 1, vp_cookies = cookies\<rparr>"
    for bs dek
    unfolding prepared_next_def
    by (rule exI [of _ "\<lparr>vp_schema_version = PAYLOAD_SCHEMA_VERSION, vp_vault_sequence = 1, vp_cookies = cookies\<rparr>"])
      (use that none in \<open>auto simp: next_payload_def prepared_holds_def\<close>)
  show ?thesis using none unfolding prepare_first_def dek_generate_def
    by (auto simp: wp_simps split: option.split intro!: q wp_kek_ensure [OF kek] wp_kek_wrap [OF kek]
        wp_seal_encode [OF sound length_KEK_KEY_ID, unfolded wp_bindR wp_of_result])
qed

text \<open>\<open>Path::exists\<close> tells the truth about the vault file in this world.\<close>

definition exists_faithful :: "world \<Rightarrow> path \<Rightarrow> bool" where
  "exists_faithful w p \<longleftrightarrow> \<not> stat_fault w (tick w) \<and> (is_present w p \<longrightarrow> lookup w p \<noteq> None)"

lemma wp_exists_faithful:
  "exists_faithful w p \<Longrightarrow> wp (fs_exists p) Q E w = Q (lookup w p \<noteq> None) (advance w)"
proof -
  assume "exists_faithful w p"
  then have "(\<not> stat_fault w (tick w) \<and> is_present w p) = (lookup w p \<noteq> None)"
    by (auto simp: exists_faithful_def is_present_def)
  then show ?thesis by (simp only: wp_fs_exists)
qed

lemma prepared_next_advance [simp]: "prepared_next x t (advance w) cookies p = prepared_next x t w cookies p"
  by (simp add: prepared_next_def next_payload_def)

lemma wp_prepare_after_snapshot:
  assumes "tx_sound x t" and "exists_faithful w (vault_path t)"
  shows "wp (prepare_after_snapshot x t cookies)
     (\<lambda>p w'. lookup w' (vault_path t) = lookup w (vault_path t) \<and> prepared_next x t w cookies p)
     (\<lambda>_ w'. lookup w' (vault_path t) = lookup w (vault_path t)) w"
proof (cases "lookup w (vault_path t)")
  case None
  then show ?thesis using wp_prepare_first [OF assms(1), of w "advance w" cookies]
    by (simp add: prepare_after_snapshot_def wp_bindR wp_exists_faithful [OF assms(2)])
next
  case (Some old)
  then show ?thesis using wp_prepare_replacement [OF assms(1), of "advance w" old cookies]
    by (simp add: prepare_after_snapshot_def wp_bindR wp_exists_faithful [OF assms(2)])
qed

lemma wp_commit_prepared:
  assumes "prepared_next x t w0 cookies p" and "lookup w (vault_path t) = lookup w0 (vault_path t)"
  shows "wp (commit_prepared x t p)
     (\<lambda>d w'. d = Committed \<and> lookup w' (vault_path t) = Some (pw_bytes p))
     (\<lambda>f w'. dwf_result f = NotCommitted \<and> lookup w' (vault_path t) = lookup w (vault_path t) \<or>
        dwf_result f = DurabilityUnknown \<and> lookup w' (vault_path t) = Some (pw_bytes p)) w"
proof (cases "pw_commit_required p")
  case True
  have g: "pw_group_id p = vt_group_id t" using assms(1) by (auto simp: prepared_next_def prepared_holds_def)
  show ?thesis unfolding commit_prepared_def vault_path_def
    by (rule wp_runI) (use True write_prepared_cases in \<open>fastforce simp: g holds_vault_def\<close>)+
next
  case False
  with assms show ?thesis by (auto simp: commit_prepared_def wp_simps prepared_next_def)
qed

definition stored_next :: "tx_ext \<Rightarrow> vault_transactions \<Rightarrow> cookie_record list \<Rightarrow> world \<Rightarrow> u64 \<Rightarrow> world \<Rightarrow> bool" where
  "stored_next x t cookies w n w' \<longleftrightarrow> (\<exists>bs payload. lookup w' (vault_path t) = Some bs \<and>
     vault_holds x bs payload \<and> next_payload x t w cookies payload \<and> n = vp_vault_sequence payload \<and>
     (cookies = [] \<longrightarrow> lookup w (vault_path t) = Some bs))"

lemma wp_prepare_and_commit:
  assumes "tx_sound x t" and "exists_faithful w (vault_path t)"
  shows "wp (prepare_and_commit x t cookies) (\<lambda>n w'. stored_next x t cookies w n w')
     (\<lambda>_ w'. lookup w' (vault_path t) = lookup w (vault_path t) \<or> (\<exists>n. stored_next x t cookies w n w')) w"
proof -
  have s: "stored_next x t cookies w (pw_vault_sequence p) w'"
    if "prepared_next x t w cookies p" "lookup w' (vault_path t) = Some (pw_bytes p)" for p w'
    using that by (auto simp: stored_next_def prepared_next_def prepared_holds_def)
  have "wp (bindR (map_err dwf_error (commit_prepared x t p)) (\<lambda>_. ret (pw_vault_sequence p)))
      (\<lambda>n w'. stored_next x t cookies w n w')
      (\<lambda>_ w'. lookup w' (vault_path t) = lookup w (vault_path t) \<or> (\<exists>n. stored_next x t cookies w n w')) v"
    if v: "lookup v (vault_path t) = lookup w (vault_path t)" and p: "prepared_next x t w cookies p" for p v
    unfolding wp_bindR wp_map_err wp_ret
    by (rule wp_mono [OF wp_commit_prepared [OF p v]]) (use v s [OF p] in auto)
  then show ?thesis
    unfolding prepare_and_commit_def
    by (subst wp_bindR, intro wp_mono [OF wp_prepare_after_snapshot [OF assms]]) auto
qed

subsection \<open>Authorization\<close>

lemma wp_authorize_inject:
  "wp (authorize_inject x a)
     (\<lambda>cc (t', w'). \<exists>payload cap v v'.
        auth_sign a payload v = (Inr cap, v') \<and> auth_verify_signature a cap = Inr () \<and>
        sc_payload cap = payload \<and> cp_operation payload = CapInject \<and>
        cp_account_group_id payload = cl_account_group_id (vt_capability_ledger t) \<and>
        cc_monotonic_sequence cc = cp_monotonic_sequence payload \<and>
        cc_account_group_id cc = cl_account_group_id (vt_capability_ledger t) \<and>
        cc_operation cc = CapInject \<and>
        stored (tx_ledger_json x) (vt_capability_store t) w' = Some (vt_capability_ledger t') \<and>
        cl_last_consumed_sequence (vt_capability_ledger t') = cc_monotonic_sequence cc \<and>
        cl_pending (vt_capability_ledger t') = None \<and>
        t' = t\<lparr>vt_capability_ledger := vt_capability_ledger t'\<rparr>)
     (\<lambda>_ (t', w'). t' = t\<lparr>vt_capability_ledger := vt_capability_ledger t'\<rparr>) (t, w)"
proof -
  let ?c = "tx_ledger_json x" and ?p = "vt_capability_store t" and ?l = "vt_capability_ledger t"
  have sign: "wp (auth_sign a payload) Q E v"
    if "\<And>cap v'. auth_sign a payload v = (Inr cap, v') \<Longrightarrow> Q cap v'" "\<And>e v'. E e v'" for payload v Q E
    by (auto intro!: wp_runI that)
  have res: "wp (reserve (ledger_persist ?c ?p) CapInject now CAPABILITY_LIFETIME_MS) Q E (?l, v)"
    if "\<And>p w'. reservation ?l CapInject now CAPABILITY_LIFETIME_MS p \<Longrightarrow> Q p (reserved_ledger p ?l, w')"
      "\<And>e w'. E e (?l, w')" for now v Q E
    by (rule wp_mono [OF ledger_file.wp_reserve]) (use that in auto)
  have can: "wp (cancel_pending (ledger_persist ?c ?p)) Q E (l, v)"
    if "\<And>l' w'. Q () (l', w')" "\<And>e w'. E e (l, w')" for l v Q E
    by (rule wp_mono [OF ledger_file.wp_cancel_pending]) (use that in auto)
  have con: "wp (verify_and_consume (ledger_persist ?c ?p) (auth_verify_signature a) cap CapInject now) Q E
      (reserved_ledger p ?l, v)"
    if "\<And>cc w'. stored ?c ?p w' = Some (consumed_ledger (sc_payload cap) (reserved_ledger p ?l)) \<Longrightarrow>
        auth_verify_signature a cap = Inr () \<Longrightarrow> sc_payload cap = p \<Longrightarrow>
        cc_monotonic_sequence cc = cp_monotonic_sequence p \<Longrightarrow> cc_account_group_id cc = cl_account_group_id ?l \<Longrightarrow>
        cc_operation cc = CapInject \<Longrightarrow> Q cc (consumed_ledger (sc_payload cap) (reserved_ledger p ?l), w')"
      "\<And>e w'. E e (reserved_ledger p ?l, w')" for cap now p v Q E
    by (rule wp_mono [OF ledger_file.wp_verify_and_consume]) (use that in \<open>auto simp: reserved_ledger_def\<close>)
  show ?thesis unfolding authorize_inject_def Let_def
    by (auto simp: wp_simps split: option.split intro!: res can con sign)
      (auto simp: reservation_def reserved_ledger_def consumed_ledger_def)
qed

lemma reserve_pending_error:
  "cl_pending l \<noteq> None \<Longrightarrow> reserve persist op now life (l, w) =
     (Inl (Capability ''another capability is already pending''), (l, w))"
  by (auto simp: reserve_def monad_defs)

subsection \<open>Properties\<close>

text \<open>
  An inject authorization is granted only for a capability that the platform authorizer signed
  and whose signature it verified, for this group's ledger, and only after the ledger file records
  its sequence as consumed.
\<close>

theorem authorization_is_signed_and_durable:
  assumes "authorize_inject x a (t, w) = (Inr cc, (t', w'))"
  shows "\<exists>cap v v'. auth_sign a (sc_payload cap) v = (Inr cap, v') \<and> auth_verify_signature a cap = Inr () \<and>
    cp_account_group_id (sc_payload cap) = cl_account_group_id (vt_capability_ledger t) \<and>
    cc_monotonic_sequence cc = cp_monotonic_sequence (sc_payload cap) \<and>
    cc_account_group_id cc = cl_account_group_id (vt_capability_ledger t) \<and> cc_operation cc = CapInject \<and>
    stored (tx_ledger_json x) (vt_capability_store t) w' = Some (vt_capability_ledger t') \<and>
    cl_last_consumed_sequence (vt_capability_ledger t') = cc_monotonic_sequence cc"
  using wp_okD [OF assms wp_authorize_inject] by auto

text \<open>
  A vault is opened for injection only under a consumed inject capability of its own group; any
  other token is refused before the vault file or the key is touched.
\<close>

theorem read_needs_matching_authorization:
  "(cc_account_group_id cc = vt_group_id t \<and> cc_operation cc = CapInject) \<or>
   (\<exists>e. read_for_inject x t cc w = (Inl (Capability e), w))"
  by (simp add: read_for_inject_def require_authorization_def monad_defs)

text \<open>
  Enrolment round trip: after a successful enrolment, reading the vault for injection, at any
  later time while the vault file is unchanged, returns exactly the enrolled cookies with sequence
  one.
\<close>

theorem enroll_then_read:
  assumes "tx_sound x t" and "exists_faithful (advance w) (vault_path t)" and "lookup w (vault_path t) = None"
    and "enroll x t cookies w = (Inr n, w')" and "lookup v (vault_path t) = lookup w' (vault_path t)"
    and "read_for_inject x t cc v = (Inr payload, v')"
  shows "n = 1 \<and> vp_vault_sequence payload = 1 \<and> vp_cookies payload = cookies"
proof -
  have "wp (enroll x t cookies) (\<lambda>n w'. stored_next x t cookies (advance w) n w') (\<lambda>_ _. True) w"
    using wp_prepare_and_commit [OF assms(1,2), of cookies]
    by (auto simp: enroll_def wp_simps elim: wp_mono)
  from wp_okD [OF assms(4) this] obtain bs p where bs: "lookup w' (vault_path t) = Some bs" "vault_holds x bs p"
      and p: "next_payload x t (advance w) cookies p" "n = vp_vault_sequence p"
    by (auto simp: stored_next_def)
  have "kek_sound (tx_kek x) (vault_path t)" using assms(1) by (simp add: tx_sound_def)
  from read_for_inject_holds [OF this _ bs(2) assms(6)] bs(1) assms(5) have "payload = p" by simp
  with p assms(3) show ?thesis by (simp add: next_payload_def)
qed

text \<open>
  Update round trip: after a successful update with a non-empty snapshot, reading the vault
  returns exactly the new cookies, and the vault sequence has advanced by one from the payload the
  vault held before.
\<close>

theorem update_then_read:
  assumes "tx_sound x t" and "exists_faithful (advance w) (vault_path t)"
    and "lookup w (vault_path t) = Some old" and "vault_holds x old before"
    and "\<exists>r d. record_decode old = Inr r \<and> unwraps (tx_kek x) (vh_wrapped_dek (vr_header r)) d"
    and "cookies \<noteq> []" and "update_after_snapshot x t cookies w = (Inr n, w')"
    and "lookup v (vault_path t) = lookup w' (vault_path t)" and "read_for_inject x t cc v = (Inr payload, v')"
  shows "vp_cookies payload = cookies \<and> n = vp_vault_sequence payload \<and>
    unat (vp_vault_sequence payload) = unat (vp_vault_sequence before) + 1"
proof -
  have "wp (update_after_snapshot x t cookies) (\<lambda>n w'. stored_next x t cookies (advance w) n w') (\<lambda>_ _. True) w"
    using wp_prepare_and_commit [OF assms(1,2), of cookies]
    by (auto simp: update_after_snapshot_def wp_simps elim: wp_mono)
  from wp_okD [OF assms(7) this] obtain bs p where bs: "lookup w' (vault_path t) = Some bs" "vault_holds x bs p"
      and p: "next_payload x t (advance w) cookies p" "n = vp_vault_sequence p"
    by (auto simp: stored_next_def)
  have "kek_sound (tx_kek x) (vault_path t)" using assms(1) by (simp add: tx_sound_def)
  from read_for_inject_holds [OF this _ bs(2) assms(9)] bs(1) assms(8) have "payload = p" by simp
  moreover from p assms(3,6) obtain previous where "vault_holds x old previous" "vp_cookies p = cookies"
      and sq: "checked_add (vp_vault_sequence previous) 1 = Some (vp_vault_sequence p)"
    by (auto simp: next_payload_def)
  moreover have "previous = before"
    using calculation(2) assms(4,5) by (auto simp: vault_holds_def)
  ultimately show ?thesis using p(2) checked_add_unat [OF sq] by simp
qed

lemma pending_blocks_inject:
  assumes "cl_pending (vt_capability_ledger t) \<noteq> None"
  shows "\<exists>e. authorize_inject x a (t, w) = (Inl e, (t, advance w))"
proof (cases "clock_ms w (tick w)")
  case None
  then show ?thesis by (simp add: authorize_inject_def on_ledger_def monad_defs unix_ms_def Let_def)
next
  case (Some now)
  have "reserve persist CapInject now CAPABILITY_LIFETIME_MS (vt_capability_ledger t, advance w) =
      (Inl (Capability ''another capability is already pending''), (vt_capability_ledger t, advance w))" for persist
    by (rule reserve_pending_error [OF assms])
  with Some show ?thesis by (simp add: authorize_inject_def on_ledger_def zoom_def monad_defs unix_ms_def Let_def)
qed

text \<open>What is left in memory when the user approved and the authorization failed all the same.\<close>

lemma wp_authorize_signed:
  assumes "\<forall>p v. \<exists>cap v'. auth_sign a p v = (Inr cap, v')"
  shows "wp (authorize_inject x a) (\<lambda>_ _. True)
     (\<lambda>_ (t', w'). t' = t \<or> (\<exists>p. cl_pending (vt_capability_ledger t') = Some p \<and> cp_operation p = CapInject)) (t, w)"
proof -
  let ?c = "tx_ledger_json x" and ?p = "vt_capability_store t" and ?l = "vt_capability_ledger t"
  have sign: "wp (auth_sign a payload) Q E v" if "\<And>cap v'. Q cap v'" for payload v Q E
    using assms [rule_format, of payload v] that by (auto simp: wp_def)
  have res: "wp (reserve (ledger_persist ?c ?p) CapInject now CAPABILITY_LIFETIME_MS) Q E (?l, v)"
    if "\<And>p w'. reservation ?l CapInject now CAPABILITY_LIFETIME_MS p \<Longrightarrow> Q p (reserved_ledger p ?l, w')"
      "\<And>e w'. E e (?l, w')" for now v Q E
    by (rule wp_mono [OF ledger_file.wp_reserve]) (use that in auto)
  have con: "wp (verify_and_consume (ledger_persist ?c ?p) (auth_verify_signature a) cap CapInject now) Q E (l, v)"
    if "\<And>cc s. Q cc s" "\<And>e w'. E e (l, w')" for cap now l v Q E
    by (rule wp_mono [OF ledger_file.wp_verify_and_consume]) (use that in auto)
  show ?thesis unfolding authorize_inject_def Let_def
    by (auto simp: wp_simps split: option.split intro!: res con sign) (auto simp: reservation_def reserved_ledger_def)
qed

lemma reopened_not_pending:
  assumes "transactions_open x g root store w = (Inr t, w')"
  shows "cl_pending (vt_capability_ledger t) = None"
  using assms
  by (auto simp: transactions_open_def cancel_pending_def commit_ledger_def monad_defs split: prod.splits sum.splits if_splits)

text \<open>
  C39. An authorization that the user approved but that fails blocks the group until the host restarts:
  if the authorizer signs and the call nevertheless fails after it reserved a capability (because the
  capability has expired by the time the prompt is answered, the clock cannot be read, the signature
  does not verify, or the consumption cannot be stored), the reservation is left pending. Then every
  later attempt in this process, with whatever authorizer and in whatever state of the world, is refused
  after the clock reading, without asking the user, and leaves the transactions as they are, so that any
  number of attempts fails; opening the transactions again, when it succeeds, gives a ledger without a
  pending reservation.
\<close>

theorem failed_consumption_blocks_inject:
  assumes "authorize_inject x a (t, w) = (Inl e, (t', w'))" and "\<forall>p v. \<exists>cap v'. auth_sign a p v = (Inr cap, v')" and "t' \<noteq> t"
  shows "cl_pending (vt_capability_ledger t') \<noteq> None \<and>
    (\<forall>a' v. \<exists>e'. authorize_inject x a' (t', v) = (Inl e', (t', advance v))) \<and>
    (\<forall>g root v t'' v'. transactions_open x g root (vt_capability_store t') v = (Inr t'', v') \<longrightarrow>
       cl_pending (vt_capability_ledger t'') = None)"
proof -
  from wp_errD [OF assms(1) wp_authorize_signed [OF assms(2)]] assms(3)
  have "cl_pending (vt_capability_ledger t') \<noteq> None" by auto
  then show ?thesis using pending_blocks_inject reopened_not_pending by blast
qed

subsection \<open>A concrete vault\<close>

text \<open>
  A key backend that wraps a 32-byte key by padding it, an authorizer that signs everything, and
  group 5 without a vault.
\<close>

definition ext_kek :: platform_kek where
  "ext_kek = \<lparr>kek_ensure_exists = ret (),
     kek_wrap_dek = (\<lambda>dek. if length dek = 32 then ret (dek @ replicate 224 9) else fail (Crypto ''wrap'')),
     kek_unwrap_dek = (\<lambda>wrapped. ret (take 32 wrapped))\<rparr>"

definition ext_cookie :: cookie_record where
  "ext_cookie = \<lparr>cr_domain = ''example.org'', cr_expiration_date = None, cr_host_only = True,
     cr_http_only = True, cr_name = ''sid'', cr_partition_key = None, cr_path = ''/'', cr_same_site = Lax,
     cr_secure = True, cr_session = True, cr_store_id = ''0'', cr_value = ''v''\<rparr>"

definition ext_payload :: "u64 \<Rightarrow> vault_payload" where
  "ext_payload n = \<lparr>vp_schema_version = 1, vp_vault_sequence = n, vp_cookies = [ext_cookie]\<rparr>"

definition ext_auth :: authorizer where
  "ext_auth = \<lparr>auth_sign = (\<lambda>p. ret \<lparr>sc_payload = p, sc_signature = [], sc_proof_context = []\<rparr>),
     auth_verify_signature = (\<lambda>_. Inr ())\<rparr>"

definition ext_tx :: tx_ext where
  "ext_tx = \<lparr>tx_aead = ex_aead, tx_payload_json = table_codec [ext_payload 1, ext_payload 2],
     tx_ledger_json = table_codec [], tx_sha256 = (\<lambda>bs. bs), tx_kek = ext_kek\<rparr>"

definition ext_t :: vault_transactions where
  "ext_t = \<lparr>vt_group_id = 5, vt_vault_store = [Name ''v''], vt_capability_ledger = ex_fresh,
     vt_capability_store = ex_path\<rparr>"

definition ext_cc :: consumed_capability where
  "ext_cc = \<lparr>cc_account_group_id = 5, cc_operation = CapInject, cc_monotonic_sequence = 1\<rparr>"

lemma ext_sound: "tx_sound ext_tx ext_t"
proof -
  have "unwraps_only ext_kek wrapped dek" if "kek_wrap_dek ext_kek dek w = (Inr wrapped, w')" for dek w wrapped w'
    using that by (auto simp: ext_kek_def unwraps_only_def unwraps_def ret_def fail_def split: if_splits)
  moreover have "unwraps_only ext_kek wrapped d" if "unwraps ext_kek wrapped d" for wrapped d
    using that by (auto simp: ext_kek_def unwraps_only_def unwraps_def ret_def)
  ultimately have "kek_sound ext_kek p" for p
    by (auto simp: kek_sound_def) (auto simp: ext_kek_def ret_def fail_def split: if_splits)
  moreover have "aead_correct ex_aead" by (simp add: aead_correct_def ex_aead_def GCM_TAG_BYTES_def)
  moreover have "from_slice (table_codec [ext_payload 1, ext_payload 2]) bs = Some payload"
    if "to_vec (table_codec [ext_payload 1, ext_payload 2]) payload = Some bs" for payload bs
    by (rule table_codec_read_back [OF that]) simp
  ultimately show ?thesis by (simp add: tx_sound_def ext_tx_def)
qed

lemmas ext_defs =
  ext_tx_def ext_t_def ext_kek_def ext_payload_def ext_cookie_def ext_cc_def ex_aead_def
  table_codec_def quiet_world_def format_consts upt_rec KEK_KEY_ID_def

definition ext_w1 :: world where
  "ext_w1 = snd (enroll ext_tx ext_t [ext_cookie] quiet_world)"

definition ext_w2 :: world where
  "ext_w2 = snd (update_after_snapshot ext_tx ext_t [ext_cookie] ext_w1)"

lemma ext_enroll_run: "enroll ext_tx ext_t [ext_cookie] quiet_world = (Inr 1, ext_w1)"
proof -
  have "fst (enroll ext_tx ext_t [ext_cookie] quiet_world) = Inr 1"
    by (simp add: run_simps ext_defs)
  then show ?thesis by (simp add: prod_eq_iff ext_w1_def)
qed

lemma ext_read1: "\<exists>payload v. read_for_inject ext_tx ext_t ext_cc ext_w1 = (Inr payload, v)"
proof -
  have "fst (read_for_inject ext_tx ext_t ext_cc ext_w1) = Inr (ext_payload 1)"
    by (simp add: run_simps ext_defs ext_w1_def)
  then show ?thesis by (metis prod.collapse)
qed

lemma ext_faithful: "exists_faithful (advance quiet_world) (vault_path ext_t)" "lookup quiet_world (vault_path ext_t) = None"
  by (simp_all add: exists_faithful_def quiet_world_def advance_def is_present_def lookup_def)

theorem enroll_then_read_witness:
  "\<exists>payload v. read_for_inject ext_tx ext_t ext_cc ext_w1 = (Inr payload, v) \<and> vp_cookies payload = [ext_cookie]"
  using ext_read1 enroll_then_read [OF ext_sound ext_faithful ext_enroll_run refl] by blast

lemma ext_vault1:
  "\<exists>old. lookup ext_w1 (vault_path ext_t) = Some old \<and> vault_holds ext_tx old (ext_payload 1) \<and>
     (\<exists>r d. record_decode old = Inr r \<and> unwraps (tx_kek ext_tx) (vh_wrapped_dek (vr_header r)) d)"
  by (simp add: run_simps ext_defs ext_w1_def vault_holds_def unwraps_def)

lemma ext_faithful1: "exists_faithful (advance ext_w1) (vault_path ext_t)"
  by (simp add: run_simps ext_defs ext_w1_def exists_faithful_def)

lemma ext_update_run: "update_after_snapshot ext_tx ext_t [ext_cookie] ext_w1 = (Inr 2, ext_w2)"
proof -
  have "fst (update_after_snapshot ext_tx ext_t [ext_cookie] ext_w1) = Inr 2"
    by (simp add: run_simps ext_defs ext_w1_def)
  then show ?thesis by (simp add: prod_eq_iff ext_w2_def)
qed

lemma ext_read2: "\<exists>payload v. read_for_inject ext_tx ext_t ext_cc ext_w2 = (Inr payload, v)"
proof -
  have "fst (read_for_inject ext_tx ext_t ext_cc ext_w2) = Inr (ext_payload 2)"
    by (simp add: run_simps ext_defs ext_w1_def ext_w2_def)
  then show ?thesis by (metis prod.collapse)
qed

theorem update_then_read_witness:
  "\<exists>payload v. read_for_inject ext_tx ext_t ext_cc ext_w2 = (Inr payload, v) \<and>
     vp_cookies payload = [ext_cookie] \<and> unat (vp_vault_sequence payload) = 2"
proof -
  obtain old where old: "lookup ext_w1 (vault_path ext_t) = Some old" "vault_holds ext_tx old (ext_payload 1)"
      "\<exists>r d. record_decode old = Inr r \<and> unwraps (tx_kek ext_tx) (vh_wrapped_dek (vr_header r)) d"
    using ext_vault1 by blast
  obtain payload v where read: "read_for_inject ext_tx ext_t ext_cc ext_w2 = (Inr payload, v)"
    using ext_read2 by blast
  from update_then_read [OF ext_sound ext_faithful1 old _ ext_update_run refl read]
  have "vp_cookies payload = [ext_cookie] \<and> unat (vp_vault_sequence payload) = 2"
    by (simp add: ext_payload_def)
  with read show ?thesis by blast
qed

text \<open>An authorization on the concrete ledger of \<open>Capability_Ledger\<close>, in time and too late.\<close>

definition ext_ledger_payload :: capability_payload where
  "ext_ledger_payload = \<lparr>cp_account_group_id = 5, cp_operation = CapInject, cp_expiry_unix_ms = 61000,
     cp_monotonic_sequence = 1, cp_nonce = map (\<lambda>_. 3) [0..<32]\<rparr>"

definition ext_auth_tx :: tx_ext where
  "ext_auth_tx = ext_tx\<lparr>tx_ledger_json := table_codec [reserved_ledger ext_ledger_payload ex_fresh,
     consumed_ledger ext_ledger_payload (reserved_ledger ext_ledger_payload ex_fresh)]\<rparr>"

lemmas ext_auth_defs =
  ext_auth_tx_def ext_tx_def ext_t_def ext_auth_def ext_ledger_payload_def ex_fresh_def ex_path_def
  table_codec_def quiet_world_def upt_rec reserved_ledger_def

text \<open>The clock reads one second when the prompt opens and 100 seconds when it is answered.\<close>

definition ext_late_world :: world where
  "ext_late_world = quiet_world\<lparr>clock_ms := (\<lambda>n. Some (if n = 0 then 1000 else 100000))\<rparr>"

theorem authorization_is_signed_and_durable_witness:
  "\<exists>cc s. authorize_inject ext_auth_tx ext_auth (ext_t, quiet_world) = (Inr cc, s) \<and>
     stored (tx_ledger_json ext_auth_tx) ex_path (snd s) = Some (vt_capability_ledger (fst s)) \<and>
     cl_last_consumed_sequence (vt_capability_ledger (fst s)) = cc_monotonic_sequence cc"
proof -
  let ?run = "authorize_inject ext_auth_tx ext_auth (ext_t, quiet_world)"
  have "fst ?run = Inr \<lparr>cc_account_group_id = 5, cc_operation = CapInject, cc_monotonic_sequence = 1\<rparr>"
    by (simp add: run_simps ext_auth_defs)
  then have run: "?run = (Inr \<lparr>cc_account_group_id = 5, cc_operation = CapInject, cc_monotonic_sequence = 1\<rparr>,
      (fst (snd ?run), snd (snd ?run)))" by (simp add: prod_eq_iff)
  have "vt_capability_store ext_t = ex_path" by (simp add: ext_t_def)
  with authorization_is_signed_and_durable [OF run] run show ?thesis
    by (metis fst_conv snd_conv)
qed

theorem failed_consumption_blocks_inject_witness:
  "\<exists>t w e. authorize_inject ext_auth_tx ext_auth (ext_t, ext_late_world) = (Inl (Capability ''capability expired''), (t, w)) \<and>
     authorize_inject ext_auth_tx ext_auth (t, quiet_world) = (Inl e, (t, advance quiet_world))"
proof -
  let ?run = "authorize_inject ext_auth_tx ext_auth (ext_t, ext_late_world)"
  have "fst ?run = Inl (Capability ''capability expired'')"
    by (simp add: run_simps ext_auth_defs ext_late_world_def)
  then have run: "?run = (Inl (Capability ''capability expired''), (fst (snd ?run), snd (snd ?run)))"
    by (simp add: prod_eq_iff)
  have "\<forall>p v. \<exists>cap v'. auth_sign ext_auth p v = (Inr cap, v')" by (simp add: ext_auth_def ret_def)
  moreover have "cl_pending (vt_capability_ledger (fst (snd ?run))) \<noteq> cl_pending (vt_capability_ledger ext_t)"
    by (simp add: run_simps ext_auth_defs ext_late_world_def)
  then have "fst (snd ?run) \<noteq> ext_t" by metis
  ultimately show ?thesis using failed_consumption_blocks_inject [OF run] run by metis
qed

end
