(* ===== verification/Local_Secret.thy ===== *)
theory Local_Secret
  imports Bytes Host_Error
begin

text \<open>
  \<open>local_secret\<close>: protection of small secrets, as a pair of functions the callers use, and the
  blob format of the Linux backend (\<open>local_secret/linux.rs\<close>). The backends themselves are in
  \<open>Sealed_Secret\<close>.
\<close>

text \<open>\<open>local_secret::protect\<close> and \<open>unprotect\<close>.\<close>

record local_secret =
  ls_protect :: "byte list \<Rightarrow> byte list fcp_result"
  ls_unprotect :: "byte list \<Rightarrow> byte list fcp_result"

definition MAGIC :: "byte list" where
  "MAGIC = map byte_of_char ''FVS1''"

definition seal_encode :: "byte list \<Rightarrow> byte list \<Rightarrow> byte list fcp_result" where
  "seal_encode public private =
     (if 2 ^ 16 \<le> length public then Inl (Crypto ''sealed public area is too large to frame'')
      else if 2 ^ 16 \<le> length private then Inl (Crypto ''sealed private area is too large to frame'')
      else Inr (MAGIC @ u16_to_le (of_nat (length public)) @ public
                @ u16_to_le (of_nat (length private)) @ private))"

definition take_field :: "byte list \<Rightarrow> (byte list \<times> byte list) option" where
  "take_field bytes =
     (if length bytes < 2 then None
      else let n = unat (u16_from_le (take 2 bytes)); rest = drop 2 bytes in
        if length rest < n then None else Some (take n rest, drop n rest))"

definition seal_decode :: "byte list \<Rightarrow> (byte list \<times> byte list) fcp_result" where
  "seal_decode bytes =
     (let malformed = Inl (Crypto ''sealed secret is malformed'') in
      if take 4 bytes \<noteq> MAGIC then malformed
      else case take_field (drop 4 bytes) of None \<Rightarrow> malformed
      | Some (public, rest) \<Rightarrow> (case take_field rest of None \<Rightarrow> malformed
        | Some (private, rest) \<Rightarrow> if rest \<noteq> [] then malformed else Inr (public, private)))"

subsection \<open>The blob format\<close>

lemma length_MAGIC [simp]: "length MAGIC = 4"
  by (simp add: MAGIC_def)

text \<open>A field is its length followed by its bytes, and nothing else reads as that field.\<close>

definition field_of :: "byte list \<Rightarrow> byte list" where
  "field_of bs = u16_to_le (of_nat (length bs)) @ bs"

lemma take_field_iff:
  "take_field bytes = Some (f, rest) \<longleftrightarrow> length f < 2 ^ 16 \<and> bytes = field_of f @ rest"
proof
  assume t: "take_field bytes = Some (f, rest)"
  let ?n = "unat (u16_from_le (take 2 bytes))"
  have len: "2 \<le> length bytes" "?n \<le> length bytes - 2" and f: "f = take ?n (drop 2 bytes)" "rest = drop ?n (drop 2 bytes)"
    using t by (auto simp: take_field_def Let_def split: if_splits)
  have n: "length f = ?n" using len f by simp
  have "?n < 2 ^ 16" using unat_lt2p [of "u16_from_le (take 2 bytes)"] by simp
  moreover have "u16_to_le (of_nat ?n) = take 2 bytes" using len u16_le.enc_dec [of "take 2 bytes"] by simp
  moreover have "bytes = take 2 bytes @ f @ rest" unfolding f by (simp only: append_take_drop_id)
  ultimately show "length f < 2 ^ 16 \<and> bytes = field_of f @ rest"
    by (simp add: field_of_def n)
next
  assume a: "length f < 2 ^ 16 \<and> bytes = field_of f @ rest"
  then have "unat (u16_from_le (u16_to_le (of_nat (length f)))) = length f"
    by (simp add: u16_le.dec_enc unat_of_nat)
  with a show "take_field bytes = Some (f, rest)"
    by (simp add: take_field_def field_of_def u16_le.enc_length)
qed

lemma seal_encode_iff:
  "seal_encode p q = Inr bs \<longleftrightarrow> length p < 2 ^ 16 \<and> length q < 2 ^ 16 \<and> bs = MAGIC @ field_of p @ field_of q"
  by (auto simp: seal_encode_def field_of_def)

lemma seal_decode_iff: "seal_decode bs = Inr (p, q) \<longleftrightarrow> seal_encode p q = Inr bs"
proof
  assume "seal_decode bs = Inr (p, q)"
  then have m: "take 4 bs = MAGIC" and d: "drop 4 bs = field_of p @ field_of q" "length p < 2 ^ 16" "length q < 2 ^ 16"
    by (auto simp: seal_decode_def Let_def take_field_iff split: if_splits option.splits)
  show "seal_encode p q = Inr bs"
    using append_take_drop_id [of 4 bs] d unfolding seal_encode_iff m by simp
next
  assume "seal_encode p q = Inr bs"
  then have bs: "length p < 2 ^ 16" "length q < 2 ^ 16" "bs = MAGIC @ field_of p @ field_of q"
    by (simp_all add: seal_encode_iff)
  then have "take_field (drop 4 bs) = Some (p, field_of q)" "take_field (field_of q) = Some (q, [])" "take 4 bs = MAGIC"
    by (simp_all add: take_field_iff)
  then show "seal_decode bs = Inr (p, q)" by (simp add: seal_decode_def Let_def)
qed

subsection \<open>Properties\<close>

text \<open>
  The sealed blob decodes to exactly what was encoded, and nothing else decodes: a blob
  decodes to two areas if and only if it is their encoding. In particular another magic, a
  truncated blob and trailing bytes are refused.
\<close>

theorem sealed_blob_canonical:
  "seal_decode bs = Inr (p, q) \<longleftrightarrow> seal_encode p q = Inr bs"
  by (rule seal_decode_iff)

end
