(* ===== verification/Operation_Coordinator.thy ===== *)
theory Operation_Coordinator
  imports Transaction Local_Secret
begin

unbundle bit_operations_syntax

text \<open>
  \<open>operation/fingerprint.rs\<close>, \<open>operation/recovery.rs\<close> and
  \<open>operation/coordinator.rs\<close>: the keyed tag that binds a snapshot to its operation, the
  classification of the vault file after a crash, and the coordinator that drives an operation
  through its durable phases. SHA-256 and the platform's secret protection are parameters.
\<close>

subsection \<open>Snapshot tags\<close>

definition SNAPSHOT_KEY_BYTES :: nat where "SNAPSHOT_KEY_BYTES = 32"
definition BLOCK_BYTES :: nat where "BLOCK_BYTES = 64"

record snapshot_tag_context =
  stc_profile_id :: uuid
  stc_account_group_id :: uuid
  stc_operation_id :: uuid
  stc_operation_sequence :: u64
  stc_base_vault_sequence :: u64

type_synonym snapshot_tagger = "byte list"

definition hmac_pad :: "byte \<Rightarrow> byte list \<Rightarrow> byte list" where
  "hmac_pad c key = map (\<lambda>i. if i < SNAPSHOT_KEY_BYTES then c XOR key ! i else c) [0..<BLOCK_BYTES]"

definition hmac_sha256 :: "(byte list \<Rightarrow> digest32) \<Rightarrow> byte list \<Rightarrow> byte list \<Rightarrow> digest32" where
  "hmac_sha256 sha256 key bytes = sha256 (hmac_pad 0x5c key @ sha256 (hmac_pad 0x36 key @ bytes))"

definition tag_input :: "snapshot_tag_context \<Rightarrow> byte list \<Rightarrow> byte list" where
  "tag_input ctx canonical_snapshot =
     map byte_of_char ''FCPSNAP1'' @ uuid_as_bytes (stc_profile_id ctx)
     @ uuid_as_bytes (stc_account_group_id ctx) @ uuid_as_bytes (stc_operation_id ctx)
     @ u64_to_le (stc_operation_sequence ctx) @ u64_to_le (stc_base_vault_sequence ctx)
     @ canonical_snapshot"

definition tag :: "(byte list \<Rightarrow> digest32) \<Rightarrow> snapshot_tagger \<Rightarrow> snapshot_tag_context \<Rightarrow> byte list \<Rightarrow> digest32" where
  "tag sha256 key ctx canonical_snapshot = hmac_sha256 sha256 key (tag_input ctx canonical_snapshot)"

definition verify_tag_key :: "local_secret \<Rightarrow> byte list \<Rightarrow> byte list \<Rightarrow> unit fcp_result" where
  "verify_tag_key ls key candidate = (case ls_unprotect ls candidate of Inl e \<Rightarrow> Inl e
     | Inr plaintext \<Rightarrow> if plaintext \<noteq> key
         then Inl (Crypto ''snapshot tag key write verification failed'') else Inr ())"

definition tagger_load_or_create ::
    "local_secret \<Rightarrow> path \<Rightarrow> bool \<Rightarrow> (world, snapshot_tagger) host" where
  "tagger_load_or_create ls p journal_exists =
     bindR (fs_exists p) (\<lambda>present.
     if present then
       bindR (fs_read p) (\<lambda>bytes.
       bindR (of_result (ls_unprotect ls bytes)) (\<lambda>plaintext.
       seqR (reject (length plaintext \<noteq> SNAPSHOT_KEY_BYTES) (Format ''snapshot tag key has invalid length''))
            (ret plaintext)))
     else
       seqR (reject journal_exists
               (Format ''snapshot tag key is missing while operation journals exist''))
      (bindR (fill_random SNAPSHOT_KEY_BYTES) (\<lambda>key.
       bindR (of_result (ls_protect ls key)) (\<lambda>protected.
       seqR (write_verified p protected (verify_tag_key ls key)) (ret key)))))"

subsection \<open>Classification of the vault file\<close>

datatype recovery_classification = RcNotCommitted | RcCommitted | RcReconciliationRequired

definition classify_vault :: "journal_ext \<Rightarrow> uuid \<Rightarrow> path \<Rightarrow> recovery_classification journal_m" where
  "classify_vault x operation_id vault =
     bindR (gets (js_journal \<circ> fst)) (\<lambda>j.
     bindR (ok_or (find_operation operation_id j) (Protocol ''unknown operation id'')) (\<lambda>operation.
     bindR (ok_or (jo_snapshot operation) (Protocol ''operation has no durable snapshot binding'')) (\<lambda>snapshot.
     let precommit_phase = (jo_phase operation = PhNotCommitted \<or> jo_phase operation = PhDurabilityUnknown) in
     bindR (on_snd (classify_object (je_sha256 x) vault (sb_previous_vault_digest snapshot)
              (sb_target_vault_digest snapshot))) (\<lambda>c. ret (case c of
         Previous \<Rightarrow> if precommit_phase then RcNotCommitted else RcReconciliationRequired
       | Target \<Rightarrow> RcCommitted
       | Missing \<Rightarrow> if precommit_phase \<and> sb_previous_vault_digest snapshot = None
                    then RcNotCommitted else RcReconciliationRequired
       | Neither \<Rightarrow> RcReconciliationRequired)))))"

text \<open>
  Where the source unwraps an operation it has just used, a missing one would panic; the model
  shows the panic as an error of its own.
\<close>

definition unwrap_operation :: "uuid \<Rightarrow> operation_journal \<Rightarrow> journal_operation journal_m" where
  "unwrap_operation i j = ok_or (find_operation i j) (Format ''panic: unwrap on None'')"

definition recovery_target_phase :: "recovery_classification \<Rightarrow> operation_phase \<Rightarrow> operation_phase" where
  "recovery_target_phase c phase = (case c of
       RcNotCommitted \<Rightarrow> PhNotCommitted
     | RcCommitted \<Rightarrow> if phase = PhCommitted \<or> phase = BrowserRemovalPending then phase else PhCommitted
     | RcReconciliationRequired \<Rightarrow> ReconciliationRequired)"

definition recover_vault_phase :: "journal_ext \<Rightarrow> uuid \<Rightarrow> path \<Rightarrow> recovery_classification journal_m" where
  "recover_vault_phase x operation_id vault =
     bindR (classify_vault x operation_id vault) (\<lambda>classification.
     bindR (gets (js_journal \<circ> fst)) (\<lambda>j.
     bindR (unwrap_operation operation_id j) (\<lambda>operation.
       let target = recovery_target_phase classification (jo_phase operation) in
       seqR (if jo_phase operation \<noteq> target then transition x operation_id target else ret ())
            (ret classification))))"

subsection \<open>The coordinator\<close>

record startup_recovery =
  sr_needs_reconciliation :: bool
  sr_committed_operation_id :: "uuid option"
  sr_committed_vault_sequence :: "u64 option"

record operation_coordinator =
  oc_journal :: journal_store
  oc_tagger :: snapshot_tagger
  oc_profile_id :: "uuid option"

type_synonym 'a coord_m = "(operation_coordinator \<times> world, 'a) host"

definition on_journal :: "'a journal_m \<Rightarrow> 'a coord_m" where
  "on_journal m = zoom (\<lambda>(c, w). (oc_journal c, w)) (\<lambda>(s, w) (c, _). (c\<lparr>oc_journal := s\<rparr>, w)) m"

definition set_profile_id :: "uuid \<Rightarrow> operation_coordinator \<Rightarrow> operation_coordinator fcp_result" where
  "set_profile_id profile_id c =
     (if is_nil profile_id then Inl (Protocol ''profile id must not be nil'')
      else if (case oc_profile_id c of Some existing \<Rightarrow> existing \<noteq> profile_id | None \<Rightarrow> False)
      then Inl (Protocol ''operation coordinator profile binding changed'')
      else Inr (c\<lparr>oc_profile_id := Some profile_id\<rparr>))"

definition has_unresolved :: "operation_coordinator \<Rightarrow> bool" where
  "has_unresolved c = list_ex (\<lambda>op. \<not> is_terminal (jo_phase op)) (oj_operations (js_journal (oc_journal c)))"

definition coord_operation :: "uuid \<Rightarrow> operation_coordinator \<Rightarrow> journal_operation option" where
  "coord_operation operation_id c = find_operation operation_id (js_journal (oc_journal c))"

definition operation_by_attempt :: "uuid \<Rightarrow> operation_coordinator \<Rightarrow> journal_operation option" where
  "operation_by_attempt attempt_id c =
     find (\<lambda>op. jo_attempt_id op = Some attempt_id) (oj_operations (js_journal (oc_journal c)))"

definition sequence_high_water :: "operation_coordinator \<Rightarrow> u64" where
  "sequence_high_water c = oj_sequence_high_water (js_journal (oc_journal c))"

definition begin_v6 ::
    "journal_ext \<Rightarrow> uuid \<Rightarrow> operation_kind \<Rightarrow> uuid option \<Rightarrow> string \<Rightarrow> u64 \<Rightarrow> journal_operation coord_m" where
  "begin_v6 x operation_id kind lease_id reason_code base_vault_sequence =
     bindR (gets fst) (\<lambda>c.
     seqR (reject (coord_operation operation_id c = None \<and> has_unresolved c)
             (Protocol ''another durable operation is unresolved for this group''))
    (bindR (on_journal (journal_begin x \<lparr>rq_operation_id = operation_id, rq_attempt_id = None,
              rq_kind = kind, rq_lease_id = lease_id, rq_reason_code = reason_code,
              rq_base_vault_sequence = base_vault_sequence\<rparr>)) (\<lambda>r. case r of
         Created operation \<Rightarrow> ret operation | Duplicate operation \<Rightarrow> ret operation)))"

definition issue_v7 ::
    "journal_ext \<Rightarrow> uuid \<Rightarrow> operation_kind \<Rightarrow> uuid option \<Rightarrow> string \<Rightarrow> u64 \<Rightarrow> journal_operation coord_m" where
  "issue_v7 x attempt_id kind lease_id reason_code base_vault_sequence =
     bindR (gets fst) (\<lambda>c.
     seqR (reject (has_unresolved c) (Protocol ''another durable operation is unresolved for this group''))
    (bindR (on_snd new_v4) (\<lambda>operation_id.
     bindR (on_journal (journal_begin x \<lparr>rq_operation_id = operation_id, rq_attempt_id = Some attempt_id,
              rq_kind = kind, rq_lease_id = lease_id, rq_reason_code = reason_code,
              rq_base_vault_sequence = base_vault_sequence\<rparr>)) (\<lambda>r. case r of
         Created operation \<Rightarrow> ret operation
       | Duplicate _ \<Rightarrow> fail (Format ''host-issued operation id collided'')))))"

definition verify_snapshot ::
    "(byte list \<Rightarrow> digest32) \<Rightarrow> operation_coordinator \<Rightarrow> uuid \<Rightarrow> u64 \<Rightarrow> uuid \<Rightarrow> byte list \<Rightarrow> bool fcp_result" where
  "verify_snapshot sha256 c operation_id operation_sequence attempt_id canonical_snapshot =
     (case coord_operation operation_id c of None \<Rightarrow> Inl (Protocol ''unknown operation id'')
      | Some operation \<Rightarrow>
        if jo_sequence operation \<noteq> operation_sequence \<or> jo_attempt_id operation \<noteq> Some attempt_id
        then Inl (Protocol ''operation sequence or attempt binding mismatch'')
        else (case oc_profile_id c of
          None \<Rightarrow> Inl (Protocol ''operation coordinator has no handshake profile binding'')
        | Some profile_id \<Rightarrow> (case jo_snapshot operation of
            None \<Rightarrow> Inl (Protocol ''operation has no committed snapshot binding'')
          | Some expected \<Rightarrow>
              Inr (tag sha256 (oc_tagger c)
                \<lparr>stc_profile_id = profile_id,
                 stc_account_group_id = oj_account_group_id (js_journal (oc_journal c)),
                 stc_operation_id = operation_id, stc_operation_sequence = operation_sequence,
                 stc_base_vault_sequence = jo_base_vault_sequence operation\<rparr> canonical_snapshot
               = sb_snapshot_tag expected))))"

text \<open>The operations a recovery pass works through: those not terminal when it starts.\<close>

definition active_operations :: "operation_coordinator \<Rightarrow> uuid list" where
  "active_operations c = map jo_operation_id
     (filter (\<lambda>op. \<not> is_terminal (jo_phase op)) (oj_operations (js_journal (oc_journal c))))"

fun reconcile_each :: "journal_ext \<Rightarrow> path \<Rightarrow> uuid list \<Rightarrow> unit journal_m" where
  "reconcile_each x vault [] = ret ()"
| "reconcile_each x vault (i # is) =
     bindR (gets (js_journal \<circ> fst)) (\<lambda>j.
     bindR (unwrap_operation i j) (\<lambda>operation.
     seqR (if jo_snapshot operation \<noteq> None
              \<and> (jo_phase operation = PhNotCommitted \<or> jo_phase operation = PhDurabilityUnknown)
           then bindR (recover_vault_phase x i vault) (\<lambda>_. ret ()) else ret ())
    (bindR (gets (js_journal \<circ> fst)) (\<lambda>j'.
     bindR (unwrap_operation i j') (\<lambda>operation'.
     seqR (transition x i (if jo_phase operation' = PhNotCommitted then Aborted else ReconciliationRequired))
          (reconcile_each x vault is))))))"

definition prepare_for_v6_reconciliation :: "journal_ext \<Rightarrow> path \<Rightarrow> unit coord_m" where
  "prepare_for_v6_reconciliation x vault =
     bindR (gets (active_operations \<circ> fst)) (\<lambda>active. on_journal (reconcile_each x vault active))"

text \<open>The vault write and the \<open>match\<close> on its outcome, the tail of \<open>commit_snapshot\<close>.\<close>

definition finish_commit ::
    "journal_ext \<Rightarrow> tx_ext \<Rightarrow> uuid \<Rightarrow> prepared_vault_write \<Rightarrow> vault_transactions \<Rightarrow> u64 coord_m" where
  "finish_commit x tx operation_id prepared transactions =
     bindR (on_snd (attempt (commit_prepared tx transactions prepared))) (\<lambda>outcome. case outcome of
         Inr d \<Rightarrow> if d = Committed
           then seqR (on_journal (transition x operation_id PhCommitted)) (ret (pw_vault_sequence prepared))
           else fail (Format ''unexpected successful vault write result {other:?}'')
       | Inl failure \<Rightarrow>
           if dwf_result failure = DurabilityUnknown
           then bindR (on_journal (recover_vault_phase x operation_id (vault_path transactions)))
                  (\<lambda>classification. case classification of
                      RcCommitted \<Rightarrow> ret (pw_vault_sequence prepared)
                    | RcNotCommitted \<Rightarrow> fail (dwf_error failure)
                    | RcReconciliationRequired \<Rightarrow>
                        fail (Format ''vault durability could not be classified''))
           else seqR (on_journal (transition x operation_id PhNotCommitted)) (fail (dwf_error failure)))"

definition commit_snapshot ::
    "journal_ext \<Rightarrow> tx_ext \<Rightarrow> uuid \<Rightarrow> byte list \<Rightarrow> u32 \<Rightarrow> prepared_vault_write \<Rightarrow> vault_transactions
     \<Rightarrow> u64 coord_m" where
  "commit_snapshot x tx operation_id canonical_snapshot cookie_count prepared transactions =
     bindR (gets fst) (\<lambda>c.
     bindR (ok_or (coord_operation operation_id c) (Protocol ''unknown operation id'')) (\<lambda>operation.
     bindR (ok_or (oc_profile_id c)
              (Protocol ''operation coordinator has no handshake profile binding'')) (\<lambda>profile_id.
     let snapshot_tag = tag (je_sha256 x) (oc_tagger c)
           \<lparr>stc_profile_id = profile_id,
            stc_account_group_id = oj_account_group_id (js_journal (oc_journal c)),
            stc_operation_id = operation_id, stc_operation_sequence = jo_sequence operation,
            stc_base_vault_sequence = jo_base_vault_sequence operation\<rparr> canonical_snapshot
     in
     seqR (reject (2 ^ 64 \<le> length canonical_snapshot) (Protocol ''snapshot byte length exceeds u64''))
    (seqR (on_journal (bind_snapshot x operation_id
             \<lparr>sb_snapshot_tag = snapshot_tag, sb_previous_vault_digest = pw_previous_digest prepared,
              sb_target_vault_digest = pw_target_digest prepared,
              sb_target_vault_sequence = pw_vault_sequence prepared, sb_cookie_count = cookie_count,
              sb_aggregate_bytes = of_nat (length canonical_snapshot)\<rparr>))
    (seqR (on_journal (transition x operation_id PhDurabilityUnknown))
    (finish_commit x tx operation_id prepared transactions))))))"

definition mark_external_result_pending :: "journal_ext \<Rightarrow> uuid \<Rightarrow> unit coord_m" where
  "mark_external_result_pending x operation_id = on_journal (transition x operation_id BrowserRemovalPending)"

definition complete :: "journal_ext \<Rightarrow> uuid \<Rightarrow> unit coord_m" where
  "complete x operation_id = on_journal (transition x operation_id Completed)"

definition abort :: "journal_ext \<Rightarrow> uuid \<Rightarrow> unit coord_m" where
  "abort x operation_id = on_journal (transition x operation_id Aborted)"

definition require_reconciliation :: "journal_ext \<Rightarrow> uuid \<Rightarrow> unit coord_m" where
  "require_reconciliation x operation_id = on_journal (transition x operation_id ReconciliationRequired)"

fun startup_each :: "journal_ext \<Rightarrow> path \<Rightarrow> uuid list \<Rightarrow> startup_recovery \<Rightarrow> startup_recovery journal_m" where
  "startup_each x vault [] recovery = ret recovery"
| "startup_each x vault (i # is) recovery =
     bindR (gets (js_journal \<circ> fst)) (\<lambda>j.
     bindR (unwrap_operation i j) (\<lambda>operation.
     let recovery = recovery\<lparr>sr_needs_reconciliation := True\<rparr> in
     if jo_snapshot operation = None
     then seqR (transition x i Aborted) (startup_each x vault is recovery)
     else bindR (recover_vault_phase x i vault) (\<lambda>classification. case classification of
         RcNotCommitted \<Rightarrow> seqR (transition x i Aborted) (startup_each x vault is recovery)
       | RcCommitted \<Rightarrow>
           bindR (gets (js_journal \<circ> fst)) (\<lambda>j'.
           bindR (ok_or (Option.bind (find_operation i j') jo_snapshot)
                    (Format ''panic: classified operation has snapshot'')) (\<lambda>snapshot.
             startup_each x vault is (recovery\<lparr>sr_committed_operation_id := Some i,
               sr_committed_vault_sequence := Some (sb_target_vault_sequence snapshot)\<rparr>)))
       | RcReconciliationRequired \<Rightarrow> startup_each x vault is recovery)))"

definition startup_recover :: "journal_ext \<Rightarrow> path \<Rightarrow> startup_recovery coord_m" where
  "startup_recover x vault =
     bindR (gets (active_operations \<circ> fst)) (\<lambda>active.
       on_journal (startup_each x vault active
         \<lparr>sr_needs_reconciliation = False, sr_committed_operation_id = None,
          sr_committed_vault_sequence = None\<rparr>))"

definition completed_projection :: "uuid \<Rightarrow> operation_coordinator \<Rightarrow> journal_operation option" where
  "completed_projection operation_id c = (case coord_operation operation_id c of
       Some operation \<Rightarrow> if jo_phase operation = Completed then Some operation else None
     | None \<Rightarrow> None)"

lemmas coordinator_defs [run_simps] =
  SNAPSHOT_KEY_BYTES_def BLOCK_BYTES_def hmac_pad_def hmac_sha256_def tag_input_def tag_def
  classify_vault_def unwrap_operation_def recovery_target_phase_def recover_vault_phase_def
  on_journal_def has_unresolved_def coord_operation_def active_operations_def
  finish_commit_def commit_snapshot_def startup_recover_def prepare_for_v6_reconciliation_def

lemma wp_on_journal [wp_simps]:
  "wp (on_journal m) Q E = (\<lambda>(c, w). wp m (\<lambda>x (s, w'). Q x (c\<lparr>oc_journal := s\<rparr>, w'))
     (\<lambda>e (s, w'). E e (c\<lparr>oc_journal := s\<rparr>, w')) (oc_journal c, w))"
  by (simp add: on_journal_def wp_zoom case_prod_unfold fun_eq_iff)

subsection \<open>Tags\<close>

lemma tag_input_inj: "tag_input c s = tag_input d t \<longleftrightarrow> c = d \<and> s = t"
  by (auto simp: tag_input_def codec_append_inj intro!: snapshot_tag_context.equality)

subsection \<open>Recovery\<close>

text \<open>The vault file is not one of the files a journal write touches.\<close>

definition apart :: "journal_store \<Rightarrow> path \<Rightarrow> bool" where
  "apart s v \<longleftrightarrow> v \<noteq> js_path s \<and> \<not> write_scratch (js_path s) v"

lemma frame_apart: "journal_frame (js_path s) w w' \<Longrightarrow> apart s v \<Longrightarrow> lookup w' v = lookup w v"
  by (simp add: journal_frame_def apart_def)

lemma apart_same_path: "s' = s\<lparr>js_journal := j\<rparr> \<Longrightarrow> apart s' v = apart s v"
  by (simp add: apart_def)

text \<open>The vault file is the one the operation meant to write.\<close>

definition vault_is_target :: "journal_ext \<Rightarrow> path \<Rightarrow> snapshot_binding \<Rightarrow> world \<Rightarrow> bool" where
  "vault_is_target x v b w \<longleftrightarrow> (\<exists>bs. lookup w v = Some bs \<and> je_sha256 x bs = sb_target_vault_digest b)"

text \<open>The vault file is the one the operation started from.\<close>

definition vault_is_previous :: "journal_ext \<Rightarrow> path \<Rightarrow> snapshot_binding \<Rightarrow> world \<Rightarrow> bool" where
  "vault_is_previous x v b w \<longleftrightarrow> map_option (je_sha256 x) (lookup w v) = sb_previous_vault_digest b"

definition classified ::
    "journal_ext \<Rightarrow> path \<Rightarrow> journal_operation \<Rightarrow> snapshot_binding \<Rightarrow> world \<Rightarrow> recovery_classification \<Rightarrow> bool" where
  "classified x v op b w c \<longleftrightarrow> (case c of
       RcCommitted \<Rightarrow> vault_is_target x v b w
     | RcNotCommitted \<Rightarrow> precommit (jo_phase op) \<and> vault_is_previous x v b w \<and> \<not> vault_is_target x v b w
     | RcReconciliationRequired \<Rightarrow> \<not> vault_is_target x v b w \<and>
         (\<not> precommit (jo_phase op) \<or> \<not> vault_is_previous x v b w))"

lemma wp_classify_vault:
  assumes Q: "\<And>op b c. find_operation i (js_journal s) = Some op \<Longrightarrow> jo_snapshot op = Some b \<Longrightarrow>
      classified x v op b w c \<Longrightarrow> Q c (s, advance w)"
    and E: "\<And>e w'. lookup w' = lookup w \<Longrightarrow> E e (s, w')"
  shows "wp (classify_vault x i v) Q E (s, w)"
  unfolding classify_vault_def Let_def
  by (auto simp: wp_simps fun_eq_iff split: option.split intro!: E Q)
    (auto simp: classified_def vault_is_target_def vault_is_previous_def precommit_def)

definition resolved_phase :: "recovery_classification \<Rightarrow> operation_phase \<Rightarrow> bool" where
  "resolved_phase c ph \<longleftrightarrow> (case c of
       RcNotCommitted \<Rightarrow> ph = PhNotCommitted
     | RcCommitted \<Rightarrow> ph = PhCommitted \<or> ph = BrowserRemovalPending
     | RcReconciliationRequired \<Rightarrow> ph = ReconciliationRequired)"

lemma wp_recover_vault_phase:
  assumes Q: "\<And>op b c s' w'. find_operation i (js_journal s) = Some op \<Longrightarrow> jo_snapshot op = Some b \<Longrightarrow>
        classified x v op b w c \<Longrightarrow>
        find_operation i (js_journal s') = Some (op\<lparr>jo_phase := recovery_target_phase c (jo_phase op)\<rparr>) \<Longrightarrow>
        \<forall>k. k \<noteq> i \<longrightarrow> find_operation k (js_journal s') = find_operation k (js_journal s) \<Longrightarrow>
        s' = s\<lparr>js_journal := js_journal s'\<rparr> \<Longrightarrow> journal_frame (js_path s) w w' \<Longrightarrow> Q c (s', w')"
    and E: "\<And>e w'. journal_frame (js_path s) w w' \<Longrightarrow> E e (s, w')"
  shows "wp (recover_vault_phase x i v) Q E (s, w)"
proof -
  have same: "op\<lparr>jo_phase := recovery_target_phase c (jo_phase op)\<rparr> = op"
    if "jo_phase op = recovery_target_phase c (jo_phase op)" for op c
    using that by (metis set_phase_same)
  have fr: "journal_frame (js_path s) (advance w) w' \<Longrightarrow> journal_frame (js_path s) w w'" for w'
    by (simp add: journal_frame_def)
  show ?thesis
    unfolding recover_vault_phase_def unwrap_operation_def Let_def wp_bindR
  proof (rule wp_classify_vault, goal_cases)
    case (1 op b c)
    show ?case
    proof (cases "jo_phase op = recovery_target_phase c (jo_phase op)")
      case True
      then show ?thesis using Q [OF 1, of s "advance w"] 1(1) same [OF True]
        by (simp add: wp_simps) (simp add: journal_frame_def)
    next
      case False
      then show ?thesis using 1
        by (auto simp: wp_simps intro!: wp_transition_op Q [OF 1] E fr)
    qed
  next
    case (2 e w')
    then show ?case by (intro E) (simp add: journal_frame_def)
  qed
qed

subsection \<open>Committing a snapshot\<close>

text \<open>
  A prepared write is coherent with the world: it is for this group, its target digest is the
  digest of its bytes, and if it needs no commit the vault file already holds them.
\<close>

definition prepared_coherent :: "journal_ext \<Rightarrow> vault_transactions \<Rightarrow> prepared_vault_write \<Rightarrow> world \<Rightarrow> bool" where
  "prepared_coherent x t p w \<longleftrightarrow> pw_group_id p = vt_group_id t \<and>
     pw_target_digest p = je_sha256 x (pw_bytes p) \<and>
     (\<not> pw_commit_required p \<longrightarrow> lookup w (vault_path t) = Some (pw_bytes p))"

lemma wp_commit_coherent:
  assumes "prepared_coherent x t p w"
    and "\<And>w'. lookup w' (vault_path t) = Some (pw_bytes p) \<Longrightarrow> Q Committed w'"
    and "\<And>f w'. dwf_result f = DurabilityUnknown \<Longrightarrow> lookup w' (vault_path t) = Some (pw_bytes p) \<Longrightarrow> E f w'"
    and "\<And>f w'. dwf_result f = NotCommitted \<Longrightarrow> E f w'"
  shows "wp (commit_prepared tx t p) Q E w"
proof (cases "pw_commit_required p")
  case True
  have g: "pw_group_id p = vt_group_id t" using assms(1) by (simp add: prepared_coherent_def)
  show ?thesis
  proof (rule wp_runI)
    fix d w' assume "commit_prepared tx t p w = (Inr d, w')"
    then show "Q d w'" using True write_prepared_cases assms(2)
      by (fastforce simp: commit_prepared_def g holds_vault_def vault_path_def)
  next
    fix f w' assume "commit_prepared tx t p w = (Inl f, w')"
    then show "E f w'" using True write_prepared_cases assms(3,4)
      by (fastforce simp: commit_prepared_def g holds_vault_def vault_path_def)
  qed
next
  case False
  with assms show ?thesis by (simp add: commit_prepared_def wp_ret prepared_coherent_def)
qed

definition committed_in ::
    "path \<Rightarrow> uuid \<Rightarrow> prepared_vault_write \<Rightarrow> operation_coordinator \<times> world \<Rightarrow> bool" where
  "committed_in v i p t \<longleftrightarrow> lookup (snd t) v = Some (pw_bytes p) \<and>
     (\<exists>op b. coord_operation i (fst t) = Some op \<and> jo_phase op = PhCommitted \<and>
        jo_snapshot op = Some b \<and> sb_target_vault_digest b = pw_target_digest p)"

lemma wp_finish_commit:
  assumes coh: "prepared_coherent x t p w" and ap: "apart (oc_journal c) (vault_path t)"
    and op: "coord_operation i c = Some op" "jo_phase op = PhDurabilityUnknown" "jo_snapshot op = Some b"
    and tg: "sb_target_vault_digest b = pw_target_digest p"
  shows "wp (finish_commit x tx i p t)
     (\<lambda>n t'. n = pw_vault_sequence p \<and> committed_in (vault_path t) i p t')
     (\<lambda>_ _. True) (c, w)"
proof -
  have find: "find_operation i (js_journal (oc_journal c)) = Some op" using op(1) by (simp add: coord_operation_def)
  have keep: "lookup v' (vault_path t) = Some (pw_bytes p)"
    if "lookup v (vault_path t) = Some (pw_bytes p)" "journal_frame (js_path (oc_journal c)) v v'" for v v'
    using that frame_apart [OF that(2) ap] by simp
  show ?thesis
    unfolding finish_commit_def wp_bindR
    by (simp only: wp_on_snd wp_attempt fst_conv snd_conv, rule wp_commit_coherent [OF coh])
      (auto simp: wp_simps find op tg committed_in_def coord_operation_def recovery_target_phase_def
        intro!: wp_transition_op wp_recover_vault_phase
        split: recovery_classification.split, (blast intro: keep)+)
qed

lemma commit_snapshot_wp:
  assumes coh: "prepared_coherent x t p w" and ap: "apart (oc_journal c) (vault_path t)"
  shows "wp (commit_snapshot x tx i snap n p t)
     (\<lambda>n t'. n = pw_vault_sequence p \<and> committed_in (vault_path t) i p t')
     (\<lambda>_ _. True) (c, w)"
proof -
  let ?s = "oc_journal c"
  have fr: "prepared_coherent x t p v" if "journal_frame (js_path ?s) w v" for v
    using coh frame_apart [OF that ap] by (simp add: prepared_coherent_def)
  have fin: "wp (finish_commit x tx i p t)
     (\<lambda>n t'. n = pw_vault_sequence p \<and> committed_in (vault_path t) i p t')
     (\<lambda>_ _. True) (c\<lparr>oc_journal := s'\<rparr>, v)"
    if "find_operation i (js_journal s') = Some (op\<lparr>jo_snapshot := Some b, jo_phase := PhDurabilityUnknown\<rparr>)"
      "s' = ?s\<lparr>js_journal := js_journal s'\<rparr>" "journal_frame (js_path ?s) w v"
      "sb_target_vault_digest b = pw_target_digest p" for s' v op b
  proof (rule wp_finish_commit [OF fr [OF that(3)]])
    show "apart (oc_journal (c\<lparr>oc_journal := s'\<rparr>)) (vault_path t)"
      using ap apart_same_path [OF that(2)] by simp
    show "coord_operation i (c\<lparr>oc_journal := s'\<rparr>) =
        Some (op\<lparr>jo_snapshot := Some b, jo_phase := PhDurabilityUnknown\<rparr>)"
      using that(1) by (simp add: coord_operation_def)
    show "sb_target_vault_digest b = pw_target_digest p" by (rule that(4))
  qed simp_all
  have bound: "wp (transition x i PhDurabilityUnknown)
      (\<lambda>_ (s', v). wp (finish_commit x tx i p t)
        (\<lambda>n t'. n = pw_vault_sequence p \<and> committed_in (vault_path t) i p t')
        (\<lambda>_ _. True) (c\<lparr>oc_journal := s'\<rparr>, v)) (\<lambda>_ (s, w). True) (s', v)"
    if "find_operation i (js_journal s') = Some (op\<lparr>jo_snapshot := Some b\<rparr>)"
      "s' = ?s\<lparr>js_journal := js_journal s'\<rparr>" "journal_frame (js_path ?s) w v"
      "sb_target_vault_digest b = pw_target_digest p" for s' v op b
  proof (rule wp_transition_op)
    fix op' s'' v'
    assume a: "find_operation i (js_journal s') = Some op'"
      "find_operation i (js_journal s'') = Some (op'\<lparr>jo_phase := PhDurabilityUnknown\<rparr>)"
      "s'' = s'\<lparr>js_journal := js_journal s''\<rparr>" "journal_frame (js_path s') v v'"
    have p: "js_path s' = js_path ?s" using arg_cong [OF that(2), of js_path] by simp
    have "s'' = ?s\<lparr>js_journal := js_journal s''\<rparr>" using a(3) that(2) by (metis journal_store.update_convs(3) journal_store.surjective)
    moreover have "journal_frame (js_path ?s) w v'" using a(4) that(3) p journal_frame_trans by metis
    ultimately show "case (s'', v') of (s', v) \<Rightarrow> wp (finish_commit x tx i p t)
        (\<lambda>n t'. n = pw_vault_sequence p \<and> committed_in (vault_path t) i p t')
        (\<lambda>_ _. True) (c\<lparr>oc_journal := s'\<rparr>, v)"
      using a(1,2) that(1,4) by (auto intro!: fin [where op = op and b = b])
  qed simp
  show ?thesis
    unfolding commit_snapshot_def Let_def
    by (auto simp: wp_bindR wp_seqR wp_gets wp_ok_or wp_reject wp_on_journal split: option.split
        intro!: wp_bind_op bound)
qed

subsection \<open>Startup recovery\<close>

text \<open>
  An operation is settled when it is terminal, or when the vault file is the one it meant to write
  and its phase says so.
\<close>

definition settled :: "journal_ext \<Rightarrow> path \<Rightarrow> world \<Rightarrow> journal_operation \<Rightarrow> bool" where
  "settled x v w op \<longleftrightarrow> is_terminal (jo_phase op) \<or>
     (jo_phase op = PhCommitted \<or> jo_phase op = BrowserRemovalPending) \<and>
     (\<exists>b. jo_snapshot op = Some b \<and> vault_is_target x v b w)"

definition all_settled :: "journal_ext \<Rightarrow> path \<Rightarrow> uuid list \<Rightarrow> journal_store \<Rightarrow> journal_store \<times> world \<Rightarrow> bool" where
  "all_settled x v is s t \<longleftrightarrow> fst t = s\<lparr>js_journal := js_journal (fst t)\<rparr> \<and>
     (\<forall>i \<in> set is. \<forall>op. find_operation i (js_journal (fst t)) = Some op \<longrightarrow> settled x v (snd t) op) \<and>
     (\<forall>k. k \<notin> set is \<longrightarrow> find_operation k (js_journal (fst t)) = find_operation k (js_journal s))"

lemma settled_frame:
  "journal_frame (js_path s) w w' \<Longrightarrow> apart s v \<Longrightarrow> settled x v w' op = settled x v w op"
  by (simp add: settled_def vault_is_target_def frame_apart)

lemma all_settled_Cons:
  assumes "all_settled x v is s1 t" and "s1 = s\<lparr>js_journal := js_journal s1\<rparr>"
    and "\<And>op. i \<notin> set is \<Longrightarrow> find_operation i (js_journal s1) = Some op \<Longrightarrow> settled x v (snd t) op"
    and "\<forall>k. k \<noteq> i \<longrightarrow> find_operation k (js_journal s1) = find_operation k (js_journal s)"
  shows "all_settled x v (i # is) s t"
proof -
  have "fst t = s\<lparr>js_journal := js_journal (fst t)\<rparr>"
    using assms(1,2) unfolding all_settled_def by (metis journal_store.update_convs(3) journal_store.surjective)
  with assms show ?thesis unfolding all_settled_def by (cases "i \<in> set is") auto
qed

definition settled_run ::
    "journal_ext \<Rightarrow> path \<Rightarrow> uuid list \<Rightarrow> journal_store \<Rightarrow> world \<Rightarrow> journal_store \<times> world \<Rightarrow> bool" where
  "settled_run x v is s w t \<longleftrightarrow> all_settled x v is s t \<and> journal_frame (js_path s) w (snd t)"

text \<open>One operation is settled, the rest follows.\<close>

lemma settled_run_Cons:
  assumes rest: "settled_run x v is s1 w1 t" and s1: "s1 = s\<lparr>js_journal := js_journal s1\<rparr>"
    and fr: "journal_frame (js_path s) w w1" and ap: "apart s v"
    and op: "\<And>op. find_operation i (js_journal s1) = Some op \<Longrightarrow> settled x v w1 op"
    and others: "\<forall>k. k \<noteq> i \<longrightarrow> find_operation k (js_journal s1) = find_operation k (js_journal s)"
  shows "settled_run x v (i # is) s w t"
proof -
  have p: "js_path s1 = js_path s" using arg_cong [OF s1, of js_path] by simp
  have fr1: "journal_frame (js_path s) w1 (snd t)" using rest by (simp add: settled_run_def p)
  have "all_settled x v (i # is) s t"
    using rest s1 op others settled_frame [OF fr1 ap] by (intro all_settled_Cons) (auto simp: settled_run_def)
  then show ?thesis using journal_frame_trans [OF fr fr1] by (simp add: settled_run_def)
qed

definition settles ::
    "journal_ext \<Rightarrow> path \<Rightarrow> uuid list \<Rightarrow> 'a journal_m \<Rightarrow> bool" where
  "settles x v is m \<longleftrightarrow> (\<forall>s w. apart s v \<longrightarrow> wp m (\<lambda>_ t. settled_run x v is s w t) (\<lambda>_ _. True) (s, w))"

lemma wp_settled_rest:
  assumes IH: "settles x v is m"
    and s1: "s1 = s\<lparr>js_journal := js_journal s1\<rparr>" and fr: "journal_frame (js_path s) w w1" and ap: "apart s v"
    and op: "\<And>op. find_operation i (js_journal s1) = Some op \<Longrightarrow> settled x v w1 op"
    and others: "\<forall>k. k \<noteq> i \<longrightarrow> find_operation k (js_journal s1) = find_operation k (js_journal s)"
  shows "wp m (\<lambda>_ t. settled_run x v (i # is) s w t) (\<lambda>_ _. True) (s1, w1)"
proof -
  have "wp m (\<lambda>_ t. settled_run x v is s1 w1 t) (\<lambda>_ _. True) (s1, w1)"
    using IH ap apart_same_path [OF s1] by (simp add: settles_def)
  then show ?thesis
    by (rule wp_mono) (use settled_run_Cons [OF _ s1 fr ap op others] in auto)
qed

text \<open>Aborting an operation and going on.\<close>

lemma wp_abort_rest:
  assumes IH: "settles x v is m" and ap: "apart s v" and ph: "is_terminal ph"
    and s1: "s1 = s\<lparr>js_journal := js_journal s1\<rparr>" and fr: "journal_frame (js_path s) w w1"
    and others: "\<forall>k. k \<noteq> i \<longrightarrow> find_operation k (js_journal s1) = find_operation k (js_journal s)"
  shows "wp (transition x i ph) (\<lambda>_. wp m (\<lambda>_ t. settled_run x v (i # is) s w t) (\<lambda>_ _. True)) (\<lambda>_ _. True) (s1, w1)"
proof (rule wp_transition_op)
  fix op s2 w2
  assume a: "find_operation i (js_journal s2) = Some (op\<lparr>jo_phase := ph\<rparr>)"
    "\<forall>k. k \<noteq> i \<longrightarrow> find_operation k (js_journal s2) = find_operation k (js_journal s1)"
    "s2 = s1\<lparr>js_journal := js_journal s2\<rparr>" "journal_frame (js_path s1) w1 w2"
  have p: "js_path s1 = js_path s" using arg_cong [OF s1, of js_path] by simp
  have s2: "s2 = s\<lparr>js_journal := js_journal s2\<rparr>"
    using a(3) s1 by (metis journal_store.update_convs(3) journal_store.surjective)
  have fr2: "journal_frame (js_path s) w w2" using journal_frame_trans [OF fr] a(4) by (simp add: p)
  show "wp m (\<lambda>_ t. settled_run x v (i # is) s w t) (\<lambda>_ _. True) (s2, w2)"
    by (rule wp_settled_rest [OF IH s2 fr2 ap]) (use a(1,2) others ph in \<open>auto simp: settled_def\<close>)
qed simp

lemma settles_startup_each: "settles x v is (startup_each x v is r)"
proof (induction "is" arbitrary: r)
  case Nil
  then show ?case by (simp add: settles_def wp_ret settled_run_def all_settled_def journal_frame_def)
next
  case (Cons i "is")
  have "wp (startup_each x v (i # is) r) (\<lambda>_ t. settled_run x v (i # is) s w t) (\<lambda>_ _. True) (s, w)"
    if ap: "apart s v" for s w
  proof -
    note abort = wp_abort_rest [OF Cons.IH ap] and rest = wp_settled_rest [OF Cons.IH _ _ ap]
    have same: "s = s\<lparr>js_journal := js_journal s\<rparr>" "journal_frame (js_path s) w w" by (simp_all add: journal_frame_def)
    have target: "vault_is_target x v b w'" if "classified x v op b w RcCommitted" "journal_frame (js_path s) w w'" for b op w'
      using that frame_apart [OF that(2) ap] by (simp add: classified_def vault_is_target_def)
    show ?thesis
    proof (cases "find_operation i (js_journal s)")
      case None
      then show ?thesis by (simp add: wp_simps unwrap_operation_def)
    next
      case found: (Some op)
      show ?thesis
      proof (cases "jo_snapshot op")
        case None
        with found show ?thesis
          by (simp add: wp_simps unwrap_operation_def) (rule abort [OF _ same]; simp)
      next
        case (Some b)
        have tail: "wp (case c of
              RcNotCommitted \<Rightarrow> seqR (transition x i Aborted) (startup_each x v is r')
            | RcCommitted \<Rightarrow> bindR (gets (js_journal \<circ> fst)) (\<lambda>j'.
                bindR (ok_or (Option.bind (find_operation i j') jo_snapshot) e) (\<lambda>snapshot. startup_each x v is (r'' snapshot)))
            | RcReconciliationRequired \<Rightarrow> startup_each x v is r')
            (\<lambda>_ t. settled_run x v (i # is) s w t) (\<lambda>_ _. True) (s', w')"
          if c: "classified x v op b w c"
            and f: "find_operation i (js_journal s') = Some (op\<lparr>jo_phase := recovery_target_phase c (jo_phase op)\<rparr>)"
            and o: "\<forall>k. k \<noteq> i \<longrightarrow> find_operation k (js_journal s') = find_operation k (js_journal s)"
            and s': "s' = s\<lparr>js_journal := js_journal s'\<rparr>" and fr: "journal_frame (js_path s) w w'"
          for c s' w' r' r'' e
        proof (cases c)
          case RcNotCommitted
          then show ?thesis by (simp add: wp_seqR) (rule abort [OF _ s' fr o], simp)
        next
          case RcCommitted
          have "settled x v w' op'" if "find_operation i (js_journal s') = Some op'" for op'
            using that f target [OF c [unfolded RcCommitted] fr] Some
            by (auto simp: RcCommitted settled_def recovery_target_phase_def split: if_splits)
          with RcCommitted f Some show ?thesis
            by (simp add: wp_simps) (rule rest [OF s' fr _ o], simp)
        next
          case RcReconciliationRequired
          then show ?thesis using f by (simp, intro rest [OF s' fr _ o]) (auto simp: settled_def recovery_target_phase_def)
        qed
        show ?thesis using found Some
          by (auto simp: wp_bindR wp_gets wp_ok_or unwrap_operation_def Let_def intro!: wp_recover_vault_phase tail)
      qed
    qed
  qed
  then show ?case by (simp add: settles_def)
qed

subsection \<open>Properties\<close>

text \<open>
  C10. The durability contract of \<open>commit_snapshot\<close>: after a prepared snapshot has been
  committed with \<open>Ok\<close>, the vault file holds exactly the prepared bytes and the operation is recorded
  as committed with the digest of those bytes. If the snapshot has cookies, the bytes hold exactly
  these under the returned number, which is one for a first vault and otherwise the successor of the
  replaced vault's; an empty snapshot is committed only over an existing vault, which stays, byte for
  byte and under its own number. This covers the case where the write itself reported an unknown
  durability and the recovery classification decided. The hypotheses are sound cryptography (what is
  sealed opens, and the key backend unwraps what it wrapped), one SHA-256 for journal and vault, an
  existence check that tells the truth about the vault file when the snapshot is prepared, and a vault
  file that is none of the files the journal writes.
\<close>

theorem committed_snapshot_is_stored:
  assumes "tx_sound tx t" and "exists_faithful w (vault_path t)" and "je_sha256 x = tx_sha256 tx"
    and "apart (oc_journal c) (vault_path t)"
    and "prepare_after_snapshot tx t cookies w = (Inr p, w1)"
    and "commit_snapshot x tx i snap n p t (c, w1) = (Inr sequence, (c', w'))"
  shows "sequence = pw_vault_sequence p \<and> committed_in (vault_path t) i p (c', w') \<and>
    stored_next tx t cookies w sequence w'"
proof -
  have p: "prepared_next tx t w cookies p" "lookup w1 (vault_path t) = lookup w (vault_path t)"
    using wp_okD [OF assms(5) wp_prepare_after_snapshot [OF assms(1,2)]] by simp_all
  then have "prepared_coherent x t p w1"
    by (auto simp: prepared_coherent_def prepared_next_def prepared_holds_def assms(3))
  from wp_okD [OF assms(6) commit_snapshot_wp [OF this assms(4)]]
  have r: "sequence = pw_vault_sequence p" "committed_in (vault_path t) i p (c', w')" by simp_all
  then show ?thesis using p(1)
    by (auto simp: committed_in_def stored_next_def prepared_next_def prepared_holds_def)
qed

text \<open>
  C11. Startup recovery settles the group: when it succeeds, every operation of the journal is
  terminal, or is committed (or waiting for the browser) and the vault file is the one it meant
  to write; the vault file itself is not touched.
\<close>

theorem startup_recovery_settles:
  assumes "startup_recover x v (c, w) = (Inr r, (c', w'))" and "apart (oc_journal c) v"
  shows "lookup w' v = lookup w v \<and> (\<forall>i op. coord_operation i c' = Some op \<longrightarrow> settled x v w' op)"
proof -
  let ?s = "oc_journal c" and ?is = "active_operations c"
  have "wp (startup_recover x v) (\<lambda>_ t. settled_run x v ?is ?s w (oc_journal (fst t), snd t)) (\<lambda>_ _. True) (c, w)"
    using settles_startup_each [of x v ?is] assms(2)
    by (simp add: startup_recover_def wp_simps settles_def case_prod_unfold)
  from wp_okD [OF assms(1) this] have r: "settled_run x v ?is ?s w (oc_journal c', w')" by simp
  have inactive: "is_terminal (jo_phase op)" if "find_operation i (js_journal ?s) = Some op" "i \<notin> set ?is" for i op
    using that by (auto simp: active_operations_def find_operation_def find_Some_iff in_set_conv_nth)
  have "settled x v w' op" if "coord_operation i c' = Some op" for i op
    using that r inactive by (cases "i \<in> set ?is")
      (auto simp: settled_run_def all_settled_def coord_operation_def settled_def)
  then show ?thesis using r frame_apart [OF _ assms(2)] by (simp add: settled_run_def)
qed

text \<open>
  The classification after a crash is decided by the file alone: an operation is judged
  committed exactly when the vault file has the digest it meant to write, not committed only while
  its phase is before the commit and the file still is the one it started from, and everything
  else needs reconciliation. Classifying changes neither the journal nor any file.
\<close>

theorem classification_follows_the_file:
  assumes "classify_vault x i v (s, w) = (Inr c, (s', w'))"
  shows "s' = s \<and> lookup w' = lookup w \<and>
    (\<exists>op b. find_operation i (js_journal s) = Some op \<and> jo_snapshot op = Some b \<and> classified x v op b w c)"
proof -
  have "wp (classify_vault x i v) (\<lambda>c t. fst t = s \<and> lookup (snd t) = lookup w \<and>
      (\<exists>op b. find_operation i (js_journal s) = Some op \<and> jo_snapshot op = Some b \<and> classified x v op b w c))
      (\<lambda>_ _. True) (s, w)"
    by (rule wp_classify_vault) auto
  from wp_okD [OF assms this] show ?thesis by simp
qed

text \<open>The two strings that a tag hashes.\<close>

definition hmac_inputs :: "(byte list \<Rightarrow> digest32) \<Rightarrow> byte list \<Rightarrow> byte list \<Rightarrow> byte list set" where
  "hmac_inputs sha256 key bytes =
     {hmac_pad 0x36 key @ bytes, hmac_pad 0x5c key @ sha256 (hmac_pad 0x36 key @ bytes)}"

lemma tag_collision_free:
  assumes "inj_on sha256 (hmac_inputs sha256 key (tag_input ctx snapshot) \<union> hmac_inputs sha256 key (tag_input ctx' snapshot'))"
    and "tag sha256 key ctx snapshot = tag sha256 key ctx' snapshot'"
  shows "ctx = ctx' \<and> snapshot = snapshot'"
proof -
  let ?a = "tag_input ctx snapshot" and ?b = "tag_input ctx' snapshot'"
  let ?i = "\<lambda>bs. hmac_pad 0x36 key @ bs"
  let ?o = "\<lambda>bs. hmac_pad 0x5c key @ sha256 (?i bs)"
  have "sha256 (?o ?a) = sha256 (?o ?b)" using assms(2) by (simp only: tag_def hmac_sha256_def)
  then have "?o ?a = ?o ?b" by (rule inj_onD [OF assms(1)]) (simp_all only: hmac_inputs_def, blast+)
  then have "sha256 (?i ?a) = sha256 (?i ?b)" by (simp only: same_append_eq)
  then have "?i ?a = ?i ?b" by (rule inj_onD [OF assms(1)]) (simp_all only: hmac_inputs_def, blast+)
  then show ?thesis by (simp only: same_append_eq tag_input_inj)
qed

text \<open>
  A snapshot tag binds the profile, the group, the operation, its sequence number, the base
  vault sequence and the snapshot: if SHA-256 has no collision among the strings hashed for two
  tags under one key, the tags are equal only when all of these are.
\<close>

theorem snapshot_tag_binds:
  assumes "inj_on sha256 (hmac_inputs sha256 key (tag_input ctx snapshot) \<union> hmac_inputs sha256 key (tag_input ctx' snapshot'))"
    and "tag sha256 key ctx snapshot = tag sha256 key ctx' snapshot'"
  shows "ctx = ctx' \<and> snapshot = snapshot'"
  using assms by (rule tag_collision_free)

subsection \<open>A concrete run\<close>

text \<open>
  Group 5 takes its first snapshot: operation 9 is open in the journal, the vault is prepared and
  committed. The digest is the length of its input.
\<close>

definition exc_sha :: "byte list \<Rightarrow> digest32" where
  "exc_sha bs = [of_nat (length bs)]"

definition exc_tx :: tx_ext where
  "exc_tx = ext_tx\<lparr>tx_sha256 := exc_sha\<rparr>"

definition exc_run0 :: "(fcp_error + prepared_vault_write) \<times> world" where
  "exc_run0 = prepare_after_snapshot exc_tx ext_t [ext_cookie] quiet_world"

definition exc_p :: prepared_vault_write where
  "exc_p = (case fst exc_run0 of Inr p \<Rightarrow> p | Inl _ \<Rightarrow> undefined)"

definition exc_binding :: snapshot_binding where
  "exc_binding = \<lparr>sb_snapshot_tag = [65], sb_previous_vault_digest = None,
     sb_target_vault_digest = pw_target_digest exc_p, sb_target_vault_sequence = 1,
     sb_cookie_count = 1, sb_aggregate_bytes = 2\<rparr>"

definition exc_op :: journal_operation where
  "exc_op = new_operation exj_request 1 [1]"

definition exc_journal :: "operation_phase \<Rightarrow> operation_journal" where
  "exc_journal ph = exj_j1\<lparr>oj_operations :=
     [exc_op\<lparr>jo_snapshot := Some exc_binding, jo_phase := ph\<rparr>]\<rparr>"

definition exc_ext :: journal_ext where
  "exc_ext = exj_ext\<lparr>je_sha256 := exc_sha, je_journal_json :=
     table_codec [exc_journal PhNotCommitted, exc_journal PhDurabilityUnknown, exc_journal PhCommitted]\<rparr>"

definition exc_c :: operation_coordinator where
  "exc_c = \<lparr>oc_journal = exj_s0\<lparr>js_journal := exj_j1\<lparr>oj_operations := [exc_op]\<rparr>\<rparr>, oc_tagger = map (\<lambda>_. 1) [0..<32], oc_profile_id = Some 4\<rparr>"

lemma exc_prepare: "prepare_after_snapshot exc_tx ext_t [ext_cookie] quiet_world = (Inr exc_p, snd exc_run0)"
proof -
  have "\<exists>p. fst exc_run0 = Inr p"
    by (simp add: exc_run0_def run_simps ext_defs exc_tx_def exc_sha_def)
  then have "fst exc_run0 = Inr exc_p" by (auto simp: exc_p_def)
  then show ?thesis by (metis exc_run0_def prod.collapse)
qed

lemmas exc_defs =
  exc_run0_def exc_p_def exc_binding_def exc_op_def exc_journal_def exc_ext_def exc_c_def exc_tx_def exc_sha_def
  exj_defs exj_s0_def ext_defs

definition exc_run1 :: "(fcp_error + u64) \<times> (operation_coordinator \<times> world)" where
  "exc_run1 = commit_snapshot exc_ext exc_tx 9 [1, 2] 1 exc_p ext_t (exc_c, snd exc_run0)"

lemma exc_commit:
  "commit_snapshot exc_ext exc_tx 9 [1, 2] 1 exc_p ext_t (exc_c, snd exc_run0) =
     (Inr 1, (fst (snd exc_run1), snd (snd exc_run1)))"
proof -
  have "fst exc_run1 = Inr 1"
    by (simp add: exc_run1_def run_simps exc_defs is_ascii_lowercase_def)
  then show ?thesis by (simp add: prod_eq_iff exc_run1_def)
qed

theorem committed_snapshot_is_stored_witness:
  "committed_in (vault_path ext_t) 9 exc_p (snd exc_run1) \<and>
   stored_next exc_tx ext_t [ext_cookie] quiet_world 1 (snd (snd exc_run1))"
proof -
  have "tx_sound exc_tx ext_t" using ext_sound by (simp add: exc_tx_def tx_sound_def)
  moreover have "exists_faithful quiet_world (vault_path ext_t)"
    by (simp add: exists_faithful_def quiet_world_def is_present_def)
  moreover have "je_sha256 exc_ext = tx_sha256 exc_tx" by (simp add: exc_ext_def exc_tx_def)
  moreover have "apart (oc_journal exc_c) (vault_path ext_t)"
    by (simp add: apart_def exc_c_def exj_s0_def exj_path_def write_scratch_def run_simps ext_t_def vault_path_def)
  ultimately show ?thesis
    using committed_snapshot_is_stored [OF _ _ _ _ exc_prepare exc_commit] by simp
qed

text \<open>The host stops between the vault write and the record of it; recovery finds the target file.\<close>

definition exc_crashed :: operation_coordinator where
  "exc_crashed = exc_c\<lparr>oc_journal := exj_s0\<lparr>js_journal := exc_journal PhDurabilityUnknown\<rparr>\<rparr>"

definition exc_run2 :: "(fcp_error + startup_recovery) \<times> (operation_coordinator \<times> world)" where
  "exc_run2 = startup_recover exc_ext (vault_path ext_t) (exc_crashed, snd (snd exc_run1))"

lemma exc_recover:
  "startup_recover exc_ext (vault_path ext_t) (exc_crashed, snd (snd exc_run1)) =
     (Inr \<lparr>sr_needs_reconciliation = True, sr_committed_operation_id = Some 9, sr_committed_vault_sequence = Some 1\<rparr>,
      (fst (snd exc_run2), snd (snd exc_run2)))"
proof -
  have "fst exc_run2 = Inr \<lparr>sr_needs_reconciliation = True, sr_committed_operation_id = Some 9,
      sr_committed_vault_sequence = Some 1\<rparr>"
    by (simp add: exc_run2_def exc_run1_def exc_crashed_def run_simps exc_defs is_ascii_lowercase_def)
  then show ?thesis by (simp add: prod_eq_iff exc_run2_def)
qed

theorem startup_recovery_settles_witness:
  "jo_phase (hd (oj_operations (js_journal (oc_journal exc_crashed)))) = PhDurabilityUnknown \<and>
   (\<exists>op. coord_operation 9 (fst (snd exc_run2)) = Some op \<and>
      settled exc_ext (vault_path ext_t) (snd (snd exc_run2)) op)"
proof -
  have "apart (oc_journal exc_crashed) (vault_path ext_t)"
    by (simp add: apart_def exc_crashed_def exj_s0_def exj_path_def write_scratch_def run_simps ext_t_def vault_path_def)
  moreover have "\<exists>op. coord_operation 9 (fst (snd exc_run2)) = Some op"
    by (simp add: exc_run2_def exc_run1_def exc_crashed_def run_simps exc_defs is_ascii_lowercase_def)
  ultimately show ?thesis using startup_recovery_settles [OF exc_recover]
    by (auto simp: exc_crashed_def exc_journal_def)
qed

theorem classification_follows_the_file_witness:
  "\<exists>w'. classify_vault exc_ext 9 (vault_path ext_t) (oc_journal exc_crashed, quiet_world) =
       (Inr RcNotCommitted, (oc_journal exc_crashed, w')) \<and> lookup w' = lookup quiet_world"
proof -
  let ?run = "classify_vault exc_ext 9 (vault_path ext_t) (oc_journal exc_crashed, quiet_world)"
  have "fst ?run = Inr RcNotCommitted"
    by (simp add: exc_crashed_def run_simps exc_defs)
  then have run: "?run = (Inr RcNotCommitted, (fst (snd ?run), snd (snd ?run)))" by (simp add: prod_eq_iff)
  then show ?thesis using classification_follows_the_file [OF run] by metis
qed

text \<open>The identity has no collisions.\<close>

theorem snapshot_tag_binds_witness:
  "tag (\<lambda>bs. bs) [] \<lparr>stc_profile_id = 1, stc_account_group_id = 5, stc_operation_id = 9,
     stc_operation_sequence = 1, stc_base_vault_sequence = 0\<rparr> [7] \<noteq>
   tag (\<lambda>bs. bs) [] \<lparr>stc_profile_id = 1, stc_account_group_id = 5, stc_operation_id = 9,
     stc_operation_sequence = 2, stc_base_vault_sequence = 0\<rparr> [7]"
  using snapshot_tag_binds [of "\<lambda>bs. bs", OF inj_on_id2] by fastforce

end
