(* ===== verification/Lease_Metadata.thy ===== *)
theory Lease_Metadata
  imports Atomic_File Messages
begin

text \<open>
  \<open>lease/metadata.rs\<close>: the durable lease state of a group, its migration from the legacy
  version, and the repair of a state that outlived its vault.
\<close>

definition LEASE_METADATA_VERSION :: u16 where "LEASE_METADATA_VERSION = 2"
definition LEGACY_LEASE_METADATA_VERSION :: u16 where "LEGACY_LEASE_METADATA_VERSION = 1"

record lease_metadata =
  lm_version :: u16
  lm_account_group_id :: uuid
  lm_state :: group_state
  lm_lease_id :: "uuid option"
  lm_granted_at_unix_ms :: "u64 option"
  lm_expires_at_unix_ms :: "u64 option"
  lm_pending_operation_id :: "uuid option"
  lm_vault_sequence :: u64
  lm_transition_sequence :: u64
  lm_protocol_floor :: u16
  lm_operation_sequence_high_water :: u64

definition lease_initial :: "uuid \<Rightarrow> bool \<Rightarrow> lease_metadata" where
  "lease_initial account_group_id vault_exists =
     \<lparr>lm_version = LEASE_METADATA_VERSION, lm_account_group_id = account_group_id,
      lm_state = (if vault_exists then Sealed else Uninitialized),
      lm_lease_id = None, lm_granted_at_unix_ms = None, lm_expires_at_unix_ms = None,
      lm_pending_operation_id = None, lm_vault_sequence = 0, lm_transition_sequence = 0,
      lm_protocol_floor = 6, lm_operation_sequence_high_water = 0\<rparr>"

definition lease_validate :: "lease_metadata \<Rightarrow> uuid \<Rightarrow> unit fcp_result" where
  "lease_validate m expected_group =
     (if lm_version m \<noteq> LEASE_METADATA_VERSION then Inl (Format ''unsupported lease metadata version {}'')
      else if lm_account_group_id m \<noteq> expected_group then Inl (Format ''lease metadata account group mismatch'')
      else Inr ())"

definition advance_transition :: "lease_metadata \<Rightarrow> lease_metadata fcp_result" where
  "advance_transition m = (case checked_add (lm_transition_sequence m) 1 of
       None \<Rightarrow> Inl (Format ''lease transition sequence exhausted'')
     | Some n \<Rightarrow> Inr (m\<lparr>lm_transition_sequence := n\<rparr>))"

text \<open>\<open>activate_protocol_v7\<close> updates the metadata and says whether it changed.\<close>

definition activate_protocol_v7 :: "u64 \<Rightarrow> lease_metadata \<Rightarrow> (bool \<times> lease_metadata) fcp_result" where
  "activate_protocol_v7 high_water m =
     (if lm_protocol_floor m > 7 then Inl (Format ''unsupported lease protocol floor'')
      else Inr (lm_protocol_floor m < 7 \<or> lm_operation_sequence_high_water m < high_water,
                m\<lparr>lm_protocol_floor := 7,
                  lm_operation_sequence_high_water := max (lm_operation_sequence_high_water m) high_water\<rparr>))"

subsection \<open>The store\<close>

definition verify_lease_bytes :: "lease_metadata codec \<Rightarrow> lease_metadata \<Rightarrow> byte list \<Rightarrow> unit fcp_result" where
  "verify_lease_bytes c m persisted = (case json_from_slice c persisted of Inl e \<Rightarrow> Inl e
     | Inr verified \<Rightarrow> if verified \<noteq> m then Inl (Format ''lease metadata read-back mismatch'') else Inr ())"

definition lease_persist :: "lease_metadata codec \<Rightarrow> path \<Rightarrow> lease_metadata \<Rightarrow> (world, unit) host" where
  "lease_persist c p m =
     seqR (of_result (lease_validate m (lm_account_group_id m)))
    (bindR (of_result (json_to_vec c m)) (\<lambda>bytes.
       write_verified p bytes (verify_lease_bytes c m)))"

text \<open>The in-memory part of the migration from version 1, before its transition is counted.\<close>

definition migrate_legacy :: "lease_metadata \<Rightarrow> lease_metadata" where
  "migrate_legacy m =
     (let m = m\<lparr>lm_version := LEASE_METADATA_VERSION, lm_protocol_floor := 6,
                lm_operation_sequence_high_water := 0\<rparr> in
      if lm_state m = Unlocking \<or> lm_state m = Evicting \<or> lm_state m = Degraded
         \<or> lm_pending_operation_id m \<noteq> None
      then m\<lparr>lm_state := Degraded, lm_lease_id := None, lm_granted_at_unix_ms := None,
             lm_expires_at_unix_ms := None\<rparr>
      else m)"

definition upgrade_loaded :: "lease_metadata codec \<Rightarrow> path \<Rightarrow> lease_metadata \<Rightarrow> (world, lease_metadata) host" where
  "upgrade_loaded c p m =
     (if lm_version m = LEGACY_LEASE_METADATA_VERSION
      then bindR (of_result (advance_transition (migrate_legacy m))) (\<lambda>m'.
           seqR (lease_persist c p m') (ret m'))
      else ret m)"

text \<open>The two last steps of a load: validation, and the repair of a state without a vault.\<close>

definition settle_loaded :: "lease_metadata codec \<Rightarrow> path \<Rightarrow> uuid \<Rightarrow> bool \<Rightarrow> lease_metadata \<Rightarrow> (world, lease_metadata) host" where
  "settle_loaded c p g v m =
     seqR (of_result (lease_validate m g))
    (seqR (reject (lm_state m = Uninitialized \<and> v) (Format ''vault exists while lease metadata is uninitialized''))
          (if lm_state m \<noteq> Uninitialized \<and> \<not> v
           then seqR (lease_persist c p (lease_initial g False)) (ret (lease_initial g False)) else ret m))"

definition lease_load_or_initialize ::
    "lease_metadata codec \<Rightarrow> path \<Rightarrow> uuid \<Rightarrow> bool \<Rightarrow> (world, lease_metadata) host" where
  "lease_load_or_initialize c p account_group_id vault_exists =
     bindR (fs_exists p) (\<lambda>present.
     if present then
       bindR (fs_read p) (\<lambda>bytes.
       bindR (of_result (json_from_slice c bytes)) (\<lambda>metadata.
       bindR (upgrade_loaded c p metadata) (settle_loaded c p account_group_id vault_exists)))
     else seqR (lease_persist c p (lease_initial account_group_id vault_exists))
               (ret (lease_initial account_group_id vault_exists)))"

lemmas lease_defs [run_simps] =
  LEASE_METADATA_VERSION_def LEGACY_LEASE_METADATA_VERSION_def lease_initial_def lease_validate_def
  advance_transition_def activate_protocol_v7_def verify_lease_bytes_def lease_persist_def
  migrate_legacy_def upgrade_loaded_def settle_loaded_def lease_load_or_initialize_def

subsection \<open>Laws of the store\<close>

lemma lease_initial_valid [simp]: "lease_validate (lease_initial g v) g = Inr ()"
  by (simp add: lease_validate_def lease_initial_def)

lemma lease_validate_iff:
  "lease_validate m g = Inr () \<longleftrightarrow> lm_version m = LEASE_METADATA_VERSION \<and> lm_account_group_id m = g"
  by (simp add: lease_validate_def)

lemma verify_lease_bytes_ok: "verify_lease_bytes c m bs = Inr () \<Longrightarrow> from_slice c bs = Some m"
  by (auto simp: verify_lease_bytes_def json_from_slice_def split: sum.splits option.splits if_splits)

lemma wp_lease_persist:
  "wp (lease_persist c p m) (\<lambda>_ w'. stored c p w' = Some m \<and> lm_version m = LEASE_METADATA_VERSION)
     (\<lambda>e w'. stored c p w' = stored c p w \<or> stored c p w' = Some m) w"
proof (cases "lease_validate m (lm_account_group_id m)")
  case (Inl e)
  then show ?thesis by (simp add: lease_persist_def wp_simps)
next
  case valid: (Inr u)
  then have v: "lm_version m = LEASE_METADATA_VERSION" by (simp add: lease_validate_def split: if_splits)
  show ?thesis
  proof (cases "json_to_vec c m")
    case (Inl e)
    with valid show ?thesis by (simp add: lease_persist_def wp_simps)
  next
    case (Inr bs)
    then show ?thesis using valid unfolding lease_persist_def
      by (simp add: wp_simps v)
        (rule wp_mono [OF dw.wp_typed [where c = c and x = m]], auto dest: verify_lease_bytes_ok)
  qed
qed

text \<open>A state agrees with the vault when it is uninitialized exactly if there is no vault.\<close>

definition lease_agrees :: "uuid \<Rightarrow> bool \<Rightarrow> lease_metadata \<Rightarrow> bool" where
  "lease_agrees g vault_exists m \<longleftrightarrow> lm_version m = LEASE_METADATA_VERSION \<and> lm_account_group_id m = g \<and>
     (lm_state m = Uninitialized \<longleftrightarrow> \<not> vault_exists)"

lemma lease_initial_agrees: "lease_agrees g v (lease_initial g v)"
  by (simp add: lease_agrees_def lease_initial_def)

lemma stored_bytes: "lookup w p = Some bs \<Longrightarrow> stored c p w = from_slice c bs"
  by (simp add: stored_def)

abbreviation lease_loaded :: "lease_metadata codec \<Rightarrow> path \<Rightarrow> uuid \<Rightarrow> bool \<Rightarrow> lease_metadata \<Rightarrow> world \<Rightarrow> bool" where
  "lease_loaded c p g v m w \<equiv> lease_agrees g v m \<and> stored c p w = Some m"

lemma wp_lease_init:
  "wp (seqR (lease_persist c p (lease_initial g v)) (ret (lease_initial g v))) (lease_loaded c p g v) (\<lambda>_ _. True) w"
  by (simp add: wp_simps lease_initial_agrees) (rule wp_mono [OF wp_lease_persist]; simp)

lemma wp_settle_loaded:
  assumes "stored c p w = Some m"
  shows "wp (settle_loaded c p g v m) (lease_loaded c p g v) (\<lambda>_ _. True) w"
proof (cases "lm_version m = LEASE_METADATA_VERSION \<and> lm_account_group_id m = g")
  case False
  then obtain e where "lease_validate m g = Inl e" by (cases "lease_validate m g") (auto simp: lease_validate_iff)
  then show ?thesis by (simp add: settle_loaded_def wp_simps)
next
  case True
  then have ok: "lease_validate m g = Inr ()" by (simp add: lease_validate_iff)
  show ?thesis
  proof (cases "lm_state m \<noteq> Uninitialized \<and> \<not> v")
    case True
    then show ?thesis using wp_lease_init [of c p g False w] ok
      by (simp add: settle_loaded_def wp_seqR wp_of_result wp_reject)
  next
    case False
    then show ?thesis using ok True assms by (auto simp: settle_loaded_def wp_simps lease_agrees_def)
  qed
qed

lemma wp_upgrade_loaded:
  "stored c p w = Some m \<Longrightarrow> wp (upgrade_loaded c p m) (\<lambda>m' w'. stored c p w' = Some m') (\<lambda>_ _. True) w"
  by (cases "advance_transition (migrate_legacy m)")
    (auto simp: upgrade_loaded_def wp_simps intro!: wp_mono [OF wp_lease_persist])

lemma wp_lease_load:
  "wp (lease_load_or_initialize c p g v) (lease_loaded c p g v) (\<lambda>_ _. True) w"
proof -
  have load: "wp (bindR (upgrade_loaded c p m) (settle_loaded c p g v)) (lease_loaded c p g v) (\<lambda>_ _. True) w"
    if "stored c p w = Some m" for m w
    unfolding wp_bindR by (rule wp_mono [OF wp_upgrade_loaded [OF that]]) (auto intro: wp_settle_loaded)
  have "wp (bindR (of_result (json_from_slice c bs)) (\<lambda>m. bindR (upgrade_loaded c p m) (settle_loaded c p g v)))
      (lease_loaded c p g v) (\<lambda>_ _. True) w" if "lookup w p = Some bs" for bs w
    using that load [of w] by (subst wp_bindR) (auto simp: wp_of_result json_from_slice_def stored_bytes split: option.split)
  then show ?thesis
    unfolding lease_load_or_initialize_def
    using wp_lease_init [of c p g v "advance w"]
    by (auto simp: wp_bindR [of "fs_exists p"] wp_bindR [of "fs_read p"] wp_fs_exists wp_fs_read split: option.split)
qed

subsection \<open>Properties\<close>

text \<open>
  C23. Opening the lease metadata of a group, whatever the file held and whatever failed before,
  yields a state of the current version, for this group, that agrees with the vault (uninitialized
  exactly when there is no vault file), and the file decodes to exactly that state: migration,
  repair and first creation are durable before the group is used.
\<close>

theorem lease_load_agrees_with_vault:
  assumes "lease_load_or_initialize c p g v w = (Inr m, w')"
  shows "lease_agrees g v m \<and> stored c p w' = Some m"
  by (rule wp_okD [OF assms wp_lease_load])

text \<open>
  The migration from version 1 never carries an unfinished step over: a state that was
  unlocking, evicting, degraded or had an operation pending comes out degraded without a lease;
  any other state is kept, and the vault and transition counters are kept in both cases.
\<close>

lemma migration_degrades_unfinished:
  "(lm_state (migrate_legacy m) =
      (if lm_state m \<in> {Unlocking, Evicting, Degraded} \<or> lm_pending_operation_id m \<noteq> None
       then Degraded else lm_state m)) \<and>
   (lm_state (migrate_legacy m) = Degraded \<longleftrightarrow>
      lm_state m \<in> {Unlocking, Evicting, Degraded} \<or> lm_pending_operation_id m \<noteq> None) \<and>
   (if lm_state (migrate_legacy m) = Degraded then lm_lease_id (migrate_legacy m) = None
    else lm_lease_id (migrate_legacy m) = lm_lease_id m) \<and>
   lm_vault_sequence (migrate_legacy m) = lm_vault_sequence m \<and>
   lm_transition_sequence (migrate_legacy m) = lm_transition_sequence m"
  by (auto simp: migrate_legacy_def Let_def)

text \<open>
  Activating protocol 7 is monotone and idempotent: the floor becomes 7, the high-water mark
  never falls and covers the given one, it reports a change exactly when the metadata changed,
  and activating again with the same mark reports none.
\<close>

theorem activation_monotone:
  assumes "activate_protocol_v7 h m = Inr (changed, m')"
  shows "lm_protocol_floor m' = 7 \<and>
    lm_operation_sequence_high_water m \<le> lm_operation_sequence_high_water m' \<and>
    h \<le> lm_operation_sequence_high_water m' \<and> (changed \<longleftrightarrow> m' \<noteq> m) \<and>
    activate_protocol_v7 h m' = Inr (False, m')"
proof -
  have m': "m' = m\<lparr>lm_protocol_floor := 7, lm_operation_sequence_high_water := max (lm_operation_sequence_high_water m) h\<rparr>"
    and ch: "changed \<longleftrightarrow> lm_protocol_floor m < 7 \<or> lm_operation_sequence_high_water m < h"
    and le: "\<not> lm_protocol_floor m > 7"
    using assms by (auto simp: activate_protocol_v7_def split: if_splits)
  have "m' = m \<longleftrightarrow> lm_protocol_floor m = 7 \<and> h \<le> lm_operation_sequence_high_water m"
    unfolding m' by (cases m) (auto simp: max_def)
  then have "changed \<longleftrightarrow> m' \<noteq> m" using ch le by auto
  then show ?thesis by (auto simp: m' activate_protocol_v7_def)
qed

subsection \<open>A concrete run\<close>

text \<open>A legacy file of group 5 in the middle of an eviction; its vault exists.\<close>

definition exl_path :: path where "exl_path = [Name ''data'', Name ''lease.json'']"

definition exl_legacy :: lease_metadata where
  "exl_legacy = (lease_initial 5 True)\<lparr>lm_version := 1, lm_state := Evicting, lm_lease_id := Some 8\<rparr>"

definition exl_migrated :: lease_metadata where
  "exl_migrated = (lease_initial 5 True)\<lparr>lm_state := Degraded, lm_transition_sequence := 1\<rparr>"

definition exl_codec :: "lease_metadata codec" where
  "exl_codec = table_codec [exl_legacy, exl_migrated]"

definition exl_world :: world where
  "exl_world = put_file exl_path [0] quiet_world"

theorem lease_load_agrees_with_vault_witness:
  "\<exists>w'. lease_load_or_initialize exl_codec exl_path 5 True exl_world = (Inr exl_migrated, w') \<and>
     lm_state exl_migrated = Degraded \<and> stored exl_codec exl_path w' = Some exl_migrated"
proof -
  let ?run = "lease_load_or_initialize exl_codec exl_path 5 True exl_world"
  have "fst ?run = Inr exl_migrated"
    by (simp add: run_simps exl_codec_def exl_path_def exl_legacy_def exl_migrated_def exl_world_def
        table_codec_def quiet_world_def upt_rec)
  then have run: "?run = (Inr exl_migrated, snd ?run)" by (simp add: prod_eq_iff)
  from lease_load_agrees_with_vault [OF run] run show ?thesis
    by (metis (no_types, lifting) exl_migrated_def lease_metadata.select_convs(3) lease_metadata.surjective
        lease_metadata.update_convs(3,9))
qed

theorem activation_monotone_witness:
  "\<exists>m'. activate_protocol_v7 3 exl_migrated = Inr (True, m') \<and> m' \<noteq> exl_migrated"
proof -
  have run: "activate_protocol_v7 3 exl_migrated =
      Inr (True, exl_migrated\<lparr>lm_protocol_floor := 7, lm_operation_sequence_high_water := 3\<rparr>)"
    by (simp add: activate_protocol_v7_def exl_migrated_def lease_initial_def max_def)
  from activation_monotone [OF run] run show ?thesis by blast
qed

end
