(* ===== verification/Framing.thy ===== *)
theory Framing
  imports Messages World "HOL-Library.Sublist"
begin

text \<open>
  \<open>protocol/envelope.rs\<close> and \<open>protocol/framing.rs\<close>: the message envelope and the
  length-prefixed frames on the standard streams of the host. The JSON codec of envelopes is a
  parameter.
\<close>

subsection \<open>The streams\<close>

text \<open>
  What a reader has left to deliver and what a writer has accepted. Call number \<open>n\<close> fails if
  \<open>pi_fault n\<close> is \<open>Some k\<close>; a failing write has accepted \<open>k\<close> bytes.
\<close>

record pipe =
  pi_input :: "byte list"
  pi_output :: "byte list"
  pi_calls :: nat
  pi_fault :: "nat \<Rightarrow> nat option"

definition pipe_call :: "(nat \<Rightarrow> pipe \<Rightarrow> pipe) \<Rightarrow> (pipe, 'a) host \<Rightarrow> (pipe, 'a) host" where
  "pipe_call on_fault m = (\<lambda>s. let s' = s\<lparr>pi_calls := Suc (pi_calls s)\<rparr> in
     case pi_fault s (pi_calls s) of Some k \<Rightarrow> (Inl (Io OtherIo), on_fault k s') | None \<Rightarrow> m s')"

text \<open>\<open>Read::read\<close> into a buffer of one byte: nothing at the end of the input.\<close>

definition read_one :: "(pipe, byte option) host" where
  "read_one = pipe_call (\<lambda>_ s. s) (\<lambda>s. case pi_input s of
       [] \<Rightarrow> (Inr None, s)
     | b # bs \<Rightarrow> (Inr (Some b), s\<lparr>pi_input := bs\<rparr>))"

definition read_exact :: "nat \<Rightarrow> (pipe, byte list) host" where
  "read_exact n = pipe_call (\<lambda>k s. s\<lparr>pi_input := drop k (pi_input s)\<rparr>) (\<lambda>s.
     if length (pi_input s) < n then (Inl (Io UnexpectedEof), s\<lparr>pi_input := []\<rparr>)
     else (Inr (take n (pi_input s)), s\<lparr>pi_input := drop n (pi_input s)\<rparr>))"

definition pipe_write_all :: "byte list \<Rightarrow> (pipe, unit) host" where
  "pipe_write_all bs = pipe_call (\<lambda>k s. s\<lparr>pi_output := pi_output s @ take k bs\<rparr>)
     (\<lambda>s. (Inr (), s\<lparr>pi_output := pi_output s @ bs\<rparr>))"

definition pipe_flush :: "(pipe, unit) host" where
  "pipe_flush = pipe_call (\<lambda>_ s. s) (\<lambda>s. (Inr (), s))"

subsection \<open>Envelopes\<close>

definition LEGACY_PROTOCOL_VERSION :: u16 where "LEGACY_PROTOCOL_VERSION = 6"
definition PROTOCOL_VERSION :: u16 where "PROTOCOL_VERSION = 7"

definition supported_protocol :: "u16 \<Rightarrow> bool" where
  "supported_protocol version \<longleftrightarrow> version = LEGACY_PROTOCOL_VERSION \<or> version = PROTOCOL_VERSION"

record envelope =
  en_v :: u16
  en_conn_nonce :: nonce32
  en_seq :: u64
  en_id :: uuid
  en_message :: message

definition envelope_validate :: "envelope \<Rightarrow> nonce32 \<Rightarrow> u64 \<Rightarrow> unit fcp_result" where
  "envelope_validate e expected_nonce previous_sequence =
     (if \<not> supported_protocol (en_v e) then Inl (Protocol ''unsupported protocol version {}'')
      else if en_conn_nonce e \<noteq> expected_nonce then Inl (Protocol ''connection nonce mismatch'')
      else case checked_add previous_sequence 1 of
        None \<Rightarrow> Inl (Protocol ''sequence overflow'')
      | Some expected_sequence \<Rightarrow>
          if en_seq e \<noteq> expected_sequence then Inl (Protocol ''expected sequence {expected_sequence}, got {}'')
          else if is_nil (en_id e) then Inl (Protocol ''message id must not be nil'')
          else Inr ())"

subsection \<open>Frames\<close>

definition MAX_FRAME_BYTES :: nat where "MAX_FRAME_BYTES = 1024 * 1024"

definition read_envelope :: "envelope codec \<Rightarrow> (pipe, envelope option) host" where
  "read_envelope c =
     bindR read_one (\<lambda>r. case r of
       None \<Rightarrow> ret None
     | Some b \<Rightarrow>
         bindR (read_exact 3) (\<lambda>rest.
         let length = unat (u32_from_le (b # rest)) in
         seqR (reject (length = 0 \<or> length > MAX_FRAME_BYTES)
                 (Protocol ''native message length {length} is outside 1..={MAX_FRAME_BYTES}''))
        (bindR (read_exact length) (\<lambda>body.
         bindR (of_result (json_from_slice c body)) (\<lambda>e. ret (Some e))))))"

definition write_envelope :: "envelope codec \<Rightarrow> envelope \<Rightarrow> (pipe, unit) host" where
  "write_envelope c e =
     bindR (of_result (json_to_vec c e)) (\<lambda>body.
     seqR (reject (body = [] \<or> length body > MAX_FRAME_BYTES)
             (Protocol ''native message length {} is outside 1..={MAX_FRAME_BYTES}''))
    (seqR (reject (2 ^ 32 \<le> length body) (Protocol ''native message length exceeds u32''))
    (seqR (pipe_write_all (u32_to_le (of_nat (length body))))
    (seqR (pipe_write_all body) pipe_flush))))"

lemmas framing_defs [run_simps] =
  pipe_call_def read_one_def read_exact_def pipe_write_all_def pipe_flush_def
  LEGACY_PROTOCOL_VERSION_def PROTOCOL_VERSION_def supported_protocol_def envelope_validate_def
  MAX_FRAME_BYTES_def read_envelope_def write_envelope_def

subsection \<open>Laws\<close>

lemma envelope_validate_iff:
  "envelope_validate e nonce previous = Inr () \<longleftrightarrow>
     supported_protocol (en_v e) \<and> en_conn_nonce e = nonce \<and>
     checked_add previous 1 = Some (en_seq e) \<and> \<not> is_nil (en_id e)"
  by (auto simp: envelope_validate_def split: option.splits)

text \<open>One frame: the length and the body.\<close>

definition frame :: "byte list \<Rightarrow> byte list" where
  "frame body = u32_to_le (of_nat (length body)) @ body"

definition framed :: "envelope codec \<Rightarrow> envelope \<Rightarrow> byte list option" where
  "framed c e = (case to_vec c e of None \<Rightarrow> None
     | Some body \<Rightarrow> if body = [] \<or> length body > MAX_FRAME_BYTES then None else Some (frame body))"

lemma wp_pipe_write_all [wp_simps]:
  "wp (pipe_write_all bs) Q E s = (case pi_fault s (pi_calls s) of
       Some k \<Rightarrow> E (Io OtherIo) (s\<lparr>pi_calls := Suc (pi_calls s), pi_output := pi_output s @ take k bs\<rparr>)
     | None \<Rightarrow> Q () (s\<lparr>pi_calls := Suc (pi_calls s), pi_output := pi_output s @ bs\<rparr>))"
  by (simp add: wp_def pipe_write_all_def pipe_call_def Let_def split: option.split)

lemma wp_pipe_flush [wp_simps]:
  "wp pipe_flush Q E s = (case pi_fault s (pi_calls s) of
       Some k \<Rightarrow> E (Io OtherIo) (s\<lparr>pi_calls := Suc (pi_calls s)\<rparr>)
     | None \<Rightarrow> Q () (s\<lparr>pi_calls := Suc (pi_calls s)\<rparr>))"
  by (simp add: wp_def pipe_flush_def pipe_call_def Let_def split: option.split)

lemma wp_read_one [wp_simps]:
  "wp read_one Q E s = (case pi_fault s (pi_calls s) of
       Some k \<Rightarrow> E (Io OtherIo) (s\<lparr>pi_calls := Suc (pi_calls s)\<rparr>)
     | None \<Rightarrow> (case pi_input s of
         [] \<Rightarrow> Q None (s\<lparr>pi_calls := Suc (pi_calls s)\<rparr>)
       | b # bs \<Rightarrow> Q (Some b) (s\<lparr>pi_calls := Suc (pi_calls s), pi_input := bs\<rparr>)))"
  by (simp add: wp_def read_one_def pipe_call_def Let_def split: option.split list.split)

lemma wp_read_exact [wp_simps]:
  "wp (read_exact n) Q E s = (case pi_fault s (pi_calls s) of
       Some k \<Rightarrow> E (Io OtherIo) (s\<lparr>pi_calls := Suc (pi_calls s), pi_input := drop k (pi_input s)\<rparr>)
     | None \<Rightarrow> if length (pi_input s) < n
         then E (Io UnexpectedEof) (s\<lparr>pi_calls := Suc (pi_calls s), pi_input := []\<rparr>)
         else Q (take n (pi_input s)) (s\<lparr>pi_calls := Suc (pi_calls s), pi_input := drop n (pi_input s)\<rparr>))"
  by (simp add: wp_def read_exact_def pipe_call_def Let_def split: option.split)

text \<open>Whatever fails, a write appends a prefix of one frame, and the whole frame if it succeeds.\<close>

lemma wp_write_envelope:
  "wp (write_envelope c e)
     (\<lambda>_ s'. pi_input s' = pi_input s \<and> (\<exists>f. framed c e = Some f \<and> pi_output s' = pi_output s @ f))
     (\<lambda>_ s'. pi_input s' = pi_input s \<and>
        (\<exists>g. pi_output s' = pi_output s @ g \<and> (g \<noteq> [] \<longrightarrow> (\<exists>f. framed c e = Some f \<and> prefix g f)))) s"
proof (cases "to_vec c e")
  case None
  then show ?thesis by (simp add: write_envelope_def wp_simps json_to_vec_def)
next
  case (Some body)
  then show ?thesis
    by (auto simp: write_envelope_def wp_bindR wp_seqR wp_of_result wp_reject wp_pipe_write_all wp_pipe_flush
        json_to_vec_def framed_def frame_def take_is_prefix prefix_prefix split: option.split)
qed

text \<open>Reading consumes input whenever it returns an envelope, and never writes.\<close>

lemma wp_read_envelope:
  "wp (read_envelope c)
     (\<lambda>r s'. pi_output s' = pi_output s \<and> (r \<noteq> None \<longrightarrow> length (pi_input s') < length (pi_input s)))
     (\<lambda>_ s'. pi_output s' = pi_output s) s"
  by (auto simp: read_envelope_def wp_simps Let_def json_from_slice_def split: option.split list.split)

text \<open>Reading a frame that is first in the input.\<close>

lemma read_frame:
  assumes "framed c e = Some f" and "pi_input s = f @ rest" and "\<And>n. pi_fault s n = None"
    and "\<And>bs. to_vec c e = Some bs \<Longrightarrow> from_slice c bs = Some e"
  shows "wp (read_envelope c) (\<lambda>r s'. r = Some e \<and> pi_input s' = rest) (\<lambda>_ _. False) s"
proof -
  obtain body where body: "to_vec c e = Some body" "body \<noteq> []" "length body \<le> MAX_FRAME_BYTES" "f = frame body"
    using assms(1) by (auto simp: framed_def split: option.splits if_splits)
  have small: "length body < 2 ^ 32" using body(3) by (simp add: MAX_FRAME_BYTES_def)
  let ?h = "u32_to_le (of_nat (length body))"
  have len: "length ?h = 4" by (rule u32_le.enc_length)
  then obtain b h where h: "?h = b # h" "length h = 3" by (cases ?h) auto
  have n: "unat (u32_from_le (b # h)) = length body"
    using small u32_le.dec_enc [of "of_nat (length body)"] by (simp add: h(1) unat_of_nat)
  have input: "pi_input s = b # h @ body @ rest" using assms(2) body(4) h by (simp add: frame_def)
  show ?thesis
    using body n h(2) assms(3,4)
    by (simp add: read_envelope_def wp_simps input Let_def json_from_slice_def)
qed

subsection \<open>Properties\<close>

text \<open>
  C27. Frame round trip: what \<open>write_envelope\<close> puts on the stream, \<open>read_envelope\<close> reads back as
  the same envelope, and it stops exactly at the end of the frame, whatever follows.
\<close>

theorem frame_round_trip:
  assumes "write_envelope c e s = (Inr (), s')" and "from_slice c (the (to_vec c e)) = Some e"
    and "pi_output s = []" and "pi_input r = pi_output s' @ rest" and "\<And>n. pi_fault r n = None"
  shows "\<exists>r'. read_envelope c r = (Inr (Some e), r') \<and> pi_input r' = rest"
proof -
  obtain f where f: "framed c e = Some f" "pi_output s' = f"
    using wp_okD [OF assms(1) wp_write_envelope] assms(3) by auto
  have "wp (read_envelope c) (\<lambda>x r'. x = Some e \<and> pi_input r' = rest) (\<lambda>_ _. False) r"
    by (rule read_frame [OF f(1)]) (use assms f in auto)
  then show ?thesis by (auto simp: wp_def split: prod.splits sum.splits)
qed

text \<open>
  A frame length outside 1 to 1,048,576 is refused before the body is read: no input beyond
  the four length bytes is consumed and nothing is decoded.
\<close>

theorem frame_length_bounded:
  assumes "pi_input s = b0 # b1 # b2 # b3 # rest" and "\<And>n. pi_fault s n = None"
    and "unat (u32_from_le [b0, b1, b2, b3]) \<notin> {1..1048576}"
  shows "\<exists>s'. read_envelope c s =
     (Inl (Protocol ''native message length {length} is outside 1..={MAX_FRAME_BYTES}''), s') \<and> pi_input s' = rest"
  using assms by (auto simp: run_simps not_le not_less)

subsection \<open>A concrete exchange\<close>

definition exf_envelope :: envelope where
  "exf_envelope = \<lparr>en_v = 7, en_conn_nonce = map (\<lambda>_. 3) [0..<32], en_seq = 1, en_id = 12,
     en_message = MonitorPoll \<lparr>mp_max_events = 4\<rparr>\<rparr>"

definition exf_pipe :: "byte list \<Rightarrow> pipe" where
  "exf_pipe bs = \<lparr>pi_input = bs, pi_output = [], pi_calls = 0, pi_fault = (\<lambda>_. None)\<rparr>"

theorem frame_round_trip_witness:
  "\<exists>s' r'. write_envelope (table_codec [exf_envelope]) exf_envelope (exf_pipe []) = (Inr (), s') \<and>
     read_envelope (table_codec [exf_envelope]) (exf_pipe (pi_output s' @ [7])) = (Inr (Some exf_envelope), r') \<and>
     pi_input r' = [7]"
proof -
  let ?run = "write_envelope (table_codec [exf_envelope]) exf_envelope (exf_pipe [])"
  have "fst ?run = Inr ()" by (simp add: run_simps table_codec_def exf_pipe_def upt_rec)
  then have run: "?run = (Inr (), snd ?run)" by (simp add: prod_eq_iff)
  have "from_slice (table_codec [exf_envelope]) (the (to_vec (table_codec [exf_envelope]) exf_envelope)) = Some exf_envelope"
    by (simp add: table_codec_def upt_rec)
  from frame_round_trip [OF run this, of "exf_pipe (pi_output (snd ?run) @ [7])" "[7]"] run show ?thesis
    by (auto simp: exf_pipe_def)
qed

theorem frame_length_bounded_witness:
  "\<exists>s'. read_envelope (table_codec []) (exf_pipe [0, 0, 0, 0, 9]) =
     (Inl (Protocol ''native message length {length} is outside 1..={MAX_FRAME_BYTES}''), s') \<and> pi_input s' = [9]"
proof (rule frame_length_bounded)
  have "u32_from_le [0, 0, 0, 0] = 0" by code_simp
  then show "unat (u32_from_le [0, 0, 0, 0]) \<notin> {1..1048576}" by simp
qed (simp_all add: exf_pipe_def)

end
