(* ===== verification/Audit_Log.thy ===== *)
theory Audit_Log
  imports Atomic_File Local_Secret Rust_String
begin

unbundle bit_operations_syntax

text \<open>
  \<open>audit.rs\<close>: the hash-chained audit log. Entries are JSON lines in one file per day, each
  authenticated by an HMAC over its content and the previous entry's MAC; a protected anchor
  records the tail, a protected checkpoint replaces expired days, and an outbox keeps entries that
  could not be written. SHA-256, the platform's secret protection and the JSON codecs are
  parameters.
\<close>

definition AUDIT_SCHEMA_VERSION :: byte where "AUDIT_SCHEMA_VERSION = 2"
definition AUDIT_KEY_BYTES :: nat where "AUDIT_KEY_BYTES = 32"
definition ZERO_MAC :: "byte list" where "ZERO_MAC = replicate 32 0"
definition AUDIT_RETENTION_DAYS :: u64 where "AUDIT_RETENTION_DAYS = 90"
definition DAY_MS :: u64 where "DAY_MS = 86400000"

record unsigned_audit_entry =
  ue_schema_version :: byte
  ue_sequence :: u64
  ue_previous_mac :: string
  ue_timestamp_unix_ms :: u64
  ue_account_group_id :: "uuid option"
  ue_event :: string
  ue_outcome :: string
  ue_operation_id :: "uuid option"
  ue_detail_code :: "string option"
  ue_audit_event_id :: "uuid option"

text \<open>An entry is an unsigned entry and its MAC.\<close>

record audit_entry = unsigned_audit_entry +
  ae_mac :: string

record audit_anchor =
  aa_schema_version :: byte
  aa_sequence :: u64
  aa_mac :: string

record audit_checkpoint =
  ak_schema_version :: byte
  ak_sequence :: u64
  ak_mac :: string
  ak_archived_through_day :: u64

record audit_outbox_entry =
  ao_audit_event_id :: uuid
  ao_account_group_id :: uuid
  ao_event :: string
  ao_outcome :: string
  ao_operation_id :: "uuid option"
  ao_detail_code :: "string option"

record audit_logger =
  al_directory :: path
  al_key :: "byte list"
  al_sequence :: u64
  al_mac :: "byte list"
  al_recovered_on_open :: bool

record audit_ext =
  ax_sha256 :: "byte list \<Rightarrow> byte list"
  ax_secret :: local_secret
  ax_unsigned_json :: "unsigned_audit_entry codec"
  ax_entry_json :: "audit_entry codec"
  ax_anchor_json :: "audit_anchor codec"
  ax_checkpoint_json :: "audit_checkpoint codec"
  ax_outbox_json :: "audit_outbox_entry list codec"

type_synonym 'a audit_m = "(audit_logger \<times> world, 'a) host"

subsection \<open>MACs\<close>

definition mac_pad :: "byte \<Rightarrow> byte list \<Rightarrow> byte list" where
  "mac_pad c key = map (\<lambda>i. c XOR (if i < length key then key ! i else 0)) [0..<64]"

definition calculate_mac :: "audit_ext \<Rightarrow> byte list \<Rightarrow> byte list \<Rightarrow> byte list fcp_result" where
  "calculate_mac x key bytes =
     (if length key > 64 then Inl (Crypto ''audit HMAC key exceeds SHA-256 block size'')
      else Inr (ax_sha256 x (mac_pad 0x5c key @ ax_sha256 x (mac_pad 0x36 key @ bytes))))"

definition verify_mac :: "audit_ext \<Rightarrow> byte list \<Rightarrow> byte list \<Rightarrow> byte list \<Rightarrow> unit fcp_result" where
  "verify_mac x key bytes expected = (case calculate_mac x key bytes of Inl e \<Rightarrow> Inl e
     | Inr actual \<Rightarrow>
         if fold (\<lambda>(left, right) difference. difference OR (left XOR right)) (zip actual expected) 0 = 0
         then Inr () else Inl (Format ''audit HMAC verification failed''))"

text \<open>The slice of two characters panics when it does not start and end at character boundaries.\<close>

definition continuation_byte :: "char \<Rightarrow> bool" where
  "continuation_byte c = (let v = of_char c :: nat in 128 \<le> v \<and> v < 192)"

fun decode_mac_pairs :: "string \<Rightarrow> byte list fcp_result" where
  "decode_mac_pairs [] = Inr []"
| "decode_mac_pairs [c] = Inl (Format ''panic: slice out of range'')"
| "decode_mac_pairs (c # d # cs) =
     (if continuation_byte c \<or> (case cs of [] \<Rightarrow> False | e # _ \<Rightarrow> continuation_byte e)
      then Inl (Format ''panic: slice is not at a character boundary'')
      else case radix_pair c d of
        None \<Rightarrow> Inl (Format ''audit MAC is not lowercase hex'')
      | Some b \<Rightarrow> map_sum id ((#) b) (decode_mac_pairs cs))"

definition decode_mac :: "string \<Rightarrow> byte list fcp_result" where
  "decode_mac value =
     (if length value \<noteq> 64 then Inl (Format ''audit MAC has invalid length'')
      else case decode_mac_pairs value of Inl e \<Rightarrow> Inl e
      | Inr decoded \<Rightarrow> if encode_hex decoded \<noteq> value
          then Inl (Format ''audit MAC is not canonical lowercase hex'') else Inr decoded)"

subsection \<open>Files\<close>

definition key_path :: "path \<Rightarrow> path" where "key_path d = d @ [Name ''audit-key.dpapi'']"
definition anchor_path :: "path \<Rightarrow> path" where "anchor_path d = d @ [Name ''audit-anchor.dpapi'']"
definition checkpoint_path :: "path \<Rightarrow> path" where "checkpoint_path d = d @ [Name ''audit-checkpoint.dpapi'']"
definition outbox_path :: "path \<Rightarrow> path" where "outbox_path d = d @ [Name ''audit-outbox-v1.json'']"

text \<open>\<open>format!("audit-v2-day-{day}.jsonl")\<close> and its inverse.\<close>

definition digit_char :: "nat \<Rightarrow> char" where
  "digit_char n = char_of (48 + n)"

fun decimal :: "nat \<Rightarrow> string" where
  "decimal n = (if n < 10 then [digit_char n] else decimal (n div 10) @ [digit_char (n mod 10)])"

declare decimal.simps [simp del]

definition DAY_PREFIX :: string where "DAY_PREFIX = ''audit-v2-day-''"
definition DAY_SUFFIX :: string where "DAY_SUFFIX = ''.jsonl''"

definition day_path :: "path \<Rightarrow> u64 \<Rightarrow> path" where
  "day_path d day = d @ [Name (DAY_PREFIX @ decimal (unat day) @ DAY_SUFFIX)]"

definition strip_prefix :: "string \<Rightarrow> string \<Rightarrow> string option" where
  "strip_prefix p s = (if prefix p s then Some (drop (length p) s) else None)"

definition strip_suffix :: "string \<Rightarrow> string \<Rightarrow> string option" where
  "strip_suffix p s = (if suffix p s then Some (take (length s - length p) s) else None)"

text \<open>
  A name built from a UUID starts with a hexadecimal digit or a dash pattern that is never
  \<open>audit-\<close>, so only plain names can be chain files.
\<close>

fun day_of_name :: "seg \<Rightarrow> u64 option" where
  "day_of_name (Name s) = Option.bind (strip_prefix DAY_PREFIX s) (\<lambda>r. Option.bind (strip_suffix DAY_SUFFIX r) parse_u64)"
| "day_of_name (IdName _ _) = None"

definition audit_day :: "path \<Rightarrow> u64 option" where
  "audit_day p = Option.bind (file_name p) day_of_name"

fun is_chain_name :: "seg \<Rightarrow> bool" where
  "is_chain_name (Name s) \<longleftrightarrow> prefix DAY_PREFIX s \<and> suffix DAY_SUFFIX s"
| "is_chain_name (IdName _ _) \<longleftrightarrow> False"

definition is_chain_file :: "path \<Rightarrow> bool" where
  "is_chain_file p = (case file_name p of None \<Rightarrow> False | Some s \<Rightarrow> is_chain_name s)"

definition chain_key :: "path \<Rightarrow> u64" where
  "chain_key p = (case audit_day p of Some d \<Rightarrow> d | None \<Rightarrow> - 1)"

definition chain_files :: "path \<Rightarrow> (world, path list) host" where
  "chain_files d = bindR (fs_read_dir d) (\<lambda>ps. ret (sort_key chain_key (filter is_chain_file ps)))"

text \<open>\<open>split(|b| b == '\n')\<close> with the empty pieces dropped.\<close>

fun split_lines :: "byte list \<Rightarrow> byte list list" where
  "split_lines [] = [[]]"
| "split_lines (b # bs) =
     (if b = 10 then [] # split_lines bs
      else (case split_lines bs of [] \<Rightarrow> [[b]] | l # ls \<Rightarrow> (b # l) # ls))"

definition byte_lines :: "byte list \<Rightarrow> byte list list" where
  "byte_lines bs = filter (\<lambda>l. l \<noteq> []) (split_lines bs)"

definition verify_protected :: "audit_ext \<Rightarrow> byte list \<Rightarrow> byte list \<Rightarrow> unit fcp_result" where
  "verify_protected x plaintext candidate = (case ls_unprotect (ax_secret x) candidate of Inl e \<Rightarrow> Inl e
     | Inr recovered \<Rightarrow> if recovered \<noteq> plaintext then Inl (Crypto ''DPAPI write verification failed'') else Inr ())"

definition persist_protected_file :: "audit_ext \<Rightarrow> path \<Rightarrow> byte list \<Rightarrow> (world, unit) host" where
  "persist_protected_file x p plaintext =
     bindR (of_result (ls_protect (ax_secret x) plaintext)) (\<lambda>protected.
       write_verified p protected (verify_protected x plaintext))"

definition load_or_create_key :: "audit_ext \<Rightarrow> path \<Rightarrow> (world, byte list) host" where
  "load_or_create_key x d =
     bindR (fs_exists (key_path d)) (\<lambda>present.
     if present then
       bindR (fs_read (key_path d)) (\<lambda>bytes.
       bindR (of_result (ls_unprotect (ax_secret x) bytes)) (\<lambda>plaintext.
       seqR (reject (length plaintext \<noteq> AUDIT_KEY_BYTES) (Format ''audit HMAC key has invalid length''))
            (ret plaintext)))
     else
       bindR (fs_exists (anchor_path d)) (\<lambda>anchored.
       bindR (if anchored then ret True else fs_exists (checkpoint_path d)) (\<lambda>material.
       bindR (if material then ret True else bindR (chain_files d) (\<lambda>fs. ret (fs \<noteq> []))) (\<lambda>material.
       seqR (reject material (Format ''audit HMAC key is missing while authenticated audit material exists''))
      (bindR (fill_random AUDIT_KEY_BYTES) (\<lambda>key.
       seqR (persist_protected_file x (key_path d) key) (ret key)))))))"

definition load_protected :: "audit_ext \<Rightarrow> path \<Rightarrow> 'a codec \<Rightarrow> ('a \<Rightarrow> bool) \<Rightarrow> string \<Rightarrow> (world, 'a) host" where
  "load_protected x p c well_formed message =
     bindR (fs_read p) (\<lambda>bytes.
     bindR (of_result (ls_unprotect (ax_secret x) bytes)) (\<lambda>plaintext.
     bindR (of_result (json_from_slice c plaintext)) (\<lambda>v.
     seqR (reject (\<not> well_formed v) (Format message)) (ret v))))"

definition load_checkpoint :: "audit_ext \<Rightarrow> path \<Rightarrow> (world, audit_checkpoint option) host" where
  "load_checkpoint x d =
     bindR (fs_exists (checkpoint_path d)) (\<lambda>present.
     if \<not> present then ret None
     else bindR (load_protected x (checkpoint_path d) (ax_checkpoint_json x)
            (\<lambda>k. ak_schema_version k = AUDIT_SCHEMA_VERSION \<and> \<not> isl (decode_mac (ak_mac k)))
            ''audit checkpoint is malformed'') (\<lambda>k. ret (Some k)))"

definition persist_checkpoint :: "audit_ext \<Rightarrow> path \<Rightarrow> audit_checkpoint \<Rightarrow> (world, unit) host" where
  "persist_checkpoint x d k =
     bindR (of_result (json_to_vec (ax_checkpoint_json x) k)) (\<lambda>plaintext.
       persist_protected_file x (checkpoint_path d) plaintext)"

definition load_anchor :: "audit_ext \<Rightarrow> path \<Rightarrow> (world, audit_anchor option) host" where
  "load_anchor x d =
     bindR (fs_exists (anchor_path d)) (\<lambda>present.
     if \<not> present then
       bindR (chain_files d) (\<lambda>fs.
       seqR (reject (fs \<noteq> []) (Format ''audit anchor is missing while authenticated logs exist'')) (ret None))
     else bindR (load_protected x (anchor_path d) (ax_anchor_json x)
            (\<lambda>a. aa_schema_version a = AUDIT_SCHEMA_VERSION \<and> \<not> isl (decode_mac (aa_mac a)))
            ''audit anchor is malformed'') (\<lambda>a. ret (Some a)))"

subsection \<open>Verification of the chain\<close>

record chain_state =
  vs_expected :: u64
  vs_previous :: "byte list"
  vs_matched :: bool

record verified_tail =
  vt_sequence :: u64
  vt_mac :: "byte list"

definition verify_line ::
    "audit_ext \<Rightarrow> byte list \<Rightarrow> audit_anchor option \<Rightarrow> chain_state \<Rightarrow> byte list \<Rightarrow> chain_state fcp_result" where
  "verify_line x key anchor st line = (case json_from_slice (ax_entry_json x) line of Inl e \<Rightarrow> Inl e
     | Inr entry \<Rightarrow>
       if ue_schema_version entry \<noteq> AUDIT_SCHEMA_VERSION \<or> ue_sequence entry \<noteq> vs_expected st
       then Inl (Format ''audit sequence regression or gap detected'')
       else if ue_previous_mac entry \<noteq> encode_hex (vs_previous st)
       then Inl (Format ''audit previous_mac mismatch'')
       else case json_to_vec (ax_unsigned_json x) (unsigned_audit_entry.truncate entry) of Inl e \<Rightarrow> Inl e
       | Inr canonical \<Rightarrow> (case decode_mac (ae_mac entry) of Inl e \<Rightarrow> Inl e
       | Inr actual_mac \<Rightarrow> (case verify_mac x key canonical actual_mac of Inl e \<Rightarrow> Inl e
       | Inr _ \<Rightarrow>
         let here = (case anchor of None \<Rightarrow> False | Some a \<Rightarrow> aa_sequence a = ue_sequence entry) in
         if here \<and> (case anchor of None \<Rightarrow> False | Some a \<Rightarrow> aa_mac a \<noteq> ae_mac entry)
         then Inl (Format ''audit anchor MAC mismatch'')
         else case checked_add (vs_expected st) 1 of
           None \<Rightarrow> Inl (Format ''audit sequence overflow'')
         | Some n \<Rightarrow> Inr \<lparr>vs_expected = n, vs_previous = actual_mac, vs_matched = vs_matched st \<or> here\<rparr>)))"

fun verify_lines ::
    "audit_ext \<Rightarrow> byte list \<Rightarrow> audit_anchor option \<Rightarrow> chain_state \<Rightarrow> byte list list \<Rightarrow> chain_state fcp_result" where
  "verify_lines x key anchor st [] = Inr st"
| "verify_lines x key anchor st (l # ls) = (case verify_line x key anchor st l of Inl e \<Rightarrow> Inl e
     | Inr st' \<Rightarrow> verify_lines x key anchor st' ls)"

fun verify_files ::
    "audit_ext \<Rightarrow> byte list \<Rightarrow> audit_anchor option \<Rightarrow> chain_state \<Rightarrow> path list \<Rightarrow> (world, chain_state) host" where
  "verify_files x key anchor st [] = ret st"
| "verify_files x key anchor st (p # ps) =
     bindR (fs_read p) (\<lambda>bytes.
     seqR (reject (bytes \<noteq> [] \<and> last bytes \<noteq> 10) (Format ''audit log has a truncated final line: {}''))
    (bindR (of_result (verify_lines x key anchor st (byte_lines bytes))) (\<lambda>st'.
       verify_files x key anchor st' ps)))"

definition verify_chain ::
    "audit_ext \<Rightarrow> path \<Rightarrow> byte list \<Rightarrow> audit_anchor option \<Rightarrow> audit_checkpoint option \<Rightarrow> (world, verified_tail) host" where
  "verify_chain x d key anchor checkpoint =
     (let expected = (case checkpoint of None \<Rightarrow> 1 | Some k \<Rightarrow> saturating_add (ak_sequence k) 1);
          covered = (case checkpoint of None \<Rightarrow> 0 | Some k \<Rightarrow> ak_sequence k);
          matched = (case anchor of None \<Rightarrow> True | Some a \<Rightarrow> aa_sequence a \<le> covered) in
      bindR (of_result (case checkpoint of None \<Rightarrow> Inr ZERO_MAC | Some k \<Rightarrow> decode_mac (ak_mac k))) (\<lambda>previous.
      bindR (chain_files d) (\<lambda>files.
      bindR (verify_files x key anchor \<lparr>vs_expected = expected, vs_previous = previous, vs_matched = matched\<rparr> files) (\<lambda>st.
      let sequence = vs_expected st - 1 in
      seqR (reject (case anchor of None \<Rightarrow> False | Some a \<Rightarrow> aa_sequence a > sequence \<or> \<not> vs_matched st)
              (Format ''audit log truncation detected by anchor''))
           (ret \<lparr>vt_sequence = sequence, vt_mac = vs_previous st\<rparr>)))))"

subsection \<open>The logger\<close>

definition persist_anchor :: "audit_ext \<Rightarrow> u64 \<Rightarrow> byte list \<Rightarrow> unit audit_m" where
  "persist_anchor x sequence mac =
     bindR (gets (al_directory \<circ> fst)) (\<lambda>d.
     bindR (of_result (json_to_vec (ax_anchor_json x)
              \<lparr>aa_schema_version = AUDIT_SCHEMA_VERSION, aa_sequence = sequence, aa_mac = encode_hex mac\<rparr>)) (\<lambda>plaintext.
       on_snd (persist_protected_file x (anchor_path d) plaintext)))"

text \<open>\<open>OpenOptions::new().create(true).append(true).open\<close>.\<close>

definition fs_open_append :: "path \<Rightarrow> (world, unit) host" where
  "fs_open_append p = io_call no_effect (\<lambda>w. (Inr (), case lookup w p of None \<Rightarrow> put_file p [] w | Some _ \<Rightarrow> w))"

text \<open>The last part of \<open>record_inner\<close>: the line goes to disk before the state and the anchor move.\<close>

definition append_line :: "audit_ext \<Rightarrow> path \<Rightarrow> byte list \<Rightarrow> u64 \<Rightarrow> byte list \<Rightarrow> unit audit_m" where
  "append_line x p line sequence mac =
     seqR (on_snd (fs_open_append p))
    (seqR (on_snd (fs_write_all p (line @ [10])))
    (seqR (on_snd fs_sync)
    (seqR (modify (\<lambda>(l, w). (l\<lparr>al_sequence := sequence, al_mac := mac\<rparr>, w)))
          (persist_anchor x sequence mac))))"

definition record_inner ::
    "audit_ext \<Rightarrow> uuid option \<Rightarrow> string \<Rightarrow> string \<Rightarrow> uuid option \<Rightarrow> string option \<Rightarrow> uuid option \<Rightarrow> unit audit_m" where
  "record_inner x account_group_id event outcome operation_id detail_code audit_event_id =
     bindR (gets fst) (\<lambda>st.
     bindR (ok_or (checked_add (al_sequence st) 1) (Format ''audit sequence overflow'')) (\<lambda>sequence.
     bindR (on_snd unix_ms) (\<lambda>now.
     let unsigned = \<lparr>ue_schema_version = AUDIT_SCHEMA_VERSION, ue_sequence = sequence,
           ue_previous_mac = encode_hex (al_mac st), ue_timestamp_unix_ms = now,
           ue_account_group_id = account_group_id, ue_event = event, ue_outcome = outcome,
           ue_operation_id = operation_id, ue_detail_code = detail_code, ue_audit_event_id = audit_event_id\<rparr> in
     bindR (of_result (json_to_vec (ax_unsigned_json x) unsigned)) (\<lambda>canonical.
     bindR (of_result (calculate_mac x (al_key st) canonical)) (\<lambda>mac.
     let entry = unsigned_audit_entry.extend unsigned (audit_entry.fields (encode_hex mac));
         p = day_path (al_directory st) (now div DAY_MS) in
     bindR (of_result (json_to_vec (ax_entry_json x) entry)) (\<lambda>line.
       append_line x p line sequence mac))))))"

definition audit_record ::
    "audit_ext \<Rightarrow> uuid \<Rightarrow> string \<Rightarrow> string \<Rightarrow> uuid option \<Rightarrow> string option \<Rightarrow> unit audit_m" where
  "audit_record x account_group_id event outcome operation_id detail_code =
     record_inner x (Some account_group_id) event outcome operation_id detail_code None"

definition record_system :: "audit_ext \<Rightarrow> string \<Rightarrow> string \<Rightarrow> string option \<Rightarrow> unit audit_m" where
  "record_system x event outcome detail_code = record_inner x None event outcome None detail_code None"

fun scan_lines :: "audit_ext \<Rightarrow> uuid \<Rightarrow> byte list list \<Rightarrow> bool fcp_result" where
  "scan_lines x i [] = Inr False"
| "scan_lines x i (l # ls) = (case json_from_slice (ax_entry_json x) l of Inl e \<Rightarrow> Inl e
     | Inr entry \<Rightarrow> if ue_audit_event_id entry = Some i then Inr True else scan_lines x i ls)"

fun find_event :: "audit_ext \<Rightarrow> uuid \<Rightarrow> path list \<Rightarrow> (world, bool) host" where
  "find_event x i [] = ret False"
| "find_event x i (p # ps) =
     bindR (fs_read p) (\<lambda>bytes.
     bindR (of_result (scan_lines x i (byte_lines bytes))) (\<lambda>found.
       if found then ret True else find_event x i ps))"

definition record_once ::
    "audit_ext \<Rightarrow> uuid \<Rightarrow> uuid \<Rightarrow> string \<Rightarrow> string \<Rightarrow> uuid option \<Rightarrow> string option \<Rightarrow> bool audit_m" where
  "record_once x audit_event_id account_group_id event outcome operation_id detail_code =
     seqR (reject (is_nil audit_event_id) (Protocol ''audit event id must not be nil''))
    (bindR (gets (al_directory \<circ> fst)) (\<lambda>d.
     bindR (on_snd (chain_files d)) (\<lambda>files.
     bindR (on_snd (find_event x audit_event_id files)) (\<lambda>found.
     if found then ret False
     else seqR (record_inner x (Some account_group_id) event outcome operation_id detail_code (Some audit_event_id))
               (ret True)))))"

definition verify_outbox_bytes :: "audit_ext \<Rightarrow> audit_outbox_entry list \<Rightarrow> byte list \<Rightarrow> unit fcp_result" where
  "verify_outbox_bytes x entries bytes = (case json_from_slice (ax_outbox_json x) bytes of Inl e \<Rightarrow> Inl e
     | Inr verified \<Rightarrow> if length verified \<noteq> length entries
         then Inl (Format ''audit outbox read-back mismatch'') else Inr ())"

definition enqueue_outbox :: "audit_ext \<Rightarrow> audit_outbox_entry \<Rightarrow> unit audit_m" where
  "enqueue_outbox x entry =
     bindR (gets (al_directory \<circ> fst)) (\<lambda>d. on_snd (
       bindR (fs_exists (outbox_path d)) (\<lambda>present.
       bindR (if present then bindR (fs_read (outbox_path d)) (\<lambda>bytes. of_result (json_from_slice (ax_outbox_json x) bytes))
              else ret []) (\<lambda>entries.
       let entries = (if list_ex (\<lambda>v. ao_audit_event_id v = ao_audit_event_id entry) entries
                      then entries else entries @ [entry]) in
       bindR (of_result (json_to_vec (ax_outbox_json x) entries)) (\<lambda>bytes.
         write_verified (outbox_path d) bytes (verify_outbox_bytes x entries))))))"

text \<open>Two attempts, then the outbox; every failure is swallowed.\<close>

definition record_once_deferred ::
    "audit_ext \<Rightarrow> uuid \<Rightarrow> uuid \<Rightarrow> string \<Rightarrow> string \<Rightarrow> uuid option \<Rightarrow> string option \<Rightarrow> unit audit_m" where
  "record_once_deferred x audit_event_id account_group_id event outcome operation_id detail_code =
     (let once = record_once x audit_event_id account_group_id event outcome operation_id detail_code in
      bindR (attempt once) (\<lambda>first. case first of Inr _ \<Rightarrow> ret ()
      | Inl _ \<Rightarrow> bindR (attempt once) (\<lambda>second. case second of Inr _ \<Rightarrow> ret ()
        | Inl _ \<Rightarrow> bindR (attempt (enqueue_outbox x
            \<lparr>ao_audit_event_id = audit_event_id, ao_account_group_id = account_group_id, ao_event = event,
             ao_outcome = outcome, ao_operation_id = operation_id, ao_detail_code = detail_code\<rparr>)) (\<lambda>_. ret ()))))"

fun drain_entries :: "audit_ext \<Rightarrow> audit_outbox_entry list \<Rightarrow> audit_outbox_entry list audit_m" where
  "drain_entries x [] = ret []"
| "drain_entries x (e # es) =
     bindR (attempt (record_once x (ao_audit_event_id e) (ao_account_group_id e) (ao_event e) (ao_outcome e)
                       (ao_operation_id e) (ao_detail_code e))) (\<lambda>r.
     bindR (drain_entries x es) (\<lambda>remaining. ret (case r of Inl _ \<Rightarrow> e # remaining | Inr _ \<Rightarrow> remaining)))"

definition drain_outbox :: "audit_ext \<Rightarrow> unit audit_m" where
  "drain_outbox x =
     bindR (gets (al_directory \<circ> fst)) (\<lambda>d.
     bindR (on_snd (fs_exists (outbox_path d))) (\<lambda>present.
     if \<not> present then ret ()
     else bindR (on_snd (fs_read (outbox_path d))) (\<lambda>bytes.
          bindR (of_result (json_from_slice (ax_outbox_json x) bytes)) (\<lambda>entries.
          bindR (drain_entries x entries) (\<lambda>remaining.
          if remaining = [] then on_snd (fs_remove_file (outbox_path d))
          else bindR (of_result (json_to_vec (ax_outbox_json x) remaining)) (\<lambda>bytes.
               on_snd (write_verified (outbox_path d) bytes (\<lambda>_. Inr ()))))))))"

fun remove_files :: "path list \<Rightarrow> (world, unit) host" where
  "remove_files [] = ret ()"
| "remove_files (p # ps) = seqR (fs_remove_file p) (remove_files ps)"

definition compact_expired_segments :: "audit_ext \<Rightarrow> unit audit_m" where
  "compact_expired_segments x =
     bindR (gets (al_directory \<circ> fst)) (\<lambda>d. on_snd (
       bindR unix_ms (\<lambda>now.
       let cutoff = saturating_sub (now div DAY_MS) AUDIT_RETENTION_DAYS in
       bindR (chain_files d) (\<lambda>files.
       let expired = filter (\<lambda>p. case audit_day p of None \<Rightarrow> False | Some day \<Rightarrow> day < cutoff) files in
       if expired = [] then ret ()
       else
         bindR (fs_read (last expired)) (\<lambda>bytes.
         seqR (reject (byte_lines bytes = []) (Format ''expired audit segment is empty''))
        (bindR (of_result (json_from_slice (ax_entry_json x) (last (byte_lines bytes)))) (\<lambda>entry.
         bindR (ok_or (audit_day (last expired)) (Format ''audit day is malformed'')) (\<lambda>day.
         seqR (persist_checkpoint x d \<lparr>ak_schema_version = AUDIT_SCHEMA_VERSION, ak_sequence = ue_sequence entry,
                 ak_mac = ae_mac entry, ak_archived_through_day = day\<rparr>)
              (remove_files expired)))))))))"

text \<open>Calling a method on a local logger while it is being opened.\<close>

definition with_logger :: "unit audit_m \<Rightarrow> audit_logger \<Rightarrow> (world, audit_logger) host" where
  "with_logger m l = (\<lambda>w. case m (l, w) of (r, (l', w')) \<Rightarrow> (case r of Inl e \<Rightarrow> Inl e | Inr _ \<Rightarrow> Inr l', w'))"

definition open_strict :: "audit_ext \<Rightarrow> path \<Rightarrow> (world, audit_logger) host" where
  "open_strict x d =
     seqR (fs_create_dir_all d)
    (bindR (load_or_create_key x d) (\<lambda>key.
     bindR (load_anchor x d) (\<lambda>anchor.
     bindR (load_checkpoint x d) (\<lambda>checkpoint.
     bindR (verify_chain x d key anchor checkpoint) (\<lambda>verified.
     let logger = \<lparr>al_directory = d, al_key = key, al_sequence = vt_sequence verified, al_mac = vt_mac verified,
                   al_recovered_on_open = False\<rparr> in
     bindR (if (case anchor of None \<Rightarrow> True
                | Some a \<Rightarrow> aa_sequence a \<noteq> vt_sequence verified \<or> aa_mac a \<noteq> encode_hex (vt_mac verified))
            then with_logger (persist_anchor x (vt_sequence verified) (vt_mac verified)) logger
            else ret logger) (\<lambda>logger.
     bindR (with_logger (compact_expired_segments x) logger) (\<lambda>logger.
       with_logger (drain_outbox x) logger)))))))"

text \<open>\<open>fs::rename\<close> of a directory: every file below it moves.\<close>

definition move_below :: "path \<Rightarrow> path \<Rightarrow> path \<Rightarrow> path" where
  "move_below src dst p = (if prefix src p then dst @ drop (length src) p else p)"

definition fs_rename_dir :: "path \<Rightarrow> path \<Rightarrow> (world, unit) host" where
  "fs_rename_dir src dst = io_call no_effect (\<lambda>w.
     (Inr (), w\<lparr>files := map (\<lambda>(p, bs). (move_below src dst p, bs)) (files w),
                dirs := map (move_below src dst) (dirs w)\<rparr>))"

text \<open>The hyphenated text of a UUID, and the name of the quarantined directory.\<close>

definition uuid_text :: "uuid \<Rightarrow> string" where
  "uuid_text u = (let h = encode_hex (uuid_as_bytes u) in
     take 8 h @ ''-'' @ take 4 (drop 8 h) @ ''-'' @ take 4 (drop 12 h) @ ''-'' @ take 4 (drop 16 h)
     @ ''-'' @ drop 20 h)"

fun seg_text :: "seg \<Rightarrow> string" where
  "seg_text (Name s) = s"
| "seg_text (IdName u s) = uuid_text u @ s"

definition quarantine_name :: "seg \<Rightarrow> uuid \<Rightarrow> seg" where
  "quarantine_name name i = Name (seg_text name @ ''-quarantine-'' @ uuid_text i)"

definition audit_open :: "audit_ext \<Rightarrow> path \<Rightarrow> (world, audit_logger) host" where
  "audit_open x d =
     bindR (attempt (open_strict x d)) (\<lambda>r. case r of
       Inr logger \<Rightarrow> ret logger
     | Inl original \<Rightarrow>
         bindR (fs_exists d) (\<lambda>present.
         bindR (if \<not> present then ret True else bindR (fs_read_dir d) (\<lambda>ps. ret (ps = []))) (\<lambda>empty.
         seqR (reject empty original)
        (bindR (ok_or (path_parent d) (Format ''audit directory has no parent'')) (\<lambda>parent.
         bindR new_v4 (\<lambda>i.
         seqR (fs_rename_dir d (parent @ [quarantine_name (last d) i]))
        (bindR (open_strict x d) (\<lambda>logger.
           with_logger (record_system x ''audit_recovery'' ''high_alert'' (Some ''integrity_failure_quarantined''))
             (logger\<lparr>al_recovered_on_open := True\<rparr>)))))))))"

text \<open>\<open>fs::canonicalize\<close> on paths without links: the path itself, if it exists.\<close>

definition fs_canonicalize :: "path \<Rightarrow> (world, path) host" where
  "fs_canonicalize p = io_call no_effect (\<lambda>w. if is_present w p then (Inr p, w) else (Inl (Io NotFound), w))"

fun read_all :: "path list \<Rightarrow> (world, byte list) host" where
  "read_all [] = ret []"
| "read_all (p # ps) = bindR (fs_read p) (\<lambda>bs. bindR (read_all ps) (\<lambda>rest. ret (bs @ rest)))"

definition export_verified :: "audit_ext \<Rightarrow> path \<Rightarrow> path \<Rightarrow> (world, unit) host" where
  "export_verified x d destination =
     bindR (open_strict x d) (\<lambda>logger.
     bindR (ok_or (path_parent destination) (Format ''audit export destination has no parent'')) (\<lambda>parent.
     seqR (fs_create_dir_all parent)
    (bindR (fs_canonicalize d) (\<lambda>audit_root.
     bindR (fs_canonicalize parent) (\<lambda>export_parent.
     bindR (fs_exists destination) (\<lambda>present.
     bindR (if present then attempt (fs_canonicalize destination) else ret (Inl Json)) (\<lambda>target.
     seqR (reject (prefix audit_root export_parent
                   \<or> (case target of Inr t \<Rightarrow> prefix audit_root t | Inl _ \<Rightarrow> False))
             (Format ''audit export destination must be outside the live audit directory''))
    (bindR (chain_files (al_directory logger)) (\<lambda>fs.
     bindR (read_all fs) (\<lambda>output.
       write_verified destination output (\<lambda>candidate. if candidate \<noteq> output
         then Inl (Format ''audit export write verification failed'') else Inr ())))))))))))"

subsection \<open>MACs and their text\<close>

lemma word_or_eq_0: "(a OR b :: byte) = 0 \<longleftrightarrow> a = 0 \<and> b = 0"
  by (auto simp: bit_eq_iff bit_or_iff)

lemma word_xor_eq_0: "(a XOR b :: byte) = 0 \<longleftrightarrow> a = b"
  by (auto simp: bit_eq_iff bit_xor_iff)

lemma fold_difference:
  "fold (\<lambda>(l, r) d. d OR (l XOR r)) ps (d :: byte) = 0 \<longleftrightarrow> d = 0 \<and> (\<forall>(l, r) \<in> set ps. l = r)"
  by (induction ps arbitrary: d) (auto simp: word_or_eq_0 word_xor_eq_0)

lemma zip_all_eq: "length xs = length ys \<Longrightarrow> (\<forall>(l, r) \<in> set (zip xs ys). l = r) \<longleftrightarrow> xs = ys"
  by (induction xs ys rule: list_induct2) auto

text \<open>The constant-time comparison decides equality on MACs of the same length.\<close>

definition mac_of :: "audit_ext \<Rightarrow> byte list \<Rightarrow> byte list \<Rightarrow> byte list" where
  "mac_of x key bytes = ax_sha256 x (mac_pad 0x5c key @ ax_sha256 x (mac_pad 0x36 key @ bytes))"

lemma verify_mac_iff:
  assumes "\<And>bs. length (ax_sha256 x bs) = 32" and "length expected = 32" and "length key \<le> 64"
  shows "verify_mac x key bytes expected = Inr () \<longleftrightarrow> expected = mac_of x key bytes"
proof -
  have "length (mac_of x key bytes) = length expected" using assms by (simp add: mac_of_def)
  then have "(\<forall>(l, r) \<in> set (zip (mac_of x key bytes) expected). l = r) \<longleftrightarrow> mac_of x key bytes = expected"
    by (rule zip_all_eq)
  then show ?thesis using assms(3)
    by (auto simp: verify_mac_def calculate_mac_def fold_difference mac_of_def)
qed

lemma HEX_not_continuation:
  assumes "n < 16"
  shows "\<not> continuation_byte (HEX ! n)" and "HEX ! n \<noteq> CHR ''+''"
  using of_char_HEX [OF assms] assms by (auto simp: continuation_byte_def Let_def split: if_splits)

lemma encode_hex_Cons: "encode_hex (b # bs) = HEX ! (unat b div 16) # HEX ! (unat b mod 16) # encode_hex bs"
  by (simp add: encode_hex_def hex_byte_def)

lemma radix_pair_HEX: "radix_pair (HEX ! (unat b div 16)) (HEX ! (unat b mod 16)) = Some b"
  using HEX_not_continuation(2) [OF hex_byte_pair(1) [of b]] HEX_nibble(2) hex_byte_pair [of b]
  by (simp only: radix_pair_def if_False option.case prod.case)

lemma decode_mac_pairs_encode: "decode_mac_pairs (encode_hex bs) = Inr bs"
proof (induction bs)
  case Nil
  then show ?case by (simp add: encode_hex_def)
next
  case (Cons b bs)
  have cont: "(case encode_hex bs of [] \<Rightarrow> False | e # _ \<Rightarrow> continuation_byte e) = False"
  proof (cases bs)
    case Nil
    then show ?thesis by (simp add: encode_hex_def)
  next
    case (Cons c cs)
    then show ?thesis by (simp only: encode_hex_Cons list.case HEX_not_continuation(1) [OF hex_byte_pair(1)])
  qed
  have "\<not> continuation_byte (HEX ! (unat b div 16))"
    by (rule HEX_not_continuation(1) [OF hex_byte_pair(1)])
  then show ?case
    by (simp only: encode_hex_Cons decode_mac_pairs.simps cont radix_pair_HEX Cons if_False simp_thms option.case map_sum.simps)
qed

lemma decode_mac_iff: "decode_mac v = Inr bs \<longleftrightarrow> length bs = 32 \<and> v = encode_hex bs"
proof
  assume d: "decode_mac v = Inr bs"
  show "length bs = 32 \<and> v = encode_hex bs"
  proof (cases "decode_mac_pairs v")
    case (Inl e)
    with d show ?thesis by (simp add: decode_mac_def split: if_splits)
  next
    case (Inr cs)
    with d have l: "length v = 64" "encode_hex cs = v" "cs = bs" by (simp_all add: decode_mac_def split: if_splits)
    then have "2 * length bs = 64" using length_encode_hex by metis
    with l show ?thesis by simp
  qed
next
  assume "length bs = 32 \<and> v = encode_hex bs"
  then show "decode_mac v = Inr bs" by (simp add: decode_mac_def decode_mac_pairs_encode)
qed

lemma encode_hex_inj: "encode_hex bs = encode_hex cs \<longleftrightarrow> bs = cs"
  by (metis decode_mac_pairs_encode sum.inject(2))

subsection \<open>Authenticated chains\<close>

text \<open>The documented behaviour of the parameters: digests of 32 bytes, codecs that read back what they wrote, and entries that are one line.\<close>

definition audit_sound :: "audit_ext \<Rightarrow> bool" where
  "audit_sound x \<longleftrightarrow> (\<forall>bs. length (ax_sha256 x bs) = 32) \<and>
     (\<forall>u bs. to_vec (ax_unsigned_json x) u = Some bs \<longrightarrow> from_slice (ax_unsigned_json x) bs = Some u) \<and>
     (\<forall>e bs. to_vec (ax_entry_json x) e = Some bs \<longrightarrow>
        from_slice (ax_entry_json x) bs = Some e \<and> bs \<noteq> [] \<and> 10 \<notin> set bs)"

text \<open>
  An entry with sequence number \<open>n\<close> that follows an entry with MAC \<open>p\<close> and has MAC \<open>m\<close> itself.
\<close>

definition entry_ok :: "audit_ext \<Rightarrow> byte list \<Rightarrow> audit_entry \<Rightarrow> nat \<Rightarrow> byte list \<Rightarrow> byte list \<Rightarrow> bool" where
  "entry_ok x key e n p m \<longleftrightarrow> ue_schema_version e = AUDIT_SCHEMA_VERSION \<and> unat (ue_sequence e) = n \<and>
     ue_previous_mac e = encode_hex p \<and> ae_mac e = encode_hex m \<and>
     (\<exists>c. to_vec (ax_unsigned_json x) (unsigned_audit_entry.truncate e) = Some c \<and> m = mac_of x key c)"

text \<open>
  The abstract log: entries that continue a chain whose next number is \<open>n0\<close> and whose last MAC is
  \<open>p0\<close>, up to next number \<open>n\<close> and last MAC \<open>p\<close>.
\<close>

inductive chain :: "audit_ext \<Rightarrow> byte list \<Rightarrow> nat \<Rightarrow> byte list \<Rightarrow> audit_entry list \<Rightarrow> nat \<Rightarrow> byte list \<Rightarrow> bool"
  for x key n0 p0 where
    chain_Nil: "chain x key n0 p0 [] n0 p0"
  | chain_snoc: "chain x key n0 p0 es n p \<Longrightarrow> entry_ok x key e n p m \<Longrightarrow> chain x key n0 p0 (es @ [e]) (Suc n) m"

inductive_cases chain_NilE: "chain x key n0 p0 [] n p"
inductive_cases chain_snocE: "chain x key n0 p0 (es @ [e]) n p"

lemma chain_count: "chain x key n0 p0 es n p \<Longrightarrow> n = n0 + length es"
  by (induction rule: chain.induct) auto

definition anchored :: "audit_anchor option \<Rightarrow> audit_entry list \<Rightarrow> bool" where
  "anchored anchor es \<longleftrightarrow> (\<exists>a e. anchor = Some a \<and> e \<in> set es \<and> aa_sequence a = ue_sequence e \<and> aa_mac a = ae_mac e)"

lemma anchored_append: "anchored a (es @ fs) \<longleftrightarrow> anchored a es \<or> anchored a fs"
  by (auto simp: anchored_def)

lemma verify_line_sound:
  assumes "audit_sound x" and key: "length key \<le> 64" and "verify_line x key anchor st l = Inr st'"
  obtains e where "from_slice (ax_entry_json x) l = Some e"
    "entry_ok x key e (unat (vs_expected st)) (vs_previous st) (vs_previous st')"
    "unat (vs_expected st') = Suc (unat (vs_expected st))"
    "vs_matched st' \<longrightarrow> vs_matched st \<or> anchored anchor [e]"
proof -
  from assms(3) obtain e c m n where l: "from_slice (ax_entry_json x) l = Some e"
      and e: "ue_schema_version e = AUDIT_SCHEMA_VERSION" "ue_sequence e = vs_expected st"
        "ue_previous_mac e = encode_hex (vs_previous st)"
      and c: "to_vec (ax_unsigned_json x) (unsigned_audit_entry.truncate e) = Some c"
      and m: "decode_mac (ae_mac e) = Inr m" "verify_mac x key c m = Inr ()"
      and n: "checked_add (vs_expected st) 1 = Some n"
      and st': "st' = \<lparr>vs_expected = n, vs_previous = m, vs_matched = vs_matched st \<or>
          (case anchor of None \<Rightarrow> False | Some a \<Rightarrow> aa_sequence a = ue_sequence e)\<rparr>"
      and a: "\<not> (case anchor of None \<Rightarrow> False | Some a \<Rightarrow> aa_sequence a = ue_sequence e \<and> aa_mac a \<noteq> ae_mac e)"
    by (auto simp: verify_line_def json_from_slice_def json_to_vec_def Let_def split: option.splits sum.splits if_splits)
  have mac: "length m = 32" "ae_mac e = encode_hex m" using m(1) by (simp_all add: decode_mac_iff)
  have "m = mac_of x key c" using verify_mac_iff [of x m key c] assms(1) key mac(1) m(2) by (simp add: audit_sound_def)
  then have "entry_ok x key e (unat (vs_expected st)) (vs_previous st) (vs_previous st')"
    using e c mac by (auto simp: entry_ok_def st')
  moreover have "unat (vs_expected st') = Suc (unat (vs_expected st))"
    using checked_add_unat [OF n] by (simp add: st')
  moreover have "vs_matched st' \<longrightarrow> vs_matched st \<or> anchored anchor [e]"
    using a by (auto simp: st' anchored_def split: option.splits)
  ultimately show thesis using l that by blast
qed

lemma verify_lines_sound:
  assumes "audit_sound x" and "length key \<le> 64"
  shows "verify_lines x key anchor st ls = Inr st' \<Longrightarrow>
     chain x key n0 p0 es (unat (vs_expected st)) (vs_previous st) \<Longrightarrow>
     \<exists>fs. map (from_slice (ax_entry_json x)) ls = map Some fs \<and>
       chain x key n0 p0 (es @ fs) (unat (vs_expected st')) (vs_previous st') \<and>
       (vs_matched st' \<longrightarrow> vs_matched st \<or> anchored anchor fs)"
proof (induction ls arbitrary: st es)
  case Nil
  then show ?case by simp
next
  case (Cons l ls)
  from Cons.prems(1) obtain s where s: "verify_line x key anchor st l = Inr s" "verify_lines x key anchor s ls = Inr st'"
    by (auto split: sum.splits)
  from verify_line_sound [OF assms s(1)] obtain e where e: "from_slice (ax_entry_json x) l = Some e"
      "entry_ok x key e (unat (vs_expected st)) (vs_previous st) (vs_previous s)"
      "unat (vs_expected s) = Suc (unat (vs_expected st))" "vs_matched s \<longrightarrow> vs_matched st \<or> anchored anchor [e]" .
  have "chain x key n0 p0 (es @ [e]) (unat (vs_expected s)) (vs_previous s)"
    using chain_snoc [OF Cons.prems(2) e(2)] e(3) by simp
  from Cons.IH [OF s(2) this] obtain fs where "map (from_slice (ax_entry_json x)) ls = map Some fs"
      "chain x key n0 p0 (es @ e # fs) (unat (vs_expected st')) (vs_previous st')"
      "vs_matched st' \<longrightarrow> vs_matched s \<or> anchored anchor fs" by auto
  then show ?case using e(1,4) anchored_append [of anchor "[e]" fs] by (intro exI [of _ "e # fs"]) auto
qed

text \<open>The log as it is on disk.\<close>

definition chain_list :: "path \<Rightarrow> world \<Rightarrow> path list" where
  "chain_list d w = sort_key chain_key (filter is_chain_file (filter (in_dir d) (remdups (map fst (files w)))))"

definition log_lines :: "path \<Rightarrow> world \<Rightarrow> byte list list" where
  "log_lines d w = concat (map (\<lambda>p. byte_lines (the (lookup w p))) (chain_list d w))"

definition log_complete :: "path \<Rightarrow> world \<Rightarrow> bool" where
  "log_complete d w \<longleftrightarrow> (\<forall>p \<in> set (chain_list d w). the (lookup w p) \<noteq> [] \<longrightarrow> last (the (lookup w p)) = 10)"

definition log_chain :: "audit_ext \<Rightarrow> byte list \<Rightarrow> nat \<Rightarrow> byte list \<Rightarrow> path \<Rightarrow> world \<Rightarrow> audit_entry list \<Rightarrow> nat \<Rightarrow> byte list \<Rightarrow> bool" where
  "log_chain x key n0 p0 d w es n p \<longleftrightarrow> log_complete d w \<and>
     map (from_slice (ax_entry_json x)) (log_lines d w) = map Some es \<and> chain x key n0 p0 es n p"

lemma verify_lines_append:
  "verify_lines x key anchor st (ls @ ms) = (case verify_lines x key anchor st ls of Inl e \<Rightarrow> Inl e
     | Inr st' \<Rightarrow> verify_lines x key anchor st' ms)"
  by (induction ls arbitrary: st) (auto split: sum.split)

lemma wp_chain_files:
  assumes "\<And>w'. lookup w' = lookup w \<Longrightarrow> files w' = files w \<Longrightarrow> Q (chain_list d w) w'" and "\<And>e w'. E e w'"
  shows "wp (chain_files d) Q E w"
  using assms by (auto simp: chain_files_def wp_def fs_read_dir_def io_call_def monad_defs chain_list_def advance_def lookup_def fun_eq_iff split: option.split)

lemma wp_verify_files:
  "(\<forall>p \<in> set ps. lookup w p \<noteq> None) \<Longrightarrow>
   wp (verify_files x key anchor st ps) (\<lambda>st' w'.
     verify_lines x key anchor st (concat (map (\<lambda>p. byte_lines (the (lookup w p))) ps)) = Inr st' \<and>
     (\<forall>p \<in> set ps. the (lookup w p) \<noteq> [] \<longrightarrow> last (the (lookup w p)) = 10)) (\<lambda>_ _. True) w"
proof (induction ps arbitrary: st w)
  case Nil
  then show ?case by (simp add: wp_simps)
next
  case (Cons p ps)
  from Cons.prems obtain bs where bs: "lookup w p = Some bs" by auto
  have IH: "wp (verify_files x key anchor s ps) (\<lambda>st' w'.
     verify_lines x key anchor s (concat (map (\<lambda>p. byte_lines (the (lookup w p))) ps)) = Inr st' \<and>
     (\<forall>p \<in> set ps. the (lookup w p) \<noteq> [] \<longrightarrow> last (the (lookup w p)) = 10)) (\<lambda>_ _. True) (advance w)" for s
    using Cons.IH [of "advance w" s] Cons.prems by simp
  show ?case
    by (auto simp: wp_simps bs verify_lines_append split: option.split sum.split intro!: wp_mono [OF IH])
qed

subsection \<open>What a verified chain means\<close>

definition start_number :: "audit_checkpoint option \<Rightarrow> nat" where
  "start_number cp = (case cp of None \<Rightarrow> 1 | Some k \<Rightarrow> unat (saturating_add (ak_sequence k) 1))"

definition start_mac :: "audit_checkpoint option \<Rightarrow> byte list \<Rightarrow> bool" where
  "start_mac cp p0 \<longleftrightarrow> (case cp of None \<Rightarrow> p0 = ZERO_MAC | Some k \<Rightarrow> ak_mac k = encode_hex p0)"

definition covered_through :: "audit_checkpoint option \<Rightarrow> u64" where
  "covered_through cp = (case cp of None \<Rightarrow> 0 | Some k \<Rightarrow> ak_sequence k)"

definition anchor_respected :: "audit_anchor option \<Rightarrow> audit_checkpoint option \<Rightarrow> audit_entry list \<Rightarrow> u64 \<Rightarrow> bool" where
  "anchor_respected anchor cp es sequence \<longleftrightarrow> (case anchor of None \<Rightarrow> True
     | Some a \<Rightarrow> aa_sequence a \<le> sequence \<and> (aa_sequence a \<le> covered_through cp \<or> anchored anchor es))"

lemma start_number_pos: "1 \<le> start_number cp"
proof (cases cp)
  case (Some k)
  have "saturating_add (ak_sequence k) 1 \<noteq> (0 :: u64)"
  proof (cases "checked_add (ak_sequence k) 1")
    case None
    then show ?thesis by (simp add: saturating_add_def)
  next
    case (Some n)
    then show ?thesis using checked_add_unat [OF Some] by (auto simp: saturating_add_def)
  qed
  then show ?thesis using Some by (simp add: start_number_def Suc_le_eq unat_gt_0)
qed (simp add: start_number_def)

lemma chain_list_present: "p \<in> set (chain_list d w) \<Longrightarrow> lookup w p \<noteq> None"
  by (auto simp: chain_list_def lookup_def map_of_eq_None_iff)

lemma wp_verify_chain:
  assumes "audit_sound x" and "length key \<le> 64"
  shows "wp (verify_chain x d key anchor cp) (\<lambda>t _. \<exists>p0 es. start_mac cp p0 \<and>
     log_chain x key (start_number cp) p0 d w es (Suc (unat (vt_sequence t))) (vt_mac t) \<and>
     anchor_respected anchor cp es (vt_sequence t)) (\<lambda>_ _. True) w"
proof -
  have body: "wp (verify_files x key anchor \<lparr>vs_expected = n, vs_previous = p0, vs_matched = m\<rparr> (chain_list d w))
      (\<lambda>st w'. (case anchor of None \<Rightarrow> False | Some a \<Rightarrow> vs_expected st - 1 < aa_sequence a \<or> \<not> vs_matched st) \<or>
         (\<exists>es. log_chain x key (start_number cp) p0 d w es (Suc (unat (vs_expected st - 1))) (vs_previous st) \<and>
            anchor_respected anchor cp es (vs_expected st - 1))) (\<lambda>_ _. True) w'"
    if w': "lookup w' = lookup w" and n: "unat n = start_number cp"
      and m: "m = (case anchor of None \<Rightarrow> True | Some a \<Rightarrow> aa_sequence a \<le> covered_through cp)" for n p0 m w'
  proof (rule wp_mono [OF wp_verify_files], goal_cases)
    case 1
    then show ?case using chain_list_present by (simp add: w')
  next
    case (2 st v)
    let ?st = "\<lparr>vs_expected = n, vs_previous = p0, vs_matched = m\<rparr>"
    have lines: "verify_lines x key anchor ?st (log_lines d w) = Inr st" and comp: "log_complete d w"
      using 2 by (auto simp: log_lines_def log_complete_def w')
    from verify_lines_sound [OF assms lines, of "start_number cp" p0 "[]"]
    obtain es where es: "map (from_slice (ax_entry_json x)) (log_lines d w) = map Some es"
        "chain x key (start_number cp) p0 es (unat (vs_expected st)) (vs_previous st)" "vs_matched st \<longrightarrow> m \<or> anchored anchor es"
      using n chain_Nil by auto
    have "1 \<le> unat (vs_expected st)" using chain_count [OF es(2)] start_number_pos [of cp] by simp
    then have "Suc (unat (vs_expected st - 1)) = unat (vs_expected st)"
      by (simp add: unat_sub word_le_nat_alt)
    then have "log_chain x key (start_number cp) p0 d w es (Suc (unat (vs_expected st - 1))) (vs_previous st)"
      using es comp by (simp add: log_chain_def)
    moreover have "anchor_respected anchor cp es (vs_expected st - 1)"
      if "\<not> (case anchor of None \<Rightarrow> False | Some a \<Rightarrow> vs_expected st - 1 < aa_sequence a \<or> \<not> vs_matched st)"
      using that es(3) m by (auto simp: anchor_respected_def split: option.splits)
    ultimately show ?case by blast
  qed simp
  have go: "wp (bindR (chain_files d) (\<lambda>files. bindR (verify_files x key anchor \<lparr>vs_expected = n, vs_previous = p0, vs_matched = m\<rparr> files) (\<lambda>st.
        let sequence = vs_expected st - 1 in
        seqR (reject (case anchor of None \<Rightarrow> False | Some a \<Rightarrow> aa_sequence a > sequence \<or> \<not> vs_matched st) err)
             (ret \<lparr>vt_sequence = sequence, vt_mac = vs_previous st\<rparr>))))
      (\<lambda>t _. \<exists>p0 es. start_mac cp p0 \<and> log_chain x key (start_number cp) p0 d w es (Suc (unat (vt_sequence t))) (vt_mac t) \<and>
         anchor_respected anchor cp es (vt_sequence t)) (\<lambda>_ _. True) w"
    if n: "unat n = start_number cp" and p0: "start_mac cp p0"
      and m: "m = (case anchor of None \<Rightarrow> True | Some a \<Rightarrow> aa_sequence a \<le> covered_through cp)" for n p0 m err
    unfolding wp_bindR
  proof (rule wp_chain_files)
    fix w' assume "lookup w' = lookup w"
    from body [OF this n m]
    show "wp (verify_files x key anchor \<lparr>vs_expected = n, vs_previous = p0, vs_matched = m\<rparr> (chain_list d w))
       (\<lambda>st. wp (let sequence = vs_expected st - 1 in
          seqR (reject (case anchor of None \<Rightarrow> False | Some a \<Rightarrow> aa_sequence a > sequence \<or> \<not> vs_matched st) err)
             (ret \<lparr>vt_sequence = sequence, vt_mac = vs_previous st\<rparr>))
         (\<lambda>t _. \<exists>p0 es. start_mac cp p0 \<and> log_chain x key (start_number cp) p0 d w es (Suc (unat (vt_sequence t))) (vt_mac t) \<and>
            anchor_respected anchor cp es (vt_sequence t)) (\<lambda>_ _. True)) (\<lambda>_ _. True) w'"
      by (rule wp_mono) (use p0 in \<open>auto simp: wp_simps Let_def\<close>)
  qed simp
  show ?thesis
  proof (cases cp)
    case None
    then show ?thesis using go [OF _ _ refl, of 1 ZERO_MAC] unfolding None covered_through_def option.case
      by (simp add: verify_chain_def wp_bindR [of "of_result _"] wp_of_result start_number_def start_mac_def covered_through_def)
  next
    case (Some k)
    show ?thesis
    proof (cases "decode_mac (ak_mac k)")
      case (Inl e)
      with Some show ?thesis by (simp add: verify_chain_def wp_simps)
    next
      case (Inr p0)
      then have "ak_mac k = encode_hex p0" by (simp add: decode_mac_iff)
      then show ?thesis using Inr go [OF _ _ refl, of "saturating_add (ak_sequence k) 1" p0]
        unfolding Some covered_through_def option.case
        by (simp add: verify_chain_def wp_bindR [of "of_result _"] wp_of_result start_number_def start_mac_def covered_through_def)
    qed
  qed
qed

definition canonicals :: "audit_ext \<Rightarrow> audit_entry list \<Rightarrow> byte list set" where
  "canonicals x es = {c. \<exists>e \<in> set es. to_vec (ax_unsigned_json x) (unsigned_audit_entry.truncate e) = Some c}"

lemma entry_eqI: "unsigned_audit_entry.truncate e = unsigned_audit_entry.truncate e' \<Longrightarrow> ae_mac e = ae_mac e' \<Longrightarrow> e = (e' :: audit_entry)"
  by (cases e, cases e') (simp add: unsigned_audit_entry.defs)

lemma chain_unique:
  assumes "audit_sound x"
  shows "chain x key n0 p0 es n p \<Longrightarrow> chain x key n0 p0 es' n p \<Longrightarrow>
     inj_on (mac_of x key) (canonicals x es \<union> canonicals x es') \<Longrightarrow> es = es'"
proof (induction es arbitrary: es' n p rule: rev_induct)
  case Nil
  then show ?case using chain_count [OF Nil(1)] chain_count [OF Nil(2)] by simp
next
  case (snoc e es)
  have "length es' = Suc (length es)" using chain_count [OF snoc(2)] chain_count [OF snoc(3)] by simp
  then obtain fs f where es': "es' = fs @ [f]" by (metis length_Suc_conv_rev)
  from snoc(2) obtain k q where e: "n = Suc k" "chain x key n0 p0 es k q" "entry_ok x key e k q p" by (elim chain_snocE) auto
  from snoc(3) obtain q' where f: "chain x key n0 p0 fs k q'" "entry_ok x key f k q' p"
    unfolding es' e(1) by (elim chain_snocE) auto
  from e(3) f(2) obtain c d where c: "to_vec (ax_unsigned_json x) (unsigned_audit_entry.truncate e) = Some c" "p = mac_of x key c"
      and d: "to_vec (ax_unsigned_json x) (unsigned_audit_entry.truncate f) = Some d" "p = mac_of x key d"
    by (auto simp: entry_ok_def)
  have "c = d" by (rule inj_onD [OF snoc(4)]) (use c d es' in \<open>auto simp: canonicals_def\<close>)
  then have u: "unsigned_audit_entry.truncate e = unsigned_audit_entry.truncate f"
    using assms c(1) d(1) by (metis audit_sound_def option.inject)
  then have "ue_previous_mac e = ue_previous_mac f" by (cases e, cases f) (simp add: unsigned_audit_entry.defs)
  then have "q = q'" using e(3) f(2) by (simp add: entry_ok_def encode_hex_inj)
  moreover have "inj_on (mac_of x key) (canonicals x es \<union> canonicals x fs)"
    by (rule inj_on_subset [OF snoc(4)]) (auto simp: canonicals_def es')
  ultimately have "es = fs" using snoc(1) [OF e(2)] f(1) by blast
  moreover have "e = f" using u e(3) f(2) by (intro entry_eqI) (simp_all add: entry_ok_def)
  ultimately show ?case by (simp add: es')
qed

subsection \<open>The day files\<close>

lemma decimal_value_snoc: "decimal_value a (cs @ [c]) = 10 * decimal_value a cs + (of_char c - 48)"
  by (induction cs arbitrary: a) simp_all

lemma decimal_digits: "decimal n \<noteq> [] \<and> list_all is_ascii_digit (decimal n) \<and> decimal_value 0 (decimal n) = n"
proof (induction n rule: decimal.induct)
  case (1 n)
  have d: "is_ascii_digit (digit_char k)" "(of_char (digit_char k) :: nat) = 48 + k" if "k < 10" for k
    using that by (simp_all add: digit_char_def is_ascii_digit_def)
  show ?case
  proof (cases "n < 10")
    case True
    then show ?thesis using d by (simp add: decimal.simps)
  next
    case False
    then show ?thesis using 1 d [of "n mod 10"] by (subst (1 2 3) decimal.simps) (simp add: decimal_value_snoc)
  qed
qed

lemma parse_decimal: "parse_u64 (decimal (unat k)) = Some (k :: u64)"
proof -
  note d = decimal_digits [of "unat k"]
  obtain c cs where c: "decimal (unat k) = c # cs" using d by (cases "decimal (unat k)") auto
  then have "is_ascii_digit c" using d by simp
  then have "c \<noteq> CHR ''+''" by (auto simp: is_ascii_digit_def)
  moreover have "unat k < 2 ^ 64" using unat_lt2p [of k] by simp
  ultimately show ?thesis using d by (auto simp: parse_u64_def c Let_def)
qed

lemma audit_day_day_path [simp]: "audit_day (day_path d k) = Some k"
  by (simp add: audit_day_def day_path_def file_name_def strip_prefix_def strip_suffix_def parse_decimal suffix_def)

lemma chain_key_day_path [simp]: "chain_key (day_path d k) = k"
  by (simp add: chain_key_def)

lemma day_path_chain [simp]: "is_chain_file (day_path d k)" "in_dir d (day_path d k)"
  by (simp_all add: is_chain_file_def day_path_def file_name_def in_dir_def suffix_def)

lemma chain_list_set: "q \<in> set (chain_list d w) \<longleftrightarrow> is_chain_file q \<and> in_dir d q \<and> lookup w q \<noteq> None"
  by (auto simp: chain_list_def lookup_def map_of_eq_None_iff)

text \<open>Every chain file is one the logger names; then the list is determined by the files.\<close>

definition own_days :: "path \<Rightarrow> world \<Rightarrow> bool" where
  "own_days d w \<longleftrightarrow> (\<forall>q \<in> set (chain_list d w). \<exists>k. q = day_path d k)"

lemma own_days_inj: "own_days d w \<Longrightarrow> inj_on chain_key (set (chain_list d w))"
  by (auto simp: own_days_def inj_on_def) (metis chain_key_day_path)

lemma chain_list_sorted: "sorted (map chain_key (chain_list d w))" "distinct (chain_list d w)"
  by (simp_all add: chain_list_def)

lemma chain_list_unique:
  assumes "sorted (map chain_key qs)" "distinct qs" "set qs = set (chain_list d w)" "own_days d w"
  shows "chain_list d w = qs"
proof -
  have i: "inj_on chain_key (set (chain_list d w))" by (rule own_days_inj [OF assms(4)])
  then have j: "inj_on chain_key (set qs)" by (simp only: assms(3))
  have "distinct (map chain_key (chain_list d w))" "distinct (map chain_key qs)"
    using i j assms(2) chain_list_sorted(2) [of d w] by (simp_all only: distinct_map simp_thms)
  moreover have "set (map chain_key (chain_list d w)) = set (map chain_key qs)" by (simp only: set_map assms(3))
  ultimately have "map chain_key (chain_list d w) = map chain_key qs"
    by (intro sorted_distinct_set_unique chain_list_sorted(1) assms(1))
  moreover have "inj_on chain_key (set (chain_list d w) \<union> set qs)" using i by (simp only: assms(3) Un_absorb)
  ultimately show ?thesis by (rule inj_on_map_eq_map [THEN iffD1, rotated])
qed

text \<open>The list before and after a write to the file of the latest day.\<close>

lemma chain_list_latest:
  assumes own: "own_days d w" and late: "\<forall>q \<in> set (chain_list d w). q \<noteq> day_path d k \<longrightarrow> chain_key q < k"
    and other: "\<And>q. q \<noteq> day_path d k \<Longrightarrow> is_chain_file q \<Longrightarrow> lookup w' q = lookup w q"
    and new: "lookup w' (day_path d k) \<noteq> None"
  defines "rest \<equiv> filter (\<lambda>q. q \<noteq> day_path d k) (chain_list d w)"
  shows "chain_list d w' = rest @ [day_path d k]" and "own_days d w'"
    and "chain_list d w = (if lookup w (day_path d k) = None then rest else rest @ [day_path d k])"
proof -
  let ?p = "day_path d k"
  have set': "q \<in> set (chain_list d w') \<longleftrightarrow> q = ?p \<or> q \<in> set (chain_list d w)" for q
    using other new by (cases "q = ?p") (auto simp: chain_list_set)
  show own': "own_days d w'" using own set' by (auto simp: own_days_def)
  have rest: "sorted (map chain_key rest)" "distinct rest" "?p \<notin> set rest" "\<forall>q \<in> set rest. chain_key q < k"
    using late chain_list_sorted [of d w] by (auto simp: rest_def sorted_filter)
  then have snoc: "sorted (map chain_key (rest @ [?p]))" "distinct (rest @ [?p])"
    by (auto simp: sorted_append less_imp_le)
  show "chain_list d w' = rest @ [?p]"
    by (rule chain_list_unique [OF snoc _ own']) (use set' in \<open>auto simp: rest_def\<close>)
  show "chain_list d w = (if lookup w ?p = None then rest else rest @ [?p])"
  proof (cases "lookup w ?p = None")
    case True
    then have "rest = chain_list d w" by (auto simp: rest_def chain_list_set filter_id_conv)
    with True show ?thesis by simp
  next
    case False
    then have "chain_list d w = rest @ [?p]"
      by (intro chain_list_unique [OF snoc _ own]) (auto simp: rest_def chain_list_set)
    with False show ?thesis by simp
  qed
qed

subsection \<open>Lines\<close>

lemma split_lines_not_Nil [simp]: "split_lines bs \<noteq> []"
  by (cases bs) (auto split: list.split)

lemma split_lines_append: "split_lines (xs @ 10 # ys) = split_lines xs @ split_lines ys"
  by (induction xs) (auto split: list.split)

lemma byte_lines_append: "byte_lines (xs @ 10 # ys) = byte_lines xs @ byte_lines ys"
  by (simp add: byte_lines_def split_lines_append)

lemma byte_lines_Nil [simp]: "byte_lines [] = []"
  by (simp add: byte_lines_def)

lemma split_lines_line: "10 \<notin> set l \<Longrightarrow> split_lines l = [l]"
  by (induction l) auto

lemma byte_lines_snoc:
  assumes "bs \<noteq> [] \<longrightarrow> last bs = 10" and "10 \<notin> set l" and "l \<noteq> []"
  shows "byte_lines (bs @ l @ [10]) = byte_lines bs @ [l]"
proof -
  have l: "byte_lines (l @ [10]) = [l]"
    using assms(2,3) byte_lines_append [of l "[]"] by (simp add: byte_lines_def split_lines_line)
  show ?thesis
  proof (cases "bs = []")
    case False
    then obtain us where "bs = us @ [10]" using assms(1) by (metis append_butlast_last_id)
    then show ?thesis using l byte_lines_append [of us "l @ [10]"] byte_lines_append [of us "[]"] by simp
  qed (simp add: l)
qed

subsection \<open>Appending\<close>

lemma anchor_not_chain:
  "\<not> is_chain_file (anchor_path d)" "temporary_path (anchor_path d) = Inr q \<Longrightarrow> \<not> is_chain_file q"
  by (auto simp: is_chain_file_def anchor_path_def file_name_def DAY_PREFIX_def temporary_path_def with_file_name_def)

lemma wp_persist_protected:
  "wp (persist_protected_file x p plaintext)
     (\<lambda>_ w'. (\<exists>bs. lookup w' p = Some bs \<and> ls_unprotect (ax_secret x) bs = Inr plaintext) \<and>
        (\<forall>q. q \<noteq> p \<and> \<not> write_scratch p q \<longrightarrow> lookup w' q = lookup w q))
     (\<lambda>_ w'. \<forall>q. q \<noteq> p \<and> \<not> write_scratch p q \<longrightarrow> lookup w' q = lookup w q) w"
proof (cases "ls_protect (ax_secret x) plaintext")
  case (Inl e)
  then show ?thesis by (simp add: persist_protected_file_def wp_simps)
next
  case (Inr bs)
  have "wp (write_verified_durable p bs (verify_protected x plaintext))
     (\<lambda>_ w'. (\<exists>bs. lookup w' p = Some bs \<and> ls_unprotect (ax_secret x) bs = Inr plaintext) \<and>
        (\<forall>q. q \<noteq> p \<and> \<not> write_scratch p q \<longrightarrow> lookup w' q = lookup w q))
     (\<lambda>_ w'. \<forall>q. q \<noteq> p \<and> \<not> write_scratch p q \<longrightarrow> lookup w' q = lookup w q) w"
    by (rule wp_runI)
      (auto dest: dw.committed dw.frame simp: verify_protected_def split: sum.splits if_splits)
  with Inr show ?thesis by (simp add: persist_protected_file_def wp_simps)
qed

lemma wp_open_append [wp_simps]:
  "wp (fs_open_append p) Q E w = (case io_fault w (tick w) of Some k \<Rightarrow> E (Io OtherIo) (advance w)
     | None \<Rightarrow> Q () (case lookup w p of None \<Rightarrow> put_file p [] (advance w) | Some _ \<Rightarrow> advance w))"
  by (simp add: wp_def fs_open_append_def io_call_def split: option.split)

definition old_bytes :: "world \<Rightarrow> path \<Rightarrow> byte list" where
  "old_bytes w p = (case lookup w p of None \<Rightarrow> [] | Some bs \<Rightarrow> bs)"

lemma truncate_extend:
  fixes u :: unsigned_audit_entry
  shows "unsigned_audit_entry.truncate (unsigned_audit_entry.extend u (audit_entry.fields m)) = u"
    and "ae_mac (unsigned_audit_entry.extend u (audit_entry.fields m)) = m"
  by (cases u, simp add: unsigned_audit_entry.defs audit_entry.defs)+

text \<open>Writing the line and the anchor touches no other chain file.\<close>

lemma wp_append_line:
  assumes p: "is_chain_file p"
  shows "wp (append_line x p line n mac)
     (\<lambda>_ t. fst t = l\<lparr>al_sequence := n, al_mac := mac\<rparr> \<and> lookup (snd t) p = Some (old_bytes w p @ line @ [10]) \<and>
        (\<forall>q. is_chain_file q \<and> q \<noteq> p \<longrightarrow> lookup (snd t) q = lookup w q))
     (\<lambda>_ _. True) (l, w)"
proof -
  let ?a = "anchor_path (al_directory l)"
  have chain_neq: "q \<noteq> ?a \<and> \<not> write_scratch ?a q" if "is_chain_file q" for q
    using that anchor_not_chain [of "al_directory l"] by (auto simp: write_scratch_def)
  have finish: "wp (persist_anchor x n mac) (\<lambda>_ t. fst t = k \<and>
        (\<forall>q. is_chain_file q \<longrightarrow> lookup (snd t) q = lookup v q)) (\<lambda>_ _. True) (k, v)"
    if "al_directory k = al_directory l" for k v
    using that chain_neq
    by (auto simp: persist_anchor_def wp_simps split: sum.split intro!: wp_mono [OF wp_persist_protected])
  show ?thesis using p
    by (auto simp: append_line_def wp_seqR wp_on_snd wp_open_append wp_fs_write_all wp_fs_sync wp_modify old_bytes_def
        split: option.split intro!: wp_mono [OF finish])
qed

text \<open>The unsigned part of the entry a call adds.\<close>

definition unsigned_of ::
    "audit_logger \<Rightarrow> u64 \<Rightarrow> u64 \<Rightarrow> uuid option \<Rightarrow> string \<Rightarrow> string \<Rightarrow> uuid option \<Rightarrow> string option \<Rightarrow> uuid option \<Rightarrow> unsigned_audit_entry" where
  "unsigned_of l n now g ev oc op dc i =
     \<lparr>ue_schema_version = AUDIT_SCHEMA_VERSION, ue_sequence = n, ue_previous_mac = encode_hex (al_mac l),
      ue_timestamp_unix_ms = now, ue_account_group_id = g, ue_event = ev, ue_outcome = oc,
      ue_operation_id = op, ue_detail_code = dc, ue_audit_event_id = i\<rparr>"

text \<open>A successful call appended this entry to the file of the day, and nothing else in the log changed.\<close>

definition entry_added :: "audit_ext \<Rightarrow> unsigned_audit_entry \<Rightarrow> audit_logger \<Rightarrow> world \<Rightarrow> audit_entry \<Rightarrow> audit_logger \<times> world \<Rightarrow> bool" where
  "entry_added x u l w e t \<longleftrightarrow> (\<exists>c line. let mac = mac_of x (al_key l) c; p = day_path (al_directory l) (ue_timestamp_unix_ms u div DAY_MS) in
     checked_add (al_sequence l) 1 = Some (ue_sequence u) \<and> to_vec (ax_unsigned_json x) u = Some c \<and>
     unsigned_audit_entry.truncate e = u \<and> ae_mac e = encode_hex mac \<and> to_vec (ax_entry_json x) e = Some line \<and>
     fst t = l\<lparr>al_sequence := ue_sequence u, al_mac := mac\<rparr> \<and> lookup (snd t) p = Some (old_bytes w p @ line @ [10]) \<and>
     (\<forall>q. is_chain_file q \<and> q \<noteq> p \<longrightarrow> lookup (snd t) q = lookup w q))"

lemma entry_addedI:
  assumes "checked_add (al_sequence l) 1 = Some (ue_sequence u)" and "to_vec (ax_unsigned_json x) u = Some c"
    and "unsigned_audit_entry.truncate e = u" and "ae_mac e = encode_hex (mac_of x (al_key l) c)"
    and "to_vec (ax_entry_json x) e = Some line" and "fst t = l\<lparr>al_sequence := ue_sequence u, al_mac := mac_of x (al_key l) c\<rparr>"
    and "p = day_path (al_directory l) (ue_timestamp_unix_ms u div DAY_MS)"
    and "lookup (snd t) p = Some (old_bytes w p @ line @ [10])"
    and "\<forall>q. is_chain_file q \<and> q \<noteq> p \<longrightarrow> lookup (snd t) q = lookup w q"
  shows "entry_added x u l w e t"
  unfolding entry_added_def Let_def using assms by (intro exI [of _ c] exI [of _ line]) simp

lemma wp_record_inner:
  "wp (record_inner x g ev oc op dc i)
     (\<lambda>_ t. \<exists>n now e. clock_ms w (tick w) = Some now \<and> entry_added x (unsigned_of l n now g ev oc op dc i) l w e t)
     (\<lambda>_ _. True) (l, w)"
proof (cases "checked_add (al_sequence l) 1")
  case None
  then show ?thesis by (simp add: record_inner_def wp_simps)
next
  case seq: (Some n)
  show ?thesis
  proof (cases "clock_ms w (tick w)")
    case None
    then show ?thesis using seq by (simp add: record_inner_def wp_bindR wp_gets wp_ok_or wp_on_snd wp_unix_ms)
  next
    case now: (Some now)
    let ?u = "unsigned_of l n now g ev oc op dc i"
    let ?e = "\<lambda>mac. unsigned_audit_entry.extend ?u (audit_entry.fields (encode_hex mac))"
    let ?p = "day_path (al_directory l) (now div DAY_MS)"
    have day: "ue_timestamp_unix_ms ?u = now" "ue_sequence ?u = n" by (simp_all add: unsigned_of_def)
    have old: "old_bytes (advance w) ?p = old_bytes w ?p" by (simp add: old_bytes_def)
    have main: "wp (append_line x ?p line n mac)
        (\<lambda>_ t. \<exists>n now e. clock_ms w (tick w) = Some now \<and> entry_added x (unsigned_of l n now g ev oc op dc i) l w e t)
        (\<lambda>_ _. True) (l, advance w)"
      if "to_vec (ax_unsigned_json x) ?u = Some c" "mac = mac_of x (al_key l) c" "to_vec (ax_entry_json x) (?e mac) = Some line"
      for c mac line
      by (rule wp_mono [OF wp_append_line [OF day_path_chain(1)]])
        (use that seq now in \<open>auto simp: day old truncate_extend
           intro!: exI [of _ n] exI [of _ "?e mac"] entry_addedI [where c = c and line = line]\<close>)
    show ?thesis
      using seq now main [OF _ refl] unfolding record_inner_def unsigned_of_def [symmetric]
      by (auto simp: wp_bindR wp_gets wp_ok_or wp_on_snd wp_unix_ms wp_of_result json_to_vec_def calculate_mac_def
          mac_of_def Let_def unsigned_of_def [symmetric] split: option.split)
  qed
qed

lemma log_chain_snoc:
  assumes sound: "audit_sound x" and own: "own_days d w"
    and log: "log_chain x key n0 p0 d w es n p" and d: "d = al_directory l" "key = al_key l"
    and tail: "n = Suc (unat (al_sequence l))" "p = al_mac l"
    and late: "\<forall>q \<in> set (chain_list d w). q \<noteq> day_path d (ue_timestamp_unix_ms u div DAY_MS) \<longrightarrow>
       chain_key q < ue_timestamp_unix_ms u div DAY_MS"
    and u: "ue_schema_version u = AUDIT_SCHEMA_VERSION" "ue_previous_mac u = encode_hex (al_mac l)"
    and added: "entry_added x u l w e (l', w')"
  shows "log_chain x key n0 p0 d w' (es @ [e]) (Suc (unat (al_sequence l'))) (al_mac l') \<and> own_days d w'"
proof -
  let ?k = "ue_timestamp_unix_ms u div DAY_MS"
  let ?p = "day_path d ?k"
  from added obtain c line where seq: "checked_add (al_sequence l) 1 = Some (ue_sequence u)"
      and c: "to_vec (ax_unsigned_json x) u = Some c" and e: "unsigned_audit_entry.truncate e = u"
        "ae_mac e = encode_hex (mac_of x key c)" and line: "to_vec (ax_entry_json x) e = Some line"
      and l': "l' = l\<lparr>al_sequence := ue_sequence u, al_mac := mac_of x key c\<rparr>"
      and new: "lookup w' ?p = Some (old_bytes w ?p @ line @ [10])"
      and other: "\<And>q. q \<noteq> ?p \<Longrightarrow> is_chain_file q \<Longrightarrow> lookup w' q = lookup w q"
    by (auto simp: entry_added_def Let_def d)
  have line_ok: "from_slice (ax_entry_json x) line = Some e" "line \<noteq> []" "10 \<notin> set line"
    using sound line by (auto simp: audit_sound_def)
  have "lookup w' ?p \<noteq> None" using new by simp
  define rest where "rest = filter (\<lambda>q. q \<noteq> ?p) (chain_list d w)"
  note lists = chain_list_latest [OF own late other \<open>lookup w' ?p \<noteq> None\<close>, folded rest_def]
  have rest_same: "lookup w' q = lookup w q" if "q \<in> set rest" for q
    using that other chain_list_set by (auto simp: rest_def)
  have comp: "log_complete d w" using log by (simp add: log_chain_def)
  have old_ok: "old_bytes w ?p \<noteq> [] \<longrightarrow> last (old_bytes w ?p) = 10"
    using comp chain_list_set [of ?p d w] by (auto simp: log_complete_def old_bytes_def split: option.splits)
  have old_lines: "log_lines d w = concat (map (\<lambda>q. byte_lines (the (lookup w q))) rest) @ byte_lines (old_bytes w ?p)"
    by (cases "lookup w ?p") (simp_all add: log_lines_def lists(3) old_bytes_def)
  have "concat (map (\<lambda>q. byte_lines (the (lookup w' q))) rest) = concat (map (\<lambda>q. byte_lines (the (lookup w q))) rest)"
    using rest_same by (intro arg_cong [of _ _ concat] map_cong) auto
  then have lines: "log_lines d w' = log_lines d w @ [line]"
    using byte_lines_snoc [OF old_ok line_ok(3,2)] by (simp add: old_lines log_lines_def [of d w'] lists(1) new)
  have "log_complete d w'"
    using comp new rest_same by (auto simp: log_complete_def lists(1)) (auto simp: rest_def)
  moreover have "entry_ok x key e n p (mac_of x key c)"
    using checked_add_unat [OF seq] u e c tail by (cases e) (auto simp: entry_ok_def unsigned_audit_entry.defs)
  ultimately show ?thesis
    using log lines line_ok(1) lists(2) checked_add_unat [OF seq] tail(1) chain_snoc
    by (fastforce simp: log_chain_def l')
qed

subsection \<open>Properties\<close>

text \<open>
  C17. A log that verifies is authentic and complete up to its anchor: its lines are entries whose
  numbers continue the checkpoint without a gap, each bound to its predecessor's MAC and carrying
  the HMAC of its own content under the audit key, ending in the reported tail; and the anchored
  entry, with its MAC, is among them or already archived, so that cutting off the end is noticed.
\<close>

theorem verified_log_is_authentic:
  assumes "audit_sound x" and "length key \<le> 64" and "verify_chain x d key anchor cp w = (Inr t, w')"
  shows "\<exists>p0 es. start_mac cp p0 \<and>
     log_chain x key (start_number cp) p0 d w es (Suc (unat (vt_sequence t))) (vt_mac t) \<and>
     anchor_respected anchor cp es (vt_sequence t)"
  by (rule wp_okD [OF assms(3) wp_verify_chain [OF assms(1,2)]])

definition log_entries :: "audit_ext \<Rightarrow> path \<Rightarrow> world \<Rightarrow> audit_entry list" where
  "log_entries x d w = map (\<lambda>l. the (from_slice (ax_entry_json x) l)) (log_lines d w)"

lemma log_chain_entries: "log_chain x key n0 p0 d w es n p \<Longrightarrow> log_entries x d w = es"
proof -
  assume "log_chain x key n0 p0 d w es n p"
  then have "map (from_slice (ax_entry_json x)) (log_lines d w) = map Some es" by (simp add: log_chain_def)
  from arg_cong [OF this, of "map the"] show ?thesis by (simp add: log_entries_def comp_def)
qed

text \<open>
  The tail determines the log: if two logs verify under the same key and checkpoint to the same
  tail (number and MAC), and the HMAC has no collision on the entries in them, they contain the
  same entries. Changing, dropping, reordering or inserting an entry therefore changes the tail.
\<close>

theorem tail_determines_log:
  assumes "audit_sound x" and "length key \<le> 64"
    and "verify_chain x d key a1 cp w1 = (Inr t, v1)" and "verify_chain x d key a2 cp w2 = (Inr t, v2)"
    and "inj_on (mac_of x key) (canonicals x (log_entries x d w1) \<union> canonicals x (log_entries x d w2))"
  shows "log_entries x d w1 = log_entries x d w2"
proof -
  from wp_okD [OF assms(3) wp_verify_chain [OF assms(1,2)]] obtain p1 es1 where
    1: "start_mac cp p1" "log_chain x key (start_number cp) p1 d w1 es1 (Suc (unat (vt_sequence t))) (vt_mac t)" by blast
  from wp_okD [OF assms(4) wp_verify_chain [OF assms(1,2)]] obtain p2 es2 where
    2: "start_mac cp p2" "log_chain x key (start_number cp) p2 d w2 es2 (Suc (unat (vt_sequence t))) (vt_mac t)" by blast
  have p: "p1 = p2" using 1(1) 2(1) by (auto simp: start_mac_def encode_hex_inj split: option.splits)
  have "es1 = es2"
    by (rule chain_unique [OF assms(1)])
      (use 1(2) 2(2) p assms(5) in \<open>auto simp: log_chain_def log_chain_entries [OF 1(2)] log_chain_entries [OF 2(2)]\<close>)
  then show ?thesis by (simp add: log_chain_entries [OF 1(2)] log_chain_entries [OF 2(2)])
qed

text \<open>
  C18. Recording refines appending to the abstract log: if the log on disk is the authenticated
  chain the logger's state describes and the clock is not behind the latest day file, a successful
  record leaves the chain extended by exactly the new entry, with the event, outcome, group and
  operation given, and the logger's state describes the longer chain.
\<close>

theorem record_extends_chain:
  assumes "audit_sound x" and "own_days d w" and "d = al_directory l"
    and "log_chain x (al_key l) n0 p0 d w es (Suc (unat (al_sequence l))) (al_mac l)"
    and "clock_ms w (tick w) = Some now"
    and "\<forall>q \<in> set (chain_list d w). q \<noteq> day_path d (now div DAY_MS) \<longrightarrow> chain_key q < now div DAY_MS"
    and "record_inner x g ev oc op dc i (l, w) = (Inr (), (l', w'))"
  shows "\<exists>e. log_chain x (al_key l') n0 p0 d w' (es @ [e]) (Suc (unat (al_sequence l'))) (al_mac l') \<and>
    own_days d w' \<and> ue_account_group_id e = g \<and> ue_event e = ev \<and> ue_outcome e = oc \<and>
    ue_operation_id e = op \<and> ue_detail_code e = dc \<and> ue_audit_event_id e = i \<and> ue_timestamp_unix_ms e = now"
proof -
  from wp_okD [OF assms(7) wp_record_inner] assms(5) obtain n e where
    e: "entry_added x (unsigned_of l n now g ev oc op dc i) l w e (l', w')" by auto
  have late: "\<forall>q \<in> set (chain_list d w). q \<noteq> day_path d (ue_timestamp_unix_ms (unsigned_of l n now g ev oc op dc i) div DAY_MS)
      \<longrightarrow> chain_key q < ue_timestamp_unix_ms (unsigned_of l n now g ev oc op dc i) div DAY_MS"
    using assms(6) by (simp add: unsigned_of_def)
  have "log_chain x (al_key l) n0 p0 d w' (es @ [e]) (Suc (unat (al_sequence l'))) (al_mac l') \<and> own_days d w'"
    by (rule log_chain_snoc [OF assms(1,2,4,3) refl refl refl late _ _ e]) (simp_all add: unsigned_of_def)
  moreover have "al_key l' = al_key l" "unsigned_audit_entry.truncate e = unsigned_of l n now g ev oc op dc i"
    using e by (auto simp: entry_added_def Let_def)
  ultimately show ?thesis
    by (intro exI [of _ e]) (cases e, simp add: unsigned_of_def unsigned_audit_entry.defs)
qed

text \<open>The number of an entry that is in the file twice is found by no verification.\<close>

lemma chain_numbers: "chain x key n0 p0 es n p \<Longrightarrow> map (unat \<circ> ue_sequence) es = [n0..<n]"
proof (induction rule: chain.induct)
  case (chain_snoc es n p e m)
  then show ?case using chain_count [OF chain_snoc(1)] by (simp add: entry_ok_def)
qed simp

lemma log_chain_distinct:
  assumes "log_chain x key n0 p0 d w es n p"
  shows "distinct (map (map_option ue_sequence \<circ> from_slice (ax_entry_json x)) (log_lines d w))"
proof -
  have "map (from_slice (ax_entry_json x)) (log_lines d w) = map Some es" and c: "chain x key n0 p0 es n p"
    using assms by (auto simp: log_chain_def)
  from arg_cong [OF this(1), of "map (map_option ue_sequence)"]
  have "map (map_option ue_sequence \<circ> from_slice (ax_entry_json x)) (log_lines d w) = map Some (map ue_sequence es)" by simp
  moreover have "distinct (map unat (map ue_sequence es))" using chain_numbers [OF c] by simp
  ultimately show ?thesis by (metis distinct_map inj_Some inj_on_subset subset_UNIV)
qed

text \<open>The entry is in the file of its day, whether or not the logger knows of it.\<close>

definition entry_written :: "audit_ext \<Rightarrow> unsigned_audit_entry \<Rightarrow> audit_logger \<Rightarrow> world \<Rightarrow> audit_entry \<Rightarrow> world \<Rightarrow> bool" where
  "entry_written x u l w e w' \<longleftrightarrow> (\<exists>line. let p = day_path (al_directory l) (ue_timestamp_unix_ms u div DAY_MS) in
     checked_add (al_sequence l) 1 = Some (ue_sequence u) \<and> unsigned_audit_entry.truncate e = u \<and>
     to_vec (ax_entry_json x) e = Some line \<and> lookup w' p = Some (old_bytes w p @ line @ [10]) \<and>
     (\<forall>q. is_chain_file q \<and> q \<noteq> p \<longrightarrow> lookup w' q = lookup w q))"

lemma added_written: "entry_added x u l w e (l', w') \<Longrightarrow> entry_written x u l w e w'"
  by (auto simp: entry_added_def entry_written_def Let_def)

lemma sequence_truncate: "ue_sequence (unsigned_audit_entry.truncate e) = ue_sequence e"
  by (cases e) (simp add: unsigned_audit_entry.defs)

lemma written_twice_never_verifies:
  assumes sound: "audit_sound x" and d: "d = al_directory l" and comp: "log_complete d w"
    and first: "entry_written x u l w e w1" and same: "\<forall>q. is_chain_file q \<longrightarrow> lookup v q = lookup w1 q"
    and second: "entry_written x u' l v e' w2"
  shows "\<not> log_chain x key n0 p0 d w2 es n p"
proof
  assume log: "log_chain x key n0 p0 d w2 es n p"
  let ?g = "map_option ue_sequence \<circ> from_slice (ax_entry_json x)"
  let ?p = "day_path d (ue_timestamp_unix_ms u div DAY_MS)" and ?q = "day_path d (ue_timestamp_unix_ms u' div DAY_MS)"
  from first obtain a where a: "checked_add (al_sequence l) 1 = Some (ue_sequence u)" "unsigned_audit_entry.truncate e = u"
      "to_vec (ax_entry_json x) e = Some a" "lookup w1 ?p = Some (old_bytes w ?p @ a @ [10])"
      "\<And>q. is_chain_file q \<Longrightarrow> q \<noteq> ?p \<Longrightarrow> lookup w1 q = lookup w q"
    by (auto simp: entry_written_def Let_def d)
  from second obtain b where b: "checked_add (al_sequence l) 1 = Some (ue_sequence u')" "unsigned_audit_entry.truncate e' = u'"
      "to_vec (ax_entry_json x) e' = Some b" "lookup w2 ?q = Some (old_bytes v ?q @ b @ [10])"
      "\<And>q. is_chain_file q \<Longrightarrow> q \<noteq> ?q \<Longrightarrow> lookup w2 q = lookup v q"
    by (auto simp: entry_written_def Let_def d)
  have line: "from_slice (ax_entry_json x) a = Some e" "a \<noteq> []" "10 \<notin> set a"
      "from_slice (ax_entry_json x) b = Some e'" "b \<noteq> []" "10 \<notin> set b"
    using sound a(3) b(3) by (auto simp: audit_sound_def)
  have number: "?g a = ?g b" using line(1,4) a(1,2) b(1,2) sequence_truncate [of e] sequence_truncate [of e'] by simp
  have ended: "old_bytes w q \<noteq> [] \<longrightarrow> last (old_bytes w q) = 10" if "is_chain_file q" "in_dir d q" for q
    using comp that chain_list_set [of q d w] by (auto simp: log_complete_def old_bytes_def split: option.splits)
  have listed: "set (byte_lines bs) \<subseteq> set (log_lines d w2)" if "lookup w2 (day_path d k) = Some bs" for bs k
    using that chain_list_set [of "day_path d k" d w2] by (auto simp: log_lines_def)
  note dist = log_chain_distinct [OF log]
  show False
  proof (cases "?p = ?q")
    case True
    have "old_bytes v ?q = old_bytes w ?p @ a @ [10]" using a(4) same True by (simp add: old_bytes_def)
    with b(4) have content: "lookup w2 ?p = Some ((old_bytes w ?p @ a @ [10]) @ b @ [10])" using True by simp
    have "byte_lines ((old_bytes w ?p @ a @ [10]) @ b @ [10]) = byte_lines (old_bytes w ?p) @ [a, b]"
      using byte_lines_snoc [OF _ line(6,5), of "old_bytes w ?p @ a @ [10]"] byte_lines_snoc [OF ended line(3,2), of ?p] by simp
    moreover from content obtain ps qs where "chain_list d w2 = ps @ ?p # qs"
      using chain_list_set [of ?p d w2] by (auto dest: split_list)
    ultimately have "log_lines d w2 = (concat (map (\<lambda>p. byte_lines (the (lookup w2 p))) ps) @ byte_lines (old_bytes w ?p)) @
        [a, b] @ concat (map (\<lambda>p. byte_lines (the (lookup w2 p))) qs)"
      using content by (simp add: log_lines_def)
    with dist number show False by auto
  next
    case False
    have "lookup w2 ?p = Some (old_bytes w ?p @ a @ [10])" using b(5) [of ?p] a(4) same False by simp
    from listed [OF this] have "a \<in> set (log_lines d w2)" using byte_lines_snoc [OF ended line(3,2), of ?p] by simp
    moreover have "old_bytes v ?q = old_bytes w ?q" using a(5) [of ?q] same False by (auto simp: old_bytes_def)
    with listed [OF b(4)] have "b \<in> set (log_lines d w2)" using byte_lines_snoc [OF ended line(6,5), of ?q] by simp
    ultimately have "a = b" using dist number by (metis distinct_map inj_onD)
    with line a(2) b(2) False show False by simp
  qed
qed

text \<open>The calls that open the file and write the line succeed, and the one that synchronises it fails.\<close>

definition sync_fails :: "world \<Rightarrow> bool" where
  "sync_fails w \<longleftrightarrow> io_fault w (tick w + 1) = None \<and> io_fault w (tick w + 2) = None \<and> io_fault w (tick w + 3) \<noteq> None"

lemma wp_append_unsynced:
  assumes "io_fault w (tick w) = None" "io_fault w (tick w + 1) = None" "io_fault w (tick w + 2) \<noteq> None"
  shows "wp (append_line x p line n mac) (\<lambda>_ _. False)
     (\<lambda>_ t. fst t = l \<and> lookup (snd t) p = Some (old_bytes w p @ line @ [10]) \<and> (\<forall>q. q \<noteq> p \<longrightarrow> lookup (snd t) q = lookup w q)) (l, w)"
  using assms
  by (auto simp: append_line_def wp_seqR wp_on_snd wp_open_append wp_fs_write_all wp_fs_sync wp_modify old_bytes_def
      split: option.split)

lemma wp_record_unsynced:
  assumes "sync_fails w"
  shows "wp (record_inner x g ev oc op dc i) (\<lambda>_ _. False)
     (\<lambda>err t. fst t = l \<and> (err = Io OtherIo \<longrightarrow> (\<exists>n now e. entry_written x (unsigned_of l n now g ev oc op dc i) l w e (snd t)))) (l, w)"
proof -
  let ?E = "\<lambda>err t. fst t = l \<and> (err = Io OtherIo \<longrightarrow> (\<exists>n now e. entry_written x (unsigned_of l n now g ev oc op dc i) l w e (snd t)))"
  have main: "wp (append_line x (day_path (al_directory l) (now div DAY_MS)) line n mac) (\<lambda>_ _. False) ?E (l, advance w)"
    if "checked_add (al_sequence l) 1 = Some n"
      "to_vec (ax_entry_json x) (unsigned_audit_entry.extend (unsigned_of l n now g ev oc op dc i) (audit_entry.fields m)) = Some line"
    for now line n mac m
  proof (rule wp_mono [OF wp_append_unsynced])
    show "io_fault (advance w) (tick (advance w)) = None" "io_fault (advance w) (tick (advance w) + 1) = None"
      "io_fault (advance w) (tick (advance w) + 2) \<noteq> None"
      using assms by (simp_all add: sync_fails_def numeral_eq_Suc)
    let ?p = "day_path (al_directory l) (now div DAY_MS)" and ?u = "unsigned_of l n now g ev oc op dc i"
    fix err and t :: "audit_logger \<times> world"
    assume t: "fst t = l \<and> lookup (snd t) ?p = Some (old_bytes (advance w) ?p @ line @ [10]) \<and>
       (\<forall>q. q \<noteq> ?p \<longrightarrow> lookup (snd t) q = lookup (advance w) q)"
    have "entry_written x ?u l w (unsigned_audit_entry.extend ?u (audit_entry.fields m)) (snd t)"
      using t that by (simp add: entry_written_def Let_def truncate_extend old_bytes_def) (simp add: unsigned_of_def)
    with t show "?E err t" by blast
  qed simp
  show ?thesis
    unfolding record_inner_def unsigned_of_def [symmetric]
    by (auto simp: wp_bindR wp_gets wp_ok_or wp_on_snd wp_unix_ms wp_of_result json_to_vec_def calculate_mac_def
        Let_def unsigned_of_def [symmetric] split: option.split intro!: main)
qed

text \<open>
  C37. An append whose \<open>sync_data\<close> fails corrupts the chain. Let the log end in complete lines, and let
  a record open the file of the day and write its line, but fail with the I/O error of its synchronisation:
  the line is in the file, while the logger is unchanged. If the next record, with the log files as they
  were left, then succeeds, with whatever content, on the
  same day or another, it has used the same sequence number, and from then on the log verifies under no
  anchor and no checkpoint. The hypotheses on the external code are digests of 32 bytes and codecs that
  read back what they wrote, on one line; the key has at most 64 bytes (the host's has 32).
\<close>

theorem failed_sync_breaks_chain:
  assumes "audit_sound x" and "length (al_key l) \<le> 64" and "d = al_directory l" and "log_complete d w"
    and "sync_fails w" and "record_inner x g ev oc op dc i (l, w) = (Inl (Io OtherIo), (l1, w1))"
    and "\<forall>q. is_chain_file q \<longrightarrow> lookup v q = lookup w1 q"
    and "record_inner x g' ev' oc' op' dc' i' (l1, v) = (Inr (), (l2, w2))"
  shows "l1 = l \<and> (\<exists>n now e. entry_written x (unsigned_of l n now g ev oc op dc i) l w e w1 \<and> al_sequence l2 = ue_sequence e) \<and>
    (\<forall>anchor cp. \<exists>err v'. verify_chain x d (al_key l) anchor cp w2 = (Inl err, v'))"
proof -
  from wp_errD [OF assms(6) wp_record_unsynced [OF assms(5)]] obtain n now e where
    l1: "l1 = l" and e: "entry_written x (unsigned_of l n now g ev oc op dc i) l w e w1" by auto
  from wp_okD [OF assms(8) [unfolded l1] wp_record_inner] obtain n' now' e' where
    added: "entry_added x (unsigned_of l n' now' g' ev' oc' op' dc' i') l v e' (l2, w2)" by auto
  have "al_sequence l2 = ue_sequence e"
    using added e sequence_truncate [of e] by (auto simp: entry_added_def entry_written_def Let_def unsigned_of_def)
  moreover have "\<exists>err v'. verify_chain x d (al_key l) anchor cp w2 = (Inl err, v')" for anchor cp
  proof (cases "verify_chain x d (al_key l) anchor cp w2")
    case (Pair r v')
    then show ?thesis
      using wp_okD [OF _ wp_verify_chain [OF assms(1,2)]] written_twice_never_verifies [OF assms(1,3,4) e assms(7) added_written [OF added]]
      by (cases r) blast+
  qed
  ultimately show ?thesis using l1 e by blast
qed

subsection \<open>A concrete log\<close>

lemmas audit_defs [run_simps] =
  AUDIT_SCHEMA_VERSION_def AUDIT_KEY_BYTES_def DAY_MS_def calculate_mac_def mac_pad_def
  persist_anchor_def persist_protected_file_def verify_protected_def fs_open_append_def append_line_def record_inner_def
  chain_files_def verify_line_def verify_chain_def verify_mac_def byte_lines_def anchor_path_def
  day_path_def DAY_PREFIX_def DAY_SUFFIX_def chain_key_def audit_day_def strip_prefix_def strip_suffix_def
  is_chain_file_def

lemma decode_encode_mac [simp]: "length bs = 32 \<Longrightarrow> decode_mac (encode_hex bs) = Inr bs"
  by (simp add: decode_mac_iff)

definition exa_d :: path where "exa_d = [Name ''audit'']"
definition exa_mac :: "byte list" where "exa_mac = map (\<lambda>_. 96) [0..<32]"

definition exa_u :: unsigned_audit_entry where
  "exa_u = \<lparr>ue_schema_version = 2, ue_sequence = 1, ue_previous_mac = encode_hex ZERO_MAC, ue_timestamp_unix_ms = 1000,
     ue_account_group_id = Some 5, ue_event = ''evict'', ue_outcome = ''ok'', ue_operation_id = None,
     ue_detail_code = None, ue_audit_event_id = None\<rparr>"

definition exa_e :: audit_entry where
  "exa_e = unsigned_audit_entry.extend exa_u (audit_entry.fields (encode_hex exa_mac))"

definition exa_anchor :: audit_anchor where
  "exa_anchor = \<lparr>aa_schema_version = 2, aa_sequence = 1, aa_mac = encode_hex exa_mac\<rparr>"

definition exa_x :: audit_ext where
  "exa_x = \<lparr>ax_sha256 = (\<lambda>bs. map (\<lambda>_. of_nat (length bs)) [0..<32]),
     ax_secret = \<lparr>ls_protect = (\<lambda>bs. Inr bs), ls_unprotect = (\<lambda>bs. Inr bs)\<rparr>,
     ax_unsigned_json = table_codec [exa_u], ax_entry_json = table_codec [exa_e],
     ax_anchor_json = table_codec [exa_anchor], ax_checkpoint_json = table_codec [], ax_outbox_json = table_codec []\<rparr>"

definition exa_l :: audit_logger where
  "exa_l = \<lparr>al_directory = exa_d, al_key = [], al_sequence = 0, al_mac = ZERO_MAC, al_recovered_on_open = False\<rparr>"

lemma table1_codec: "to_vec (table_codec [x]) y = Some bs \<Longrightarrow> y = x \<and> bs = [0] \<and> from_slice (table_codec [x]) bs = Some x"
  by (auto simp: table_codec_def upt_rec split: if_splits)

lemma exa_sound: "audit_sound exa_x"
  unfolding audit_sound_def exa_x_def by (auto dest: table1_codec)

lemmas exa_defs = exa_d_def exa_mac_def exa_e_def exa_anchor_def exa_x_def exa_l_def table_codec_def
  quiet_world_def upt_rec decimal.simps digit_char_def

definition exa_t :: "audit_logger \<times> world" where
  "exa_t = snd (record_inner exa_x (Some 5) ''evict'' ''ok'' None None None (exa_l, quiet_world))"

lemma exa_record:
  "record_inner exa_x (Some 5) ''evict'' ''ok'' None None None (exa_l, quiet_world) = (Inr (), (fst exa_t, snd exa_t))"
proof -
  have "fst (record_inner exa_x (Some 5) ''evict'' ''ok'' None None None (exa_l, quiet_world)) = Inr ()"
    by (simp add: run_simps exa_defs exa_u_def)
  then show ?thesis by (simp add: prod_eq_iff exa_t_def)
qed

lemma exa_empty_log: "chain_list d quiet_world = []" "log_lines d quiet_world = []"
  by (simp_all add: chain_list_def log_lines_def quiet_world_def)

theorem record_extends_chain_witness:
  "\<exists>e. log_chain exa_x [] 1 ZERO_MAC exa_d (snd exa_t) [e] 2 (al_mac (fst exa_t)) \<and>
     ue_event e = ''evict'' \<and> ue_account_group_id e = Some 5"
proof -
  have l: "al_directory exa_l = exa_d" "al_key exa_l = []" "al_sequence exa_l = 0" "al_mac exa_l = ZERO_MAC"
    by (simp_all add: exa_l_def)
  have "log_chain exa_x (al_key exa_l) 1 ZERO_MAC exa_d quiet_world [] (Suc (unat (al_sequence exa_l))) (al_mac exa_l)"
    by (simp add: log_chain_def log_complete_def exa_empty_log l chain.chain_Nil)
  moreover have "own_days exa_d quiet_world" "clock_ms quiet_world (tick quiet_world) = Some 1000"
      "\<forall>q \<in> set (chain_list exa_d quiet_world). q \<noteq> day_path exa_d (1000 div DAY_MS) \<longrightarrow> chain_key q < 1000 div DAY_MS"
    by (simp_all add: own_days_def exa_empty_log) (simp add: quiet_world_def)
  ultimately obtain e where e: "log_chain exa_x (al_key (fst exa_t)) 1 ZERO_MAC exa_d (snd exa_t) ([] @ [e]) (Suc (unat (al_sequence (fst exa_t)))) (al_mac (fst exa_t))"
      "ue_event e = ''evict''" "ue_account_group_id e = Some 5"
    using record_extends_chain [OF exa_sound _ l(1) [symmetric] _ _ _ exa_record] by blast
  moreover have "al_key (fst exa_t) = []" "al_sequence (fst exa_t) = 1"
    by (simp_all add: exa_t_def run_simps exa_defs exa_u_def)
  ultimately show ?thesis by (auto simp: numeral_2_eq_2)
qed

text \<open>The same entry in the file of one day and of another.\<close>

definition exa_world :: "u64 \<Rightarrow> world" where
  "exa_world k = put_file (day_path exa_d k) [0, 10] quiet_world"

lemma exa_verify:
  "\<exists>v. verify_chain exa_x exa_d [] (Some exa_anchor) None (exa_world 0) = (Inr \<lparr>vt_sequence = 1, vt_mac = exa_mac\<rparr>, v)"
  "\<exists>v. verify_chain exa_x exa_d [] (Some exa_anchor) None (exa_world 3) = (Inr \<lparr>vt_sequence = 1, vt_mac = exa_mac\<rparr>, v)"
proof -
  have "fst (verify_chain exa_x exa_d [] (Some exa_anchor) None (exa_world 0)) = Inr \<lparr>vt_sequence = 1, vt_mac = exa_mac\<rparr>"
    by (simp add: run_simps exa_defs exa_u_def exa_world_def unsigned_audit_entry.defs audit_entry.defs
        suffix_to_prefix parse_u64_def is_ascii_digit_def)
  then show "\<exists>v. verify_chain exa_x exa_d [] (Some exa_anchor) None (exa_world 0) = (Inr \<lparr>vt_sequence = 1, vt_mac = exa_mac\<rparr>, v)"
    by (metis prod.collapse)
  have "fst (verify_chain exa_x exa_d [] (Some exa_anchor) None (exa_world 3)) = Inr \<lparr>vt_sequence = 1, vt_mac = exa_mac\<rparr>"
    by (simp add: run_simps exa_defs exa_u_def exa_world_def unsigned_audit_entry.defs audit_entry.defs
        suffix_to_prefix parse_u64_def is_ascii_digit_def)
  then show "\<exists>v. verify_chain exa_x exa_d [] (Some exa_anchor) None (exa_world 3) = (Inr \<lparr>vt_sequence = 1, vt_mac = exa_mac\<rparr>, v)"
    by (metis prod.collapse)
qed

theorem verified_log_is_authentic_witness:
  "\<exists>p0 es. log_chain exa_x [] 1 p0 exa_d (exa_world 0) es 2 exa_mac \<and> anchor_respected (Some exa_anchor) None es 1"
proof -
  obtain v where "verify_chain exa_x exa_d [] (Some exa_anchor) None (exa_world 0) = (Inr \<lparr>vt_sequence = 1, vt_mac = exa_mac\<rparr>, v)"
    using exa_verify(1) by blast
  from verified_log_is_authentic [OF exa_sound _ this] show ?thesis
    by (auto simp: start_number_def numeral_2_eq_2)
qed

theorem tail_determines_log_witness:
  "log_entries exa_x exa_d (exa_world 0) = log_entries exa_x exa_d (exa_world 3)"
proof -
  obtain v1 where v1: "verify_chain exa_x exa_d [] (Some exa_anchor) None (exa_world 0) = (Inr \<lparr>vt_sequence = 1, vt_mac = exa_mac\<rparr>, v1)"
    using exa_verify(1) by blast
  obtain v2 where v2: "verify_chain exa_x exa_d [] (Some exa_anchor) None (exa_world 3) = (Inr \<lparr>vt_sequence = 1, vt_mac = exa_mac\<rparr>, v2)"
    using exa_verify(2) by blast
  have sub: "canonicals exa_x es \<subseteq> {[0]}" for es by (auto simp: canonicals_def exa_x_def dest: table1_codec)
  have "inj_on (mac_of exa_x []) {[0]}" by (rule inj_onI) simp
  then have "inj_on (mac_of exa_x []) (canonicals exa_x es \<union> canonicals exa_x fs)" for es fs
    by (rule inj_on_subset) (rule Un_least [OF sub sub])
  from tail_determines_log [OF exa_sound _ v1 v2 this] show ?thesis by simp
qed

definition exa_u2 :: unsigned_audit_entry where
  "exa_u2 = exa_u\<lparr>ue_timestamp_unix_ms := 1004\<rparr>"

definition exa_e2 :: audit_entry where
  "exa_e2 = unsigned_audit_entry.extend exa_u2 (audit_entry.fields (encode_hex exa_mac))"

definition exa_x2 :: audit_ext where
  "exa_x2 = exa_x\<lparr>ax_unsigned_json := table_codec [exa_u, exa_u2], ax_entry_json := table_codec [exa_e, exa_e2]\<rparr>"

text \<open>The fourth call of the operating system, the synchronisation, fails.\<close>

definition exa_sync_fails :: world where
  "exa_sync_fails = quiet_world\<lparr>io_fault := (\<lambda>n. if n = 3 then Some 0 else None)\<rparr>"

lemma exa_sound2: "audit_sound exa_x2"
proof -
  have "bs = [0] \<or> bs = [1]" if "to_vec (table_codec [exa_e, exa_e2]) e = Some bs" for e bs
    using that by (auto simp: table_codec_def upt_rec split: if_splits)
  moreover have "length (ax_sha256 exa_x2 bs) = 32" for bs by (simp add: exa_x2_def exa_x_def)
  ultimately show ?thesis unfolding audit_sound_def
    by (fastforce simp: exa_x2_def intro: table_codec_read_back)
qed

theorem failed_sync_breaks_chain_witness:
  "\<exists>w1 l2 w2 e v. record_inner exa_x2 (Some 5) ''evict'' ''ok'' None None None (exa_l, exa_sync_fails) = (Inl (Io OtherIo), (exa_l, w1)) \<and>
     record_inner exa_x2 (Some 5) ''evict'' ''ok'' None None None (exa_l, w1) = (Inr (), (l2, w2)) \<and>
     verify_chain exa_x2 exa_d [] (Some exa_anchor) None w2 = (Inl e, v)"
proof -
  let ?r1 = "record_inner exa_x2 (Some 5) ''evict'' ''ok'' None None None (exa_l, exa_sync_fails)"
  let ?r2 = "record_inner exa_x2 (Some 5) ''evict'' ''ok'' None None None (exa_l, snd (snd ?r1))"
  note defs = run_simps exa_defs exa_u_def exa_u2_def exa_e2_def exa_x2_def exa_sync_fails_def
    unsigned_audit_entry.defs audit_entry.defs
  have "fst ?r1 = Inl (Io OtherIo)" "fst (snd ?r1) = exa_l" by (simp_all add: defs)
  then obtain w1 where r1: "?r1 = (Inl (Io OtherIo), (exa_l, w1))" by (metis prod.collapse)
  have "fst ?r2 = Inr ()" by (simp add: defs)
  then obtain l2 w2 where r2: "record_inner exa_x2 (Some 5) ''evict'' ''ok'' None None None (exa_l, w1) = (Inr (), (l2, w2))"
    unfolding r1 by (metis prod.collapse snd_conv)
  have l: "al_directory exa_l = exa_d" "al_key exa_l = []" by (simp_all add: exa_l_def)
  have "log_complete exa_d exa_sync_fails"
    by (simp add: log_complete_def chain_list_def exa_sync_fails_def quiet_world_def)
  moreover have "sync_fails exa_sync_fails" by (simp add: sync_fails_def exa_sync_fails_def quiet_world_def)
  ultimately obtain e v where "verify_chain exa_x2 exa_d [] (Some exa_anchor) None w2 = (Inl e, v)"
    using failed_sync_breaks_chain [OF exa_sound2 _ l(1) [symmetric] _ _ r1 _ r2] l by fastforce
  with r1 r2 show ?thesis by blast
qed

end
