(* ===== verification/Group_Runtime.thy ===== *)
theory Group_Runtime
  imports Operation_Coordinator Lease_Metadata Framing Audit_Log
begin

text \<open>
  \<open>dispatcher.rs\<close>, the part of one account group: the lease handlers, the snapshot protocol in
  both versions, eviction results, and their helpers. Handlers run on the group's runtime, the
  connection's platform authorizer, the audit logger and the world. The JSON text of cookies,
  SHA-256 and the platform authorizer are parameters.
\<close>

subsection \<open>Helpers without state\<close>

definition COOKIE_CHUNK_TARGET_BYTES :: nat where "COOKIE_CHUNK_TARGET_BYTES = 400 * 1024"
definition MAX_SNAPSHOT_BYTES :: nat where "MAX_SNAPSHOT_BYTES = 32 * 1024 * 1024"
definition MAX_SNAPSHOT_COOKIES :: u32 where "MAX_SNAPSHOT_COOKIES = 100000"

text \<open>\<open>usize::checked_add\<close> on a 64-bit platform.\<close>

definition checked_add_usize :: "nat \<Rightarrow> nat \<Rightarrow> nat option" where
  "checked_add_usize a b = (if a + b < 2 ^ 64 then Some (a + b) else None)"

definition to_bytes :: "('a \<Rightarrow> byte list option) \<Rightarrow> 'a \<Rightarrow> byte list fcp_result" where
  "to_bytes json v = (case json v of None \<Rightarrow> Inl Json | Some bs \<Rightarrow> Inr bs)"

fun chunk_loop ::
    "(cookie_record \<Rightarrow> byte list option) \<Rightarrow> cookie_record list list \<Rightarrow> cookie_record list \<Rightarrow> nat
     \<Rightarrow> cookie_record list \<Rightarrow> cookie_record list list fcp_result" where
  "chunk_loop json chunks current current_bytes [] = Inr (chunks @ [current])"
| "chunk_loop json chunks current current_bytes (cookie # cookies) =
     (case to_bytes json cookie of Inl e \<Rightarrow> Inl e
      | Inr bs \<Rightarrow>
        let cookie_bytes = length bs + (if current = [] then 0 else 1) in
        if cookie_bytes > COOKIE_CHUNK_TARGET_BYTES
        then Inl (Protocol ''one cookie exceeds the chunk byte limit'')
        else if current \<noteq> [] \<and> current_bytes + cookie_bytes > COOKIE_CHUNK_TARGET_BYTES
        then chunk_loop json (chunks @ [current]) [cookie] (2 + cookie_bytes) cookies
        else chunk_loop json chunks (current @ [cookie]) (current_bytes + cookie_bytes) cookies)"

definition chunk_cookie_records ::
    "(cookie_record \<Rightarrow> byte list option) \<Rightarrow> cookie_record list \<Rightarrow> cookie_record list list fcp_result" where
  "chunk_cookie_records json cookies =
     (if cookies = [] then Inr [[]] else chunk_loop json [] [] 2 cookies)"

fun wire_kind :: "operation_kind_wire \<Rightarrow> operation_kind" where
  "wire_kind WireEnrollment = Enrollment"
| "wire_kind WireEviction = Eviction"
| "wire_kind WireReconciliation = Reconciliation"

definition inject_failure_codes :: "(string \<times> string) list" where
  "inject_failure_codes =
     [(''logged_out'', ''health_logged_out''),
      (''invalid_session'', ''health_invalid_session''),
      (''invalid_health_response'', ''health_invalid_response''),
      (''cookie_roundtrip_failed'', ''cookie_roundtrip_failed''),
      (''cookie_disappeared_before_health'', ''cookie_disappeared''),
      (''no_relevant_tab'', ''no_relevant_tab''),
      (''inject_execution_failed'', ''inject_execution_failed''),
      (''cookie_set_failed'', ''cookie_set_failed''),
      (''cookie_set_permission'', ''cookie_set_permission''),
      (''cookie_set_domain'', ''cookie_set_domain''),
      (''cookie_set_samesite'', ''cookie_set_samesite''),
      (''cookie_set_secure'', ''cookie_set_secure''),
      (''cookie_set_path'', ''cookie_set_path''),
      (''cookie_set_partition_key'', ''cookie_set_partition_key''),
      (''cookie_set_store'', ''cookie_set_store''),
      (''cookie_set_url'', ''cookie_set_url''),
      (''cookie_set_invalid_cookie'', ''cookie_set_invalid_cookie''),
      (''cookie_set_no_result'', ''cookie_set_no_result''),
      (''cookie_set_unknown'', ''cookie_set_unknown''),
      (''health_tab_query_failed'', ''health_tab_query_failed''),
      (''health_execution_failed'', ''health_execution_failed''),
      (''inject_cleanup_failed'', ''inject_cleanup_failed''),
      (''navigation_gate_redirect_failed'', ''navigation_gate_redirect_failed'')]"

definition inject_failure_code :: "string \<Rightarrow> string" where
  "inject_failure_code value = (case map_of inject_failure_codes value of
       Some code \<Rightarrow> code | None \<Rightarrow> ''health_unrecognized_result'')"

fun message_group_id :: "message \<Rightarrow> uuid option" where
  "message_group_id (LeaseRequest v) = Some (lr_account_group_id v)"
| "message_group_id (InjectResult v) = Some (ir_account_group_id v)"
| "message_group_id (EvictRequest v) = Some (er_account_group_id v)"
| "message_group_id (CookiesSnapshotChunk v) = Some (sn_account_group_id v)"
| "message_group_id (EvictResult v) = Some (et_account_group_id v)"
| "message_group_id (OperationBegin v) = Some (ob_account_group_id v)"
| "message_group_id (OperationStatusQuery v) = Some (oq_account_group_id v)"
| "message_group_id (EvictRemovePrepare v) = Some (ep_account_group_id v)"
| "message_group_id (SessionInvalidate v) = Some (si_account_group_id v)"
| "message_group_id (AuthCacheClear v) = Some (ac_account_group_id v)"
| "message_group_id (MonitorEvent v) = me_account_group_id v"
| "message_group_id _ = None"

subsection \<open>State\<close>

datatype pending_kind = PendingEnrollment | PendingEviction | PendingReconciliation

record pending_operation =
  po_kind :: pending_kind
  po_operation_id :: uuid
  po_lease_id :: "uuid option"
  po_confirmed :: bool
  po_snapshot_cookie_count :: "u32 option"
  po_snapshot_chunk_count :: "u32 option"
  po_snapshot_next_chunk :: u32
  po_snapshot_cookies :: "cookie_record list"
  po_snapshot_bytes :: nat
  po_operation_sequence :: u64
  po_attempt_id :: "uuid option"
  po_snapshot_chunk_digests :: "u32 \<rightharpoonup> byte list"

record group_runtime =
  rt_id :: uuid
  rt_policy :: policy_level
  rt_transactions :: vault_transactions
  rt_lease_store :: path
  rt_lease :: lease_metadata
  rt_operation_coordinator :: operation_coordinator
  rt_pending :: "pending_operation option"

text \<open>
  The third-party code behind the dispatcher. \<open>hx_open_or_create\<close>, \<open>hx_open_existing\<close> and
  \<open>hx_recover_credential\<close> are the platform authorizer's constructors and its recovery, which may
  replace the credential.
\<close>

record host_ext =
  hx_tx :: tx_ext
  hx_journal :: journal_ext
  hx_lease_json :: "lease_metadata codec"
  hx_audit :: audit_ext
  hx_cookie_json :: "cookie_record \<Rightarrow> byte list option"
  hx_cookies_json :: "cookie_record list \<Rightarrow> byte list option"
  hx_sha256 :: "byte list \<Rightarrow> byte list"
  hx_open_or_create :: "path \<Rightarrow> (world, authorizer) host"
  hx_open_existing :: "path \<Rightarrow> (world, authorizer) host"
  hx_recover_credential :: "authorizer \<Rightarrow> fcp_error \<Rightarrow> path \<Rightarrow> (world, bool \<times> authorizer) host"

type_synonym group_state_t = "group_runtime \<times> authorizer option \<times> audit_logger \<times> world"
type_synonym 'a group_m = "(group_state_t, 'a) host"

definition in_audit :: "'a audit_m \<Rightarrow> 'a group_m" where
  "in_audit m = on_snd (on_snd m)"

definition in_world :: "(world, 'a) host \<Rightarrow> 'a group_m" where
  "in_world m = in_audit (on_snd m)"

definition the_runtime :: "group_runtime group_m" where
  "the_runtime = gets fst"

definition update_runtime :: "(group_runtime \<Rightarrow> group_runtime) \<Rightarrow> unit group_m" where
  "update_runtime f = modify (\<lambda>(r, s). (f r, s))"

definition update_lease :: "(lease_metadata \<Rightarrow> lease_metadata) \<Rightarrow> unit group_m" where
  "update_lease f = update_runtime (\<lambda>r. r\<lparr>rt_lease := f (rt_lease r)\<rparr>)"

definition set_pending :: "pending_operation option \<Rightarrow> unit group_m" where
  "set_pending p = update_runtime (\<lambda>r. r\<lparr>rt_pending := p\<rparr>)"

definition on_coordinator :: "'a coord_m \<Rightarrow> 'a group_m" where
  "on_coordinator m = zoom (\<lambda>(r, a, l, w). (rt_operation_coordinator r, w))
     (\<lambda>(c, w') (r, a, l, w). (r\<lparr>rt_operation_coordinator := c\<rparr>, a, l, w')) m"

definition on_transactions :: "'a tx_m \<Rightarrow> 'a group_m" where
  "on_transactions m = zoom (\<lambda>(r, a, l, w). (rt_transactions r, w))
     (\<lambda>(t, w') (r, a, l, w). (r\<lparr>rt_transactions := t\<rparr>, a, l, w')) m"

definition with_transactions :: "(vault_transactions \<Rightarrow> (world, 'a) host) \<Rightarrow> 'a group_m" where
  "with_transactions f = bindR the_runtime (\<lambda>r. in_world (f (rt_transactions r)))"

text \<open>\<open>self.lease.advance_transition()?\<close> and \<open>self.lease_store.persist(&self.lease)?\<close>.\<close>

definition advance_lease :: "unit group_m" where
  "advance_lease = bindR the_runtime (\<lambda>r.
     bindR (of_result (advance_transition (rt_lease r))) (\<lambda>lease. update_lease (\<lambda>_. lease)))"

definition persist_lease :: "host_ext \<Rightarrow> unit group_m" where
  "persist_lease x = bindR the_runtime (\<lambda>r.
     in_world (lease_persist (hx_lease_json x) (rt_lease_store r) (rt_lease r)))"

definition save_lease :: "host_ext \<Rightarrow> unit group_m" where
  "save_lease x = seqR advance_lease (persist_lease x)"

definition clear_lease :: "group_state \<Rightarrow> lease_metadata \<Rightarrow> lease_metadata" where
  "clear_lease st l = l\<lparr>lm_state := st, lm_lease_id := None, lm_granted_at_unix_ms := None,
     lm_expires_at_unix_ms := None, lm_pending_operation_id := None\<rparr>"

text \<open>A call whose failure puts the taken operation back before it propagates.\<close>

definition restoring :: "pending_operation \<Rightarrow> 'a group_m \<Rightarrow> 'a group_m" where
  "restoring p m = catchR m (\<lambda>e. seqR (set_pending (Some p)) (fail e))"

definition audit_event_id :: "host_ext \<Rightarrow> uuid \<Rightarrow> uuid \<Rightarrow> string \<Rightarrow> string \<Rightarrow> uuid" where
  "audit_event_id x group_id operation_id event outcome =
     (let bytes = take 16 (hx_sha256 x (map byte_of_char ''FCP-AUDIT-EVENT-1'' @ uuid_as_bytes group_id
            @ uuid_as_bytes operation_id @ map byte_of_char event @ map byte_of_char outcome));
          bytes = bytes[6 := or (and (bytes ! 6) 0x0f) 0x40];
          bytes = bytes[8 := or (and (bytes ! 8) 0x3f) 0x80]
      in uuid_from_bytes bytes)"

definition record_operation_audit ::
    "host_ext \<Rightarrow> uuid \<Rightarrow> string \<Rightarrow> string \<Rightarrow> string option \<Rightarrow> unit group_m" where
  "record_operation_audit x operation_id event outcome detail = bindR the_runtime (\<lambda>r.
     in_audit (record_once_deferred (hx_audit x) (audit_event_id x (rt_id r) operation_id event outcome)
       (rt_id r) event outcome (Some operation_id) detail))"

definition audit_group :: "host_ext \<Rightarrow> string \<Rightarrow> string \<Rightarrow> string option \<Rightarrow> unit group_m" where
  "audit_group x event outcome detail = bindR the_runtime (\<lambda>r.
     in_audit (audit_record (hx_audit x) (rt_id r) event outcome None detail))"

definition lease_deny :: "string \<Rightarrow> message list group_m" where
  "lease_deny reason = bindR the_runtime (\<lambda>r.
     ret [LeaseDeny \<lparr>ld_account_group_id = rt_id r, ld_reason = reason\<rparr>])"

definition new_pending :: "pending_kind \<Rightarrow> uuid \<Rightarrow> uuid option \<Rightarrow> u64 \<Rightarrow> uuid option \<Rightarrow> pending_operation" where
  "new_pending kind operation_id lease_id operation_sequence attempt_id =
     \<lparr>po_kind = kind, po_operation_id = operation_id, po_lease_id = lease_id, po_confirmed = False,
      po_snapshot_cookie_count = None, po_snapshot_chunk_count = None, po_snapshot_next_chunk = 0,
      po_snapshot_cookies = [], po_snapshot_bytes = 0, po_operation_sequence = operation_sequence,
      po_attempt_id = attempt_id, po_snapshot_chunk_digests = Map.empty\<rparr>"

subsection \<open>Leases\<close>

definition grant_message :: "uuid \<Rightarrow> uuid \<Rightarrow> u64 \<Rightarrow> u64 option \<Rightarrow> message" where
  "grant_message g lease_id expiry capability_sequence = LeaseGrant
     \<lparr>lg_account_group_id = g, lg_lease_id = lease_id, lg_expiry_unix_ms = expiry,
      lg_capability_sequence = capability_sequence\<rparr>"

text \<open>The lease fields a new grant sets.\<close>

definition set_grant :: "uuid \<Rightarrow> u64 \<Rightarrow> u64 \<Rightarrow> lease_metadata \<Rightarrow> lease_metadata" where
  "set_grant lease_id now expiry l = l\<lparr>lm_lease_id := Some lease_id, lm_granted_at_unix_ms := Some now,
     lm_expires_at_unix_ms := Some expiry\<rparr>"

text \<open>\<open>self.lease.state != Uninitialized || self.transactions.vault_exists()\<close>.\<close>

definition already_enrolled :: "bool group_m" where
  "already_enrolled = bindR the_runtime (\<lambda>r.
     if lm_state (rt_lease r) \<noteq> Uninitialized then ret True else with_transactions vault_exists)"

definition grant_enrollment_v7 :: "host_ext \<Rightarrow> u64 \<Rightarrow> message list group_m" where
  "grant_enrollment_v7 x duration_ms =
     bindR already_enrolled (\<lambda>enrolled.
     if enrolled then lease_deny ''group_already_enrolled''
     else
       bindR (in_world unix_ms) (\<lambda>now.
       bindR (ok_or (checked_add now duration_ms) (Protocol ''lease expiry overflow'')) (\<lambda>expiry.
       bindR (in_world new_v4) (\<lambda>lease_id.
       seqR (update_lease (set_grant lease_id now expiry))
      (seqR (save_lease x)
      (bindR the_runtime (\<lambda>r. ret [grant_message (rt_id r) lease_id expiry None])))))))"

definition begin_enrollment :: "host_ext \<Rightarrow> u64 \<Rightarrow> message list group_m" where
  "begin_enrollment x duration_ms =
     bindR already_enrolled (\<lambda>enrolled.
     if enrolled then lease_deny ''group_already_enrolled''
     else
       bindR (in_world unix_ms) (\<lambda>now.
       bindR (ok_or (checked_add now duration_ms) (Protocol ''lease expiry overflow'')) (\<lambda>expiry.
       bindR (in_world new_v4) (\<lambda>lease_id.
       bindR (in_world new_v4) (\<lambda>operation_id.
       bindR the_runtime (\<lambda>r.
       bindR (on_coordinator (begin_v6 (hx_journal x) operation_id Enrollment (Some lease_id)
                ''initial_enrollment'' (lm_vault_sequence (rt_lease r)))) (\<lambda>_.
       seqR (update_lease (\<lambda>l. (set_grant lease_id now expiry l)\<lparr>lm_state := Evicting,
               lm_pending_operation_id := Some operation_id\<rparr>))
      (seqR (save_lease x)
      (seqR (set_pending (Some (new_pending PendingEnrollment operation_id (Some lease_id) 0 None)))
      (seqR (record_operation_audit x operation_id ''enrollment'' ''started'' None)
      (ret [grant_message (rt_id r) lease_id expiry None,
            EvictRequest \<lparr>er_account_group_id = rt_id r, er_lease_id = Some lease_id,
              er_operation_id = operation_id, er_phase = EvictSnapshotRequired,
              er_reason = ''initial_enrollment''\<rparr>])))))))))))"

text \<open>The chunks of an injection, numbered as \<open>enumerate\<close> numbers them.\<close>

fun inject_messages ::
    "uuid \<Rightarrow> uuid \<Rightarrow> u32 \<Rightarrow> u32 \<Rightarrow> nat \<Rightarrow> cookie_record list list \<Rightarrow> message list fcp_result" where
  "inject_messages g lease_id chunk_count cookie_count index [] = Inr []"
| "inject_messages g lease_id chunk_count cookie_count index (cookies # chunks) =
     (if 2 ^ 32 \<le> index then Inl (Protocol ''inject chunk index exceeds u32'')
      else case inject_messages g lease_id chunk_count cookie_count (Suc index) chunks of Inl e \<Rightarrow> Inl e
      | Inr ms \<Rightarrow> Inr (CookiesInjectChunk \<lparr>ic_account_group_id = g, ic_lease_id = lease_id,
            ic_chunk_index = of_nat index, ic_chunk_count = chunk_count, ic_cookie_count = cookie_count,
            ic_cookies = cookies\<rparr> # ms))"

text \<open>\<open>u32::try_from\<close> of a length.\<close>

definition to_u32 :: "nat \<Rightarrow> string \<Rightarrow> u32 fcp_result" where
  "to_u32 n message = (if 2 ^ 32 \<le> n then Inl (Protocol message) else Inr (of_nat n))"

text \<open>Opening the authorizer on first use, and the one retry after a vanished credential.\<close>

definition ensure_authorizer :: "host_ext \<Rightarrow> path \<Rightarrow> authorizer group_m" where
  "ensure_authorizer x hello_credential =
     bindR (gets (fst \<circ> snd)) (\<lambda>held. case held of
       Some a \<Rightarrow> ret a
     | None \<Rightarrow> bindR (in_world (hx_open_or_create x hello_credential)) (\<lambda>a.
         seqR (modify (\<lambda>(r, _, s). (r, Some a, s))) (ret a)))"

definition authorize_with_recovery :: "host_ext \<Rightarrow> path \<Rightarrow> authorizer \<Rightarrow> consumed_capability group_m" where
  "authorize_with_recovery x hello_credential a =
     catchR (on_transactions (authorize_inject (hx_tx x) a)) (\<lambda>error.
       bindR (in_world (hx_recover_credential x a error hello_credential)) (\<lambda>(recovered, a').
       seqR (modify (\<lambda>(r, _, s). (r, Some a', s)))
            (if recovered then on_transactions (authorize_inject (hx_tx x) a') else fail error)))"

definition begin_inject :: "host_ext \<Rightarrow> path \<Rightarrow> u64 \<Rightarrow> message list group_m" where
  "begin_inject x hello_credential duration_ms =
     bindR the_runtime (\<lambda>r.
     bindR (if lm_state (rt_lease r) \<noteq> Sealed then ret False else with_transactions vault_exists) (\<lambda>sealed.
     if \<not> sealed then lease_deny ''group_not_sealed''
     else
       bindR (in_world unix_ms) (\<lambda>now.
       bindR (ensure_authorizer x hello_credential) (\<lambda>a.
       bindR (authorize_with_recovery x hello_credential a) (\<lambda>authorization.
       bindR (with_transactions (\<lambda>t. read_for_inject (hx_tx x) t authorization)) (\<lambda>payload.
       bindR (ok_or (checked_add now duration_ms) (Protocol ''lease expiry overflow'')) (\<lambda>expiry.
       bindR (in_world new_v4) (\<lambda>lease_id.
       seqR (update_lease (\<lambda>l. (set_grant lease_id now expiry l)\<lparr>lm_state := Leased,
               lm_pending_operation_id := None, lm_vault_sequence := vp_vault_sequence payload\<rparr>))
      (seqR (save_lease x)
      (seqR (audit_group x ''inject'' ''authorized'' (Some ''user_verified''))
      (bindR (of_result (to_u32 (length (vp_cookies payload)) ''inject cookie count exceeds u32'')) (\<lambda>cookie_count.
       bindR (of_result (chunk_cookie_records (hx_cookie_json x) (vp_cookies payload))) (\<lambda>chunks.
       bindR (of_result (to_u32 (length chunks) ''inject chunk count exceeds u32'')) (\<lambda>chunk_count.
       bindR (of_result (inject_messages (rt_id r) lease_id chunk_count cookie_count 0 chunks)) (\<lambda>messages.
         ret (grant_message (rt_id r) lease_id expiry (Some (cc_monotonic_sequence authorization))
              # messages))))))))))))))))"

definition handle_lease_request :: "host_ext \<Rightarrow> path \<Rightarrow> u16 \<Rightarrow> lease_request \<Rightarrow> message list group_m" where
  "handle_lease_request x hello_credential negotiated_protocol request =
     bindR the_runtime (\<lambda>r.
     if rt_pending r \<noteq> None then lease_deny ''operation_pending''
     else if has_unresolved (rt_operation_coordinator r) then lease_deny ''operation_recovery_required''
     else let policy = parameters (rt_policy r) in
     if monitoring_only policy then lease_deny ''monitoring_policy_has_no_lease''
     else case lr_purpose request of
       PurposeEnroll \<Rightarrow> if negotiated_protocol = PROTOCOL_VERSION
         then grant_enrollment_v7 x (lease_duration_ms policy)
         else begin_enrollment x (lease_duration_ms policy)
     | PurposeInject \<Rightarrow> begin_inject x hello_credential (lease_duration_ms policy))"

definition handle_inject_result :: "host_ext \<Rightarrow> inject_result \<Rightarrow> message list group_m" where
  "handle_inject_result x result =
     bindR the_runtime (\<lambda>r.
     seqR (reject (lm_state (rt_lease r) \<noteq> Leased \<or> lm_lease_id (rt_lease r) \<noteq> Some (ir_lease_id result))
             (Protocol ''inject result lease mismatch''))
    (if ir_success result \<and> ir_health_check result = ''restored''
     then seqR (audit_group x ''inject'' ''success'' None) (ret [])
     else seqR (audit_group x ''inject'' ''failed'' (Some (inject_failure_code (ir_health_check result))))
         (seqR (update_lease (\<lambda>l. l\<lparr>lm_state := Degraded\<rparr>)) (seqR (save_lease x) (ret [])))))"

subsection \<open>Session invalidation\<close>

fun invalidation_detail :: "session_invalidation_reason \<Rightarrow> string" where
  "invalidation_detail ExternalLogout = ''external_logout''"
| "invalidation_detail RestoreRejected = ''restore_rejected''"
| "invalidation_detail ScopeEmpty = ''scope_empty''"

definition invalidated_message :: "uuid \<Rightarrow> session_invalidation_reason \<Rightarrow> message" where
  "invalidated_message g reason = SessionInvalidated \<lparr>sd_account_group_id = g, sd_reason = reason\<rparr>"

definition invalidate_session :: "host_ext \<Rightarrow> session_invalidation_reason \<Rightarrow> message list group_m" where
  "invalidate_session x reason =
     bindR the_runtime (\<lambda>r.
     seqR (with_transactions invalidate)
    (seqR (update_lease (\<lambda>l. (clear_lease Uninitialized l)\<lparr>lm_vault_sequence := 0\<rparr>))
    (seqR (save_lease x)
    (seqR (audit_group x ''session_invalidation'' ''success'' (Some (invalidation_detail reason)))
          (ret [invalidated_message (rt_id r) reason])))))"

definition handle_session_invalidate :: "host_ext \<Rightarrow> session_invalidate \<Rightarrow> message list group_m" where
  "handle_session_invalidate x request =
     bindR the_runtime (\<lambda>r.
     seqR (reject (rt_pending r \<noteq> None) (Protocol ''session invalidation refused while an operation is pending''))
    (if lm_state (rt_lease r) = Uninitialized then ret [invalidated_message (rt_id r) (si_reason request)]
     else seqR (reject (si_lease_id request \<noteq> None \<and> si_lease_id request \<noteq> lm_lease_id (rt_lease r))
                  (Protocol ''session invalidation lease mismatch''))
               (invalidate_session x (si_reason request))))"

definition handle_auth_cache_clear :: "host_ext \<Rightarrow> auth_cache_clear \<Rightarrow> message list group_m" where
  "handle_auth_cache_clear x request =
     seqR (reject (ac_reason request \<noteq> ''locked'' \<and> ac_reason request \<noteq> ''policy_changed'')
             (Protocol ''unsupported auth cache clear reason''))
    (seqR (audit_group x ''auth_cache'' ''cleared'' (Some ''lock_or_policy'')) (ret []))"

subsection \<open>Evictions and snapshots\<close>

definition is_reconciliation :: "evict_request \<Rightarrow> lease_metadata \<Rightarrow> bool" where
  "is_reconciliation request l \<longleftrightarrow> er_reason request = ''startup_reconciliation'' \<and> lm_state l \<noteq> Uninitialized"

text \<open>The three other situations in which an eviction may start.\<close>

definition eviction_allowed :: "evict_request \<Rightarrow> lease_metadata \<Rightarrow> bool" where
  "eviction_allowed request l \<longleftrightarrow>
     lm_state l = Leased \<and> lm_lease_id l = er_lease_id request \<and> er_lease_id request \<noteq> None
     \<or> lm_state l = Sealed \<and> er_lease_id request = None \<and> er_reason request = ''site_cookie_recreated''
     \<or> lm_state l = Degraded \<and> lm_lease_id l = er_lease_id request \<and> er_lease_id request \<noteq> None
       \<and> er_reason request = ''degraded_cookie_detected''"

definition handle_evict_begin :: "host_ext \<Rightarrow> evict_request \<Rightarrow> message list group_m" where
  "handle_evict_begin x request =
     seqR (reject (er_phase request \<noteq> EvictBegin) (Protocol ''extension may send only evict.request phase=begin''))
    (bindR the_runtime (\<lambda>r.
     seqR (reject (rt_pending r \<noteq> None) (Protocol ''another operation is pending for group''))
    (let reconciling = is_reconciliation request (rt_lease r) in
     seqR (reject (\<not> reconciling \<and> \<not> eviction_allowed request (rt_lease r))
             (Protocol ''eviction request is not valid for current group lease''))
    (seqR (if reconciling
           then on_coordinator (prepare_for_v6_reconciliation (hx_journal x) (vault_path (rt_transactions r)))
           else reject (has_unresolved (rt_operation_coordinator r))
                  (Protocol ''operation recovery is required before a new eviction''))
    (bindR (on_coordinator (begin_v6 (hx_journal x) (er_operation_id request)
              (if reconciling then Reconciliation else Eviction) (er_lease_id request) (er_reason request)
              (lm_vault_sequence (rt_lease r)))) (\<lambda>_.
     seqR (update_lease (\<lambda>l. l\<lparr>lm_state := Evicting, lm_pending_operation_id := Some (er_operation_id request)\<rparr>))
    (seqR (save_lease x)
    (seqR (set_pending (Some (new_pending (if reconciling then PendingReconciliation else PendingEviction)
             (er_operation_id request) (er_lease_id request) 0 None)))
    (seqR (record_operation_audit x (er_operation_id request)
             (if reconciling then ''reconciliation'' else ''eviction'') ''started'' None)
    (ret [EvictRequest \<lparr>er_account_group_id = rt_id r, er_lease_id = er_lease_id request,
            er_operation_id = er_operation_id request, er_phase = EvictSnapshotRequired,
            er_reason = er_reason request\<rparr>]))))))))))"

text \<open>The checks on one chunk; the result is the byte and cookie total with it.\<close>

definition check_chunk ::
    "host_ext \<Rightarrow> pending_operation \<Rightarrow> cookies_snapshot_chunk \<Rightarrow> (nat \<times> nat) fcp_result" where
  "check_chunk x pending snapshot =
     (if po_operation_id pending \<noteq> sn_operation_id snapshot \<or> po_lease_id pending \<noteq> sn_lease_id snapshot
      then Inl (Protocol ''snapshot operation binding mismatch'')
      else if po_confirmed pending then Inl (Protocol ''duplicate snapshot received'')
      else if sn_chunk_count snapshot = 0 \<or> sn_chunk_count snapshot > 65536
      then Inl (Protocol ''snapshot chunk count is out of range'')
      else if sn_cookie_count snapshot > MAX_SNAPSHOT_COOKIES
      then Inl (Protocol ''snapshot cookie count is out of range'')
      else if sn_chunk_index snapshot \<noteq> po_snapshot_next_chunk pending
      then Inl (Protocol ''snapshot chunk is missing or out of order'')
      else if (case po_snapshot_chunk_count pending of Some v \<Rightarrow> v \<noteq> sn_chunk_count snapshot | None \<Rightarrow> False)
      then Inl (Protocol ''snapshot chunk total changed'')
      else if sn_chunk_index snapshot + 1 < sn_chunk_count snapshot \<and> sn_cookies snapshot = []
      then Inl (Protocol ''non-final snapshot chunk is empty'')
      else case to_bytes (hx_cookies_json x) (sn_cookies snapshot) of Inl e \<Rightarrow> Inl e
      | Inr chunk \<Rightarrow> (case checked_add_usize (po_snapshot_bytes pending) (length chunk) of
          None \<Rightarrow> Inl (Protocol ''snapshot byte count overflow'')
        | Some bytes \<Rightarrow>
            if bytes > MAX_SNAPSHOT_BYTES then Inl (Protocol ''snapshot exceeds aggregate byte limit'')
            else case checked_add_usize (length (po_snapshot_cookies pending)) (length (sn_cookies snapshot)) of
              None \<Rightarrow> Inl (Protocol ''snapshot cookie count overflow'')
            | Some count \<Rightarrow>
                if count > unat (sn_cookie_count snapshot)
                then Inl (Protocol ''snapshot contains more cookies than declared'')
                else Inr (bytes, count)))"

definition accept_chunk :: "cookies_snapshot_chunk \<Rightarrow> nat \<Rightarrow> pending_operation \<Rightarrow> pending_operation" where
  "accept_chunk snapshot bytes pending =
     pending\<lparr>po_snapshot_chunk_count := Some (sn_chunk_count snapshot),
       po_snapshot_next_chunk := po_snapshot_next_chunk pending + 1, po_snapshot_bytes := bytes,
       po_snapshot_cookies := po_snapshot_cookies pending @ sn_cookies snapshot\<rparr>"

definition abort_empty_enrollment :: "host_ext \<Rightarrow> cookies_snapshot_chunk \<Rightarrow> message list group_m" where
  "abort_empty_enrollment x snapshot =
     bindR the_runtime (\<lambda>r.
     seqR (on_coordinator (abort (hx_journal x) (sn_operation_id snapshot)))
    (seqR (update_lease (clear_lease Uninitialized))
    (seqR (save_lease x)
    (seqR (record_operation_audit x (sn_operation_id snapshot) ''enrollment'' ''aborted'' (Some ''scope_empty''))
          (ret [invalidated_message (rt_id r) ScopeEmpty])))))"

definition confirmed_message :: "uuid \<Rightarrow> pending_operation \<Rightarrow> cookies_snapshot_chunk \<Rightarrow> u64 \<Rightarrow> message" where
  "confirmed_message g pending snapshot vault_sequence = EvictConfirmed
     \<lparr>ec_account_group_id = g, ec_lease_id = sn_lease_id snapshot, ec_operation_id = sn_operation_id snapshot,
      ec_vault_sequence = vault_sequence,
      ec_cookie_disposition = (if po_kind pending = PendingEnrollment then RetainLeased else Remove),
      ec_operation_sequence = None, ec_attempt_id = None\<rparr>"

text \<open>
  From the complete snapshot to the confirmation: prepare, commit through the coordinator, record
  the vault sequence, audit, and wait for the browser.
\<close>

definition announce_commit ::
    "host_ext \<Rightarrow> pending_operation \<Rightarrow> cookies_snapshot_chunk \<Rightarrow> u64 \<Rightarrow> message list group_m" where
  "announce_commit x pending snapshot vault_sequence =
     bindR the_runtime (\<lambda>r.
     seqR (update_lease (\<lambda>l. l\<lparr>lm_vault_sequence := vault_sequence,
             lm_pending_operation_id := Some (sn_operation_id snapshot)\<rparr>))
    (seqR (restoring pending (persist_lease x))
    (seqR (record_operation_audit x (sn_operation_id snapshot) ''vault_snapshot'' ''verified'' None)
    (seqR (restoring pending (on_coordinator (mark_external_result_pending (hx_journal x) (sn_operation_id snapshot))))
    (seqR (set_pending (Some pending))
          (ret [confirmed_message (rt_id r) pending snapshot vault_sequence]))))))"

definition commit_pending ::
    "host_ext \<Rightarrow> pending_operation \<Rightarrow> cookies_snapshot_chunk \<Rightarrow> cookie_record list \<Rightarrow> message list group_m" where
  "commit_pending x pending snapshot cookies =
     bindR (of_result (to_u32 (length cookies) ''snapshot cookie count exceeds u32'')) (\<lambda>cookie_count.
     bindR (of_result (to_bytes (hx_cookies_json x) cookies)) (\<lambda>canonical_snapshot.
     bindR (restoring pending (with_transactions (\<lambda>t. prepare_after_snapshot (hx_tx x) t cookies))) (\<lambda>prepared.
     bindR the_runtime (\<lambda>r.
     bindR (restoring pending (on_coordinator (commit_snapshot (hx_journal x) (hx_tx x) (sn_operation_id snapshot)
              canonical_snapshot cookie_count prepared (rt_transactions r)))) (\<lambda>vault_sequence.
       announce_commit x (pending\<lparr>po_confirmed := True, po_snapshot_cookie_count := Some cookie_count\<rparr>)
         snapshot vault_sequence)))))"

definition finish_snapshot :: "host_ext \<Rightarrow> pending_operation \<Rightarrow> cookies_snapshot_chunk \<Rightarrow> message list group_m" where
  "finish_snapshot x pending snapshot =
     seqR (set_pending None)
    (let cookies = po_snapshot_cookies pending; pending = pending\<lparr>po_snapshot_cookies := []\<rparr> in
     if po_kind pending = PendingEnrollment \<and> cookies = [] then abort_empty_enrollment x snapshot
     else commit_pending x pending snapshot cookies)"

definition handle_snapshot_chunk :: "host_ext \<Rightarrow> cookies_snapshot_chunk \<Rightarrow> message list group_m" where
  "handle_snapshot_chunk x snapshot =
     bindR the_runtime (\<lambda>r.
     bindR (ok_or (rt_pending r) (Protocol ''snapshot chunk received without pending eviction'')) (\<lambda>pending.
     bindR (of_result (check_chunk x pending snapshot)) (\<lambda>(bytes, count).
     let pending = accept_chunk snapshot bytes pending in
     seqR (set_pending (Some pending))
    (if po_snapshot_next_chunk pending < sn_chunk_count snapshot then ret []
     else seqR (reject (count \<noteq> unat (sn_cookie_count snapshot))
                  (Protocol ''snapshot cookie total does not match declaration''))
               (finish_snapshot x pending snapshot)))))"

subsection \<open>Eviction results\<close>

definition enrollment_retained :: "pending_operation \<Rightarrow> evict_result \<Rightarrow> bool" where
  "enrollment_retained pending result \<longleftrightarrow> po_kind pending = PendingEnrollment \<and> et_success result
     \<and> po_snapshot_cookie_count pending = Some (et_remaining_cookie_count result)
     \<and> et_remaining_cookie_count result > 0"

definition handle_evict_result :: "host_ext \<Rightarrow> evict_result \<Rightarrow> message list group_m" where
  "handle_evict_result x result =
     bindR the_runtime (\<lambda>r.
     bindR (ok_or (rt_pending r) (Protocol ''evict result has no pending operation'')) (\<lambda>pending.
     seqR (reject (po_operation_id pending \<noteq> et_operation_id result \<or> po_lease_id pending \<noteq> et_lease_id result
                   \<or> \<not> po_confirmed pending) (Protocol ''evict result operation mismatch''))
    (seqR (set_pending None)
    (if enrollment_retained pending result
     then seqR (on_coordinator (complete (hx_journal x) (et_operation_id result)))
         (seqR (update_lease (\<lambda>l. l\<lparr>lm_state := Leased, lm_pending_operation_id := None\<rparr>))
         (seqR (save_lease x)
         (seqR (record_operation_audit x (et_operation_id result) ''enrollment'' ''success'' None) (ret []))))
     else if po_kind pending \<noteq> PendingEnrollment \<and> et_success result \<and> et_remaining_cookie_count result = 0
     then seqR (on_coordinator (complete (hx_journal x) (et_operation_id result)))
         (seqR (update_lease (clear_lease Sealed))
         (seqR (save_lease x)
         (seqR (record_operation_audit x (et_operation_id result)
                  (if po_kind pending = PendingEviction then ''eviction'' else ''reconciliation'') ''success'' None)
               (ret []))))
     else seqR (on_coordinator (require_reconciliation (hx_journal x) (et_operation_id result)))
         (seqR (update_lease (\<lambda>l. l\<lparr>lm_state := Degraded, lm_pending_operation_id := None\<rparr>))
         (seqR (save_lease x)
         (seqR (if po_kind pending = PendingEnrollment
                then record_operation_audit x (et_operation_id result) ''enrollment'' ''failed''
                       (Some ''retained_cookie_count_mismatch'')
                else record_operation_audit x (et_operation_id result) ''eviction'' ''failed''
                       (Some ''cookies_remain''))
               (ret []))))))))"

subsection \<open>Protocol 7\<close>

record cookies_snapshot_chunk_v7 =
  s7_account_group_id :: uuid
  s7_operation_id :: uuid
  s7_operation_sequence :: u64
  s7_lease_id :: "uuid option"
  s7_attempt_id :: uuid
  s7_purpose :: string
  s7_chunk_index :: u32
  s7_chunk_count :: u32
  s7_cookie_count :: u32
  s7_cookies :: "cookie_record list"

record evict_result_v7 =
  e7_account_group_id :: uuid
  e7_operation_id :: uuid
  e7_operation_sequence :: u64
  e7_lease_id :: "uuid option"
  e7_attempt_id :: uuid
  e7_success :: bool
  e7_remaining_cookie_count :: u32

fun phase_name :: "operation_phase \<Rightarrow> string" where
  "phase_name PhNotCommitted = ''notcommitted''"
| "phase_name PhDurabilityUnknown = ''durabilityunknown''"
| "phase_name PhCommitted = ''committed''"
| "phase_name BrowserRemovalPending = ''browserremovalpending''"
| "phase_name Completed = ''completed''"
| "phase_name Aborted = ''aborted''"
| "phase_name ReconciliationRequired = ''reconciliationrequired''"

fun required_action :: "operation_phase \<Rightarrow> operation_required_action" where
  "required_action PhNotCommitted = SendSnapshot"
| "required_action PhDurabilityUnknown = ClassifyDurability"
| "required_action PhCommitted = PrepareRemoval"
| "required_action BrowserRemovalPending = PrepareRemoval"
| "required_action Completed = ActionCompleted"
| "required_action Aborted = ActionCompleted"
| "required_action ReconciliationRequired = ActionReconciliationRequired"

definition semantic_status :: "uuid \<Rightarrow> journal_operation \<Rightarrow> message" where
  "semantic_status g operation = OperationStatus
     \<lparr>ot_account_group_id = g, ot_operation_id = jo_operation_id operation,
      ot_operation_sequence = jo_sequence operation, ot_lease_id = jo_lease_id operation,
      ot_phase = phase_name (jo_phase operation), ot_required_action = required_action (jo_phase operation)\<rparr>"

definition snapshot_required :: "uuid \<Rightarrow> uuid \<Rightarrow> u64 \<Rightarrow> uuid option \<Rightarrow> uuid \<Rightarrow> message" where
  "snapshot_required g operation_id sequence lease_id attempt_id = OperationSnapshotRequired
     \<lparr>os_account_group_id = g, os_operation_id = operation_id, os_operation_sequence = sequence,
      os_lease_id = lease_id, os_attempt_id = attempt_id\<rparr>"

fun pending_of_kind :: "operation_kind \<Rightarrow> pending_kind" where
  "pending_of_kind Enrollment = PendingEnrollment"
| "pending_of_kind Eviction = PendingEviction"
| "pending_of_kind Reconciliation = PendingReconciliation"

definition begin_allowed :: "operation_begin \<Rightarrow> lease_metadata \<Rightarrow> bool" where
  "begin_allowed request l = (case ob_kind request of
       WireEnrollment \<Rightarrow> lm_state l = Uninitialized
     | WireEviction \<Rightarrow> lm_state l = Leased \<and> lm_lease_id l = ob_lease_id request \<and> ob_lease_id request \<noteq> None
     | WireReconciliation \<Rightarrow> lm_state l \<noteq> Uninitialized)"

text \<open>A repeated attempt is answered from the journal.\<close>

definition replay_begin :: "operation_begin \<Rightarrow> journal_operation \<Rightarrow> message list group_m" where
  "replay_begin request existing =
     bindR the_runtime (\<lambda>r.
     seqR (reject (jo_kind existing \<noteq> wire_kind (ob_kind request) \<or> jo_lease_id existing \<noteq> ob_lease_id request
                   \<or> jo_reason_code existing \<noteq> ob_reason request)
             (Protocol ''operation attempt was reused with different payload''))
    (ret [if jo_phase existing = PhNotCommitted
          then snapshot_required (rt_id r) (jo_operation_id existing) (jo_sequence existing)
                 (jo_lease_id existing) (ob_attempt_id request)
          else semantic_status (rt_id r) existing]))"

definition handle_operation_begin :: "host_ext \<Rightarrow> operation_begin \<Rightarrow> message list group_m" where
  "handle_operation_begin x request =
     bindR the_runtime (\<lambda>r.
     seqR (reject (ob_account_group_id request \<noteq> rt_id r \<or> is_nil (ob_attempt_id request))
             (Protocol ''operation begin identity is invalid''))
    (case operation_by_attempt (ob_attempt_id request) (rt_operation_coordinator r) of
       Some existing \<Rightarrow> replay_begin request existing
     | None \<Rightarrow>
         seqR (reject (\<not> begin_allowed request (rt_lease r) \<or> rt_pending r \<noteq> None)
                 (Protocol ''operation begin is invalid for current lease''))
        (bindR (on_coordinator (issue_v7 (hx_journal x) (ob_attempt_id request) (wire_kind (ob_kind request))
                  (ob_lease_id request) (ob_reason request) (lm_vault_sequence (rt_lease r)))) (\<lambda>operation.
         seqR (update_lease (\<lambda>l. l\<lparr>lm_state := Evicting, lm_pending_operation_id := Some (jo_operation_id operation),
                 lm_operation_sequence_high_water := jo_sequence operation\<rparr>))
        (seqR (save_lease x)
        (seqR (set_pending (Some (new_pending (pending_of_kind (wire_kind (ob_kind request)))
                 (jo_operation_id operation) (ob_lease_id request) (jo_sequence operation)
                 (Some (ob_attempt_id request)))))
        (ret [snapshot_required (rt_id r) (jo_operation_id operation) (jo_sequence operation)
                (ob_lease_id request) (ob_attempt_id request)])))))))"

text \<open>The operation a status query revives after a restart.\<close>

definition revived :: "journal_operation \<Rightarrow> pending_operation" where
  "revived operation =
     (new_pending (pending_of_kind (jo_kind operation)) (jo_operation_id operation) (jo_lease_id operation)
        (jo_sequence operation) (jo_attempt_id operation))
     \<lparr>po_confirmed := jo_phase operation = PhCommitted \<or> jo_phase operation = BrowserRemovalPending,
      po_snapshot_cookie_count := map_option sb_cookie_count (jo_snapshot operation)\<rparr>"

definition handle_operation_status :: "operation_status_query \<Rightarrow> message list group_m" where
  "handle_operation_status request =
     bindR the_runtime (\<lambda>r.
     seqR (reject (oq_account_group_id request \<noteq> rt_id r) (Protocol ''operation status group mismatch''))
    (bindR (ok_or (coord_operation (oq_operation_id request) (rt_operation_coordinator r))
              (Protocol ''unknown operation id'')) (\<lambda>operation.
     seqR (reject (jo_sequence operation \<noteq> oq_operation_sequence request \<or> jo_lease_id operation \<noteq> oq_lease_id request)
             (Protocol ''operation status binding mismatch''))
    (seqR (if rt_pending r = None \<and> \<not> is_terminal (jo_phase operation)
           then set_pending (Some (revived operation)) else ret ())
          (ret [semantic_status (rt_id r) operation])))))"

definition append_v7_chunk ::
    "host_ext \<Rightarrow> pending_operation \<Rightarrow> cookies_snapshot_chunk_v7 \<Rightarrow> fcp_error option \<times> pending_operation" where
  "append_v7_chunk x pending snapshot =
     (if s7_chunk_count snapshot = 0 \<or> s7_chunk_count snapshot > 65536 \<or> s7_cookie_count snapshot > MAX_SNAPSHOT_COOKIES
      then (Some (Protocol ''snapshot chunk metadata is out of range''), pending)
      else case to_bytes (hx_cookies_json x) (s7_cookies snapshot) of Inl e \<Rightarrow> (Some e, pending)
      | Inr encoded \<Rightarrow>
        let digest = hx_sha256 x encoded in
        if s7_chunk_index snapshot < po_snapshot_next_chunk pending
        then (if po_snapshot_chunk_digests pending (s7_chunk_index snapshot) = Some digest then None
              else Some (Protocol ''duplicate snapshot chunk payload conflict''), pending)
        else if s7_chunk_index snapshot \<noteq> po_snapshot_next_chunk pending
          \<or> (case po_snapshot_chunk_count pending of Some v \<Rightarrow> v \<noteq> s7_chunk_count snapshot | None \<Rightarrow> False)
        then (Some (Protocol ''snapshot chunk binding or order mismatch''), pending)
        else case checked_add_usize (po_snapshot_bytes pending) (length encoded) of
          None \<Rightarrow> (Some (Protocol ''snapshot byte count overflow''), pending)
        | Some next_bytes \<Rightarrow> (case checked_add_usize (length (po_snapshot_cookies pending)) (length (s7_cookies snapshot)) of
            None \<Rightarrow> (Some (Protocol ''snapshot cookie count overflow''), pending)
          | Some next_count \<Rightarrow>
            if next_bytes > MAX_SNAPSHOT_BYTES \<or> next_count > unat (s7_cookie_count snapshot)
            then (Some (Protocol ''snapshot aggregate declaration exceeded''), pending)
            else let pending = pending\<lparr>po_snapshot_chunk_count := Some (s7_chunk_count snapshot),
                       po_snapshot_chunk_digests := (po_snapshot_chunk_digests pending)(s7_chunk_index snapshot \<mapsto> digest),
                       po_snapshot_next_chunk := po_snapshot_next_chunk pending + 1,
                       po_snapshot_bytes := next_bytes,
                       po_snapshot_cookies := po_snapshot_cookies pending @ s7_cookies snapshot\<rparr> in
                 (if po_snapshot_next_chunk pending = s7_chunk_count snapshot \<and> next_count \<noteq> unat (s7_cookie_count snapshot)
                  then Some (Protocol ''snapshot cookie total does not match declaration'') else None, pending)))"

definition completed_message :: "uuid \<Rightarrow> uuid \<Rightarrow> u64 \<Rightarrow> uuid option \<Rightarrow> bool \<Rightarrow> message" where
  "completed_message g operation_id sequence lease_id success = OperationCompleted
     \<lparr>oc_account_group_id = g, oc_operation_id = operation_id, oc_operation_sequence = sequence,
      oc_lease_id = lease_id, oc_success = success\<rparr>"

definition handle_removal_snapshot_chunk :: "host_ext \<Rightarrow> cookies_snapshot_chunk_v7 \<Rightarrow> message list group_m" where
  "handle_removal_snapshot_chunk x snapshot =
     bindR the_runtime (\<lambda>r.
     bindR (ok_or (rt_pending r) (Protocol ''removal snapshot has no active operation'')) (\<lambda>pending.
     let (failure, pending) = append_v7_chunk x pending snapshot in
     seqR (set_pending (Some pending))
    (seqR (case failure of Some e \<Rightarrow> fail e | None \<Rightarrow> ret ())
    (if po_snapshot_next_chunk pending < s7_chunk_count snapshot then ret []
     else
       bindR (of_result (to_bytes (hx_cookies_json x) (po_snapshot_cookies pending))) (\<lambda>canonical.
       bindR (of_result (verify_snapshot (je_sha256 (hx_journal x)) (rt_operation_coordinator r) (s7_operation_id snapshot)
                (s7_operation_sequence snapshot) (s7_attempt_id snapshot) canonical)) (\<lambda>matches.
       if \<not> matches
       then seqR (on_coordinator (require_reconciliation (hx_journal x) (s7_operation_id snapshot)))
           (seqR (update_lease (\<lambda>l. l\<lparr>lm_state := Degraded\<rparr>))
           (seqR (save_lease x)
           (seqR (set_pending None)
           (ret [completed_message (rt_id r) (s7_operation_id snapshot) (s7_operation_sequence snapshot)
                   (s7_lease_id snapshot) False]))))
       else ret [EvictRemoveAuthorized \<lparr>ea_account_group_id = rt_id r, ea_operation_id = s7_operation_id snapshot,
                   ea_operation_sequence = s7_operation_sequence snapshot, ea_lease_id = s7_lease_id snapshot,
                   ea_attempt_id = s7_attempt_id snapshot\<rparr>]))))))"

definition v6_chunk :: "cookies_snapshot_chunk_v7 \<Rightarrow> cookies_snapshot_chunk" where
  "v6_chunk s = \<lparr>sn_account_group_id = s7_account_group_id s, sn_lease_id = s7_lease_id s,
     sn_operation_id = s7_operation_id s, sn_chunk_index = s7_chunk_index s, sn_chunk_count = s7_chunk_count s,
     sn_cookie_count = s7_cookie_count s, sn_cookies = s7_cookies s, sn_operation_sequence = None,
     sn_attempt_id = None, sn_purpose = None\<rparr>"

fun bind_confirmation :: "u64 \<Rightarrow> uuid \<Rightarrow> message \<Rightarrow> message" where
  "bind_confirmation sequence att (EvictConfirmed v) =
     EvictConfirmed (v\<lparr>ec_operation_sequence := Some sequence, ec_attempt_id := Some att\<rparr>)"
| "bind_confirmation sequence att m = m"

text \<open>Every identity a version 7 chunk must repeat.\<close>

definition v7_bound :: "group_runtime \<Rightarrow> pending_operation \<Rightarrow> cookies_snapshot_chunk_v7 \<Rightarrow> bool" where
  "v7_bound r pending s \<longleftrightarrow> s7_account_group_id s = rt_id r \<and> po_operation_id pending = s7_operation_id s
     \<and> po_operation_sequence pending = s7_operation_sequence s \<and> po_lease_id pending = s7_lease_id s
     \<and> po_attempt_id pending = Some (s7_attempt_id s)"

definition process_v7_chunk :: "host_ext \<Rightarrow> cookies_snapshot_chunk_v7 \<Rightarrow> message list group_m" where
  "process_v7_chunk x snapshot =
     (if s7_purpose snapshot = ''removal_precheck'' then handle_removal_snapshot_chunk x snapshot
      else seqR (reject (s7_purpose snapshot \<noteq> ''commit'') (Protocol ''unknown snapshot purpose''))
          (bindR (handle_snapshot_chunk x (v6_chunk snapshot)) (\<lambda>output.
             ret (map (bind_confirmation (s7_operation_sequence snapshot) (s7_attempt_id snapshot)) output))))"

definition handle_snapshot_chunk_v7 :: "host_ext \<Rightarrow> cookies_snapshot_chunk_v7 \<Rightarrow> message list group_m" where
  "handle_snapshot_chunk_v7 x snapshot =
     bindR the_runtime (\<lambda>r.
     bindR (ok_or (rt_pending r) (Protocol ''snapshot has no active operation'')) (\<lambda>pending.
     seqR (reject (\<not> v7_bound r pending snapshot)
             (Protocol ''v7 snapshot operation/sequence/attempt binding mismatch''))
    (bindR (of_result (to_bytes (hx_cookies_json x) (s7_cookies snapshot))) (\<lambda>encoded.
     let digest = hx_sha256 x encoded in
     case po_snapshot_chunk_digests pending (s7_chunk_index snapshot) of
       Some existing \<Rightarrow> if existing = digest then ret []
         else fail (Protocol ''duplicate snapshot chunk payload conflict'')
     | None \<Rightarrow>
         seqR (set_pending (Some (pending\<lparr>po_snapshot_chunk_digests :=
                 (po_snapshot_chunk_digests pending)(s7_chunk_index snapshot \<mapsto> digest)\<rparr>)))
              (process_v7_chunk x snapshot)))))"

definition handle_remove_prepare :: "evict_remove_prepare \<Rightarrow> message list group_m" where
  "handle_remove_prepare request =
     bindR the_runtime (\<lambda>r.
     bindR (ok_or (rt_pending r) (Protocol ''removal prepare has no active operation'')) (\<lambda>pending.
     seqR (reject (ep_account_group_id request \<noteq> rt_id r \<or> po_operation_id pending \<noteq> ep_operation_id request
                   \<or> po_operation_sequence pending \<noteq> ep_operation_sequence request
                   \<or> po_lease_id pending \<noteq> ep_lease_id request
                   \<or> po_attempt_id pending \<noteq> Some (ep_attempt_id request) \<or> \<not> po_confirmed pending)
             (Protocol ''removal prepare binding mismatch''))
    (seqR (set_pending (Some (pending\<lparr>po_snapshot_cookie_count := None, po_snapshot_chunk_count := None,
             po_snapshot_next_chunk := 0, po_snapshot_cookies := [], po_snapshot_bytes := 0,
             po_snapshot_chunk_digests := Map.empty\<rparr>)))
          (ret []))))"

definition handle_evict_result_v7 :: "host_ext \<Rightarrow> evict_result_v7 \<Rightarrow> message list group_m" where
  "handle_evict_result_v7 x result =
     bindR the_runtime (\<lambda>r.
     bindR (ok_or (rt_pending r) (Protocol ''evict result has no active operation'')) (\<lambda>pending.
     seqR (reject (e7_account_group_id result \<noteq> rt_id r \<or> po_operation_sequence pending \<noteq> e7_operation_sequence result
                   \<or> po_attempt_id pending \<noteq> Some (e7_attempt_id result))
             (Protocol ''v7 evict result binding mismatch''))
    (let completion_success = e7_success result \<and>
           (if po_kind pending = PendingEnrollment then e7_remaining_cookie_count result > 0
            else e7_remaining_cookie_count result = 0) in
     bindR (handle_evict_result x
              \<lparr>et_account_group_id = e7_account_group_id result, et_lease_id = e7_lease_id result,
               et_operation_id = e7_operation_id result, et_success = e7_success result,
               et_remaining_cookie_count = e7_remaining_cookie_count result,
               et_operation_sequence = None, et_attempt_id = None\<rparr>) (\<lambda>_.
     ret [completed_message (rt_id r) (e7_operation_id result) (e7_operation_sequence result)
            (e7_lease_id result) completion_success]))))"

subsection \<open>Routing within the group\<close>

definition to_chunk_v7 :: "cookies_snapshot_chunk \<Rightarrow> cookies_snapshot_chunk_v7 fcp_result" where
  "to_chunk_v7 s = (case sn_operation_sequence s of
       None \<Rightarrow> Inl (Protocol ''v7 snapshot lacks operation sequence'')
     | Some sequence \<Rightarrow> (case sn_attempt_id s of
         None \<Rightarrow> Inl (Protocol ''v7 snapshot lacks attempt id'')
       | Some att \<Rightarrow> (case sn_purpose s of
           None \<Rightarrow> Inl (Protocol ''v7 snapshot lacks purpose'')
         | Some purpose \<Rightarrow> Inr \<lparr>s7_account_group_id = sn_account_group_id s, s7_operation_id = sn_operation_id s,
             s7_operation_sequence = sequence, s7_lease_id = sn_lease_id s, s7_attempt_id = att,
             s7_purpose = purpose, s7_chunk_index = sn_chunk_index s, s7_chunk_count = sn_chunk_count s,
             s7_cookie_count = sn_cookie_count s, s7_cookies = sn_cookies s\<rparr>)))"

definition to_result_v7 :: "evict_result \<Rightarrow> evict_result_v7 fcp_result" where
  "to_result_v7 t = (case et_operation_sequence t of
       None \<Rightarrow> Inl (Protocol ''v7 result lacks operation sequence'')
     | Some sequence \<Rightarrow> (case et_attempt_id t of
         None \<Rightarrow> Inl (Protocol ''v7 result lacks attempt id'')
       | Some att \<Rightarrow> Inr \<lparr>e7_account_group_id = et_account_group_id t, e7_operation_id = et_operation_id t,
           e7_operation_sequence = sequence, e7_lease_id = et_lease_id t, e7_attempt_id = att,
           e7_success = et_success t, e7_remaining_cookie_count = et_remaining_cookie_count t\<rparr>))"

definition host_only :: "message list group_m" where
  "host_only = fail (Protocol ''message direction is host-to-extension only'')"

definition group_handle :: "host_ext \<Rightarrow> path \<Rightarrow> u16 \<Rightarrow> message \<Rightarrow> message list group_m" where
  "group_handle x hello_credential negotiated_protocol message =
     (let v7 = negotiated_protocol = PROTOCOL_VERSION in
      case message of
        LeaseRequest request \<Rightarrow> handle_lease_request x hello_credential negotiated_protocol request
      | InjectResult result \<Rightarrow> handle_inject_result x result
      | EvictRequest request \<Rightarrow> handle_evict_begin x request
      | CookiesSnapshotChunk snapshot \<Rightarrow>
          if v7 then bindR (of_result (to_chunk_v7 snapshot)) (handle_snapshot_chunk_v7 x)
          else handle_snapshot_chunk x snapshot
      | EvictResult result \<Rightarrow>
          if v7 then bindR (of_result (to_result_v7 result)) (handle_evict_result_v7 x)
          else handle_evict_result x result
      | OperationBegin request \<Rightarrow> if v7 then handle_operation_begin x request else host_only
      | OperationStatusQuery request \<Rightarrow> if v7 then handle_operation_status request else host_only
      | EvictRemovePrepare request \<Rightarrow> if v7 then handle_remove_prepare request else host_only
      | SessionInvalidate request \<Rightarrow> handle_session_invalidate x request
      | AuthCacheClear request \<Rightarrow> handle_auth_cache_clear x request
      | _ \<Rightarrow> host_only)"

end
