(* ===== verification/Data_Paths.thy ===== *)
theory Data_Paths
  imports World Audit_Log
begin

text \<open>
  \<open>paths.rs\<close>: the layout of a profile's data directory, the migration of the older layouts and
  the removal of a group's projections. The environment variables that select the base directory
  are resolved by the caller, so the base directory is an argument.
\<close>

record data_paths =
  dp_root :: path
  dp_vault_groups :: path
  dp_lease_groups :: path
  dp_capability_ledgers :: path
  dp_legacy_lease_metadata :: path
  dp_legacy_capability_ledger :: path
  dp_account_groups_config :: path
  dp_audit_directory :: path
  dp_hello_credential :: path
  dp_kek_key :: path
  dp_operation_journals :: path
  dp_snapshot_integrity_key :: path

definition from_root :: "path \<Rightarrow> data_paths" where
  "from_root root =
     \<lparr>dp_root = root,
      dp_vault_groups = root @ [Name ''vault'', Name ''groups''],
      dp_lease_groups = root @ [Name ''leases'', Name ''groups''],
      dp_capability_ledgers = root @ [Name ''leases'', Name ''capabilities''],
      dp_legacy_lease_metadata = root @ [Name ''leases'', Name ''mvp-group.json''],
      dp_legacy_capability_ledger = root @ [Name ''leases'', Name ''capability-ledger.json''],
      dp_account_groups_config = root @ [Name ''config'', Name ''account-groups.json''],
      dp_audit_directory = root @ [Name ''audit''],
      dp_hello_credential = root @ [Name ''hello-credential.json''],
      dp_kek_key = root @ [Name ''kek-key.json''],
      dp_operation_journals = root @ [Name ''operations'', Name ''groups''],
      dp_snapshot_integrity_key = root @ [Name ''operations'', Name ''snapshot-key.dpapi'']\<rparr>"

definition lease_path :: "data_paths \<Rightarrow> uuid \<Rightarrow> path" where
  "lease_path p g = dp_lease_groups p @ [IdName g ''.json'']"

definition capability_path :: "data_paths \<Rightarrow> uuid \<Rightarrow> path" where
  "capability_path p g = dp_capability_ledgers p @ [IdName g ''.json'']"

definition operation_journal_path :: "data_paths \<Rightarrow> uuid \<Rightarrow> path" where
  "operation_journal_path p g = dp_operation_journals p @ [IdName g ''.json'']"

text \<open>\<open>Path::extension\<close> equals \<open>json\<close>: the name ends in \<open>.json\<close> and has more before it.\<close>

definition has_json_extension :: "path \<Rightarrow> bool" where
  "has_json_extension p = (case file_name p of None \<Rightarrow> False
     | Some s \<Rightarrow> ends_with (seg_text s) ''.json'' \<and> 5 < length (seg_text s))"

definition operation_journals_exist :: "data_paths \<Rightarrow> (world, bool) host" where
  "operation_journals_exist p =
     bindR (fs_exists (dp_operation_journals p)) (\<lambda>present.
     if \<not> present then ret False
     else bindR (fs_read_dir (dp_operation_journals p)) (\<lambda>entries. ret (list_ex has_json_extension entries)))"

text \<open>\<open>fs::remove_file\<close> where a missing file counts as removed.\<close>

definition remove_if_there :: "path \<Rightarrow> (world, unit) host" where
  "remove_if_there p = catchR (fs_remove_file p) (\<lambda>e. if e = Io NotFound then ret () else fail e)"

definition remove_group_projections :: "data_paths \<Rightarrow> uuid \<Rightarrow> (world, unit) host" where
  "remove_group_projections p g =
     seqR (remove_if_there (lease_path p g))
    (seqR (remove_if_there (capability_path p g))
          (remove_if_there (operation_journal_path p g)))"

text \<open>
  \<open>fs::rename\<close> of a file or a whole directory: everything at or below the source moves; a file
  at the target is replaced, a directory there makes the call fail.
\<close>

definition is_directory :: "world \<Rightarrow> path \<Rightarrow> bool" where
  "is_directory w p \<longleftrightarrow> List.member (dirs w) p \<or> list_ex (strict_prefix p) (map fst (files w))"

definition fs_rename_tree :: "path \<Rightarrow> path \<Rightarrow> (world, unit) host" where
  "fs_rename_tree src dst = io_call no_effect (\<lambda>w.
     if \<not> is_present w src then (Inl (Io NotFound), w)
     else if is_directory w dst then (Inl (Io OtherIo), w)
     else (Inr (), w\<lparr>files := map (\<lambda>(p, bs). (move_below src dst p, bs)) (AList.delete dst (files w)),
                    dirs := map (move_below src dst) (dirs w)\<rparr>))"

definition migrate_one :: "path \<Rightarrow> path \<Rightarrow> (world, unit) host" where
  "migrate_one legacy target =
     bindR (fs_exists legacy) (\<lambda>old.
     bindR (if old then fs_exists target else ret True) (\<lambda>skip.
     if skip then ret ()
     else seqR (case path_parent target of Some parent \<Rightarrow> fs_create_dir_all parent | None \<Rightarrow> ret ())
               (fs_rename_tree legacy target)))"

definition migrate_phase5_group :: "data_paths \<Rightarrow> uuid \<Rightarrow> (world, unit) host" where
  "migrate_phase5_group p g =
     seqR (migrate_one (dp_legacy_lease_metadata p) (lease_path p g))
          (migrate_one (dp_legacy_capability_ledger p) (capability_path p g))"

definition legacy_items :: "string list" where
  "legacy_items = [''vault'', ''leases'', ''config'', ''audit'']"

fun any_exists :: "path list \<Rightarrow> (world, bool) host" where
  "any_exists [] = ret False"
| "any_exists (p # ps) = bindR (fs_exists p) (\<lambda>present. if present then ret True else any_exists ps)"

fun migrate_all :: "(path \<times> path) list \<Rightarrow> (world, unit) host" where
  "migrate_all [] = ret ()"
| "migrate_all ((legacy, target) # rest) = seqR (migrate_one legacy target) (migrate_all rest)"

text \<open>\<open>fs::read_to_string(..).trim()\<close>.\<close>

definition bytes_text :: "byte list \<Rightarrow> string" where
  "bytes_text bs = map (\<lambda>b. char_of (unat b)) bs"

definition read_to_string :: "path \<Rightarrow> (world, string) host" where
  "read_to_string p = bindR (fs_read p) (\<lambda>bs.
     if valid_utf8 bs then ret (bytes_text bs) else fail (Io InvalidData))"

definition claim_migration :: "path \<Rightarrow> uuid \<Rightarrow> (world, string) host" where
  "claim_migration owner_path profile_id =
     bindR (attempt (fs_create_new owner_path)) (\<lambda>r. case r of
       Inr _ \<Rightarrow> seqR (fs_write_all owner_path (map byte_of_char (uuid_text profile_id)))
                  (seqR fs_sync (ret (uuid_text profile_id)))
     | Inl e \<Rightarrow> if e = Io AlreadyExists
                then bindR (read_to_string owner_path) (\<lambda>text. ret (trim text)) else fail e)"

definition migrate_legacy_profile ::
    "path \<Rightarrow> path \<Rightarrow> uuid \<Rightarrow> (world, unit) host" where
  "migrate_legacy_profile base target profile_id =
     bindR (any_exists (map (\<lambda>n. base @ [Name n]) legacy_items @ [base @ [Name ''hello-credential.json'']])) (\<lambda>has_legacy.
     if \<not> has_legacy then ret ()
     else seqR (fs_create_dir_all (base @ [Name ''profiles'']))
         (bindR (claim_migration (base @ [Name ''profile-migration-owner'']) profile_id) (\<lambda>owner.
          if owner \<noteq> uuid_text profile_id then ret ()
          else migrate_all (map (\<lambda>n. (base @ [n], target @ [n])) (map Name legacy_items @ [Name ''hello-credential.json''])))))"

definition discover_profile :: "path \<Rightarrow> uuid \<Rightarrow> (world, data_paths) host" where
  "discover_profile base profile_id =
     (let root = base @ [Name ''profiles'', IdName profile_id ''''] in
      seqR (migrate_legacy_profile base root profile_id) (ret (from_root root)))"

definition require_profiles_parent :: "data_paths \<Rightarrow> path fcp_result" where
  "require_profiles_parent p = (case path_parent (dp_root p) of
       None \<Rightarrow> Inl (Protocol ''profile data root has no profiles directory'')
     | Some profiles \<Rightarrow> if file_name profiles \<noteq> Some (Name ''profiles'')
         then Inl (Protocol ''profile data root is outside the profiles directory'') else Inr profiles)"

definition sibling_profile :: "data_paths \<Rightarrow> uuid \<Rightarrow> data_paths fcp_result" where
  "sibling_profile p profile_id = (case require_profiles_parent p of Inl e \<Rightarrow> Inl e
     | Inr profiles \<Rightarrow> Inr (from_root (profiles @ [IdName profile_id ''''])))"

text \<open>The directories directly inside a directory, and the UUIDs their names spell.\<close>

definition child_dirs :: "world \<Rightarrow> path \<Rightarrow> path list" where
  "child_dirs w d = remdups (map (take (Suc (length d)))
     (filter (strict_prefix d) (dirs w) @ filter (\<lambda>p. prefix d p \<and> Suc (length d) < length p) (map fst (files w))))"

definition seg_uuid :: "(string \<Rightarrow> uuid option) \<Rightarrow> path \<Rightarrow> uuid option" where
  "seg_uuid parse p = (case file_name p of None \<Rightarrow> None | Some (IdName u s) \<Rightarrow> if s = [] then Some u else parse (uuid_text u @ s)
     | Some (Name s) \<Rightarrow> parse s)"

definition sibling_profile_roots :: "(string \<Rightarrow> uuid option) \<Rightarrow> data_paths \<Rightarrow> (world, (uuid \<times> path) list) host" where
  "sibling_profile_roots parse p =
     bindR (of_result (require_profiles_parent p)) (\<lambda>profiles.
     bindR (fs_exists profiles) (\<lambda>present.
     if \<not> present then ret []
     else io_call no_effect (\<lambda>w. (Inr (List.map_filter (\<lambda>d. map_option (\<lambda>u. (u, d)) (seg_uuid parse d))
            (child_dirs w profiles)), w))))"

text \<open>
  The base directory from the environment, on Unix. \<open>pathbuf\<close> is \<open>PathBuf::from\<close>; the Windows
  variant, which also renames an older directory, is not modelled.
\<close>

definition platform_root :: "(string \<Rightarrow> string option) \<Rightarrow> (string \<Rightarrow> path) \<Rightarrow> path fcp_result" where
  "platform_root var_os pathbuf =
     (let home = (case var_os ''HOME'' of None \<Rightarrow> Inl (Io NotFound)
            | Some home \<Rightarrow> Inr (pathbuf home @ [Name ''.local'', Name ''share'', Name ''fursoy-vault''])) in
      case var_os ''XDG_DATA_HOME'' of
        Some value \<Rightarrow> if value \<noteq> [] then Inr (pathbuf value @ [Name ''fursoy-vault'']) else home
      | None \<Rightarrow> home)"

definition discover_root :: "(string \<Rightarrow> string option) \<Rightarrow> (string \<Rightarrow> path) \<Rightarrow> path fcp_result" where
  "discover_root var_os pathbuf = (case var_os ''FCP_DATA_DIR'' of
       Some override_path \<Rightarrow> Inr (pathbuf override_path) | None \<Rightarrow> platform_root var_os pathbuf)"

text \<open>The Windows variant, which first moves the directory of the product's former name.\<close>

definition platform_root_windows :: "(string \<Rightarrow> string option) \<Rightarrow> (string \<Rightarrow> path) \<Rightarrow> (world, path) host" where
  "platform_root_windows var_os pathbuf = (case var_os ''LOCALAPPDATA'' of
       None \<Rightarrow> fail (Io NotFound)
     | Some value \<Rightarrow>
         let local_app_data = pathbuf value; root = local_app_data @ [Name ''FursoyVault''] in
         seqR (migrate_one (local_app_data @ [Name ''FursoyCookieProtector'']) root) (ret root))"

definition discover_for_export ::
    "(string \<Rightarrow> uuid option) \<Rightarrow> path \<Rightarrow> uuid option \<Rightarrow> (world, data_paths) host" where
  "discover_for_export parse base profile_id = (case profile_id of
       Some i \<Rightarrow> ret (from_root (base @ [Name ''profiles'', IdName i '''']))
     | None \<Rightarrow>
         let profiles_root = base @ [Name ''profiles''] in
         bindR (fs_exists profiles_root) (\<lambda>present.
         bindR (if \<not> present then ret []
                else io_call no_effect (\<lambda>w. (Inr (filter (\<lambda>d. seg_uuid parse d \<noteq> None) (child_dirs w profiles_root)), w)))
           (\<lambda>profiles. case profiles of
              [] \<Rightarrow> ret (from_root base)
            | [profile] \<Rightarrow> ret (from_root profile)
            | _ \<Rightarrow> fail (Protocol ''multiple browser profiles exist; select one with --profile''))))"

lemmas paths_defs [run_simps] =
  from_root_def lease_path_def capability_path_def operation_journal_path_def has_json_extension_def
  operation_journals_exist_def remove_if_there_def remove_group_projections_def is_directory_def
  fs_rename_tree_def migrate_one_def migrate_phase5_group_def

subsection \<open>The layout keeps the parts of a profile apart\<close>

lemma from_root_paths_differ:
  "lease_path (from_root r) g \<noteq> capability_path (from_root r) h"
  "lease_path (from_root r) g \<noteq> operation_journal_path (from_root r) h"
  "capability_path (from_root r) g \<noteq> operation_journal_path (from_root r) h"
  by (simp_all add: from_root_def lease_path_def capability_path_def operation_journal_path_def)

lemma wp_remove_if_there:
  "wp (remove_if_there p) (\<lambda>_ w'. lookup w' = (lookup w)(p := None)) (\<lambda>_ w'. lookup w' = lookup w) w"
  by (auto simp: remove_if_there_def wp_catchR wp_fs_remove_file wp_if wp_ret wp_fail fun_eq_iff split: option.split)

end
