(* ===== verification/Monitor.thy ===== *)
theory Monitor
  imports Audit_Log Messages Rust_String
begin

text \<open>
  \<open>monitor/mod.rs\<close> and \<open>monitor/process.rs\<close>: the bounded queue of monitor events, the
  memory of accepted event identifiers, polling, and the process observer that feeds the queue.
  The observer is a thread; it shares only the queue, under a mutex, so its calls interleave with
  those of the host between operations. What WMI and the signature check answer is an argument.
\<close>

subsection \<open>The engine\<close>

definition MAX_PENDING_EVENTS :: nat where "MAX_PENDING_EVENTS = 128"
definition MAX_POLL_EVENTS :: u16 where "MAX_POLL_EVENTS = 64"
definition MAX_ACCEPTED_EVENT_IDS :: nat where "MAX_ACCEPTED_EVENT_IDS = 512"

record monitor_engine =
  mo_pending :: "monitor_event list"
  mo_accepted_event_ids :: "uuid set"
  mo_accepted_event_order :: "uuid list"

type_synonym 'a queue_m = "(monitor_event list \<times> world, 'a) host"
type_synonym 'a engine_m = "(monitor_engine \<times> audit_logger \<times> world, 'a) host"

definition monitor_new :: monitor_engine where
  "monitor_new = \<lparr>mo_pending = [], mo_accepted_event_ids = {}, mo_accepted_event_order = []\<rparr>"

fun severity_outcome :: "monitor_severity \<Rightarrow> string" where
  "severity_outcome Info = ''info''"
| "severity_outcome Medium = ''warning''"
| "severity_outcome High = ''high''"

definition audit_event :: "audit_ext \<Rightarrow> monitor_event \<Rightarrow> unit audit_m" where
  "audit_event x event =
     (let outcome = severity_outcome (me_severity event) in
      case me_account_group_id event of
        Some group_id \<Rightarrow> audit_record x group_id ''monitor'' outcome (Some (me_event_id event))
          (Some (audit_code (me_signal event)))
      | None \<Rightarrow> record_system x ''monitor'' outcome (Some (audit_code (me_signal event))))"

definition push_back :: "'e \<Rightarrow> 'e list \<Rightarrow> 'e list" where
  "push_back e q = q @ [e]"

text \<open>\<open>pop_front\<close> with its result ignored: nothing happens on an empty queue.\<close>

definition drop_front :: "'e list \<Rightarrow> 'e list" where
  "drop_front q = tl q"

definition on_queue :: "('e list \<Rightarrow> 'e list) \<Rightarrow> ('e list \<times> world, unit) host" where
  "on_queue f = modify (\<lambda>(q, w). (f q, w))"

definition host_event :: "uuid \<Rightarrow> u64 \<Rightarrow> monitor_signal \<Rightarrow> monitor_event" where
  "host_event i now signal =
     \<lparr>me_event_id = i, me_observed_at_unix_ms = now, me_source = NativeHost, me_signal = signal,
      me_severity = severity signal, me_account_group_id = None, me_occurrence_count = 1\<rparr>"

definition enqueue_bounded :: "monitor_event \<Rightarrow> unit queue_m" where
  "enqueue_bounded event =
     bindR (gets (length \<circ> fst)) (\<lambda>n.
     seqR (if n = MAX_PENDING_EVENTS
           then seqR (on_queue drop_front)
                  (if me_signal event \<noteq> MonitorQueueOverflow
                   then bindR (on_snd new_v4) (\<lambda>i.
                        bindR (on_snd unix_ms) (\<lambda>now.
                        seqR (on_queue (push_back (host_event i now MonitorQueueOverflow)))
                             (on_queue drop_front)))
                   else ret ())
           else ret ())
          (on_queue (push_back event)))"

definition with_queue :: "'a queue_m \<Rightarrow> (monitor_engine \<times> world, 'a) host" where
  "with_queue m = (\<lambda>(g, w). case m (mo_pending g, w) of (r, (q, w')) \<Rightarrow> (r, (g\<lparr>mo_pending := q\<rparr>, w')))"

definition enqueue_host_event :: "monitor_event \<Rightarrow> (monitor_engine \<times> world, unit) host" where
  "enqueue_host_event event =
     seqR (of_result (monitor_event_validate event))
    (seqR (reject (me_source event \<noteq> NativeHost) (Protocol ''native monitor event has invalid source''))
          (with_queue (enqueue_bounded event)))"

definition remember_event :: "uuid \<Rightarrow> monitor_engine \<Rightarrow> monitor_engine" where
  "remember_event event_id g =
     (let g = (if card (mo_accepted_event_ids g) = MAX_ACCEPTED_EVENT_IDS then
                 (case mo_accepted_event_order g of
                    [] \<Rightarrow> g
                  | oldest # rest \<Rightarrow> g\<lparr>mo_accepted_event_ids := mo_accepted_event_ids g - {oldest},
                                     mo_accepted_event_order := rest\<rparr>)
               else g) in
      g\<lparr>mo_accepted_event_ids := insert event_id (mo_accepted_event_ids g),
        mo_accepted_event_order := push_back event_id (mo_accepted_event_order g)\<rparr>)"

definition accept_extension_event :: "audit_ext \<Rightarrow> monitor_event \<Rightarrow> message list engine_m" where
  "accept_extension_event x event =
     seqR (of_result (monitor_event_validate event))
    (seqR (reject (me_source event \<noteq> Extension) (Protocol ''extension monitor event has invalid source''))
    (bindR (gets (mo_accepted_event_ids \<circ> fst)) (\<lambda>accepted.
       if me_event_id event \<in> accepted then ret [MonitorAlert \<lparr>ml_event = event\<rparr>]
       else seqR (on_snd (audit_event x event))
           (seqR (modify (\<lambda>(g, s). (remember_event (me_event_id event) g, s)))
                 (ret [MonitorAlert \<lparr>ml_event = event\<rparr>])))))"

text \<open>The loop of \<open>poll\<close>: an event leaves the queue, is audited, and only then is answered.\<close>

fun poll_events :: "audit_ext \<Rightarrow> nat \<Rightarrow> message list engine_m" where
  "poll_events x 0 = ret []"
| "poll_events x (Suc n) =
     bindR (gets (mo_pending \<circ> fst)) (\<lambda>q. case q of
       [] \<Rightarrow> ret []
     | event # rest \<Rightarrow>
         seqR (modify (\<lambda>(g, s). (g\<lparr>mo_pending := rest\<rparr>, s)))
        (seqR (on_snd (audit_event x event))
        (bindR (poll_events x n) (\<lambda>messages. ret (MonitorAlert \<lparr>ml_event = event\<rparr> # messages)))))"

definition poll :: "audit_ext \<Rightarrow> monitor_poll \<Rightarrow> message list engine_m" where
  "poll x request =
     seqR (reject (mp_max_events request = 0 \<or> mp_max_events request > MAX_POLL_EVENTS)
             (Protocol ''monitor poll max_events is out of range''))
          (poll_events x (unat (mp_max_events request)))"

lemmas monitor_defs [run_simps] =
  MAX_PENDING_EVENTS_def MAX_POLL_EVENTS_def MAX_ACCEPTED_EVENT_IDS_def monitor_new_def
  audit_event_def push_back_def drop_front_def on_queue_def host_event_def enqueue_bounded_def
  with_queue_def enqueue_host_event_def remember_event_def accept_extension_event_def poll_def

subsection \<open>The process observer\<close>

text \<open>
  \<open>split_windows_arguments\<close>: the text is UTF-8, so a character is recognised as white space by
  its encoding. Every encoding of a white-space character starts with a byte that starts a
  character, so scanning the bytes finds white space exactly at character boundaries.
\<close>

definition space_at :: "string \<Rightarrow> string option" where
  "space_at cs = find (\<lambda>p. p \<noteq> [] \<and> prefix p cs) utf8_spaces"

function split_arguments :: "bool \<Rightarrow> string \<Rightarrow> string \<Rightarrow> string list" where
  "split_arguments quoted current [] = (if current = [] then [] else [current])"
| "split_arguments quoted current (c # cs) =
     (if c = CHR 0x22 then split_arguments (\<not> quoted) current cs
      else case (if quoted then None else space_at (c # cs)) of
        Some p \<Rightarrow> (if current = [] then [] else [current]) @ split_arguments quoted [] (drop (length p) (c # cs))
      | None \<Rightarrow> split_arguments quoted (current @ [c]) cs)"
  by pat_completeness auto
termination
proof (relation "measure (\<lambda>(_, _, cs). length cs)", goal_cases)
  case (4 quoted current c cs p)
  then have "p \<noteq> []" by (auto simp: space_at_def dest: find_SomeD split: if_splits)
  then show ?case by (cases p) auto
qed auto

definition split_windows_arguments :: "string \<Rightarrow> string list" where
  "split_windows_arguments command_line = split_arguments False [] command_line"

definition has_switch :: "string list \<Rightarrow> string \<Rightarrow> bool" where
  "has_switch arguments expected =
     list_ex (\<lambda>argument. let normalized = to_ascii_lowercase argument in
       normalized = expected \<or> prefix (expected @ ''='') normalized) arguments"

definition detect_remote_debugging :: "string \<Rightarrow> monitor_signal list" where
  "detect_remote_debugging command_line =
     (let arguments = split_windows_arguments command_line in
      (if has_switch arguments ''--remote-debugging-port'' then [RemoteDebuggingPort] else [])
      @ (if has_switch arguments ''--remote-debugging-pipe'' then [RemoteDebuggingPipe] else []))"

definition enqueue_signal :: "monitor_signal \<Rightarrow> unit queue_m" where
  "enqueue_signal signal =
     bindR (on_snd new_v4) (\<lambda>i. bindR (on_snd unix_ms) (\<lambda>now. enqueue_bounded (host_event i now signal)))"

definition ignored :: "'a queue_m \<Rightarrow> unit queue_m" where
  "ignored m = bindR (attempt m) (\<lambda>_. ret ())"

type_synonym seen = "(u32 \<times> monitor_signal) set"

fun enqueue_new :: "u32 \<Rightarrow> seen \<Rightarrow> monitor_signal list \<Rightarrow> seen queue_m" where
  "enqueue_new process_id seen [] = ret seen"
| "enqueue_new process_id seen (signal # signals) =
     (if (process_id, signal) \<in> seen then enqueue_new process_id seen signals
      else seqR (ignored (enqueue_signal signal))
                (enqueue_new process_id (insert (process_id, signal) seen) signals))"

definition enqueue_matches :: "u32 \<Rightarrow> string \<Rightarrow> seen \<Rightarrow> seen queue_m" where
  "enqueue_matches process_id command_line seen =
     enqueue_new process_id seen (detect_remote_debugging command_line)"

definition is_wbem_access_denied :: "fcp_error \<Rightarrow> bool" where
  "is_wbem_access_denied e = (case e of Windows code \<Rightarrow> code = 0x80041003 | _ \<Rightarrow> False)"

definition connect_failure_signal :: "fcp_error \<Rightarrow> monitor_signal" where
  "connect_failure_signal e = (if is_wbem_access_denied e
     then ProcessInspectionWmiConnectAccessDenied else ProcessInspectionWmiConnectFailed)"

definition poll_failure_signal :: "fcp_error \<Rightarrow> monitor_signal" where
  "poll_failure_signal e = (if is_wbem_access_denied e
     then ProcessInspectionWmiPollAccessDenied else ProcessInspectionWmiPollFailed)"

definition command_line_failure_signal :: "fcp_error \<Rightarrow> monitor_signal" where
  "command_line_failure_signal e = (if is_wbem_access_denied e
     then ProcessInspectionCommandLineAccessDenied else ProcessInspectionCommandLineUnavailable)"

text \<open>A WMI object as its property getters answer, and what the services answer over time.\<close>

record wmi_object =
  wo_process_id :: "u32 fcp_result"
  wo_executable_path :: "string fcp_result"
  wo_command_line :: "string fcp_result"

record wmi_services =
  ws_initialize :: "unit fcp_result"
  ws_connect :: "unit fcp_result"
  ws_query_all :: "wmi_object option fcp_result list fcp_result"
  ws_subscribe :: "unit fcp_result"
  ws_query_one :: "u32 \<Rightarrow> wmi_object option fcp_result list fcp_result"
  ws_trusted_chrome :: "string \<Rightarrow> bool"

text \<open>
  The check behind \<open>ws_trusted_chrome\<close>: the file name, the install locations, and the Authenticode
  signature, which is a call into Windows. \<open>canonicalize\<close> is the file system's and fails for a path
  that does not exist; \<open>var_os\<close> gives an environment variable as a path.
\<close>

definition is_known_chrome_install_path :: "(path \<Rightarrow> path option) \<Rightarrow> (string \<Rightarrow> path option) \<Rightarrow> path \<Rightarrow> bool" where
  "is_known_chrome_install_path canonicalize var_os p = (case canonicalize p of
       None \<Rightarrow> False
     | Some candidate \<Rightarrow> list_ex (\<lambda>root. prefix root candidate)
         (List.map_filter canonicalize (map (\<lambda>root. root @ [Name ''Google'', Name ''Chrome'', Name ''Application''])
           (List.map_filter var_os [''ProgramFiles'', ''ProgramFiles(x86)'', ''LOCALAPPDATA'']))))"

definition is_trusted_chrome ::
    "(path \<Rightarrow> path option) \<Rightarrow> (string \<Rightarrow> path option) \<Rightarrow> (path \<Rightarrow> bool) \<Rightarrow> path \<Rightarrow> bool" where
  "is_trusted_chrome canonicalize var_os verify_authenticode p =
     ((case file_name p of Some (Name n) \<Rightarrow> to_ascii_lowercase n = ''chrome.exe'' | _ \<Rightarrow> False) \<and>
      is_known_chrome_install_path canonicalize var_os p \<and> verify_authenticode p)"

lemma mem_map_filter: "y \<in> set (List.map_filter f xs) \<longleftrightarrow> (\<exists>x\<in>set xs. f x = Some y)"
  by (induction xs) (auto simp: List.map_filter_simps split: option.splits)

text \<open>A link out of the install directory is not trusted: the resolved path must lie in it.\<close>

lemma trusted_chrome_resolves_inside:
  assumes "is_trusted_chrome canonicalize var_os verify_authenticode p"
  shows "\<exists>base root place rest. var_os base = Some root \<and>
    canonicalize (root @ [Name ''Google'', Name ''Chrome'', Name ''Application'']) = Some place \<and> canonicalize p = Some (place @ rest)"
proof -
  from assms obtain candidate place where c: "canonicalize p = Some candidate" "prefix place candidate"
    and place: "place \<in> set (List.map_filter canonicalize (map (\<lambda>root. root @ [Name ''Google'', Name ''Chrome'', Name ''Application''])
      (List.map_filter var_os [''ProgramFiles'', ''ProgramFiles(x86)'', ''LOCALAPPDATA''])))"
    by (auto simp: is_trusted_chrome_def is_known_chrome_install_path_def list_ex_iff split: option.splits)
  from place obtain base root where "var_os base = Some root"
    "canonicalize (root @ [Name ''Google'', Name ''Chrome'', Name ''Application'']) = Some place"
    unfolding mem_map_filter set_map bex_simps by (blast dest: mem_map_filter [THEN iffD1])
  with c show ?thesis unfolding prefix_def by blast
qed

fun poll_objects :: "wmi_services \<Rightarrow> wmi_object option fcp_result list \<Rightarrow> (u32 \<times> string) list fcp_result" where
  "poll_objects s [] = Inr []"
| "poll_objects s (Inl e # os) = Inl e"
| "poll_objects s (Inr None # os) = Inr []"
| "poll_objects s (Inr (Some ob) # os) = (case wo_process_id ob of Inl e \<Rightarrow> Inl e
     | Inr process_id \<Rightarrow> (case wo_executable_path ob of Inl e \<Rightarrow> Inl e
     | Inr executable_path \<Rightarrow>
         if ws_trusted_chrome s executable_path
         then (case wo_command_line ob of Inl e \<Rightarrow> Inl e
           | Inr command_line \<Rightarrow> map_sum id ((#) (process_id, command_line)) (poll_objects s os))
         else poll_objects s os))"

definition poll_processes :: "wmi_services \<Rightarrow> (u32 \<times> string) list fcp_result" where
  "poll_processes s = (case ws_query_all s of Inl e \<Rightarrow> Inl e | Inr os \<Rightarrow> poll_objects s os)"

definition inspect_process :: "wmi_services \<Rightarrow> u32 \<Rightarrow> string option fcp_result" where
  "inspect_process s process_id = (case ws_query_one s process_id of Inl e \<Rightarrow> Inl e
     | Inr [] \<Rightarrow> Inr None
     | Inr (Inl e # _) \<Rightarrow> Inl e
     | Inr (Inr None # _) \<Rightarrow> Inr None
     | Inr (Inr (Some ob) # _) \<Rightarrow> (case wo_executable_path ob of Inl e \<Rightarrow> Inl e
       | Inr executable_path \<Rightarrow>
           if \<not> ws_trusted_chrome s executable_path then Inr None
           else map_sum id Some (wo_command_line ob)))"

text \<open>
  The loop of \<open>observe_processes\<close>: one element of the list per iteration before the stop flag is
  seen, holding what \<open>next_object\<close> answers in it.
\<close>

fun observe_starts :: "wmi_services \<Rightarrow> wmi_object option fcp_result list \<Rightarrow> seen \<Rightarrow> unit queue_m" where
  "observe_starts s [] seen = ret ()"
| "observe_starts s (Inl e # os) seen =
     seqR (ignored (enqueue_signal (poll_failure_signal e))) (observe_starts s os seen)"
| "observe_starts s (Inr None # os) seen = observe_starts s os seen"
| "observe_starts s (Inr (Some ob) # os) seen = (case wo_process_id ob of
       Inl _ \<Rightarrow> observe_starts s os seen
     | Inr process_id \<Rightarrow> (case inspect_process s process_id of
         Inr (Some command_line) \<Rightarrow>
           bindR (enqueue_matches process_id command_line seen) (observe_starts s os)
       | Inr None \<Rightarrow> observe_starts s os seen
       | Inl e \<Rightarrow> seqR (ignored (enqueue_signal (command_line_failure_signal e))) (observe_starts s os seen)))"

fun enqueue_snapshot :: "seen \<Rightarrow> (u32 \<times> string) list \<Rightarrow> seen queue_m" where
  "enqueue_snapshot seen [] = ret seen"
| "enqueue_snapshot seen ((process_id, command_line) # ps) =
     bindR (enqueue_matches process_id command_line seen) (\<lambda>seen'. enqueue_snapshot seen' ps)"

definition observe_processes :: "wmi_services \<Rightarrow> wmi_object option fcp_result list \<Rightarrow> unit queue_m" where
  "observe_processes s os = (case ws_initialize s of
       Inl e \<Rightarrow> ignored (enqueue_signal (connect_failure_signal e))
     | Inr _ \<Rightarrow> (case ws_connect s of
         Inl e \<Rightarrow> ignored (enqueue_signal (connect_failure_signal e))
       | Inr _ \<Rightarrow>
           bindR (case poll_processes s of
               Inr snapshot \<Rightarrow> enqueue_snapshot {} snapshot
             | Inl e \<Rightarrow> seqR (ignored (enqueue_signal (poll_failure_signal e))) (ret {})) (\<lambda>seen.
           case ws_subscribe s of
             Inl e \<Rightarrow> ignored (enqueue_signal (poll_failure_signal e))
           | Inr _ \<Rightarrow> observe_starts s os seen)))"

subsection \<open>Bounds of the engine\<close>

definition engine_ok :: "monitor_engine \<Rightarrow> bool" where
  "engine_ok g \<longleftrightarrow> length (mo_pending g) \<le> MAX_PENDING_EVENTS \<and> distinct (mo_accepted_event_order g)
     \<and> mo_accepted_event_ids g = set (mo_accepted_event_order g)
     \<and> length (mo_accepted_event_order g) \<le> MAX_ACCEPTED_EVENT_IDS"

lemma wp_on_queue [wp_simps]: "wp (on_queue f) Q E = (\<lambda>s. Q () (f (fst s), snd s))"
  by (auto simp: on_queue_def wp_modify fun_eq_iff)

lemma wp_with_queue [wp_simps]:
  "wp (with_queue m) Q E = (\<lambda>s. wp m (\<lambda>a t. Q a ((fst s)\<lparr>mo_pending := fst t\<rparr>, snd t))
     (\<lambda>e t. E e ((fst s)\<lparr>mo_pending := fst t\<rparr>, snd t)) (mo_pending (fst s), snd s))"
  by (auto simp: wp_def with_queue_def fun_eq_iff split: prod.split sum.split)

lemma wp_enqueue_bounded:
  assumes "length q \<le> MAX_PENDING_EVENTS"
  shows "wp (enqueue_bounded event) (\<lambda>_ t. length (fst t) \<le> MAX_PENDING_EVENTS)
     (\<lambda>_ t. length (fst t) \<le> MAX_PENDING_EVENTS) (q, w)"
  using assms
  by (auto simp: enqueue_bounded_def wp_simps MAX_PENDING_EVENTS_def push_back_def drop_front_def
      split: option.split)

lemma remember_event_ok:
  assumes "engine_ok g" and "i \<notin> mo_accepted_event_ids g"
  shows "engine_ok (remember_event i g)"
proof (cases "card (mo_accepted_event_ids g) = MAX_ACCEPTED_EVENT_IDS")
  case True
  then obtain oldest rest where "mo_accepted_event_order g = oldest # rest"
    using assms(1) by (cases "mo_accepted_event_order g") (auto simp: engine_ok_def MAX_ACCEPTED_EVENT_IDS_def)
  then show ?thesis using assms True
    by (auto simp: engine_ok_def remember_event_def push_back_def)
next
  case False
  then have "length (mo_accepted_event_order g) < MAX_ACCEPTED_EVENT_IDS"
    using assms(1) distinct_card [of "mo_accepted_event_order g"] by (auto simp: engine_ok_def)
  then show ?thesis using assms False by (auto simp: engine_ok_def remember_event_def push_back_def)
qed

lemma remember_event_memory [simp]: "i \<in> mo_accepted_event_ids (remember_event i g)"
  by (simp add: remember_event_def Let_def)

lemma wp_accept:
  assumes "engine_ok g"
  shows "wp (accept_extension_event x event) (\<lambda>_ s. engine_ok (fst s)) (\<lambda>_ s. engine_ok (fst s)) (g, l)"
  using assms
  by (auto simp: accept_extension_event_def wp_simps remember_event_ok split: sum.split prod.split
      intro!: wp_mono [OF wp_top])

text \<open>What auditing an event does to the numbering of the log.\<close>

lemma checked_add_one_unat:
  fixes a b :: "'a::len word"
  assumes "checked_add a 1 = Some b"
  shows "unat b = Suc (unat a)"
  using checked_add_unat [OF assms] by simp

lemma entry_added_number:
  assumes "entry_added x u l w e t"
  shows "unat (al_sequence (fst t)) = Suc (unat (al_sequence l))"
proof -
  have "checked_add (al_sequence l) 1 = Some (ue_sequence u)" and "al_sequence (fst t) = ue_sequence u"
    using assms by (auto simp: entry_added_def Let_def)
  then show ?thesis by (simp add: checked_add_one_unat)
qed

lemma wp_audit_event:
  "wp (audit_event x event) (\<lambda>_ t. unat (al_sequence (fst t)) = Suc (unat (al_sequence (fst s)))) (\<lambda>_ _. True) s"
proof -
  have "wp (record_inner x g ev oc op dc i)
      (\<lambda>_ t. unat (al_sequence (fst t)) = Suc (unat (al_sequence (fst s)))) (\<lambda>_ _. True) s" for g ev oc op dc i
    by (cases s) (auto intro!: wp_mono [OF wp_record_inner] dest: entry_added_number)
  then show ?thesis
    by (simp add: audit_event_def audit_record_def record_system_def Let_def split: option.split)
qed

definition alerts :: "monitor_event list \<Rightarrow> message list" where
  "alerts es = map (\<lambda>e. MonitorAlert \<lparr>ml_event = e\<rparr>) es"

lemma wp_poll_events:
  "wp (poll_events x n)
     (\<lambda>ms t. ms = alerts (take n (mo_pending (fst s))) \<and> fst t = (fst s)\<lparr>mo_pending := drop n (mo_pending (fst s))\<rparr> \<and>
        unat (al_sequence (fst (snd t))) = unat (al_sequence (fst (snd s))) + length ms)
     (\<lambda>_ t. \<exists>k. 0 < k \<and> k \<le> n \<and> k \<le> length (mo_pending (fst s)) \<and>
        fst t = (fst s)\<lparr>mo_pending := drop k (mo_pending (fst s))\<rparr>) s"
proof (induction n arbitrary: s)
  case 0
  show ?case by (simp add: wp_simps alerts_def)
next
  case (Suc n)
  show ?case
  proof (cases "mo_pending (fst s)")
    case Nil
    then show ?thesis by (simp add: wp_simps alerts_def)
  next
    case (Cons event rest)
    let ?g = "(fst s)\<lparr>mo_pending := rest\<rparr>"
    have rest: "wp (poll_events x n)
       (\<lambda>ms t. ms = alerts (take n rest) \<and> fst t = ?g\<lparr>mo_pending := drop n rest\<rparr> \<and>
          unat (al_sequence (fst (snd t))) = unat (al_sequence (fst a)) + length ms)
       (\<lambda>_ t. \<exists>k. 0 < k \<and> k \<le> n \<and> k \<le> length rest \<and> fst t = ?g\<lparr>mo_pending := drop k rest\<rparr>) (?g, a)" for a
      using Suc [of "(?g, a)"] by simp
    have one: "\<exists>k. 0 < k \<and> k \<le> Suc n \<and> k \<le> Suc (length rest) \<and>
        (fst s)\<lparr>mo_pending := drop j rest\<rparr> = (fst s)\<lparr>mo_pending := drop k (event # rest)\<rparr>"
      if "j \<le> n" "j \<le> length rest" for j
      using that by (intro exI [of _ "Suc j"]) simp
    show ?thesis using Cons one [of 0]
      by (auto simp: wp_simps case_prod_beta alerts_def intro!: wp_mono [OF wp_audit_event] wp_mono [OF rest]
          dest!: one)
  qed
qed

subsection \<open>Interleavings of the host and the observer\<close>

inductive monitor_step ::
    "audit_ext \<Rightarrow> monitor_engine \<times> audit_logger \<times> world \<Rightarrow> monitor_engine \<times> audit_logger \<times> world \<Rightarrow> bool" where
  step_accept: "accept_extension_event x event s = (r, s') \<Longrightarrow> monitor_step x s s'"
| step_poll: "poll x request s = (r, s') \<Longrightarrow> monitor_step x s s'"
| step_host: "enqueue_host_event event (g, w) = (r, (g', w')) \<Longrightarrow> monitor_step x (g, l, w) (g', l, w')"
| step_observe: "with_queue (enqueue_signal signal) (g, w) = (r, (g', w')) \<Longrightarrow> monitor_step x (g, l, w) (g', l, w')"

inductive monitor_reaches ::
    "audit_ext \<Rightarrow> monitor_engine \<times> audit_logger \<times> world \<Rightarrow> monitor_engine \<times> audit_logger \<times> world \<Rightarrow> bool" for x where
  reaches_start: "monitor_reaches x s s"
| reaches_step: "monitor_reaches x s t \<Longrightarrow> monitor_step x t u \<Longrightarrow> monitor_reaches x s u"

lemma run_invariant:
  assumes "m s = (r, s')" and "wp m (\<lambda>_. P) (\<lambda>_. P) s"
  shows "P s'"
  using assms by (auto simp: wp_def split: sum.splits)

lemma wp_queue_ok:
  assumes "engine_ok g" and "\<And>q w. length q \<le> MAX_PENDING_EVENTS \<Longrightarrow>
      wp m (\<lambda>_ t. length (fst t) \<le> MAX_PENDING_EVENTS) (\<lambda>_ t. length (fst t) \<le> MAX_PENDING_EVENTS) (q, w)"
  shows "wp (with_queue m) (\<lambda>_ s. engine_ok (fst s)) (\<lambda>_ s. engine_ok (fst s)) (g, w)"
  using assms(1) unfolding wp_with_queue
  by (auto simp: engine_ok_def intro!: wp_mono [OF assms(2)])

lemma wp_enqueue_signal:
  assumes "length q \<le> MAX_PENDING_EVENTS"
  shows "wp (enqueue_signal signal) (\<lambda>_ t. length (fst t) \<le> MAX_PENDING_EVENTS)
     (\<lambda>_ t. length (fst t) \<le> MAX_PENDING_EVENTS) (q, w)"
  using assms by (auto simp: enqueue_signal_def wp_simps split: option.split intro!: wp_enqueue_bounded)

lemma monitor_step_ok:
  assumes "monitor_step x s s'" and "engine_ok (fst s)"
  shows "engine_ok (fst s')"
  using assms
proof cases
  case (step_accept event r)
  have "wp (accept_extension_event x event) (\<lambda>_ s. engine_ok (fst s)) (\<lambda>_ s. engine_ok (fst s)) (fst s, snd s)"
    using assms(2) by (rule wp_accept)
  with step_accept show ?thesis by (auto dest: run_invariant)
next
  case (step_poll request r)
  have "wp (poll x request) (\<lambda>_ s. engine_ok (fst s)) (\<lambda>_ s. engine_ok (fst s)) s" using assms(2)
    by (auto simp: poll_def wp_simps engine_ok_def intro!: wp_mono [OF wp_poll_events])
  with step_poll show ?thesis by (rule run_invariant)
next
  case (step_host event g w r g' w' l)
  then have "wp (enqueue_host_event event) (\<lambda>_ s. engine_ok (fst s)) (\<lambda>_ s. engine_ok (fst s)) (g, w)"
    using assms(2) unfolding enqueue_host_event_def
    by (auto simp: wp_seqR wp_of_result wp_reject split: sum.split intro!: wp_queue_ok wp_enqueue_bounded)
  from run_invariant [OF step_host(3) this] show ?thesis using step_host by simp
next
  case (step_observe signal g w r g' w' l)
  then have "wp (with_queue (enqueue_signal signal)) (\<lambda>_ s. engine_ok (fst s)) (\<lambda>_ s. engine_ok (fst s)) (g, w)"
    using assms(2) by (auto intro!: wp_queue_ok wp_enqueue_signal)
  from run_invariant [OF step_observe(3) this] show ?thesis using step_observe by simp
qed

subsection \<open>Command lines\<close>

text \<open>
  The command line a launcher builds: every argument in quotes, followed by a space. A quotation mark
  inside an argument is not escaped; the parser drops empty arguments.
\<close>

definition quote_arguments :: "string list \<Rightarrow> string" where
  "quote_arguments args = concat (map (\<lambda>a. CHR 0x22 # a @ [CHR 0x22, CHR '' '']) args)"

lemma split_quoted:
  assumes "CHR 0x22 \<notin> set a"
  shows "split_arguments True current (a @ rest) = split_arguments True (current @ a) rest"
  using assms by (induction a arbitrary: current) auto

lemma space_at_space: "space_at (CHR '' '' # cs) = Some '' ''"
  by (simp add: space_at_def utf8_spaces_def char_of_def bit_0)

lemma split_quote_arguments:
  assumes "\<forall>a \<in> set args. CHR 0x22 \<notin> set a"
  shows "split_arguments False [] (quote_arguments args) = filter (\<lambda>a. a \<noteq> []) args"
  using assms
proof (induction args)
  case Nil
  then show ?case by (simp add: quote_arguments_def)
next
  case (Cons a args)
  have "split_arguments False [] (quote_arguments (a # args)) =
      split_arguments True [] (a @ (CHR 0x22 # CHR '' '' # quote_arguments args))"
    by (simp add: quote_arguments_def)
  also have "\<dots> = split_arguments True a (CHR 0x22 # CHR '' '' # quote_arguments args)"
    using Cons.prems by (subst split_quoted) auto
  also have "\<dots> = (if a = [] then [] else [a]) @ split_arguments False [] (quote_arguments args)"
    by (simp add: space_at_space)
  finally show ?case using Cons by simp
qed

definition is_switch :: "string \<Rightarrow> string \<Rightarrow> bool" where
  "is_switch expected argument \<longleftrightarrow> to_ascii_lowercase argument = expected
     \<or> (\<exists>v. to_ascii_lowercase argument = expected @ ''='' @ v)"

lemma has_switch_iff: "has_switch args expected \<longleftrightarrow> (\<exists>a \<in> set args. is_switch expected a)"
  by (auto simp: has_switch_def is_switch_def list_ex_iff Let_def prefix_def)

subsection \<open>Properties\<close>

text \<open>
  The monitor's memory is bounded and its duplicate filter is consistent, under every
  interleaving of extension events, polls, host events and observer reports, and whatever fails
  in between: at most 128 events wait, at most 512 accepted identifiers are remembered, and the
  set of remembered identifiers is exactly the queue that decides which one is forgotten next.
\<close>

theorem monitor_memory_bounded:
  assumes "monitor_reaches x (monitor_new, l, w) (g, l', w')"
  shows "length (mo_pending g) \<le> 128 \<and> card (mo_accepted_event_ids g) \<le> 512
     \<and> mo_accepted_event_ids g = set (mo_accepted_event_order g) \<and> distinct (mo_accepted_event_order g)"
proof -
  have "engine_ok (fst t)" if "monitor_reaches x s t" "engine_ok (fst s)" for s t
    using that by induction (auto dest: monitor_step_ok)
  from this [OF assms] have ok: "engine_ok g" by (simp add: engine_ok_def monitor_new_def)
  then have "card (mo_accepted_event_ids g) = length (mo_accepted_event_order g)"
    by (simp add: engine_ok_def distinct_card)
  with ok show ?thesis by (simp add: engine_ok_def MAX_PENDING_EVENTS_def MAX_ACCEPTED_EVENT_IDS_def)
qed

text \<open>
  Polling delivers the oldest events first and each of them is in the audit log before it is
  answered: a successful poll returns the first \<open>max_events\<close> waiting events in order, removes
  exactly those, and advances the log by one entry for each. A poll that fails on an audit write
  has removed at least one event and answers none of those it removed.
\<close>

theorem poll_delivers_in_order:
  "case poll x request (g, l, w) of
     (Inr ms, (g', l', w')) \<Rightarrow> let n = unat (mp_max_events request) in
        0 < n \<and> n \<le> 64 \<and> ms = alerts (take n (mo_pending g)) \<and> g' = g\<lparr>mo_pending := drop n (mo_pending g)\<rparr> \<and>
        unat (al_sequence l') = unat (al_sequence l) + length ms
   | (Inl e, (g', l', w')) \<Rightarrow> e = Protocol ''monitor poll max_events is out of range'' \<and> g' = g \<or>
        (\<exists>k. 0 < k \<and> k \<le> length (mo_pending g) \<and> g' = g\<lparr>mo_pending := drop k (mo_pending g)\<rparr>)"
proof -
  have range: "0 < unat n" "unat n \<le> 64" if "n \<noteq> 0" "\<not> n > MAX_POLL_EVENTS" for n :: u16
    using that by (simp_all add: MAX_POLL_EVENTS_def word_less_nat_alt unat_gt_0)
  have "wp (poll x request)
      (\<lambda>ms (g', l', w'). let n = unat (mp_max_events request) in
        0 < n \<and> n \<le> 64 \<and> ms = alerts (take n (mo_pending g)) \<and> g' = g\<lparr>mo_pending := drop n (mo_pending g)\<rparr> \<and>
        unat (al_sequence l') = unat (al_sequence l) + length ms)
      (\<lambda>e (g', l', w'). e = Protocol ''monitor poll max_events is out of range'' \<and> g' = g \<or>
        (\<exists>k. 0 < k \<and> k \<le> length (mo_pending g) \<and> g' = g\<lparr>mo_pending := drop k (mo_pending g)\<rparr>)) (g, l, w)"
    using range by (auto simp: poll_def wp_simps Let_def intro!: wp_mono [OF wp_poll_events])
  then show ?thesis by (auto simp: wp_def split: prod.splits sum.splits)
qed

text \<open>
  A repeated extension event is answered again but audited once: after it was accepted, accepting
  it again changes neither the engine nor the audit log.
\<close>

theorem accept_is_idempotent:
  assumes "accept_extension_event x event s = (Inr ms, s')"
  shows "accept_extension_event x event s' = (Inr ms, s')"
proof -
  have "wp (accept_extension_event x event)
      (\<lambda>ms t. me_event_id event \<in> mo_accepted_event_ids (fst t) \<and> ms = [MonitorAlert \<lparr>ml_event = event\<rparr>]
         \<and> monitor_event_validate event = Inr () \<and> me_source event = Extension) (\<lambda>_ _. True) s"
    by (auto simp: accept_extension_event_def wp_simps case_prod_beta split: sum.split intro!: wp_mono [OF wp_top])
  from wp_okD [OF assms this] show ?thesis
    by (auto simp: accept_extension_event_def monad_defs)
qed

text \<open>
  C38. Detection of remote debugging is exact on command lines built by quoting arguments that contain
  no quotation mark: whatever else they contain, white space and switch-like text included, the parser
  recovers the arguments, less the empty ones, and a signal is raised for precisely the switches
  \<open>--remote-debugging-port\<close> and \<open>--remote-debugging-pipe\<close>, in any letter case, alone or with a value.
\<close>

theorem detection_is_exact:
  assumes "\<forall>a \<in> set args. CHR 0x22 \<notin> set a"
  shows "split_windows_arguments (quote_arguments args) = filter (\<lambda>a. a \<noteq> []) args
    \<and> (RemoteDebuggingPort \<in> set (detect_remote_debugging (quote_arguments args))
         \<longleftrightarrow> (\<exists>a \<in> set args. is_switch ''--remote-debugging-port'' a))
    \<and> (RemoteDebuggingPipe \<in> set (detect_remote_debugging (quote_arguments args))
         \<longleftrightarrow> (\<exists>a \<in> set args. is_switch ''--remote-debugging-pipe'' a))
    \<and> set (detect_remote_debugging (quote_arguments args)) \<subseteq> {RemoteDebuggingPort, RemoteDebuggingPipe}"
proof -
  have "\<not> is_switch ''--remote-debugging-port'' []" "\<not> is_switch ''--remote-debugging-pipe'' []"
    by (simp_all add: is_switch_def to_ascii_lowercase_def)
  then show ?thesis using split_quote_arguments [OF assms]
    by (auto simp: detect_remote_debugging_def split_windows_arguments_def has_switch_iff)
qed

text \<open>
  With a quotation mark inside an argument the parser finds switches that are no argument: it toggles
  the quoted state at every mark and knows no escaped ones.
\<close>

theorem quotation_mark_misleads_detection:
  "detect_remote_debugging (quote_arguments [''a'' @ [CHR 0x22] @ '' '' @ [CHR 0x22] @ ''--remote-debugging-pipe'']) = [RemoteDebuggingPipe] \<and>
   \<not> is_switch ''--remote-debugging-pipe'' (''a'' @ [CHR 0x22] @ '' '' @ [CHR 0x22] @ ''--remote-debugging-pipe'')"
  by (simp add: detect_remote_debugging_def split_windows_arguments_def quote_arguments_def space_at_def utf8_spaces_def
      has_switch_def is_switch_def to_ascii_lowercase_def ascii_lower_char_def char_of_def bit_0)

subsection \<open>Witnesses\<close>

definition exm_event :: monitor_event where
  "exm_event = host_event 7 1000 HostDisconnect"

definition exm_engine :: monitor_engine where
  "exm_engine = monitor_new\<lparr>mo_pending := [exm_event]\<rparr>"

lemma exm_enqueue: "enqueue_host_event exm_event (monitor_new, w) = (Inr (), (exm_engine, w))"
  by (simp add: run_simps exm_engine_def exm_event_def monitor_event_validate_def is_nil_def)

theorem monitor_memory_bounded_witness:
  "monitor_reaches exa_x (monitor_new, exa_l, quiet_world) (exm_engine, exa_l, quiet_world)
   \<and> length (mo_pending exm_engine) \<le> 128"
proof -
  have "monitor_reaches exa_x (monitor_new, exa_l, quiet_world) (exm_engine, exa_l, quiet_world)"
    by (rule reaches_step [OF reaches_start step_host [OF exm_enqueue]])
  with monitor_memory_bounded [OF this] show ?thesis by simp
qed

definition exm_args :: "string list" where
  "exm_args = [''C:/Program Files/chrome.exe'', [], ''--Remote-Debugging-PORT=0'']"

theorem detection_is_exact_witness:
  "detect_remote_debugging (quote_arguments exm_args) = [RemoteDebuggingPort]
   \<and> split_windows_arguments (quote_arguments exm_args) = [''C:/Program Files/chrome.exe'', ''--Remote-Debugging-PORT=0'']"
proof -
  let ?args = "[''C:/Program Files/chrome.exe'', ''--Remote-Debugging-PORT=0'']"
  have "\<forall>a \<in> set exm_args. CHR 0x22 \<notin> set a" by (simp add: exm_args_def)
  from detection_is_exact [OF this] have split: "split_windows_arguments (quote_arguments exm_args) = ?args"
    by (simp add: exm_args_def)
  have "has_switch ?args ''--remote-debugging-port''" "\<not> has_switch ?args ''--remote-debugging-pipe''"
    by (simp_all add: has_switch_def to_ascii_lowercase_def ascii_lower_char_def char_of_def bit_0)
  with split show ?thesis by (simp add: detect_remote_debugging_def)
qed

end
