(* ===== verification/Host_Loop.thy ===== *)
theory Host_Loop
  imports Framing
begin

text \<open>
  \<open>host_loop.rs\<close>: the origin check and one native-messaging connection. The application behind
  the connection is an argument: how it is opened for a profile (paths, instance lock, state), how
  it handles a message, and the group it blames for an error.
\<close>

definition PRODUCT_EXTENSION_ID :: string where
  "PRODUCT_EXTENSION_ID = ''ibjddphkjppgkdbegjibddbjkagdlaea''"

definition validate_caller_origin :: "string list \<Rightarrow> unit fcp_result" where
  "validate_caller_origin args =
     (let expected = ''chrome-extension://'' @ PRODUCT_EXTENSION_ID @ ''/'' in
      case args of
        [] \<Rightarrow> Inl (Protocol ''native host caller origin is not authorized'')
      | origin # _ \<Rightarrow> if origin = expected then Inr ()
          else Inl (Protocol ''native host caller origin is not authorized''))"

record 'a host_app =
  ap_open :: "uuid \<Rightarrow> (world, 'a) host"
  ap_handle :: "message \<Rightarrow> ('a \<times> world, message list) host"
  ap_error_group_id :: "'a \<Rightarrow> uuid option"

text \<open>The local variables of the connection loop.\<close>

record connection =
  co_version :: u16
  co_nonce :: "nonce32 option"
  co_incoming :: u64
  co_outgoing :: u64

type_synonym ('a, 'b) conn_m = "(('a \<times> world) \<times> pipe, 'b) host"

definition on_fst :: "('s, 'e, 'b) rm \<Rightarrow> ('s \<times> 'c, 'e, 'b) rm" where
  "on_fst m = (\<lambda>s. case m (fst s) of (r, t) \<Rightarrow> (r, (t, snd s)))"

definition validate_first_envelope :: "envelope \<Rightarrow> unit fcp_result" where
  "validate_first_envelope e = (case en_message e of
       Handshake _ \<Rightarrow> envelope_validate e (en_conn_nonce e) 0
     | _ \<Rightarrow> Inl (Protocol ''handshake must be the first framed message''))"

fun send_all :: "envelope codec \<Rightarrow> u16 \<Rightarrow> nonce32 \<Rightarrow> uuid \<Rightarrow> u64 \<Rightarrow> message list \<Rightarrow> (pipe, u64) host" where
  "send_all c v nonce request_id outgoing [] = ret outgoing"
| "send_all c v nonce request_id outgoing (m # ms) =
     bindR (ok_or (checked_add outgoing 1) (Protocol ''outgoing sequence overflow'')) (\<lambda>n.
     seqR (write_envelope c \<lparr>en_v = v, en_conn_nonce = nonce, en_seq = n, en_id = request_id, en_message = m\<rparr>)
          (send_all c v nonce request_id n ms))"

definition check_envelope :: "connection \<Rightarrow> envelope \<Rightarrow> unit fcp_result" where
  "check_envelope k e = (case co_nonce k of
       Some expected_nonce \<Rightarrow> envelope_validate e expected_nonce (co_incoming k)
     | None \<Rightarrow> validate_first_envelope e)"

text \<open>The answer of the application; an error becomes one stable code and nothing else.\<close>

definition app_output :: "'a host_app \<Rightarrow> envelope \<Rightarrow> ('a \<times> world, message list) host" where
  "app_output app e = (\<lambda>s. case ap_handle app (en_message e) s of
       (Inr messages, t) \<Rightarrow> (Inr messages, t)
     | (Inl err, t) \<Rightarrow> (Inr [OperationError \<lparr>oe_request_id = en_id e,
           oe_account_group_id = ap_error_group_id app (fst t), oe_code = error_category err\<rparr>], t))"

text \<open>One iteration of the loop, for the envelope it has taken.\<close>

definition process_envelope :: "'a host_app \<Rightarrow> envelope codec \<Rightarrow> connection \<Rightarrow> envelope \<Rightarrow> ('a, connection) conn_m" where
  "process_envelope app c k e =
     seqR (of_result (check_envelope k e))
    (seqR (reject (en_v e \<noteq> co_version k) (Protocol ''protocol version changed within one connection''))
    (let nonce = (case co_nonce k of Some n \<Rightarrow> n | None \<Rightarrow> en_conn_nonce e) in
     bindR (on_fst (app_output app e)) (\<lambda>output.
     bindR (on_snd (send_all c (co_version k) nonce (en_id e) (co_outgoing k) output)) (\<lambda>out.
     ret (k\<lparr>co_nonce := Some nonce, co_incoming := en_seq e, co_outgoing := out\<rparr>)))))"

lemma wp_on_fst [wp_simps]:
  "wp (on_fst m) Q E = (\<lambda>s. wp m (\<lambda>x t. Q x (t, snd s)) (\<lambda>e t. E e (t, snd s)) (fst s))"
  by (simp add: wp_def on_fst_def fun_eq_iff split: prod.split sum.split)

text \<open>The application step never fails as far as the loop is concerned.\<close>

lemma wp_app_output_any:
  assumes "\<And>ms t. Q ms t"
  shows "wp (app_output app e) Q E s"
  using assms by (simp add: wp_def app_output_def split: prod.split sum.split)

lemma wp_process_envelope:
  assumes bad: "\<And>err. check_envelope k e = Inl err \<Longrightarrow> E err s"
    and version: "check_envelope k e = Inr () \<Longrightarrow> en_v e \<noteq> co_version k \<Longrightarrow>
       E (Protocol ''protocol version changed within one connection'') s"
    and send: "\<And>nonce ms t. check_envelope k e = Inr () \<Longrightarrow> en_v e = co_version k \<Longrightarrow>
       nonce = (case co_nonce k of Some n \<Rightarrow> n | None \<Rightarrow> en_conn_nonce e) \<Longrightarrow>
       wp (send_all c (co_version k) nonce (en_id e) (co_outgoing k) ms)
         (\<lambda>out p. Q (k\<lparr>co_nonce := Some nonce, co_incoming := en_seq e, co_outgoing := out\<rparr>) (t, p))
         (\<lambda>err p. E err (t, p)) (snd s)"
  shows "wp (process_envelope app c k e) Q E s"
proof (cases "check_envelope k e")
  case (Inl err)
  then show ?thesis using bad by (simp add: process_envelope_def wp_simps)
next
  case (Inr u)
  show ?thesis
  proof (cases "en_v e = co_version k")
    case False
    then show ?thesis using version Inr by (simp add: process_envelope_def wp_simps)
  next
    case True
    then show ?thesis using send Inr
      by (simp add: process_envelope_def wp_simps Let_def) (rule wp_app_output_any, simp)
  qed
qed

lemma wp_send_all_input:
  "wp (send_all c v nonce i n ms) (\<lambda>_ s'. pi_input s' = pi_input s) (\<lambda>_ s'. pi_input s' = pi_input s) s"
proof (induction ms arbitrary: n s)
  case (Cons m ms)
  show ?case
    by (auto simp: wp_simps split: option.split intro!: wp_mono [OF wp_write_envelope] wp_mono [OF Cons])
qed (simp add: wp_simps)

lemma process_envelope_input:
  assumes "process_envelope app c k e s = (r, s')"
  shows "pi_input (snd s') = pi_input (snd s)"
proof -
  have "wp (process_envelope app c k e) (\<lambda>_ s'. pi_input (snd s') = pi_input (snd s))
      (\<lambda>_ s'. pi_input (snd s') = pi_input (snd s)) s"
    by (rule wp_process_envelope) (auto intro!: wp_mono [OF wp_send_all_input])
  then show ?thesis using assms by (simp add: wp_def split: sum.splits)
qed

text \<open>
  The rest of the loop: read, process, repeat. It ends because every envelope read shortens the
  input and nothing else touches it.
\<close>

function serve :: "'a host_app \<Rightarrow> envelope codec \<Rightarrow> connection \<Rightarrow> ('a, unit) conn_m" where
  "serve app c k s = (case on_snd (read_envelope c) s of
       (Inl err, s1) \<Rightarrow> (Inl err, s1)
     | (Inr None, s1) \<Rightarrow> (Inr (), s1)
     | (Inr (Some e), s1) \<Rightarrow> (case process_envelope app c k e s1 of
           (Inl err, s2) \<Rightarrow> (Inl err, s2)
         | (Inr k', s2) \<Rightarrow> serve app c k' s2))"
  by pat_completeness auto

lemma read_envelope_shortens:
  assumes "on_snd (read_envelope c) s = (Inr (Some e), s1)"
  shows "length (pi_input (snd s1)) < length (pi_input (snd s))"
proof -
  obtain p where "read_envelope c (snd s) = (Inr (Some e), p)" "s1 = (fst s, p)"
    using assms by (auto simp: on_snd_def split: prod.splits)
  then show ?thesis using wp_okD [OF _ wp_read_envelope] by fastforce
qed

termination serve
  by (relation "measure (\<lambda>(_, _, _, s). length (pi_input (snd s)))")
    (auto dest!: sym [THEN read_envelope_shortens] sym [THEN process_envelope_input])

declare serve.simps [simp del]

definition run_connection_with_app :: "'a host_app \<Rightarrow> envelope codec \<Rightarrow> envelope \<Rightarrow> ('a, unit) conn_m" where
  "run_connection_with_app app c first =
     bindR (process_envelope app c \<lparr>co_version = en_v first, co_nonce = None, co_incoming = 0, co_outgoing = 0\<rparr> first)
       (serve app c)"

definition run_connection :: "'a host_app \<Rightarrow> envelope codec \<Rightarrow> (world \<times> pipe, unit) host" where
  "run_connection app c =
     bindR (on_snd (read_envelope c)) (\<lambda>r.
     bindR (ok_or r (Protocol ''native connection closed before handshake'')) (\<lambda>first.
     seqR (of_result (validate_first_envelope first))
    (case en_message first of
       Handshake h \<Rightarrow> bindR (on_fst (ap_open app (hs_profile_id h))) (\<lambda>a.
         \<lambda>(w, p). case run_connection_with_app app c first ((a, w), p) of (r, ((a', w'), p')) \<Rightarrow> (r, (w', p')))
     | _ \<Rightarrow> fail (Format ''panic: validated first envelope is a handshake''))))"

subsection \<open>The outgoing stream\<close>

text \<open>
  The bytes written so far are the frames of the envelopes \<open>es\<close>, numbered from one in the
  version and under the nonce of the connection.
\<close>

definition numbered :: "envelope codec \<Rightarrow> u16 \<Rightarrow> nonce32 \<Rightarrow> envelope list \<Rightarrow> bool" where
  "numbered c v nonce es \<longleftrightarrow> map (unat \<circ> en_seq) es = [1..<Suc (length es)] \<and>
     list_all (\<lambda>e. en_v e = v \<and> en_conn_nonce e = nonce \<and> framed c e \<noteq> None) es"

definition stream :: "envelope codec \<Rightarrow> envelope list \<Rightarrow> byte list" where
  "stream c es = concat (map (\<lambda>e. the (framed c e)) es)"

definition sent :: "envelope codec \<Rightarrow> u16 \<Rightarrow> nonce32 \<Rightarrow> u64 \<Rightarrow> byte list \<Rightarrow> bool" where
  "sent c v nonce n out \<longleftrightarrow> (\<exists>es. numbered c v nonce es \<and> out = stream c es \<and> unat n = length es)"

text \<open>After an error the last frame may be cut short.\<close>

definition cut_stream :: "envelope codec \<Rightarrow> u16 \<Rightarrow> nonce32 \<Rightarrow> byte list \<Rightarrow> bool" where
  "cut_stream c v nonce out \<longleftrightarrow> (\<exists>es. numbered c v nonce es \<and>
     (out = stream c es \<or> (\<exists>e. numbered c v nonce (es @ [e]) \<and> prefix (stream c es) out \<and> prefix out (stream c (es @ [e])))))"

lemma numbered_snoc:
  "numbered c v nonce (es @ [e]) \<longleftrightarrow> numbered c v nonce es \<and> unat (en_seq e) = Suc (length es) \<and>
     en_v e = v \<and> en_conn_nonce e = nonce \<and> framed c e \<noteq> None"
  by (auto simp: numbered_def)

lemma stream_snoc [simp]: "stream c (es @ [e]) = stream c es @ the (framed c e)"
  by (simp add: stream_def)

lemma sent_cut: "sent c v nonce n out \<Longrightarrow> cut_stream c v nonce out"
  by (auto simp: sent_def cut_stream_def)

lemma sent_snoc:
  assumes "sent c v nonce n out" and "checked_add n 1 = Some m" and "framed c e = Some f"
    and "en_seq e = m" "en_v e = v" "en_conn_nonce e = nonce"
  shows "sent c v nonce m (out @ f)" and "prefix g f \<Longrightarrow> cut_stream c v nonce (out @ g)"
proof -
  obtain es where es: "numbered c v nonce es" "out = stream c es" "unat n = length es"
    using assms(1) by (auto simp: sent_def)
  have m: "unat m = Suc (length es)" using checked_add_unat [OF assms(2)] es(3) by simp
  have snoc: "numbered c v nonce (es @ [e])" using es m assms by (simp add: numbered_snoc)
  then show "sent c v nonce m (out @ f)"
    unfolding sent_def using es m assms(3) by (intro exI [of _ "es @ [e]"]) simp
  show "prefix g f \<Longrightarrow> cut_stream c v nonce (out @ g)"
    unfolding cut_stream_def using es snoc assms(3) by (intro exI [of _ es]) auto
qed

lemma wp_send_all:
  assumes "sent c v nonce n (pi_output p)"
  shows "wp (send_all c v nonce i n ms) (\<lambda>n' p'. sent c v nonce n' (pi_output p'))
     (\<lambda>_ p'. cut_stream c v nonce (pi_output p')) p"
  using assms
proof (induction ms arbitrary: n p)
  case Nil
  then show ?case by (simp add: wp_simps)
next
  case (Cons m ms)
  show ?case
  proof (cases "checked_add n 1")
    case None
    then show ?thesis using Cons.prems by (simp add: wp_simps sent_cut)
  next
    case (Some n')
    let ?e = "\<lparr>en_v = v, en_conn_nonce = nonce, en_seq = n', en_id = i, en_message = m\<rparr>"
    have whole: "sent c v nonce n' (pi_output p @ f)" and part: "prefix g f \<Longrightarrow> cut_stream c v nonce (pi_output p @ g)"
      if "framed c ?e = Some f" for f g
      using sent_snoc [OF Cons.prems Some that] by simp_all
    show ?thesis using Some
      by (simp add: wp_simps)
        (rule wp_mono [OF wp_write_envelope], auto simp: whole intro!: Cons.IH intro: part sent_cut [OF Cons.prems])
  qed
qed

definition conn_ok :: "envelope codec \<Rightarrow> u16 \<Rightarrow> nonce32 \<Rightarrow> connection \<Rightarrow> ('a \<times> world) \<times> pipe \<Rightarrow> bool" where
  "conn_ok c v nonce k s \<longleftrightarrow> co_version k = v \<and> co_nonce k = Some nonce \<and>
     sent c v nonce (co_outgoing k) (pi_output (snd s))"

lemma wp_process_stream:
  assumes "sent c v nonce (co_outgoing k) (pi_output (snd s))" and "co_version k = v"
    and "co_nonce k = Some nonce \<or> co_nonce k = None \<and> en_conn_nonce e = nonce"
  shows "wp (process_envelope app c k e) (conn_ok c v nonce) (\<lambda>_ s'. cut_stream c v nonce (pi_output (snd s'))) s"
  using assms
  by (intro wp_process_envelope) (auto simp: conn_ok_def sent_cut intro!: wp_mono [OF wp_send_all])

lemma wp_serve_stream:
  "conn_ok c v nonce k s \<Longrightarrow>
     wp (serve app c k) (\<lambda>_ s'. \<exists>n. sent c v nonce n (pi_output (snd s')))
       (\<lambda>_ s'. cut_stream c v nonce (pi_output (snd s'))) s"
proof (induction app c k s rule: serve.induct)
  case (1 app c k s)
  obtain r s1 where r: "on_snd (read_envelope c) s = (r, s1)" by (rule prod.exhaust)
  have out: "pi_output (snd s1) = pi_output (snd s)"
    using r wp_read_envelope [of c "snd s"] by (auto simp: on_snd_def wp_def split: prod.splits sum.splits)
  show ?case
  proof (cases r)
    case (Inl err)
    then show ?thesis using r out 1(2) by (auto simp: wp_def serve.simps conn_ok_def intro: sent_cut)
  next
    case (Inr x)
    show ?thesis
    proof (cases x)
      case None
      then show ?thesis using r out Inr 1(2) by (auto simp: wp_def serve.simps conn_ok_def)
    next
      case (Some e)
      obtain q s2 where q: "process_envelope app c k e s1 = (q, s2)" by (rule prod.exhaust)
      have "wp (process_envelope app c k e) (conn_ok c v nonce) (\<lambda>_ s'. cut_stream c v nonce (pi_output (snd s'))) s1"
        using 1(2) out by (intro wp_process_stream) (auto simp: conn_ok_def)
      with q have next_ok: "conn_ok c v nonce k' s2" if "q = Inr k'" for k' using that by (simp add: wp_def)
      have done_ok: "cut_stream c v nonce (pi_output (snd s2))" if "q = Inl err" for err
        using that q \<open>wp (process_envelope app c k e) _ _ s1\<close> by (simp add: wp_def)
      show ?thesis
      proof (cases q)
        case Inl
        then show ?thesis using r Inr Some q done_ok by (simp add: wp_def serve.simps)
      next
        case k': (Inr k')
        have "wp (serve app c k') (\<lambda>_ s'. \<exists>n. sent c v nonce n (pi_output (snd s')))
            (\<lambda>_ s'. cut_stream c v nonce (pi_output (snd s'))) s2"
          using 1(1) r Inr Some q k' next_ok by (metis (no_types, lifting))
        then show ?thesis using r Inr Some q k' by (simp add: wp_def serve.simps)
      qed
    qed
  qed
qed

subsection \<open>Properties\<close>

text \<open>
  C21. Everything a connection sends is one numbered stream: whatever the browser sends, the
  application answers and the pipe does, the output of a connection is a sequence of complete
  frames whose envelopes carry the sequence numbers 1, 2, 3, ... in the negotiated version and
  under the nonce of the first envelope; only a connection that ends in an error can leave a last
  frame cut short.
\<close>

theorem output_is_numbered_stream:
  assumes "run_connection_with_app app c first (s, p) = (r, (s', p'))" and "pi_output p = []"
  shows "case r of
      Inr _ \<Rightarrow> (\<exists>n. sent c (en_v first) (en_conn_nonce first) n (pi_output p'))
    | Inl _ \<Rightarrow> cut_stream c (en_v first) (en_conn_nonce first) (pi_output p')"
proof -
  let ?v = "en_v first" and ?nonce = "en_conn_nonce first"
  have start: "sent c ?v ?nonce 0 (pi_output p)"
    unfolding sent_def assms(2) by (rule exI [of _ "[]"]) (simp add: numbered_def stream_def)
  have "wp (run_connection_with_app app c first)
      (\<lambda>_ t. \<exists>n. sent c ?v ?nonce n (pi_output (snd t))) (\<lambda>_ t. cut_stream c ?v ?nonce (pi_output (snd t))) (s, p)"
    unfolding run_connection_with_app_def wp_bindR
    by (rule wp_mono [OF wp_process_stream [where v = ?v and nonce = ?nonce]])
      (use start in \<open>auto intro: wp_serve_stream\<close>)
  then show ?thesis using assms(1) by (simp add: wp_def split: sum.splits)
qed

text \<open>
  No replay, reordering or splicing within a connection: an envelope under another nonce, with
  any sequence number but the next one, or in another protocol version ends the connection before
  the application sees its message; nothing is sent and neither application nor files change.
\<close>

theorem unexpected_envelope_refused:
  assumes "co_nonce k = Some nonce"
    and "en_conn_nonce e \<noteq> nonce \<or> checked_add (co_incoming k) 1 \<noteq> Some (en_seq e) \<or> en_v e \<noteq> co_version k"
  shows "\<exists>reason. process_envelope app c k e s = (Inl (Protocol reason), s)"
proof (cases "envelope_validate e nonce (co_incoming k)")
  case (Inl err)
  moreover have "\<exists>reason. err = Protocol reason"
    using Inl by (auto simp: envelope_validate_def split: if_splits option.splits)
  ultimately show ?thesis using assms(1)
    by (auto simp: process_envelope_def check_envelope_def monad_defs)
next
  case (Inr u)
  then have "en_conn_nonce e = nonce" "checked_add (co_incoming k) 1 = Some (en_seq e)"
    using envelope_validate_iff by (auto simp: old.unit.exhaust)
  with assms(2) Inr show ?thesis using assms(1)
    by (auto simp: process_envelope_def check_envelope_def monad_defs)
qed

text \<open>
  An error of the application does not end the connection and tells the browser only its
  category: exactly one frame goes out, the operation error with the request's identifier, the
  group the application names and the stable code.
\<close>

theorem application_error_is_one_code:
  assumes "check_envelope k e = Inr ()" and "en_v e = co_version k" and "co_nonce k = Some nonce"
    and "ap_handle app (en_message e) s = (Inl err, s')"
    and "checked_add (co_outgoing k) 1 = Some n" and "\<And>j. pi_fault p j = None"
    and "framed c \<lparr>en_v = co_version k, en_conn_nonce = nonce, en_seq = n, en_id = en_id e,
           en_message = OperationError \<lparr>oe_request_id = en_id e,
             oe_account_group_id = ap_error_group_id app (fst s'), oe_code = error_category err\<rparr>\<rparr> = Some f"
  shows "\<exists>p'. process_envelope app c k e (s, p) =
      (Inr (k\<lparr>co_incoming := en_seq e, co_outgoing := n\<rparr>), (s', p')) \<and> pi_output p' = pi_output p @ f"
proof -
  have k: "k\<lparr>co_nonce := Some nonce\<rparr> = k" using assms(3) by (cases k) simp
  have "pi_fault p = (\<lambda>_. None)" using assms(6) by blast
  then have "write_envelope c \<lparr>en_v = co_version k, en_conn_nonce = nonce, en_seq = n, en_id = en_id e,
           en_message = OperationError \<lparr>oe_request_id = en_id e,
             oe_account_group_id = ap_error_group_id app (fst s'), oe_code = error_category err\<rparr>\<rparr> p =
      (Inr (), p\<lparr>pi_calls := pi_calls p + 3, pi_output := pi_output p @ f\<rparr>)"
    using assms(7)
    by (auto simp: framed_def frame_def write_envelope_def json_to_vec_def pipe_write_all_def pipe_flush_def
        pipe_call_def monad_defs MAX_FRAME_BYTES_def split: option.splits if_splits)
  then show ?thesis using assms k
    by (simp add: process_envelope_def monad_defs on_fst_def app_output_def Let_def)
qed

subsection \<open>A concrete connection\<close>

text \<open>An application that greets a handshake with one message and refuses everything else.\<close>

definition exh_app :: "unit host_app" where
  "exh_app = \<lparr>ap_open = (\<lambda>_. ret ()),
     ap_handle = (\<lambda>m. case m of Handshake _ \<Rightarrow> ret [MonitorPoll \<lparr>mp_max_events = 1\<rparr>] | _ \<Rightarrow> fail (Capability ''no'')),
     ap_error_group_id = (\<lambda>_. Some 5)\<rparr>"

definition exh_first :: envelope where
  "exh_first = \<lparr>en_v = 7, en_conn_nonce = [1], en_seq = 1, en_id = 12, en_message = Handshake
     \<lparr>hs_protocol_version = 7, hs_extension_id = [], hs_profile_id = 1, hs_extension_version = [],
      hs_min_host_version = [], hs_capabilities = [], hs_cached_config_digest = None\<rparr>\<rparr>"

definition exh_reply :: envelope where
  "exh_reply = \<lparr>en_v = 7, en_conn_nonce = [1], en_seq = 1, en_id = 12, en_message = MonitorPoll \<lparr>mp_max_events = 1\<rparr>\<rparr>"

definition exh_poll :: envelope where
  "exh_poll = \<lparr>en_v = 7, en_conn_nonce = [1], en_seq = 2, en_id = 13, en_message = MonitorPoll \<lparr>mp_max_events = 1\<rparr>\<rparr>"

definition exh_error :: envelope where
  "exh_error = \<lparr>en_v = 7, en_conn_nonce = [1], en_seq = 2, en_id = 13, en_message = OperationError
     \<lparr>oe_request_id = 13, oe_account_group_id = Some 5, oe_code = ''capability''\<rparr>\<rparr>"

definition exh_codec :: "envelope codec" where
  "exh_codec = table_codec [exh_reply, exh_poll, exh_error]"

definition exh_connection :: connection where
  "exh_connection = \<lparr>co_version = 7, co_nonce = Some [1], co_incoming = 1, co_outgoing = 1\<rparr>"

lemmas exh_defs =
  exh_app_def exh_first_def exh_reply_def exh_poll_def exh_error_def exh_codec_def table_codec_def
  exf_pipe_def upt_rec on_fst_def app_output_def process_envelope_def check_envelope_def
  validate_first_envelope_def run_connection_with_app_def serve.simps exh_connection_def

theorem output_is_numbered_stream_witness:
  "\<exists>s' p'. run_connection_with_app exh_app exh_codec exh_first (((), quiet_world), exf_pipe []) = (Inr (), (s', p')) \<and>
     (\<exists>n. sent exh_codec 7 [1] n (pi_output p'))"
proof -
  let ?run = "run_connection_with_app exh_app exh_codec exh_first (((), quiet_world), exf_pipe [])"
  have "fst ?run = Inr ()" by (simp add: run_simps exh_defs)
  then have run: "?run = (Inr (), (fst (snd ?run), snd (snd ?run)))" by (simp add: prod_eq_iff)
  have first: "en_v exh_first = 7" "en_conn_nonce exh_first = [1]" by (simp_all add: exh_first_def)
  have "\<exists>n. sent exh_codec 7 [1] n (pi_output (snd (snd ?run)))"
    using output_is_numbered_stream [OF run] by (simp add: first exf_pipe_def)
  with run show ?thesis by metis
qed

theorem unexpected_envelope_refused_witness:
  "\<exists>reason. process_envelope exh_app exh_codec exh_connection exh_first (((), quiet_world), exf_pipe []) =
     (Inl (Protocol reason), (((), quiet_world), exf_pipe []))"
  by (rule unexpected_envelope_refused [where nonce = "[1]"])
    (simp_all add: exh_connection_def exh_first_def checked_add_def)

theorem application_error_is_one_code_witness:
  "\<exists>f p'. framed exh_codec exh_error = Some f \<and>
     process_envelope exh_app exh_codec exh_connection exh_poll (((), quiet_world), exf_pipe []) =
      (Inr (exh_connection\<lparr>co_incoming := 2, co_outgoing := 2\<rparr>), (((), quiet_world), p')) \<and> pi_output p' = f"
proof -
  have f: "framed exh_codec exh_error = Some (frame [2])"
    by (simp add: framed_def exh_codec_def table_codec_def exh_reply_def exh_poll_def exh_error_def upt_rec MAX_FRAME_BYTES_def)
  have "\<exists>p'. process_envelope exh_app exh_codec exh_connection exh_poll (((), quiet_world), exf_pipe []) =
      (Inr (exh_connection\<lparr>co_incoming := en_seq exh_poll, co_outgoing := 2\<rparr>), (((), quiet_world), p')) \<and>
      pi_output p' = pi_output (exf_pipe []) @ frame [2]"
    by (rule application_error_is_one_code [where nonce = "[1]" and err = "Capability ''no''"])
      (use f in \<open>simp_all add: run_simps exh_defs framed_def\<close>)
  with f show ?thesis by (simp add: exf_pipe_def exh_poll_def)
qed

end
