(* ===== verification/Dispatcher.thy ===== *)
theory Dispatcher
  imports Group_Runtime Data_Paths Monitor Host_Loop Config
begin

text \<open>
  \<open>dispatcher.rs\<close>, the application: opening a profile, the handshake, routing of messages,
  configuration changes and profile recovery. The groups are a \<open>BTreeMap\<close>, modelled as an
  association list in the order of its keys. The application plugs into the connection loop of
  \<open>Host_Loop\<close> through \<open>native_app\<close>. The reconciliation fixture of debug builds is left out.
\<close>

subsection \<open>Ordered maps\<close>

fun bt_insert :: "uuid \<Rightarrow> 'v \<Rightarrow> (uuid \<times> 'v) list \<Rightarrow> (uuid \<times> 'v) list" where
  "bt_insert k v [] = [(k, v)]"
| "bt_insert k v ((j, u) # xs) =
     (if k < j then (k, v) # (j, u) # xs else if k = j then (k, v) # xs else (j, u) # bt_insert k v xs)"

definition bt_remove :: "uuid \<Rightarrow> (uuid \<times> 'v) list \<Rightarrow> (uuid \<times> 'v) list" where
  "bt_remove k xs = filter (\<lambda>(j, _). j \<noteq> k) xs"

subsection \<open>Versions and capabilities\<close>

definition WIKIPEDIA_ACCOUNT_GROUP_ID :: uuid where
  "WIKIPEDIA_ACCOUNT_GROUP_ID = 0x7a1446773f5c4a86a76716fd3ca315b8"

definition MIN_EXTENSION_VERSION :: string where "MIN_EXTENSION_VERSION = ''0.4.1''"
definition CARGO_PKG_VERSION :: string where "CARGO_PKG_VERSION = ''0.6.0''"

definition V6_PROTOCOL_CAPABILITIES :: "string list" where
  "V6_PROTOCOL_CAPABILITIES =
     [''chunked_cookies'', ''request_correlation'', ''config_v3'', ''audit_recovery'', ''profile_namespace'']"

definition V7_REQUIRED_CAPABILITIES :: "string list" where
  "V7_REQUIRED_CAPABILITIES =
     [''chunked_cookies'', ''request_correlation'', ''config_v3'', ''audit_recovery'', ''profile_namespace'',
      ''durable_operations_v7'', ''guarded_cookie_removal'', ''semantic_operation_status'']"

definition PROTOCOL_CAPABILITIES :: "string list" where
  "PROTOCOL_CAPABILITIES =
     [''chunked_cookies'', ''request_correlation'', ''config_v3'', ''audit_recovery'', ''profile_namespace'',
      ''durable_operations_v7'', ''guarded_cookie_removal'', ''semantic_operation_status'', ''profile_recovery_v1'']"

definition PROCESS_MONITORING_CAPABILITY :: string where
  "PROCESS_MONITORING_CAPABILITY = ''process_monitoring''"

definition advertised_capabilities :: "bool \<Rightarrow> u16 \<Rightarrow> string list" where
  "advertised_capabilities supports_monitoring protocol_version =
     (if protocol_version = PROTOCOL_VERSION then PROTOCOL_CAPABILITIES else V6_PROTOCOL_CAPABILITIES)
     @ (if supports_monitoring then [PROCESS_MONITORING_CAPABILITY] else [])"

datatype version_order = Older | Same | Newer

fun compare_parts :: "u64 list \<Rightarrow> u64 list \<Rightarrow> version_order" where
  "compare_parts (a # as) (b # bs) = (if a < b then Older else if b < a then Newer else compare_parts as bs)"
| "compare_parts [] [] = Same"
| "compare_parts [] (_ # _) = Older"
| "compare_parts (_ # _) [] = Newer"

fun parse_all :: "string list \<Rightarrow> u64 list option" where
  "parse_all [] = Some []"
| "parse_all (s # ss) = (case parse_u64 s of None \<Rightarrow> None
     | Some n \<Rightarrow> (case parse_all ss of None \<Rightarrow> None | Some ns \<Rightarrow> Some (n # ns)))"

definition version_parts :: "string \<Rightarrow> u64 list option" where
  "version_parts value = (case parse_all (split_on (CHR ''.'') value) of None \<Rightarrow> None
     | Some parsed \<Rightarrow> if length parsed = 3 then Some parsed else None)"

definition compare_versions :: "string \<Rightarrow> string \<Rightarrow> version_order option" where
  "compare_versions left right = (case version_parts left of None \<Rightarrow> None
     | Some l \<Rightarrow> (case version_parts right of None \<Rightarrow> None | Some r \<Rightarrow> Some (compare_parts l r)))"

definition too_old :: "string \<Rightarrow> string \<Rightarrow> bool" where
  "too_old version minimum = (case compare_versions version minimum of None \<Rightarrow> True | Some c \<Rightarrow> c = Older)"

subsection \<open>State\<close>

record native_host_app =
  na_groups :: "(uuid \<times> group_runtime) list"
  na_audit :: audit_logger
  na_paths :: data_paths
  na_config :: account_groups_config
  na_config_digest :: string
  na_handshake_complete :: bool
  na_last_message_group :: "uuid option"
  na_hello_authorizer :: "authorizer option"
  na_monitor :: monitor_engine
  na_negotiated_protocol :: u16
  na_connection_profile_id :: "uuid option"

text \<open>
  What \<open>fs::metadata\<close> tells of a path: its times in milliseconds since the epoch, each where the
  platform has it, and whether the directory can be listed.
\<close>

record file_times =
  ft_created :: "int option"
  ft_modified :: "int option"
  ft_listable :: bool

text \<open>
  What is not the repository's code: JSON, cryptography, the platform (authorizer, secrets, lock,
  whether processes can be observed), the parser of UUID text and the time stamps of files.
\<close>

record app_ext =
  px_host :: host_ext
  px_config :: config_ext
  px_config_pretty :: "account_groups_config \<Rightarrow> byte list option"
  px_secret :: local_secret
  px_supports_monitoring :: bool
  px_parse_uuid :: "string \<Rightarrow> uuid option"
  px_metadata :: "path \<Rightarrow> world \<Rightarrow> file_times option"
  px_lock :: "path \<Rightarrow> (world, unit) host"

type_synonym 'a app_m = "(native_host_app \<times> world, 'a) host"

definition the_app :: "native_host_app app_m" where
  "the_app = gets fst"

definition update_app :: "(native_host_app \<Rightarrow> native_host_app) \<Rightarrow> unit app_m" where
  "update_app f = modify (\<lambda>(a, w). (f a, w))"

definition app_world :: "(world, 'a) host \<Rightarrow> 'a app_m" where
  "app_world m = on_snd m"

definition app_audit :: "'a audit_m \<Rightarrow> 'a app_m" where
  "app_audit m = zoom (\<lambda>(a, w). (na_audit a, w)) (\<lambda>(l, w') (a, w). (a\<lparr>na_audit := l\<rparr>, w')) m"

definition app_monitor :: "'a engine_m \<Rightarrow> 'a app_m" where
  "app_monitor m = zoom (\<lambda>(a, w). (na_monitor a, na_audit a, w))
     (\<lambda>(g, l, w') (a, w). (a\<lparr>na_monitor := g, na_audit := l\<rparr>, w')) m"

text \<open>Running a group handler on \<open>self.groups.get_mut(id)\<close>.\<close>

definition run_group :: "uuid \<Rightarrow> group_runtime \<Rightarrow> 'a group_m \<Rightarrow> 'a app_m" where
  "run_group g r m = zoom (\<lambda>(a, w). (r, na_hello_authorizer a, na_audit a, w))
     (\<lambda>(r', h, l, w') (a, w).
        (a\<lparr>na_groups := bt_insert g r' (na_groups a), na_hello_authorizer := h, na_audit := l\<rparr>, w')) m"

definition on_group :: "uuid \<Rightarrow> 'a group_m \<Rightarrow> 'a app_m" where
  "on_group g m = bindR the_app (\<lambda>a.
     bindR (ok_or (map_of (na_groups a) g) (Protocol ''unknown account group'')) (\<lambda>r. run_group g r m))"

text \<open>A call on a value that is local to the caller.\<close>

definition on_local :: "'c \<Rightarrow> ('c \<times> world, 'a) host \<Rightarrow> (world, 'a \<times> 'c) host" where
  "on_local c m = (\<lambda>w. case m (c, w) of (Inl e, (_, w')) \<Rightarrow> (Inl e, w') | (Inr v, (c', w')) \<Rightarrow> (Inr (v, c'), w'))"

subsection \<open>Opening a profile\<close>

definition coordinator_open :: "app_ext \<Rightarrow> data_paths \<Rightarrow> uuid \<Rightarrow> (world, operation_coordinator) host" where
  "coordinator_open x paths g =
     bindR (operation_journals_exist paths) (\<lambda>journals_exist.
     bindR (tagger_load_or_create (px_secret x) (dp_snapshot_integrity_key paths) journals_exist) (\<lambda>tagger.
     bindR (journal_open (hx_journal (px_host x)) (operation_journal_path paths g) g) (\<lambda>journal.
       ret \<lparr>oc_journal = journal, oc_tagger = tagger, oc_profile_id = None\<rparr>)))"

text \<open>The projection of a completed operation, and of an operation recovery left open.\<close>

definition project_completed :: "journal_operation \<Rightarrow> lease_metadata \<Rightarrow> lease_metadata" where
  "project_completed completed lease =
     (let lease = (if jo_kind completed = Enrollment
                   then lease\<lparr>lm_state := Leased, lm_lease_id := jo_lease_id completed,
                          lm_pending_operation_id := None\<rparr>
                   else clear_lease Sealed lease) in
      case jo_snapshot completed of
        Some snapshot \<Rightarrow> lease\<lparr>lm_vault_sequence := sb_target_vault_sequence snapshot\<rparr>
      | None \<Rightarrow> lease)"

definition project_recovery :: "startup_recovery \<Rightarrow> lease_metadata \<Rightarrow> lease_metadata" where
  "project_recovery recovery lease =
     (let lease = lease\<lparr>lm_state := Degraded, lm_pending_operation_id := sr_committed_operation_id recovery\<rparr> in
      case sr_committed_vault_sequence recovery of
        Some n \<Rightarrow> lease\<lparr>lm_vault_sequence := n\<rparr> | None \<Rightarrow> lease)"

definition save_projection :: "app_ext \<Rightarrow> path \<Rightarrow> lease_metadata \<Rightarrow> (world, lease_metadata) host" where
  "save_projection x store lease =
     bindR (of_result (advance_transition lease)) (\<lambda>lease'.
     seqR (lease_persist (hx_lease_json (px_host x)) store lease') (ret lease'))"

definition repair_lease_v1_projection ::
    "app_ext \<Rightarrow> lease_metadata \<Rightarrow> path \<Rightarrow> operation_coordinator \<Rightarrow> startup_recovery \<Rightarrow> bool
     \<Rightarrow> (world, lease_metadata) host" where
  "repair_lease_v1_projection x lease store coordinator recovery vault_present =
     (case Option.bind (lm_pending_operation_id lease) (\<lambda>i. completed_projection i coordinator) of
        Some completed \<Rightarrow> save_projection x store (project_completed completed lease)
      | None \<Rightarrow>
          if sr_needs_reconciliation recovery \<and> (lm_state lease \<noteq> Uninitialized \<or> vault_present)
          then save_projection x store (project_recovery recovery lease)
          else ret lease)"

definition build_group_runtime :: "app_ext \<Rightarrow> data_paths \<Rightarrow> account_group \<Rightarrow> (world, group_runtime) host" where
  "build_group_runtime x paths d =
     (let g = ag_id d; vault_store = dp_vault_groups paths; lease_store = lease_path paths g in
      bindR (fs_exists (path_for vault_store g)) (\<lambda>vault_present.
      bindR (transactions_open (hx_tx (px_host x)) g vault_store (capability_path paths g)) (\<lambda>transactions.
      bindR (lease_load_or_initialize (hx_lease_json (px_host x)) lease_store g vault_present) (\<lambda>lease.
      bindR (coordinator_open x paths g) (\<lambda>coordinator.
      bindR (on_local coordinator (startup_recover (hx_journal (px_host x)) (vault_path transactions))) (\<lambda>(recovery, coordinator).
      bindR (repair_lease_v1_projection x lease lease_store coordinator recovery vault_present) (\<lambda>lease.
        ret \<lparr>rt_id = g, rt_policy = ag_policy_level d, rt_transactions = transactions,
             rt_lease_store = lease_store, rt_lease = lease, rt_operation_coordinator = coordinator,
             rt_pending = None\<rparr>)))))))"

fun build_groups :: "app_ext \<Rightarrow> data_paths \<Rightarrow> account_group list \<Rightarrow> (uuid \<times> group_runtime) list
     \<Rightarrow> (world, (uuid \<times> group_runtime) list) host" where
  "build_groups x paths [] groups = ret groups"
| "build_groups x paths (d # ds) groups =
     bindR (build_group_runtime x paths d) (\<lambda>r. build_groups x paths ds (bt_insert (ag_id d) r groups))"

definition vault_groups_of :: "account_groups_config \<Rightarrow> uuid list" where
  "vault_groups_of config = map ag_id (filter (\<lambda>g. ag_policy_level g \<noteq> policy_level.Monitor) (cfg_groups config))"

definition report_recovered :: "monitor_engine \<Rightarrow> (world, monitor_engine) host" where
  "report_recovered monitor =
     bindR new_v4 (\<lambda>i.
     bindR unix_ms (\<lambda>now.
     bindR (on_local monitor (enqueue_host_event (host_event i now AuditIntegrityRecovered))) (\<lambda>(_, monitor).
       ret monitor)))"

definition native_open :: "app_ext \<Rightarrow> data_paths \<Rightarrow> (world, native_host_app) host" where
  "native_open x paths =
     bindR (config_load (px_config x) (dp_account_groups_config paths)) (\<lambda>loaded.
     seqR (migrate_phase5_group paths WIKIPEDIA_ACCOUNT_GROUP_ID)
    (seqR (recover_staged_deletions (px_parse_uuid x) (dp_vault_groups paths) (vault_groups_of (lc_config loaded)))
    (bindR (build_groups x paths (cfg_groups (lc_config loaded)) []) (\<lambda>groups.
     bindR (audit_open (hx_audit (px_host x)) (dp_audit_directory paths)) (\<lambda>audit.
     bindR (if al_recovered_on_open audit then report_recovered monitor_new else ret monitor_new) (\<lambda>monitor.
       ret \<lparr>na_groups = groups, na_audit = audit, na_paths = paths, na_config = lc_config loaded,
            na_config_digest = lc_digest loaded, na_handshake_complete = False, na_last_message_group = None,
            na_hello_authorizer = None, na_monitor = monitor, na_negotiated_protocol = LEGACY_PROTOCOL_VERSION,
            na_connection_profile_id = None\<rparr>))))))"

subsection \<open>The handshake\<close>

definition group_state_of :: "group_runtime \<Rightarrow> handshake_group_state" where
  "group_state_of r =
     \<lparr>hg_account_group_id = rt_id r, hg_group_state = lm_state (rt_lease r),
      hg_reconciliation_required = (lm_state (rt_lease r) = Unlocking \<or> lm_state (rt_lease r) = Evicting
         \<or> lm_state (rt_lease r) = Degraded),
      hg_lease_id = lm_lease_id (rt_lease r), hg_lease_expiry_unix_ms = lm_expires_at_unix_ms (rt_lease r)\<rparr>"

definition group_states :: "native_host_app \<Rightarrow> handshake_group_state list" where
  "group_states a = map (group_state_of \<circ> snd) (na_groups a)"

text \<open>
  Binding a group to the connection: the profile, and the activation of protocol 7. Used by the
  handshake for every group and by \<open>handle_group_add\<close> for the new one.
\<close>

definition bind_group :: "host_ext \<Rightarrow> u16 \<Rightarrow> uuid \<Rightarrow> unit group_m" where
  "bind_group x protocol_version profile_id =
     bindR the_runtime (\<lambda>r.
     bindR (of_result (set_profile_id profile_id (rt_operation_coordinator r))) (\<lambda>c.
     seqR (update_runtime (\<lambda>r. r\<lparr>rt_operation_coordinator := c\<rparr>))
    (if protocol_version = PROTOCOL_VERSION
     then bindR (of_result (activate_protocol_v7 (sequence_high_water c) (rt_lease r))) (\<lambda>(changed, lease).
          seqR (update_lease (\<lambda>_. lease)) (if changed then save_lease x else ret ()))
     else ret ())))"

definition handshake_group :: "host_ext \<Rightarrow> handshake \<Rightarrow> unit group_m" where
  "handshake_group x h =
     bindR the_runtime (\<lambda>r.
     seqR (reject (hs_protocol_version h = LEGACY_PROTOCOL_VERSION \<and> lm_protocol_floor (rt_lease r) \<ge> PROTOCOL_VERSION)
             (Protocol ''upgrade_required: profile protocol floor is v7''))
          (bind_group x (hs_protocol_version h) (hs_profile_id h)))"

fun each_group :: "(uuid \<Rightarrow> unit app_m) \<Rightarrow> uuid list \<Rightarrow> unit app_m" where
  "each_group f [] = ret ()"
| "each_group f (g # gs) = seqR (f g) (each_group f gs)"

definition group_ids :: "uuid list app_m" where
  "group_ids = bindR the_app (\<lambda>a. ret (map fst (na_groups a)))"

definition handshake_check :: "handshake \<Rightarrow> unit fcp_result" where
  "handshake_check h =
     (if hs_protocol_version h \<noteq> LEGACY_PROTOCOL_VERSION \<and> hs_protocol_version h \<noteq> PROTOCOL_VERSION
      then Inl (Protocol ''handshake protocol version mismatch'')
      else if hs_extension_id h \<noteq> PRODUCT_EXTENSION_ID then Inl (Protocol ''unexpected extension id'')
      else if too_old (hs_extension_version h) MIN_EXTENSION_VERSION
      then Inl (Protocol ''extension version is below host minimum'')
      else if too_old CARGO_PKG_VERSION (hs_min_host_version h)
      then Inl (Protocol ''host version is below extension minimum'')
      else if \<not> list_all (\<lambda>required. List.member (hs_capabilities h) required)
           (if hs_protocol_version h = PROTOCOL_VERSION then V7_REQUIRED_CAPABILITIES else V6_PROTOCOL_CAPABILITIES)
      then Inl (Protocol ''extension capability mismatch'')
      else Inr ())"

subsection \<open>Profile recovery\<close>

definition fs_is_file :: "path \<Rightarrow> (world, bool) host" where
  "fs_is_file p = (\<lambda>w. (Inr (\<not> stat_fault w (tick w) \<and> lookup w p \<noteq> None), advance w))"

text \<open>\<open>duration_since(UNIX_EPOCH)\<close>, which fails before the epoch, clamped to 64 bits.\<close>

definition since_epoch :: "int option \<Rightarrow> u64 option" where
  "since_epoch t = (case t of None \<Rightarrow> None | Some t \<Rightarrow> if t < 0 then None else Some (of_int (min t (2 ^ 64 - 1))))"

definition profile_created_unix_ms :: "app_ext \<Rightarrow> path \<Rightarrow> world \<Rightarrow> u64" where
  "profile_created_unix_ms x p w = (case px_metadata x p w of None \<Rightarrow> 0
     | Some m \<Rightarrow> (case since_epoch (if ft_created m = None then ft_modified m else ft_created m) of
         None \<Rightarrow> 0 | Some t \<Rightarrow> t))"

text \<open>
  The latest modification below a directory. The recursion of \<open>visit\<close> goes one segment deeper
  with every call, so the length of the longest path is enough fuel (\<open>visit_fuel\<close>).
\<close>

definition dir_entries :: "world \<Rightarrow> path \<Rightarrow> path list" where
  "dir_entries w d = remdups (map (take (Suc (length d))) (filter (strict_prefix d) (dirs w @ map fst (files w))))"

fun visit :: "nat \<Rightarrow> app_ext \<Rightarrow> world \<Rightarrow> path \<Rightarrow> u64 \<Rightarrow> u64" where
  "visit 0 x w p latest = latest"
| "visit (Suc n) x w p latest = (case px_metadata x p w of None \<Rightarrow> latest
     | Some m \<Rightarrow>
         let latest = (case since_epoch (ft_modified m) of Some t \<Rightarrow> max latest t | None \<Rightarrow> latest) in
         if \<not> is_directory w p \<or> \<not> ft_listable m then latest
         else fold (visit n x w) (dir_entries w p) latest)"

definition tree_depth :: "world \<Rightarrow> nat" where
  "tree_depth w = foldr max (map length (dirs w @ map fst (files w))) 0"

definition profile_last_used_unix_ms :: "app_ext \<Rightarrow> path \<Rightarrow> world \<Rightarrow> u64" where
  "profile_last_used_unix_ms x p w = visit (Suc (tree_depth w)) x w p 0"

text \<open>One sibling profile, with its position in the order of creation.\<close>

definition recovery_candidate_of ::
    "app_ext \<Rightarrow> uuid \<Rightarrow> nat \<Rightarrow> uuid \<times> path \<Rightarrow> (world, recovery_candidate option) host" where
  "recovery_candidate_of x current index entry = (case entry of (profile_id, root) \<Rightarrow>
     if profile_id = current then ret None
     else let paths = from_root root in
       bindR (fs_is_file (dp_account_groups_config paths)) (\<lambda>has_config.
       bindR (if has_config then fs_is_file (dp_hello_credential paths) else ret False) (\<lambda>complete.
       if \<not> complete then ret None
       else bindR (attempt (config_load (px_config x) (dp_account_groups_config paths))) (\<lambda>loaded. case loaded of
         Inl _ \<Rightarrow> ret None
       | Inr c \<Rightarrow> if cfg_groups (lc_config c) = [] then ret None
           else bindR (gets (profile_last_used_unix_ms x root)) (\<lambda>last_used.
             ret (Some \<lparr>rc_profile_id = profile_id, rc_display_name = ''Chrome Profile '' @ decimal (index + 1),
               rc_browser = ''Chrome'', rc_last_used_unix_ms = last_used,
               rc_site_count = of_nat (length (cfg_groups (lc_config c)))\<rparr>))))))"

fun collect_candidates ::
    "app_ext \<Rightarrow> uuid \<Rightarrow> nat \<Rightarrow> (uuid \<times> path) list \<Rightarrow> (world, recovery_candidate list) host" where
  "collect_candidates x current index [] = ret []"
| "collect_candidates x current index (e # es) =
     bindR (recovery_candidate_of x current index e) (\<lambda>c.
     bindR (collect_candidates x current (Suc index) es) (\<lambda>cs.
       ret (case c of None \<Rightarrow> cs | Some c \<Rightarrow> c # cs)))"

text \<open>\<open>str::cmp\<close>: byte order.\<close>

fun string_le :: "string \<Rightarrow> string \<Rightarrow> bool" where
  "string_le [] _ = True"
| "string_le (_ # _) [] = False"
| "string_le (c # cs) (d # ds) = ((of_char c :: nat) < of_char d \<or> c = d \<and> string_le cs ds)"

definition candidate_before :: "recovery_candidate \<Rightarrow> recovery_candidate \<Rightarrow> bool" where
  "candidate_before l r \<longleftrightarrow> rc_last_used_unix_ms r < rc_last_used_unix_ms l
     \<or> rc_last_used_unix_ms r = rc_last_used_unix_ms l \<and> string_le (rc_display_name l) (rc_display_name r)"

text \<open>A stable sort by insertion, for \<open>sort_by\<close>.\<close>

fun insert_candidate :: "recovery_candidate \<Rightarrow> recovery_candidate list \<Rightarrow> recovery_candidate list" where
  "insert_candidate c [] = [c]"
| "insert_candidate c (d # ds) = (if candidate_before c d then c # d # ds else d # insert_candidate c ds)"

definition sort_candidates :: "recovery_candidate list \<Rightarrow> recovery_candidate list" where
  "sort_candidates cs = foldr insert_candidate cs []"

definition recovery_candidates :: "app_ext \<Rightarrow> uuid \<Rightarrow> recovery_candidate list app_m" where
  "recovery_candidates x current =
     bindR the_app (\<lambda>a.
     if cfg_groups (na_config a) \<noteq> [] then ret []
     else app_world (
       bindR (attempt (sibling_profile_roots (px_parse_uuid x) (na_paths a))) (\<lambda>roots. case roots of
         Inl _ \<Rightarrow> ret []
       | Inr roots \<Rightarrow>
           bindR (gets (\<lambda>w. sort_key (\<lambda>(_, root). profile_created_unix_ms x root w) roots)) (\<lambda>roots.
           bindR (collect_candidates x current 0 roots) (\<lambda>cs. ret (sort_candidates cs))))))"

definition handle_recovery_adopt :: "app_ext \<Rightarrow> recovery_adopt \<Rightarrow> message list app_m" where
  "handle_recovery_adopt x request =
     bindR the_app (\<lambda>a.
     seqR (reject (na_negotiated_protocol a \<noteq> PROTOCOL_VERSION \<or> cfg_groups (na_config a) \<noteq> [])
             (Protocol ''profile recovery requires an empty v7 profile''))
    (bindR (ok_or (na_connection_profile_id a)
              (Protocol ''profile recovery requires an authenticated profile'')) (\<lambda>current.
     bindR (recovery_candidates x current) (\<lambda>candidates.
     seqR (reject (\<not> list_ex (\<lambda>c. rc_profile_id c = ra_profile_id request) candidates)
             (Protocol ''unknown recovery candidate''))
    (bindR (of_result (sibling_profile (na_paths a) (ra_profile_id request))) (\<lambda>paths.
     app_world (
       bindR (hx_open_existing (px_host x) (dp_hello_credential paths)) (\<lambda>authorizer.
       bindR unix_ms (\<lambda>now.
       bindR (fill_random 32) (\<lambda>nonce.
       bindR (auth_sign authorizer \<lparr>cp_account_group_id = ra_profile_id request, cp_operation = CapRecoverProfile,
                cp_expiry_unix_ms = saturating_add now 60000, cp_monotonic_sequence = max now 1,
                cp_nonce = nonce\<rparr>) (\<lambda>_.
         ret [RecoveryAdopted \<lparr>rd_profile_id = ra_profile_id request\<rparr>])))))))))))"

definition handle_handshake :: "app_ext \<Rightarrow> handshake \<Rightarrow> message list app_m" where
  "handle_handshake x h =
     seqR (of_result (handshake_check h))
    (bindR group_ids (\<lambda>ids.
     seqR (each_group (\<lambda>g. on_group g (handshake_group (px_host x) h)) ids)
    (seqR (update_app (\<lambda>a. a\<lparr>na_handshake_complete := True, na_negotiated_protocol := hs_protocol_version h,
             na_connection_profile_id := Some (hs_profile_id h)\<rparr>))
    (bindR (if hs_protocol_version h = PROTOCOL_VERSION then recovery_candidates x (hs_profile_id h) else ret []) (\<lambda>candidates.
     bindR the_app (\<lambda>a.
     seqR (each_group (\<lambda>g. app_audit (audit_record (hx_audit (px_host x)) g ''handshake'' ''success'' None
             (Some (if hs_extension_version h = CARGO_PKG_VERSION then ''extension_current'' else ''extension_legacy'')))) ids)
          (ret [HandshakeAck \<lparr>ha_protocol_version = hs_protocol_version h, ha_config_digest = na_config_digest a,
             ha_config = na_config a, ha_groups = group_states a, ha_host_version = CARGO_PKG_VERSION,
             ha_min_extension_version = MIN_EXTENSION_VERSION,
             ha_capabilities = advertised_capabilities (px_supports_monitoring x) (hs_protocol_version h),
             ha_recovery_candidates = candidates\<rparr>])))))))"

subsection \<open>Configuration changes\<close>

definition commit_config :: "app_ext \<Rightarrow> account_groups_config \<Rightarrow> unit app_m" where
  "commit_config x candidate =
     bindR the_app (\<lambda>a.
     bindR (of_result (to_bytes (px_config_pretty x) candidate)) (\<lambda>bytes.
     seqR (app_world (write_verified (dp_account_groups_config (na_paths a)) bytes (verify_config_bytes (px_config x))))
          (update_app (\<lambda>a. a\<lparr>na_config_digest := encode_hex (ce_sha256 (px_config x) bytes), na_config := candidate\<rparr>))))"

definition config_updated_message :: "native_host_app \<Rightarrow> message" where
  "config_updated_message a = ConfigUpdated \<lparr>cu_config_digest = na_config_digest a, cu_config = na_config a,
     cu_groups = group_states a\<rparr>"

definition updated :: "message list app_m" where
  "updated = bindR the_app (\<lambda>a. ret [config_updated_message a])"

definition rejected :: "string \<Rightarrow> message list app_m" where
  "rejected reason = ret [ConfigRejected \<lparr>cj_reason = reason\<rparr>]"

definition audit_config :: "app_ext \<Rightarrow> uuid \<Rightarrow> string \<Rightarrow> unit app_m" where
  "audit_config x g detail = app_audit (audit_record (hx_audit (px_host x)) g ''config'' ''success'' None (Some detail))"

text \<open>The state of a runtime that is not in the map yet.\<close>

definition bind_new_group :: "app_ext \<Rightarrow> uuid \<Rightarrow> group_runtime \<Rightarrow> group_runtime app_m" where
  "bind_new_group x profile_id r = bindR the_app (\<lambda>a. (\<lambda>(b, w).
     case bind_group (px_host x) (na_negotiated_protocol a) profile_id (r, na_hello_authorizer a, na_audit a, w) of
       (Inl e, (_, _, _, w')) \<Rightarrow> (Inl e, (b, w')) | (Inr _, (r', _, _, w')) \<Rightarrow> (Inr r', (b, w'))))"

definition handle_group_add :: "app_ext \<Rightarrow> group_add \<Rightarrow> message list app_m" where
  "handle_group_add x request =
     (let scope = normalize_scope (trim (ga_scope request));
          display_name = trim (ga_display_name request) in
      bindR the_app (\<lambda>a.
      bindR (app_world new_v4) (\<lambda>i.
      let added = \<lparr>ag_id = i, ag_display_name = (if display_name = [] then scope else display_name),
            ag_scope = scope, ag_policy_level = ga_policy_level request, ag_store_policy = NormalProfile\<rparr>;
          candidate = (na_config a)\<lparr>cfg_groups := cfg_groups (na_config a) @ [added]\<rparr> in
      case config_validate (ce_domain_str (px_config x)) candidate of
        Inl e \<Rightarrow> rejected (config_rejection_code e)
      | Inr _ \<Rightarrow>
          bindR (app_world (build_group_runtime x (na_paths a) added)) (\<lambda>r.
          bindR (ok_or (na_connection_profile_id a)
                   (Protocol ''group addition requires an authenticated profile'')) (\<lambda>profile_id.
          bindR (bind_new_group x profile_id r) (\<lambda>r.
          seqR (commit_config x candidate)
         (seqR (update_app (\<lambda>a. a\<lparr>na_groups := bt_insert i r (na_groups a)\<rparr>))
         (seqR (audit_config x i ''group_added'') updated))))))))"

text \<open>A configuration commit whose failure undoes the staged deletion first.\<close>

definition commit_or_rollback ::
    "app_ext \<Rightarrow> bool \<Rightarrow> group_runtime \<Rightarrow> account_groups_config \<Rightarrow> unit app_m" where
  "commit_or_rollback x staged r candidate = catchR (commit_config x candidate) (\<lambda>e.
     seqR (if staged then app_world (rollback_staged_invalidation (rt_transactions r)) else ret ()) (fail e))"

definition handle_group_remove :: "app_ext \<Rightarrow> group_remove \<Rightarrow> message list app_m" where
  "handle_group_remove x request =
     (let g = gr_account_group_id request in
      bindR the_app (\<lambda>a. case map_of (na_groups a) g of
        None \<Rightarrow> rejected ''unknown_group''
      | Some r \<Rightarrow>
          let candidate = (na_config a)\<lparr>cfg_groups := filter (\<lambda>d. ag_id d \<noteq> g) (cfg_groups (na_config a))\<rparr> in
          seqR (app_world (stage_invalidation (rt_transactions r)))
         (seqR (of_result (config_validate (ce_domain_str (px_config x)) candidate))
         (seqR (commit_or_rollback x True r candidate)
         (seqR (app_world (commit_staged_invalidation (rt_transactions r)))
         (seqR (update_app (\<lambda>a. a\<lparr>na_groups := bt_remove g (na_groups a)\<rparr>))
         (bindR (attempt (app_world (remove_group_projections (na_paths a) g))) (\<lambda>_.
          bindR (attempt (audit_config x g ''group_removed'')) (\<lambda>_. updated)))))))))"

fun set_policy :: "uuid \<Rightarrow> policy_level \<Rightarrow> account_group list \<Rightarrow> account_group list" where
  "set_policy g level [] = []"
| "set_policy g level (d # ds) =
     (if ag_id d = g then d\<lparr>ag_policy_level := level\<rparr> # ds else d # set_policy g level ds)"

definition enter_monitor :: "app_ext \<Rightarrow> unit group_m" where
  "enter_monitor x =
     seqR (with_transactions commit_staged_invalidation)
    (seqR (update_lease (\<lambda>l. (clear_lease Uninitialized l)\<lparr>lm_vault_sequence := 0\<rparr>)) (save_lease (px_host x)))"

definition handle_group_set_policy :: "app_ext \<Rightarrow> group_set_policy \<Rightarrow> message list app_m" where
  "handle_group_set_policy x request =
     (let g = gp_account_group_id request; level = gp_policy_level request in
      bindR the_app (\<lambda>a. case map_of (na_groups a) g of
        None \<Rightarrow> rejected ''unknown_group''
      | Some r \<Rightarrow>
          let entering = level = policy_level.Monitor \<and> rt_policy r \<noteq> policy_level.Monitor;
              candidate = (na_config a)\<lparr>cfg_groups := set_policy g level (cfg_groups (na_config a))\<rparr> in
          if rt_pending r \<noteq> None \<or> has_unresolved (rt_operation_coordinator r) then rejected ''operation_pending''
          else if entering \<and> lm_state (rt_lease r) = Sealed
          then rejected ''monitor_transition_requires_unlocked_session''
          else
            seqR (if entering then app_world (stage_invalidation (rt_transactions r)) else ret ())
           (if \<not> list_ex (\<lambda>d. ag_id d = g) (cfg_groups (na_config a)) then rejected ''unknown_group''
            else seqR (of_result (config_validate (ce_domain_str (px_config x)) candidate))
                (seqR (commit_or_rollback x entering r candidate)
                (seqR (on_group g (seqR (update_runtime (\<lambda>r. r\<lparr>rt_policy := level\<rparr>))
                                       (if entering then enter_monitor x else ret ())))
                (seqR (audit_config x g ''policy_changed'') updated))))))"

subsection \<open>Routing\<close>

definition host_only_error :: "string \<Rightarrow> message list app_m" where
  "host_only_error what = fail (Protocol what)"

definition route_group :: "app_ext \<Rightarrow> message \<Rightarrow> message list app_m" where
  "route_group x message =
     bindR (ok_or (message_group_id message) (Protocol ''message direction is host-to-extension only'')) (\<lambda>g.
     seqR (update_app (\<lambda>a. a\<lparr>na_last_message_group := Some g\<rparr>))
    (bindR the_app (\<lambda>a.
       on_group g (group_handle (px_host x) (dp_hello_credential (na_paths a)) (na_negotiated_protocol a) message))))"

definition route :: "app_ext \<Rightarrow> message \<Rightarrow> message list app_m" where
  "route x message = (case message of
       MonitorEvent event \<Rightarrow>
         bindR the_app (\<lambda>a.
         seqR (reject (case me_account_group_id event of Some i \<Rightarrow> map_of (na_groups a) i = None | None \<Rightarrow> False)
                 (Protocol ''unknown monitor account group''))
              (app_monitor (accept_extension_event (hx_audit (px_host x)) event)))
     | MonitorPoll request \<Rightarrow> app_monitor (poll (hx_audit (px_host x)) request)
     | MonitorAlert _ \<Rightarrow> host_only_error ''monitor.alert direction is host-to-extension only''
     | GroupAdd request \<Rightarrow> handle_group_add x request
     | GroupRemove request \<Rightarrow> handle_group_remove x request
     | GroupSetPolicy request \<Rightarrow> handle_group_set_policy x request
     | RecoveryAdopt request \<Rightarrow> handle_recovery_adopt x request
     | RecoveryAdopted _ \<Rightarrow> host_only_error ''recovery result direction is host-to-extension only''
     | ConfigUpdated _ \<Rightarrow> host_only_error ''config result direction is host-to-extension only''
     | ConfigRejected _ \<Rightarrow> host_only_error ''config result direction is host-to-extension only''
     | OperationError _ \<Rightarrow> host_only_error ''config result direction is host-to-extension only''
     | _ \<Rightarrow> route_group x message)"

definition native_handle :: "app_ext \<Rightarrow> message \<Rightarrow> message list app_m" where
  "native_handle x message =
     bindR the_app (\<lambda>a.
     if \<not> na_handshake_complete a
     then (case message of Handshake h \<Rightarrow> handle_handshake x h
           | _ \<Rightarrow> host_only_error ''handshake must be the first application message'')
     else (case message of
         Handshake _ \<Rightarrow> host_only_error ''handshake cannot be repeated on one connection''
       | HandshakeAck _ \<Rightarrow> host_only_error ''handshake cannot be repeated on one connection''
       | _ \<Rightarrow> seqR (update_app (\<lambda>a. a\<lparr>na_last_message_group := None\<rparr>)) (route x message)))"

definition deny_for_error :: "native_host_app \<Rightarrow> fcp_error \<Rightarrow> message" where
  "deny_for_error a error = LeaseDeny
     \<lparr>ld_account_group_id = (case na_last_message_group a of Some g \<Rightarrow> g
        | None \<Rightarrow> (case na_groups a of (g, _) # _ \<Rightarrow> g | [] \<Rightarrow> WIKIPEDIA_ACCOUNT_GROUP_ID)),
      ld_reason = ''host_error_fail_closed''\<rparr>"

definition error_group_id :: "native_host_app \<Rightarrow> uuid option" where
  "error_group_id a = na_last_message_group a"

text \<open>The application behind a connection: the profile of the handshake selects the data.\<close>

definition native_app :: "app_ext \<Rightarrow> path \<Rightarrow> native_host_app host_app" where
  "native_app x base =
     \<lparr>ap_open = (\<lambda>profile_id. bindR (discover_profile base profile_id) (\<lambda>paths.
        seqR (px_lock x (dp_root paths)) (native_open x paths))),
      ap_handle = native_handle x, ap_error_group_id = error_group_id\<rparr>"

lemma le_foldr_max: "n \<in> set ns \<Longrightarrow> n \<le> foldr max ns (0::nat)"
  by (induction ns) auto

lemma tree_depth_bound: "p \<in> set (dirs w @ map fst (files w)) \<Longrightarrow> length p \<le> tree_depth w"
  unfolding tree_depth_def by (rule le_foldr_max) (simp only: set_map, rule imageI)

lemma dir_entries_deeper:
  "q \<in> set (dir_entries w p) \<Longrightarrow> length q = Suc (length p) \<and> length q \<le> tree_depth w"
  using tree_depth_bound [of _ w]
  by (force simp: dir_entries_def dest!: prefix_length_less)

lemma visit_fuel: "tree_depth w < n + length p \<Longrightarrow> visit (Suc n) x w p latest = visit (Suc (Suc n)) x w p latest"
proof (induction n arbitrary: p latest)
  case 0
  have "dir_entries w p = []"
  proof (rule ccontr)
    assume "dir_entries w p \<noteq> []"
    then obtain q where "q \<in> set (dir_entries w p)" by (cases "dir_entries w p") auto
    then show False using dir_entries_deeper 0 by fastforce
  qed
  then show ?case by (simp split: option.split)
next
  case (Suc n)
  have "fold (visit (Suc n) x w) (dir_entries w p) l = fold (visit (Suc (Suc n)) x w) (dir_entries w p) l" for l
    by (rule fold_cong) (use Suc.prems in \<open>auto dest: dir_entries_deeper intro!: ext Suc.IH\<close>)
  then show ?case by (simp only: visit.simps(2))
qed

end
