(* ===== verification/Invariance.thy ===== *)
theory Invariance
  imports Prelude
begin

text \<open>
  Invariants of programs in the state and error monad. A program keeps a predicate when it leaves
  it true in every outcome, success or error; \<open>keeps_rules\<close> follows the structure of a program, so
  that an invariant of a handler is checked at its state changes only. A machine whose every step
  keeps an invariant keeps it over every sequence of inputs, whatever fails on the way.
\<close>

named_theorems keeps_rules \<open>syntax-directed rules for kept invariants\<close>

definition keeps :: "('s \<Rightarrow> bool) \<Rightarrow> ('s, 'e, 'a) rm \<Rightarrow> bool" where
  "keeps I m \<longleftrightarrow> (\<forall>s. I s \<longrightarrow> wp m (\<lambda>_. I) (\<lambda>_. I) s)"

lemma keepsI: "(\<And>s. I s \<Longrightarrow> wp m (\<lambda>_. I) (\<lambda>_. I) s) \<Longrightarrow> keeps I m"
  by (simp add: keeps_def)

lemma keepsD: "keeps I m \<Longrightarrow> I s \<Longrightarrow> wp m (\<lambda>_. I) (\<lambda>_. I) s"
  by (simp add: keeps_def)

lemma keeps_run: "keeps I m \<Longrightarrow> I s \<Longrightarrow> I (snd (m s))"
  by (cases "m s") (auto simp: keeps_def wp_def split: sum.splits dest!: spec [of _ s])

lemma keeps_bindR [keeps_rules]: "keeps I m \<Longrightarrow> (\<And>v. keeps I (f v)) \<Longrightarrow> keeps I (bindR m f)"
  unfolding keeps_def wp_bindR by (blast intro: wp_mono)

lemma keeps_seqR [keeps_rules]: "keeps I m \<Longrightarrow> keeps I n \<Longrightarrow> keeps I (seqR m n)"
  unfolding keeps_def wp_seqR by (blast intro: wp_mono)

lemma keeps_catchR [keeps_rules]: "keeps I m \<Longrightarrow> (\<And>e. keeps I (h e)) \<Longrightarrow> keeps I (catchR m h)"
  unfolding keeps_def wp_catchR by (blast intro: wp_mono)

lemma keeps_attempt [keeps_rules]: "keeps I m \<Longrightarrow> keeps I (attempt m)"
  unfolding keeps_def wp_attempt by (blast intro: wp_mono)

lemma keeps_map_err [keeps_rules]: "keeps I m \<Longrightarrow> keeps I (map_err f m)"
  unfolding keeps_def wp_map_err by (blast intro: wp_mono)

lemma keeps_if [keeps_rules]: "(c \<Longrightarrow> keeps I m) \<Longrightarrow> (\<not> c \<Longrightarrow> keeps I n) \<Longrightarrow> keeps I (if c then m else n)"
  by simp

lemma keeps_option [keeps_rules]:
  "(z = None \<Longrightarrow> keeps I m) \<Longrightarrow> (\<And>v. z = Some v \<Longrightarrow> keeps I (f v)) \<Longrightarrow> keeps I (case z of None \<Rightarrow> m | Some v \<Rightarrow> f v)"
  by (simp split: option.split)

lemma keeps_sum [keeps_rules]:
  "(\<And>e. keeps I (g e)) \<Longrightarrow> (\<And>v. keeps I (f v)) \<Longrightarrow> keeps I (case z of Inl e \<Rightarrow> g e | Inr v \<Rightarrow> f v)"
  by (simp split: sum.split)

lemma keeps_prod [keeps_rules]: "(\<And>a b. z = (a, b) \<Longrightarrow> keeps I (f a b)) \<Longrightarrow> keeps I (case z of (a, b) \<Rightarrow> f a b)"
  by (simp split: prod.split)

lemma keeps_let [keeps_rules]: "(\<And>v. v = z \<Longrightarrow> keeps I (f v)) \<Longrightarrow> keeps I (let v = z in f v)"
  by (simp add: Let_def)

lemma keeps_pure [keeps_rules]:
  "keeps I (ret v)" "keeps I (fail e)" "keeps I (of_result q)" "keeps I (ok_or z e)" "keeps I (reject c e)" "keeps I (gets h)"
  by (auto simp: keeps_def wp_simps split: sum.split option.split)

lemma keeps_modify: "(\<And>s. I s \<Longrightarrow> I (f s)) \<Longrightarrow> keeps I (modify f)"
  by (simp add: keeps_def wp_modify)

text \<open>A call on a part of the state keeps what does not depend on that part.\<close>

lemma keeps_zoom: "(\<And>s t. I s \<Longrightarrow> I (put t s)) \<Longrightarrow> keeps I (zoom pick put m)"
  by (auto simp: keeps_def wp_zoom intro: wp_mono [OF wp_top])

lemma keeps_on_snd: "(\<And>a b c. I (a, b) \<Longrightarrow> I (a, c)) \<Longrightarrow> keeps I (on_snd m)"
  by (auto simp: keeps_def wp_on_snd intro: wp_mono [OF wp_top])

subsection \<open>What a successful run returns\<close>

text \<open>
  \<open>yields m P\<close>: whenever \<open>m\<close> succeeds, its value satisfies \<open>P\<close>, from every state.
\<close>

definition yields :: "('s, 'e, 'a) rm \<Rightarrow> ('a \<Rightarrow> bool) \<Rightarrow> bool" where
  "yields m P \<longleftrightarrow> (\<forall>s v s'. m s = (Inr v, s') \<longrightarrow> P v)"

lemma yieldsD: "yields m P \<Longrightarrow> m s = (Inr v, s') \<Longrightarrow> P v"
  unfolding yields_def by blast

lemma yieldsI: "(\<And>s v s'. m s = (Inr v, s') \<Longrightarrow> P v) \<Longrightarrow> yields m P"
  unfolding yields_def by blast

lemma yields_mono: "yields m P \<Longrightarrow> (\<And>v. P v \<Longrightarrow> Q v) \<Longrightarrow> yields m Q"
  by (auto simp: yields_def)

lemma yields_top: "yields m (\<lambda>_. True)"
  by (simp add: yields_def)

lemma yields_self: "yields m (\<lambda>v. \<exists>w w'. m w = (Inr v, w'))"
  by (auto simp: yields_def)

lemma yields_bindR: "yields m P \<Longrightarrow> (\<And>v. P v \<Longrightarrow> yields (f v) Q) \<Longrightarrow> yields (bindR m f) Q"
  by (fastforce simp: yields_def bindR_def split: prod.splits sum.splits)

lemma yields_seqR: "yields m P \<Longrightarrow> (\<And>v. P v \<Longrightarrow> yields n Q) \<Longrightarrow> yields (seqR m n) Q"
  unfolding seqR_def by (rule yields_bindR)

lemma yields_on_snd: "yields (on_snd m) (\<lambda>v. \<exists>w w'. m w = (Inr v, w'))"
  by (fastforce simp: yields_def on_snd_def zoom_def split: prod.splits)

lemma yields_reject: "yields (reject c e) (\<lambda>_. \<not> c)"
  by (auto simp: yields_def reject_def ret_def fail_def)

lemma yields_of_result: "yields (of_result r) (\<lambda>v. r = Inr v)"
  by (auto simp: yields_def of_result_def)

lemma yields_ok_or: "yields (ok_or z e) (\<lambda>v. z = Some v)"
  by (auto simp: yields_def ok_or_def ret_def fail_def split: option.splits)

lemma yields_ret: "P v \<Longrightarrow> yields (ret v) P"
  by (simp add: yields_def ret_def)

lemma yields_fail: "yields (fail e) P"
  by (simp add: yields_def fail_def)

named_theorems answer_rules \<open>syntax-directed rules for what a program returns\<close>

text \<open>Only what a program returns last matters.\<close>

lemma yields_last [answer_rules]:
  "(\<And>v. yields (f v) P) \<Longrightarrow> yields (bindR m f) P" "yields n P \<Longrightarrow> yields (seqR k n) P"
  "(c \<Longrightarrow> yields a P) \<Longrightarrow> (\<not> c \<Longrightarrow> yields b P) \<Longrightarrow> yields (if c then a else b) P"
  "yields (fail e) P"
  by (auto intro: yields_bindR [OF yields_top] yields_seqR [OF yields_top] yields_fail)

lemma yields_cases [answer_rules]:
  "(z = None \<Longrightarrow> yields a P) \<Longrightarrow> (\<And>v. z = Some v \<Longrightarrow> yields (b v) P) \<Longrightarrow> yields (case z of None \<Rightarrow> a | Some v \<Rightarrow> b v) P"
  "(\<And>e. yields (g e) P) \<Longrightarrow> (\<And>v. yields (h v) P) \<Longrightarrow> yields (case q of Inl e \<Rightarrow> g e | Inr v \<Rightarrow> h v) P"
  "(\<And>u v. yields (k u v) P) \<Longrightarrow> yields (case p of (u, v) \<Rightarrow> k u v) P"
  "(\<And>v. yields (l v) P) \<Longrightarrow> yields (let v = i in l v) P"
  by (auto simp: Let_def split: option.split sum.split prod.split)

lemma yields_zoom: "yields m P \<Longrightarrow> yields (zoom pick put m) P"
  by (fastforce simp: yields_def zoom_def split: prod.splits)

lemma yields_part: "yields m P \<Longrightarrow> yields (on_snd m) P"
  by (fastforce simp: yields_def on_snd_def split: prod.splits)

lemma yields_wp: "yields m P \<Longrightarrow> wp m (\<lambda>v _. P v) (\<lambda>_ _. True) s"
  by (auto simp: yields_def wp_def split: prod.split sum.split)

subsection \<open>Machines\<close>

fun run_steps :: "('m \<Rightarrow> ('s, 'e, 'a) rm) \<Rightarrow> 'm list \<Rightarrow> 's \<Rightarrow> 's" where
  "run_steps step [] s = s"
| "run_steps step (m # ms) s = run_steps step ms (snd (step m s))"

locale invariant_machine =
  fixes step :: "'m \<Rightarrow> ('s, 'e, 'a) rm" and Inv :: "'s \<Rightarrow> bool"
  assumes step_keeps: "keeps Inv (step m)"
begin

lemma one_step: "Inv s \<Longrightarrow> Inv (snd (step m s))"
  using step_keeps by (rule keeps_run)

lemma all_steps: "Inv s \<Longrightarrow> Inv (run_steps step ms s)"
  by (induction ms arbitrary: s) (simp_all add: one_step)

lemma step_result: "Inv s \<Longrightarrow> step m s = (q, s') \<Longrightarrow> Inv s'"
  using one_step [of s m] by simp

end

end
