(* ===== verification/Snapshot_Protocol.thy ===== *)
theory Snapshot_Protocol
  imports Group_Runtime Invariance
begin

text \<open>
  What the group handlers of \<open>Group_Runtime\<close> promise: rules of the calculus for the group's
  state, the files each part may touch, and the properties of chunking, snapshot assembly,
  confirmation and removal.
\<close>

subsection \<open>Rules\<close>

lemma wp_in_audit [wp_simps]:
  "wp (in_audit m) Q E = (\<lambda>s. wp m (\<lambda>v t. Q v (fst s, fst (snd s), t)) (\<lambda>e t. E e (fst s, fst (snd s), t)) (snd (snd s)))"
  by (simp add: in_audit_def wp_on_snd fun_eq_iff)

lemma wp_in_world [wp_simps]:
  "wp (in_world m) Q E = (\<lambda>s. wp m (\<lambda>v w. Q v (fst s, fst (snd s), fst (snd (snd s)), w))
     (\<lambda>e w. E e (fst s, fst (snd s), fst (snd (snd s)), w)) (snd (snd (snd s))))"
  by (simp add: in_world_def wp_in_audit wp_on_snd fun_eq_iff)

lemma wp_the_runtime [wp_simps]: "wp the_runtime Q E = (\<lambda>s. Q (fst s) s)"
  by (simp add: the_runtime_def wp_gets)

lemma wp_update_runtime [wp_simps]: "wp (update_runtime f) Q E = (\<lambda>s. Q () (f (fst s), snd s))"
  by (simp add: update_runtime_def wp_modify case_prod_beta fun_eq_iff)

lemma wp_update_lease [wp_simps]:
  "wp (update_lease f) Q E = (\<lambda>s. Q () ((fst s)\<lparr>rt_lease := f (rt_lease (fst s))\<rparr>, snd s))"
  by (simp add: update_lease_def wp_update_runtime)

lemma wp_set_pending [wp_simps]: "wp (set_pending p) Q E = (\<lambda>s. Q () ((fst s)\<lparr>rt_pending := p\<rparr>, snd s))"
  by (simp add: set_pending_def wp_update_runtime)

lemma wp_on_coordinator [wp_simps]:
  "wp (on_coordinator m) Q E = (\<lambda>s. wp m
     (\<lambda>v t. Q v ((fst s)\<lparr>rt_operation_coordinator := fst t\<rparr>, fst (snd s), fst (snd (snd s)), snd t))
     (\<lambda>e t. E e ((fst s)\<lparr>rt_operation_coordinator := fst t\<rparr>, fst (snd s), fst (snd (snd s)), snd t))
     (rt_operation_coordinator (fst s), snd (snd (snd s))))"
  by (simp add: on_coordinator_def wp_zoom case_prod_beta fun_eq_iff)

lemma wp_on_transactions [wp_simps]:
  "wp (on_transactions m) Q E = (\<lambda>s. wp m
     (\<lambda>v t. Q v ((fst s)\<lparr>rt_transactions := fst t\<rparr>, fst (snd s), fst (snd (snd s)), snd t))
     (\<lambda>e t. E e ((fst s)\<lparr>rt_transactions := fst t\<rparr>, fst (snd s), fst (snd (snd s)), snd t))
     (rt_transactions (fst s), snd (snd (snd s))))"
  by (simp add: on_transactions_def wp_zoom case_prod_beta fun_eq_iff)

lemma wp_with_transactions [wp_simps]:
  "wp (with_transactions f) Q E = (\<lambda>s. wp (f (rt_transactions (fst s)))
     (\<lambda>v w. Q v (fst s, fst (snd s), fst (snd (snd s)), w))
     (\<lambda>e w. E e (fst s, fst (snd s), fst (snd (snd s)), w)) (snd (snd (snd s))))"
  by (simp add: with_transactions_def wp_bindR wp_the_runtime wp_in_world fun_eq_iff)

lemma wp_restoring [wp_simps]:
  "wp (restoring p m) Q E = wp m Q (\<lambda>e s. E e ((fst s)\<lparr>rt_pending := Some p\<rparr>, snd s))"
  by (simp add: restoring_def wp_catchR wp_seqR wp_set_pending wp_fail)

lemma wp_lease_deny [wp_simps]:
  "wp (lease_deny reason) Q E = (\<lambda>s. Q [LeaseDeny \<lparr>ld_account_group_id = rt_id (fst s), ld_reason = reason\<rparr>] s)"
  by (simp add: lease_deny_def wp_bindR wp_the_runtime wp_ret fun_eq_iff)

subsection \<open>Files\<close>

definition outside :: "path \<Rightarrow> world \<Rightarrow> world \<Rightarrow> bool" where
  "outside d w w' \<longleftrightarrow> (\<forall>q. \<not> strict_prefix d q \<longrightarrow> lookup w' q = lookup w q)"

lemma outside_refl [simp]: "outside d w w"
  by (simp add: outside_def)

lemma outside_trans: "outside d u v \<Longrightarrow> outside d v w \<Longrightarrow> outside d u w"
  by (simp add: outside_def)

lemma outside_same: "lookup w' = lookup w \<Longrightarrow> outside d w w'"
  by (simp add: outside_def)

lemma strict_prefix_child [simp]: "strict_prefix d (d @ [s])"
  by (simp add: strict_prefix_def)

lemma scratch_inside:
  assumes "write_scratch (d @ [s]) q"
  shows "strict_prefix d q"
  using assms by (auto simp: write_scratch_def temporary_path_def file_name_def with_file_name_def
      split: option.splits if_splits seg.splits)

lemma wp_write_inside:
  "wp (write_verified_durable (d @ [s]) bs v) (\<lambda>_ w'. outside d w w') (\<lambda>_ w'. outside d w w') w"
  by (rule wp_runI) (auto simp: outside_def dest!: scratch_inside intro!: dw.frame)

text \<open>What every call on the audit logger keeps: its directory, and all files outside of it.\<close>

definition audit_kept :: "audit_logger \<Rightarrow> world \<Rightarrow> audit_logger \<times> world \<Rightarrow> bool" where
  "audit_kept l w t \<longleftrightarrow> al_directory (fst t) = al_directory l \<and> outside (al_directory l) w (snd t)"

lemma audit_kept_trans:
  "audit_kept l w t \<Longrightarrow> audit_kept (fst t) (snd t) u \<Longrightarrow> audit_kept l w u"
  by (auto simp: audit_kept_def intro: outside_trans)

lemma wp_persist_anchor_kept:
  "wp (persist_anchor x n mac) (\<lambda>_. audit_kept l w) (\<lambda>_. audit_kept l w) (l, w)"
  by (auto simp: persist_anchor_def persist_protected_file_def wp_simps audit_kept_def anchor_path_def
      split: sum.split intro!: wp_mono [OF wp_write_inside])

lemma outside_file:
  "outside d w (put_file (d @ [s]) bs w)" "outside d w (append_file (d @ [s]) bs w)"
  by (auto simp: outside_def)

lemma wp_append_line_kept:
  assumes "al_directory l = d"
  shows "wp (append_line x (d @ [s]) line n mac) (\<lambda>_. audit_kept l w) (\<lambda>_. audit_kept l w) (l, w)"
proof -
  have fin: "wp (persist_anchor x n mac) (\<lambda>_. audit_kept l w) (\<lambda>_. audit_kept l w)
      (l\<lparr>al_sequence := n, al_mac := mac\<rparr>, v)" if "outside d w v" for v
    by (rule wp_mono [OF wp_persist_anchor_kept])
      (use that assms in \<open>auto simp: audit_kept_def intro: outside_trans\<close>)
  show ?thesis using assms
    by (auto simp: append_line_def wp_simps audit_kept_def outside_def split: option.split intro!: fin)
qed

lemma wp_record_inner_kept:
  "wp (record_inner x g ev oc op dc i) (\<lambda>_. audit_kept l w) (\<lambda>_. audit_kept l w) (l, w)"
proof -
  have line: "wp (append_line x (day_path (al_directory l) k) bs n mac) (\<lambda>_. audit_kept l w) (\<lambda>_. audit_kept l w)
      (l, advance w)" for k bs n mac
    unfolding day_path_def
    by (rule wp_mono [OF wp_append_line_kept [OF refl]]) (auto simp: audit_kept_def outside_def)
  have "audit_kept l w (l, w)" "audit_kept l w (l, advance w)" by (simp_all add: audit_kept_def outside_same fun_eq_iff)
  then show ?thesis unfolding record_inner_def Let_def
    by (auto simp: wp_bindR wp_gets wp_ok_or wp_on_snd wp_unix_ms wp_of_result split: option.split sum.split intro!: line)
qed

lemma wp_find_event_same:
  "wp (find_event x i ps) (\<lambda>_ w'. lookup w' = lookup w) (\<lambda>_ w'. lookup w' = lookup w) w"
proof (induction ps arbitrary: w)
  case (Cons p ps)
  show ?case
    by (auto simp: wp_simps fun_eq_iff split: option.split sum.split intro!: wp_mono [OF Cons])
qed (simp add: wp_simps)

lemma wp_chain_files_same:
  "wp (chain_files d) (\<lambda>_ w'. lookup w' = lookup w) (\<lambda>_ w'. lookup w' = lookup w) w"
  by (auto simp: chain_files_def wp_simps fun_eq_iff split: option.split)

lemma wp_record_once_kept:
  "wp (record_once x i g ev oc op dc) (\<lambda>_. audit_kept l w) (\<lambda>_. audit_kept l w) (l, w)"
proof -
  have same: "audit_kept l w (l, v)" if "lookup v = lookup w" for v
    using that by (simp add: audit_kept_def outside_same)
  have rest: "wp (record_inner x g' ev oc op dc i') (\<lambda>_. audit_kept l w) (\<lambda>_. audit_kept l w) (l, v)"
    if "lookup v = lookup w" for g' i' v
    by (rule wp_mono [OF wp_record_inner_kept]) (use that in \<open>auto simp: audit_kept_def outside_def\<close>)
  show ?thesis unfolding record_once_def
    by (auto simp: wp_seqR wp_reject wp_bindR wp_gets wp_on_snd wp_if wp_ret
        intro!: same rest wp_mono [OF wp_chain_files_same] wp_mono [OF wp_find_event_same])
qed

lemma wp_enqueue_outbox_kept:
  "wp (enqueue_outbox x e) (\<lambda>_. audit_kept l w) (\<lambda>_. audit_kept l w) (l, w)"
proof -
  have outbox: "wp (write_verified_durable (outbox_path (al_directory l)) bs v) (\<lambda>_ w'. audit_kept l w (l, w'))
      (\<lambda>_ w'. audit_kept l w (l, w')) u" if "lookup u = lookup w" for bs v u
    unfolding outbox_path_def
    by (rule wp_mono [OF wp_write_inside]) (use that in \<open>auto simp: audit_kept_def outside_def\<close>)
  have same: "audit_kept l w (l, v)" if "lookup v = lookup w" for v
    using that by (simp add: audit_kept_def outside_same)
  show ?thesis unfolding enqueue_outbox_def Let_def
    by (auto simp: wp_simps fun_eq_iff split: option.split sum.split intro!: same outbox)
qed

lemma wp_record_once_deferred_kept:
  "wp (record_once_deferred x i g ev oc op dc) (\<lambda>_. audit_kept l w) (\<lambda>_ _. False) (l, w)"
proof -
  have again: "wp m (\<lambda>_. audit_kept l w) (\<lambda>_. audit_kept l w) t"
    if "audit_kept l w t" "wp m (\<lambda>_. audit_kept (fst t) (snd t)) (\<lambda>_. audit_kept (fst t) (snd t)) (fst t, snd t)"
    for m :: "'a audit_m" and t
    using that(2) by (auto intro: wp_mono audit_kept_trans [OF that(1)])
  show ?thesis unfolding record_once_deferred_def Let_def
    by (simp add: wp_bindR wp_attempt wp_case_sum wp_ret)
      (rule wp_mono [OF wp_record_once_kept], assumption,
       rule wp_mono [OF again [OF _ wp_record_once_kept]], assumption, assumption,
       rule wp_mono [OF again [OF _ wp_enqueue_outbox_kept]], assumption+)
qed

text \<open>The coordinator never moves its journal.\<close>

lemma journal_path_kept: "s' = s\<lparr>js_journal := js_journal s'\<rparr> \<Longrightarrow> js_path s' = js_path s"
  by (metis journal_store.select_convs(1) journal_store.surjective journal_store.update_convs(3))

lemma wp_transition_path:
  "wp (transition x i ph) (\<lambda>_ t. js_path (fst t) = js_path s) (\<lambda>_ t. js_path (fst t) = js_path s) (s, w)"
  by (rule wp_transition_op) (auto dest: journal_path_kept)

lemma wp_bind_path:
  "wp (bind_snapshot x i b) (\<lambda>_ t. js_path (fst t) = js_path s) (\<lambda>_ t. js_path (fst t) = js_path s) (s, w)"
  by (rule wp_bind_op) (auto dest: journal_path_kept)

lemma wp_recover_path:
  "wp (recover_vault_phase x i v) (\<lambda>_ t. js_path (fst t) = js_path s) (\<lambda>_ t. js_path (fst t) = js_path s) (s, w)"
  unfolding recover_vault_phase_def Let_def
  by (auto simp: wp_bindR wp_seqR wp_gets wp_ok_or unwrap_operation_def wp_if wp_ret split: option.split
      intro!: wp_classify_vault wp_mono [OF wp_transition_path])

lemma wp_commit_path:
  "wp (commit_snapshot x tx i snap n p t)
     (\<lambda>_ u. js_path (oc_journal (fst u)) = js_path (oc_journal c)) (\<lambda>_ _. True) (c, w)"
proof -
  have tail: "wp m (\<lambda>_ t. js_path (fst t) = j) (\<lambda>_ t. js_path (fst t) = j) u"
    if "js_path (fst u) = j" "\<And>s w. wp m (\<lambda>_ t. js_path (fst t) = js_path s) (\<lambda>_ t. js_path (fst t) = js_path s) (s, w)"
    for m :: "'b journal_m" and u j
    using that(2) [of "fst u" "snd u"] that(1) by simp
  have fin: "wp (finish_commit x tx i p t) (\<lambda>_ u. js_path (oc_journal (fst u)) = js_path (oc_journal c))
      (\<lambda>_ _. True) (c\<lparr>oc_journal := s\<rparr>, v)" if "js_path s = js_path (oc_journal c)" for s v
    unfolding finish_commit_def
    by (simp only: wp_bindR wp_on_snd wp_attempt, rule wp_mono [OF wp_top])
      (auto simp: wp_bindR wp_seqR wp_case_sum wp_if wp_ret wp_fail wp_on_journal that
        split: recovery_classification.split
        intro!: wp_mono [OF tail [OF _ wp_transition_path]] wp_mono [OF tail [OF _ wp_recover_path]])
  show ?thesis unfolding commit_snapshot_def Let_def
    by (auto simp: wp_bindR wp_seqR wp_gets wp_ok_or wp_reject wp_on_journal split: option.split
        intro!: wp_mono [OF tail [OF _ wp_transition_path]] wp_mono [OF tail [OF _ wp_bind_path]] fin)
qed

subsection \<open>Confirmation\<close>

text \<open>The vault file is none of the files the journal, the lease and the audit log write.\<close>

definition vault_apart :: "group_runtime \<Rightarrow> audit_logger \<Rightarrow> bool" where
  "vault_apart r l \<longleftrightarrow> (let v = vault_path (rt_transactions r) in
     apart (oc_journal (rt_operation_coordinator r)) v \<and> v \<noteq> rt_lease_store r \<and>
     \<not> write_scratch (rt_lease_store r) v \<and> \<not> strict_prefix (al_directory l) v)"

lemma wp_lease_persist_frame:
  "wp (lease_persist c p m) (\<lambda>_ w'. \<forall>q. q \<noteq> p \<and> \<not> write_scratch p q \<longrightarrow> lookup w' q = lookup w q) (\<lambda>_ _. True) w"
proof -
  have "wp (write_verified_durable p bs v) (\<lambda>_ w'. \<forall>q. q \<noteq> p \<and> \<not> write_scratch p q \<longrightarrow> lookup w' q = lookup w q)
      (\<lambda>_ _. True) w" for bs v
    by (rule wp_runI) (auto dest: dw.frame)
  then show ?thesis by (auto simp: lease_persist_def wp_simps split: sum.split)
qed

lemma wp_announce_commit:
  assumes apart: "vault_apart r l" and held: "lookup w (vault_path (rt_transactions r)) = Some bs"
  shows "wp (announce_commit x pending sn n)
     (\<lambda>ms t. ms = [confirmed_message (rt_id r) pending sn n] \<and>
        lookup (snd (snd (snd t))) (vault_path (rt_transactions r)) = Some bs) (\<lambda>_ _. True) (r, a, l, w)"
proof -
  let ?v = "vault_path (rt_transactions r)"
  have mark: "wp (transition (hx_journal x) i BrowserRemovalPending) (\<lambda>_ t. lookup (snd t) ?v = Some bs) (\<lambda>_ _. True)
      (oc_journal (rt_operation_coordinator r), u)" if "lookup u ?v = Some bs" for i u
    by (rule wp_transition_op) (use that apart in \<open>auto simp: vault_apart_def Let_def frame_apart\<close>)
  have audit: "lookup (snd t) ?v = Some bs" if "audit_kept l u t" "lookup u ?v = Some bs" for u t
    using that apart by (auto simp: audit_kept_def outside_def vault_apart_def Let_def)
  show ?thesis using apart held unfolding announce_commit_def mark_external_result_pending_def
    by (auto simp: wp_bindR wp_seqR wp_the_runtime wp_update_lease wp_restoring persist_lease_def wp_in_world
        record_operation_audit_def wp_in_audit wp_on_coordinator wp_on_journal wp_set_pending wp_ret case_prod_beta
        vault_apart_def Let_def
        intro!: wp_mono [OF wp_lease_persist_frame] wp_mono [OF wp_record_once_deferred_kept] wp_mono [OF mark] audit)
qed

lemma prepared_stored:
  assumes "prepared_next tx t w cookies p" and "lookup w' (vault_path t) = Some (pw_bytes p)"
  shows "stored_next tx t cookies w (pw_vault_sequence p) w'"
  using assms by (auto simp: stored_next_def prepared_next_def prepared_holds_def)

text \<open>The hypotheses under which a group runs on sound external code and separate files.\<close>

definition group_sound :: "host_ext \<Rightarrow> group_runtime \<Rightarrow> audit_logger \<Rightarrow> world \<Rightarrow> bool" where
  "group_sound x r l w \<longleftrightarrow> tx_sound (hx_tx x) (rt_transactions r) \<and> je_sha256 (hx_journal x) = tx_sha256 (hx_tx x) \<and>
     exists_faithful w (vault_path (rt_transactions r)) \<and> vault_apart r l"

definition confirmed_stored ::
    "host_ext \<Rightarrow> group_runtime \<Rightarrow> pending_operation \<Rightarrow> cookies_snapshot_chunk \<Rightarrow> cookie_record list \<Rightarrow> world
     \<Rightarrow> message list \<Rightarrow> group_state_t \<Rightarrow> bool" where
  "confirmed_stored x r pending sn cookies w ms t \<longleftrightarrow>
     (\<exists>n k. ms = [confirmed_message (rt_id r) (pending\<lparr>po_confirmed := True, po_snapshot_cookie_count := k\<rparr>) sn n] \<and>
        stored_next (hx_tx x) (rt_transactions r) cookies w n (snd (snd (snd t))))"

lemma wp_commit_pending:
  assumes sound: "group_sound x r l w"
  shows "wp (commit_pending x pending sn cookies)
     (confirmed_stored x r pending sn cookies w) (\<lambda>_ _. True) (r, a, l, w)"
proof -
  let ?t = "rt_transactions r" and ?c = "rt_operation_coordinator r"
  have announce: "wp (announce_commit x (pending\<lparr>po_confirmed := True, po_snapshot_cookie_count := k\<rparr>) sn (pw_vault_sequence p))
      (confirmed_stored x r pending sn cookies w) (\<lambda>_ _. True)
      (r\<lparr>rt_operation_coordinator := c'\<rparr>, a, l, v)"
    if "prepared_next (hx_tx x) ?t w cookies p" "lookup v (vault_path ?t) = Some (pw_bytes p)"
      "js_path (oc_journal c') = js_path (oc_journal ?c)" for p k c' v
  proof -
    have "vault_apart (r\<lparr>rt_operation_coordinator := c'\<rparr>) l"
      using sound that(3) by (simp add: group_sound_def vault_apart_def apart_def)
    with that(2) show ?thesis
      by (intro wp_mono [OF wp_announce_commit [OF \<open>vault_apart _ l\<close>]]) (auto simp: confirmed_stored_def intro!: prepared_stored [OF that(1)])
  qed
  have commit: "wp (commit_snapshot (hx_journal x) (hx_tx x) i snap k p ?t)
      (\<lambda>n u. (n = pw_vault_sequence p \<and> committed_in (vault_path ?t) i p u) \<and>
         js_path (oc_journal (fst u)) = js_path (oc_journal ?c)) (\<lambda>_ _. True) (?c, v)"
    if "prepared_next (hx_tx x) ?t w cookies p" "lookup v (vault_path ?t) = lookup w (vault_path ?t)" for i snap k p v
  proof -
    have coherent: "prepared_coherent (hx_journal x) ?t p v"
      using sound that by (auto simp: group_sound_def prepared_coherent_def prepared_next_def prepared_holds_def)
    have "apart (oc_journal ?c) (vault_path ?t)" using sound by (simp add: group_sound_def vault_apart_def Let_def)
    from wp_conj [OF commit_snapshot_wp [OF coherent this] wp_commit_path] show ?thesis by (rule wp_mono) auto
  qed
  have prepare: "wp (prepare_after_snapshot (hx_tx x) ?t cookies)
      (\<lambda>p v. prepared_next (hx_tx x) ?t w cookies p \<and> lookup v (vault_path ?t) = lookup w (vault_path ?t)) (\<lambda>_ _. True) w"
    using sound by (intro wp_mono [OF wp_prepare_after_snapshot]) (auto simp: group_sound_def)
  show ?thesis unfolding commit_pending_def
    by (auto simp: wp_bindR wp_of_result wp_restoring wp_with_transactions wp_the_runtime wp_on_coordinator committed_in_def
        split: sum.split intro!: wp_mono [OF prepare] wp_mono [OF commit] announce)
qed

lemma wp_handle_snapshot_chunk:
  assumes pending: "rt_pending r = Some pending" and sound: "group_sound x r l w"
  shows "wp (handle_snapshot_chunk x sn)
     (\<lambda>ms t. \<forall>c. EvictConfirmed c \<in> set ms \<longrightarrow> ec_operation_id c = po_operation_id pending \<and> ec_lease_id c = po_lease_id pending \<and>
        unat (sn_cookie_count sn) = length (po_snapshot_cookies pending @ sn_cookies sn) \<and>
        stored_next (hx_tx x) (rt_transactions r) (po_snapshot_cookies pending @ sn_cookies sn) w
          (ec_vault_sequence c) (snd (snd (snd t)))) (\<lambda>_ _. True) (r, a, l, w)"
proof (cases "check_chunk x pending sn")
  case (Inl e)
  then show ?thesis using pending by (simp add: handle_snapshot_chunk_def wp_simps)
next
  case (Inr v)
  then obtain bytes count where v: "v = (bytes, count)"
      "po_operation_id pending = sn_operation_id sn" "po_lease_id pending = sn_lease_id sn"
      "count = length (po_snapshot_cookies pending) + length (sn_cookies sn)"
    by (cases v) (auto simp: check_chunk_def checked_add_usize_def split: if_splits sum.splits option.splits)
  have empty: "wp (abort_empty_enrollment x sn) (\<lambda>ms t. \<forall>c. EvictConfirmed c \<notin> set ms) (\<lambda>_ _. True) s" for s
    unfolding abort_empty_enrollment_def
    by (auto simp: wp_bindR wp_seqR wp_the_runtime wp_update_lease wp_ret invalidated_message_def
        intro!: wp_mono [OF wp_top])
  have s: "group_sound x (r\<lparr>rt_pending := p\<rparr>) l w" for p
    using sound by (simp add: group_sound_def vault_apart_def)
  have finish: "wp (commit_pending x p sn (po_snapshot_cookies pending @ sn_cookies sn))
     (\<lambda>ms t. \<forall>c. EvictConfirmed c \<in> set ms \<longrightarrow> ec_operation_id c = sn_operation_id sn \<and> ec_lease_id c = sn_lease_id sn \<and>
        stored_next (hx_tx x) (rt_transactions r) (po_snapshot_cookies pending @ sn_cookies sn) w
          (ec_vault_sequence c) (snd (snd (snd t)))) (\<lambda>_ _. True) (r\<lparr>rt_pending := None\<rparr>, a, l, w)" for p
    by (rule wp_mono [OF wp_commit_pending [OF s]]) (auto simp: confirmed_stored_def confirmed_message_def)
  show ?thesis using pending Inr v
    by (auto simp: handle_snapshot_chunk_def finish_snapshot_def accept_chunk_def wp_bindR wp_the_runtime wp_ok_or
        wp_of_result wp_seqR wp_set_pending wp_if wp_ret wp_reject Let_def
        intro!: wp_mono [OF empty] wp_mono [OF finish])
qed

text \<open>The same on protocol 7, whose commit chunks go through the handler of protocol 6.\<close>

lemma bind_confirmation_confirmed:
  "EvictConfirmed c = bind_confirmation sq at m \<longleftrightarrow>
     (\<exists>c'. m = EvictConfirmed c' \<and> c = c'\<lparr>ec_operation_sequence := Some sq, ec_attempt_id := Some at\<rparr>)"
  by (cases m) auto

abbreviation unconfirmed :: "('s, 'e, message list) rm \<Rightarrow> bool" where
  "unconfirmed m \<equiv> yields m (\<lambda>out. \<forall>c. EvictConfirmed c \<notin> set out)"

lemma unconfirmed_answers [simp]:
  "EvictConfirmed c \<noteq> grant_message g li ex cs" "EvictConfirmed c \<noteq> invalidated_message g why"
  "EvictConfirmed c \<noteq> semantic_status g jo" "EvictConfirmed c \<noteq> snapshot_required g oi sq ol at"
  "EvictConfirmed c \<noteq> completed_message g oi sq ol ok"
  by (simp_all add: grant_message_def invalidated_message_def semantic_status_def snapshot_required_def completed_message_def)

lemma unconfirmed_removal: "unconfirmed (handle_removal_snapshot_chunk x s7)"
  unfolding handle_removal_snapshot_chunk_def by (intro answer_rules yields_ret; simp)

lemma wp_handle_snapshot_chunk_v7:
  assumes pending: "rt_pending r = Some pending" and sound: "group_sound x r l w"
  shows "wp (handle_snapshot_chunk_v7 x s7)
     (\<lambda>ms t. \<forall>c. EvictConfirmed c \<in> set ms \<longrightarrow> ec_operation_id c = po_operation_id pending \<and>
        unat (s7_cookie_count s7) = length (po_snapshot_cookies pending @ s7_cookies s7) \<and>
        stored_next (hx_tx x) (rt_transactions r) (po_snapshot_cookies pending @ s7_cookies s7) w
          (ec_vault_sequence c) (snd (snd (snd t)))) (\<lambda>_ _. True) (r, a, l, w)"
    (is "wp _ ?Q _ _")
proof -
  have "wp (process_v7_chunk x s7) ?Q (\<lambda>_ _. True) (r\<lparr>rt_pending := Some (pending\<lparr>po_snapshot_chunk_digests := f\<rparr>)\<rparr>, a, l, w)" for f
  proof -
    let ?r = "r\<lparr>rt_pending := Some (pending\<lparr>po_snapshot_chunk_digests := f\<rparr>)\<rparr>"
    have "group_sound x ?r l w" using sound by (simp add: group_sound_def vault_apart_def)
    from wp_handle_snapshot_chunk [OF _ this, of "pending\<lparr>po_snapshot_chunk_digests := f\<rparr>" "v6_chunk s7" a]
    have commit: "wp (handle_snapshot_chunk x (v6_chunk s7)) ?Q (\<lambda>_ _. True) (?r, a, l, w)"
      by (rule wp_mono) (simp_all add: v6_chunk_def)
    have removal: "wp (handle_removal_snapshot_chunk x s7) ?Q (\<lambda>_ _. True) (?r, a, l, w)"
      by (rule wp_mono [OF yields_wp [OF unconfirmed_removal]]) auto
    show ?thesis unfolding process_v7_chunk_def
      by (auto simp: wp_if wp_seqR wp_reject wp_bindR wp_ret bind_confirmation_confirmed
          intro!: wp_mono [OF removal] wp_mono [OF commit])
  qed
  then show ?thesis using pending unfolding handle_snapshot_chunk_v7_def
    by (auto simp: wp_bindR wp_the_runtime wp_ok_or wp_seqR wp_reject wp_of_result wp_set_pending wp_ret wp_fail Let_def
        split: sum.split option.split)
qed

text \<open>No other message to a group is answered with a confirmation.\<close>

lemma inject_messages_unconfirmed:
  "inject_messages g lease_id k n i chunks = Inr ms \<Longrightarrow> EvictConfirmed c \<notin> set ms"
  by (induction g lease_id k n i chunks arbitrary: ms rule: inject_messages.induct) (auto split: if_splits sum.splits)

lemma unconfirmed_lease:
  "unconfirmed (lease_deny why)" "unconfirmed (grant_enrollment_v7 x d)" "unconfirmed (begin_enrollment x d)"
  "unconfirmed (handle_inject_result x ir)" "unconfirmed (invalidate_session x why')" "unconfirmed host_only"
  unfolding lease_deny_def grant_enrollment_v7_def begin_enrollment_def handle_inject_result_def invalidate_session_def host_only_def
  by (intro answer_rules yields_ret; simp)+

lemma unconfirmed_inject: "unconfirmed (begin_inject x p d)"
proof -
  have last: "unconfirmed (bindR (of_result (inject_messages g li k n 0 chunks)) (\<lambda>ms. ret (grant_message g li ex cs # ms)))"
    for g li k n chunks ex cs
    by (rule yields_bindR [OF yields_of_result]) (auto intro!: yields_ret dest: inject_messages_unconfirmed)
  show ?thesis unfolding begin_inject_def
    by (intro last unconfirmed_lease yields_last yields_ret; simp)
qed

lemma unconfirmed_sessions:
  "unconfirmed (handle_session_invalidate x si)" "unconfirmed (handle_auth_cache_clear x ac)" "unconfirmed (handle_evict_begin x er)"
  "unconfirmed (handle_evict_result x et)" "unconfirmed (handle_evict_result_v7 x e7)" "unconfirmed (handle_operation_begin x ob)"
  "unconfirmed (handle_operation_status oq)" "unconfirmed (handle_remove_prepare ep)"
  unfolding handle_session_invalidate_def handle_auth_cache_clear_def handle_evict_begin_def handle_evict_result_def
    handle_evict_result_v7_def handle_operation_begin_def replay_begin_def handle_operation_status_def handle_remove_prepare_def
  by (intro answer_rules unconfirmed_lease yields_ret; simp)+

lemma unconfirmed_group_handle:
  assumes "\<And>sn. m \<noteq> CookiesSnapshotChunk sn"
  shows "unconfirmed (group_handle x h v m)"
proof -
  have "unconfirmed (handle_lease_request x h v q)" for q
    unfolding handle_lease_request_def
    by (intro answer_rules unconfirmed_lease; cases "lr_purpose q") (auto intro!: answer_rules unconfirmed_lease unconfirmed_inject)
  then show ?thesis using assms
    by (cases m) (auto simp: group_handle_def Let_def intro!: answer_rules unconfirmed_lease unconfirmed_sessions)
qed

text \<open>What is stored is what a later injection reads, for an empty snapshot the old vault.\<close>

definition holds_snapshot :: "tx_ext \<Rightarrow> vault_transactions \<Rightarrow> world \<Rightarrow> cookie_record list \<Rightarrow> u64 \<Rightarrow> world \<Rightarrow> bool" where
  "holds_snapshot x t w cookies n w' \<longleftrightarrow> (\<exists>bs payload. lookup w' (vault_path t) = Some bs \<and> vault_holds x bs payload \<and>
     vp_vault_sequence payload = n \<and>
     (if cookies = [] then lookup w (vault_path t) = Some bs
      else vp_cookies payload = cookies \<and>
        (case lookup w (vault_path t) of None \<Rightarrow> n = 1
         | Some old \<Rightarrow> \<exists>previous. vault_holds x old previous \<and> unat n = Suc (unat (vp_vault_sequence previous)))) \<and>
     (\<forall>u cc read u'. lookup u (vault_path t) = Some bs \<longrightarrow> read_for_inject x t cc u = (Inr read, u') \<longrightarrow> read = payload))"

lemma stored_holds_snapshot:
  assumes "tx_sound x t" and "stored_next x t cookies w n w'"
  shows "holds_snapshot x t w cookies n w'"
proof -
  obtain bs p where p: "lookup w' (vault_path t) = Some bs" "vault_holds x bs p" "next_payload x t w cookies p" "n = vp_vault_sequence p"
      "cookies = [] \<longrightarrow> lookup w (vault_path t) = Some bs"
    using assms(2) by (auto simp: stored_next_def)
  have kek: "kek_sound (tx_kek x) (vault_path t)" using assms(1) by (simp add: tx_sound_def)
  have "read = p" if "lookup u (vault_path t) = Some bs" "read_for_inject x t cc u = (Inr read, u')" for u cc read u'
    using read_for_inject_holds [OF kek that(1) p(2) that(2)] .
  moreover have "if cookies = [] then lookup w (vault_path t) = Some bs
      else vp_cookies p = cookies \<and> (case lookup w (vault_path t) of None \<Rightarrow> n = 1
         | Some old \<Rightarrow> \<exists>previous. vault_holds x old previous \<and> unat n = Suc (unat (vp_vault_sequence previous)))"
    using p(3-5) by (auto simp: next_payload_def split: option.splits dest!: checked_add_unat) blast+
  ultimately show ?thesis unfolding holds_snapshot_def using p by blast
qed

text \<open>
  C2. Cookies are confirmed only when they are stored. The browser removes cookies only after an
  \<open>evict.confirmed\<close>; whenever the host answers a message to a group with one, on either protocol and
  whatever failed in between, the message was a snapshot chunk, the confirmation is for the operation
  that was pending, the cookies of all chunks are as many as declared, and the vault file holds a vault whose number the confirmation
  names. If there are cookies, the vault holds exactly these, in order, under the number one for a first
  vault and otherwise the successor of the replaced vault's number; if there are none, the file is the
  vault that was there before, unchanged, since an empty snapshot replaces nothing. Whenever the vault is
  read successfully for an injection while its file is still that one, exactly its content comes back.
  The hypotheses are sound cryptography, one SHA-256 for journal and vault, an existence check that tells
  the truth about the vault file, and the separation of the vault file from the journal, the lease file
  and the audit directory.
\<close>

theorem confirmation_means_stored:
  assumes "group_sound x r l w" and "group_handle x h v m (r, a, l, w) = (Inr ms, (r', a', l', w'))" and "EvictConfirmed c \<in> set ms"
  shows "\<exists>pending sn cookies. m = CookiesSnapshotChunk sn \<and> rt_pending r = Some pending \<and>
    cookies = po_snapshot_cookies pending @ sn_cookies sn \<and> unat (sn_cookie_count sn) = length cookies \<and>
    ec_operation_id c = po_operation_id pending \<and>
    holds_snapshot (hx_tx x) (rt_transactions r) w cookies (ec_vault_sequence c) w'"
proof -
  obtain sn where m: "m = CookiesSnapshotChunk sn"
    using yieldsD [OF unconfirmed_group_handle assms(2)] assms(3) by metis
  have "rt_pending r \<noteq> None"
  proof
    assume "rt_pending r = None"
    then have "wp (group_handle x h v m) (\<lambda>_ _. False) (\<lambda>_ _. True) (r, a, l, w)"
      by (auto simp: m group_handle_def handle_snapshot_chunk_def handle_snapshot_chunk_v7_def wp_bindR wp_the_runtime wp_ok_or
          wp_of_result split: sum.split)
    from wp_okD [OF assms(2) this] show False .
  qed
  then obtain pending where pending: "rt_pending r = Some pending" by auto
  have sn7: "s7_cookie_count s = sn_cookie_count sn" "s7_cookies s = sn_cookies sn" if "to_chunk_v7 sn = Inr s" for s
    using that by (auto simp: to_chunk_v7_def split: option.splits)
  have "wp (group_handle x h v m) (\<lambda>ms t. \<forall>c. EvictConfirmed c \<in> set ms \<longrightarrow> ec_operation_id c = po_operation_id pending \<and>
        unat (sn_cookie_count sn) = length (po_snapshot_cookies pending @ sn_cookies sn) \<and>
        stored_next (hx_tx x) (rt_transactions r) (po_snapshot_cookies pending @ sn_cookies sn) w
          (ec_vault_sequence c) (snd (snd (snd t)))) (\<lambda>_ _. True) (r, a, l, w)"
    unfolding m group_handle_def Let_def message.case
    by (auto simp: wp_if wp_bindR wp_of_result sn7 split: sum.split
        intro!: wp_mono [OF wp_handle_snapshot_chunk [OF pending assms(1)]] wp_mono [OF wp_handle_snapshot_chunk_v7 [OF pending assms(1)]])
  from wp_okD [OF assms(2) this] assms(3) have *: "ec_operation_id c = po_operation_id pending"
      "unat (sn_cookie_count sn) = length (po_snapshot_cookies pending @ sn_cookies sn)"
      "stored_next (hx_tx x) (rt_transactions r) (po_snapshot_cookies pending @ sn_cookies sn) w (ec_vault_sequence c) w'" by simp_all
  have "tx_sound (hx_tx x) (rt_transactions r)" using assms(1) by (simp add: group_sound_def)
  from stored_holds_snapshot [OF this *(3)] *(1,2) m pending show ?thesis by blast
qed

subsection \<open>Witnesses\<close>

text \<open>
  Group 5 with operation 9 open takes its only chunk. The audit codecs know no entry, so the audit
  record is dropped, as \<open>record_once_deferred\<close> allows.
\<close>

definition exs_lease :: lease_metadata where
  "exs_lease = (lease_initial 5 False)\<lparr>lm_state := Evicting, lm_vault_sequence := 1, lm_pending_operation_id := Some 9\<rparr>"

definition exs_x :: host_ext where
  "exs_x = \<lparr>hx_tx = exc_tx,
     hx_journal = exc_ext\<lparr>je_journal_json := table_codec [exc_journal PhNotCommitted, exc_journal PhDurabilityUnknown,
       exc_journal PhCommitted, exc_journal BrowserRemovalPending]\<rparr>,
     hx_lease_json = table_codec [exs_lease],
     hx_audit = exa_x\<lparr>ax_unsigned_json := table_codec []\<rparr>,
     hx_cookie_json = (\<lambda>_. Some [1]), hx_cookies_json = (\<lambda>_. Some [1, 2]), hx_sha256 = exc_sha,
     hx_open_or_create = (\<lambda>_. ret ext_auth), hx_open_existing = (\<lambda>_. ret ext_auth),
     hx_recover_credential = (\<lambda>a _ _. ret (False, a))\<rparr>"

definition exs_pending :: pending_operation where
  "exs_pending = new_pending PendingEviction 9 None 1 None"

definition exs_r :: group_runtime where
  "exs_r = \<lparr>rt_id = 5, rt_policy = Balanced, rt_transactions = ext_t, rt_lease_store = [Name ''data'', Name ''lease.json''],
     rt_lease = exs_lease\<lparr>lm_vault_sequence := 0\<rparr>, rt_operation_coordinator = exc_c, rt_pending = Some exs_pending\<rparr>"

definition exs_chunk :: cookies_snapshot_chunk where
  "exs_chunk = \<lparr>sn_account_group_id = 5, sn_lease_id = None, sn_operation_id = 9, sn_chunk_index = 0, sn_chunk_count = 1,
     sn_cookie_count = 1, sn_cookies = [ext_cookie], sn_operation_sequence = None, sn_attempt_id = None, sn_purpose = None\<rparr>"

definition exs_run :: "(fcp_error + message list) \<times> group_state_t" where
  "exs_run = handle_snapshot_chunk exs_x exs_chunk (exs_r, None, exa_l, quiet_world)"

lemmas exs_defs =
  exs_run_def exs_x_def exs_pending_def exs_r_def exs_chunk_def exs_lease_def lease_defs
  handle_snapshot_chunk_def check_chunk_def to_bytes_def checked_add_usize_def MAX_SNAPSHOT_BYTES_def
  MAX_SNAPSHOT_COOKIES_def accept_chunk_def finish_snapshot_def commit_pending_def announce_commit_def
  restoring_def persist_lease_def the_runtime_def update_runtime_def set_pending_def update_lease_def
  in_world_def in_audit_def with_transactions_def on_coordinator_def new_pending_def to_u32_def
  mark_external_result_pending_def record_operation_audit_def confirmed_message_def
  record_once_deferred_def record_once_def exa_x_def exa_l_def exa_d_def audit_event_id_def
  enqueue_outbox_def outbox_path_def is_ascii_lowercase_def

lemma exs_confirms: "\<exists>c. fst exs_run = Inr [EvictConfirmed c]"
  by (simp add: exs_defs run_simps exc_defs)

lemma exs_sound: "group_sound exs_x exs_r exa_l quiet_world"
proof -
  have "tx_sound exc_tx ext_t" using ext_sound by (simp add: exc_tx_def tx_sound_def)
  moreover have "exists_faithful quiet_world (vault_path ext_t)"
    by (simp add: exists_faithful_def quiet_world_def is_present_def)
  moreover have "vault_apart exs_r exa_l"
    by (simp add: vault_apart_def exs_r_def exc_c_def exj_s0_def exj_path_def apart_def write_scratch_def temporary_path_def
        file_name_def with_file_name_def vault_path_def path_for_def ext_t_def exa_l_def exa_d_def strict_prefix_def)
  ultimately show ?thesis by (simp add: group_sound_def exs_x_def exs_r_def exc_ext_def exc_tx_def)
qed

lemma exs_group_run:
  "group_handle exs_x [] 6 (CookiesSnapshotChunk exs_chunk) (exs_r, None, exa_l, quiet_world) = exs_run"
  by (simp add: group_handle_def exs_run_def PROTOCOL_VERSION_def)

theorem confirmation_means_stored_witness:
  "\<exists>c s'. group_handle exs_x [] 6 (CookiesSnapshotChunk exs_chunk) (exs_r, None, exa_l, quiet_world) = (Inr [EvictConfirmed c], s') \<and>
     holds_snapshot exc_tx ext_t quiet_world [ext_cookie] (ec_vault_sequence c) (snd (snd (snd s')))"
proof -
  obtain c where "fst exs_run = Inr [EvictConfirmed c]" using exs_confirms by blast
  then obtain r' a' l' w' where run: "group_handle exs_x [] 6 (CookiesSnapshotChunk exs_chunk) (exs_r, None, exa_l, quiet_world)
      = (Inr [EvictConfirmed c], (r', a', l', w'))"
    unfolding exs_group_run by (metis prod.collapse)
  from confirmation_means_stored [OF exs_sound run, of c]
  have "holds_snapshot exc_tx ext_t quiet_world [ext_cookie] (ec_vault_sequence c) w'"
    by (auto simp: exs_x_def exs_r_def exs_pending_def exs_chunk_def new_pending_def)
  with run show ?thesis by auto
qed

subsection \<open>Chunks\<close>

text \<open>The length of the JSON array of a chunk: brackets, the cookies, and commas between them.\<close>

definition json_size :: "(cookie_record \<Rightarrow> byte list option) \<Rightarrow> cookie_record list \<Rightarrow> nat" where
  "json_size json cs = 2 + sum_list (map (\<lambda>c. length (the (json c))) cs) + (length cs - 1)"

lemma json_size_snoc:
  "cs \<noteq> [] \<Longrightarrow> json_size json (cs @ [c]) = json_size json cs + length (the (json c)) + 1"
  by (cases cs) (simp_all add: json_size_def)

lemma chunk_loop_spec:
  assumes "chunk_loop json chunks current n cookies = Inr out"
    and "current \<noteq> [] \<Longrightarrow> json_size json current \<le> n \<and> n \<le> COOKIE_CHUNK_TARGET_BYTES + 2"
    and "current = [] \<Longrightarrow> n = 2 \<and> cookies \<noteq> []"
    and "\<forall>c \<in> set chunks. c \<noteq> [] \<and> json_size json c \<le> COOKIE_CHUNK_TARGET_BYTES + 2"
  shows "concat out = concat chunks @ current @ cookies
    \<and> (\<forall>c \<in> set out. c \<noteq> [] \<and> json_size json c \<le> COOKIE_CHUNK_TARGET_BYTES + 2)"
  using assms
proof (induction json chunks current n cookies rule: chunk_loop.induct)
  case (1 json chunks current n)
  then show ?case by (cases "current = []") auto
next
  case (2 json chunks current n cookie cookies)
  obtain bs where bs: "json cookie = Some bs" "to_bytes json cookie = Inr bs"
    using "2.prems"(1) by (cases "json cookie") (auto simp: to_bytes_def)
  let ?k = "length bs + (if current = [] then 0 else 1)"
  have fits: "\<not> ?k > COOKIE_CHUNK_TARGET_BYTES"
    using "2.prems"(1) bs by (auto simp: Let_def split: if_splits)
  have one: "json_size json [cookie] = 2 + length bs" using bs by (simp add: json_size_def)
  show ?case
  proof (cases "current \<noteq> [] \<and> n + ?k > COOKIE_CHUNK_TARGET_BYTES")
    case True
    with fits bs "2.prems" have run: "chunk_loop json (chunks @ [current]) [cookie] (2 + ?k) cookies = Inr out"
      by (auto simp: Let_def split: if_splits)
    have "concat out = concat (chunks @ [current]) @ [cookie] @ cookies
        \<and> (\<forall>c \<in> set out. c \<noteq> [] \<and> json_size json c \<le> COOKIE_CHUNK_TARGET_BYTES + 2)"
      by (rule "2.IH"(1) [OF bs(2) refl fits True run]) (use True fits one "2.prems" in auto)
    then show ?thesis by simp
  next
    case False
    with fits bs "2.prems" have run: "chunk_loop json chunks (current @ [cookie]) (n + ?k) cookies = Inr out"
      by (auto simp: Let_def split: if_splits)
    have size: "json_size json (current @ [cookie]) \<le> n + ?k \<and> n + ?k \<le> COOKIE_CHUNK_TARGET_BYTES + 2"
      using False fits bs "2.prems"(2,3) json_size_snoc [of current json cookie] one by (cases "current = []") auto
    have "concat out = concat chunks @ (current @ [cookie]) @ cookies
        \<and> (\<forall>c \<in> set out. c \<noteq> [] \<and> json_size json c \<le> COOKIE_CHUNK_TARGET_BYTES + 2)"
      by (rule "2.IH"(2) [OF bs(2) refl fits False run]) (use size "2.prems"(4) in auto)
    then show ?thesis by simp
  qed
qed

lemma chunk_cookie_records_spec:
  assumes "chunk_cookie_records json cookies = Inr chunks"
  shows "concat chunks = cookies \<and> (\<forall>c \<in> set chunks. json_size json c \<le> COOKIE_CHUNK_TARGET_BYTES + 2)
    \<and> ([] \<in> set chunks \<longrightarrow> cookies = [])"
proof (cases "cookies = []")
  case True
  then show ?thesis using assms by (auto simp: chunk_cookie_records_def json_size_def COOKIE_CHUNK_TARGET_BYTES_def)
next
  case False
  then show ?thesis using assms chunk_loop_spec [of json "[]" "[]" 2 cookies chunks]
    by (auto simp: chunk_cookie_records_def)
qed

text \<open>
  C26. Chunking loses and reorders nothing and every chunk fits a frame: the chunks of a vault's
  cookies are the cookies in order, none is empty unless there are no cookies at all, and the JSON
  array of each is at most 400 KiB and two bytes, well below the frame limit of 1 MiB.
\<close>

theorem chunks_partition_the_cookies:
  assumes "chunk_cookie_records json cookies = Inr chunks"
  shows "concat chunks = cookies
    \<and> (\<forall>c \<in> set chunks. json_size json c \<le> 409602 \<and> json_size json c < MAX_FRAME_BYTES)
    \<and> ([] \<in> set chunks \<longrightarrow> cookies = [])"
  using chunk_cookie_records_spec [OF assms] by (auto simp: COOKIE_CHUNK_TARGET_BYTES_def MAX_FRAME_BYTES_def)

theorem chunks_partition_the_cookies_witness:
  "chunk_cookie_records (\<lambda>_. Some [1]) [ext_cookie, ext_cookie] = Inr [[ext_cookie, ext_cookie]]
   \<and> concat [[ext_cookie, ext_cookie]] = [ext_cookie, ext_cookie]
   \<and> json_size (\<lambda>_. Some [1]) [ext_cookie, ext_cookie] < MAX_FRAME_BYTES"
proof -
  have run: "chunk_cookie_records (\<lambda>_. Some [1]) [ext_cookie, ext_cookie] = Inr [[ext_cookie, ext_cookie]]"
    by (simp add: chunk_cookie_records_def to_bytes_def Let_def COOKIE_CHUNK_TARGET_BYTES_def)
  from chunks_partition_the_cookies [OF run] run show ?thesis by simp
qed

end
