(* ===== verification/Group_Invariant.thy ===== *)
theory Group_Invariant
  imports Snapshot_Protocol Invariance
begin

text \<open>
  What every message to a group leaves as it is, whatever fails on the way: the identity, the
  policy and the files of the group, the profile it is bound to and its protocol floor; and the
  bound on the snapshot the group collects in memory.
\<close>

definition buffer_ok :: "group_runtime \<Rightarrow> bool" where
  "buffer_ok r = (case rt_pending r of None \<Rightarrow> True
     | Some p \<Rightarrow> po_snapshot_bytes p \<le> MAX_SNAPSHOT_BYTES \<and> length (po_snapshot_cookies p) \<le> unat MAX_SNAPSHOT_COOKIES)"

definition fixed_parts :: "group_runtime \<Rightarrow> uuid \<times> policy_level \<times> path \<times> path \<times> uuid option \<times> u16" where
  "fixed_parts r = (rt_id r, rt_policy r, rt_lease_store r, vault_path (rt_transactions r),
     oc_profile_id (rt_operation_coordinator r), lm_protocol_floor (rt_lease r))"

definition group_kept :: "group_runtime \<Rightarrow> group_state_t \<Rightarrow> bool" where
  "group_kept r0 s \<longleftrightarrow> fixed_parts (fst s) = fixed_parts r0 \<and> buffer_ok (fst s)"

lemma fixed_parts_simps [simp]:
  "fixed_parts (r\<lparr>rt_pending := p\<rparr>) = fixed_parts r"
  "lm_protocol_floor l = lm_protocol_floor (rt_lease r) \<Longrightarrow> fixed_parts (r\<lparr>rt_lease := l\<rparr>) = fixed_parts r"
  "oc_profile_id c = oc_profile_id (rt_operation_coordinator r) \<Longrightarrow> fixed_parts (r\<lparr>rt_operation_coordinator := c\<rparr>) = fixed_parts r"
  "vault_path t = vault_path (rt_transactions r) \<Longrightarrow> fixed_parts (r\<lparr>rt_transactions := t\<rparr>) = fixed_parts r"
  by (simp_all add: fixed_parts_def)

lemma buffer_ok_simps [simp]:
  "buffer_ok (r\<lparr>rt_lease := l\<rparr>) = buffer_ok r" "buffer_ok (r\<lparr>rt_operation_coordinator := c\<rparr>) = buffer_ok r"
  "buffer_ok (r\<lparr>rt_transactions := t\<rparr>) = buffer_ok r" "buffer_ok (r\<lparr>rt_policy := l'\<rparr>) = buffer_ok r"
  "buffer_ok (r\<lparr>rt_pending := None\<rparr>)"
  "buffer_ok (r\<lparr>rt_pending := Some p\<rparr>) \<longleftrightarrow>
     po_snapshot_bytes p \<le> MAX_SNAPSHOT_BYTES \<and> length (po_snapshot_cookies p) \<le> unat MAX_SNAPSHOT_COOKIES"
  "po_snapshot_bytes (new_pending k i li n at) = 0" "po_snapshot_cookies (new_pending k i li n at) = []"
  by (simp_all add: buffer_ok_def new_pending_def)

subsection \<open>The primitives\<close>

definition pending_fits :: "pending_operation \<Rightarrow> bool" where
  "pending_fits p \<longleftrightarrow> po_snapshot_bytes p \<le> MAX_SNAPSHOT_BYTES \<and> length (po_snapshot_cookies p) \<le> unat MAX_SNAPSHOT_COOKIES"

lemma kept_primitives [keeps_rules]:
  "keeps (group_kept r) the_runtime" "keeps (group_kept r) (in_world m)" "keeps (group_kept r) (in_audit n)"
  "keeps (group_kept r) (with_transactions f)" "keeps (group_kept r) (set_pending None)"
  by (auto simp: keeps_def wp_simps group_kept_def intro!: wp_mono [OF wp_top])

lemma kept_set_pending [keeps_rules]: "pending_fits p \<Longrightarrow> keeps (group_kept r) (set_pending (Some p))"
  by (simp add: keeps_def wp_set_pending group_kept_def pending_fits_def)

lemma kept_new_pending [simp]: "pending_fits (new_pending k i li n at)"
  by (simp add: pending_fits_def)

lemma kept_update_lease: "(\<And>l. lm_protocol_floor (f l) = lm_protocol_floor l) \<Longrightarrow> keeps (group_kept r) (update_lease f)"
  by (simp add: keeps_def wp_update_lease group_kept_def)

lemma kept_authorizer [keeps_rules]: "keeps (group_kept r) (modify (\<lambda>(r, _, s). (r, v, s)))"
  by (rule keeps_modify) (auto simp: group_kept_def)

lemma kept_coordinator:
  assumes "\<And>p. keeps (\<lambda>t. oc_profile_id (fst t) = p) m"
  shows "keeps (group_kept r) (on_coordinator m)"
proof (rule keepsI)
  fix s assume "group_kept r s"
  then show "wp (on_coordinator m) (\<lambda>_. group_kept r) (\<lambda>_. group_kept r) s"
    by (auto simp: wp_on_coordinator group_kept_def
        intro!: wp_mono [OF keepsD [OF assms [of "oc_profile_id (rt_operation_coordinator (fst s))"]]])
qed

lemma kept_lease_file [keeps_rules]:
  "keeps (group_kept r) (persist_lease x)" "keeps (group_kept r) (record_operation_audit x i ev oc d)"
  "keeps (group_kept r) (audit_group x ev oc d)" "keeps (group_kept r) (lease_deny reason)" "keeps (group_kept r) already_enrolled"
  unfolding persist_lease_def record_operation_audit_def audit_group_def lease_deny_def already_enrolled_def
  by (intro keeps_rules)+

lemma kept_save_lease [keeps_rules]: "keeps (group_kept r) (save_lease x)"
proof -
  have "keeps (group_kept r) advance_lease"
    by (auto simp: keeps_def advance_lease_def wp_simps group_kept_def advance_transition_def split: sum.split option.split if_split)
  then show ?thesis unfolding save_lease_def by (intro keeps_rules)
qed

lemma kept_restoring [keeps_rules]:
  "keeps (group_kept r) m \<Longrightarrow> pending_fits p \<Longrightarrow> keeps (group_kept r) (restoring p m)"
  unfolding restoring_def by (intro keeps_rules)

lemma floor_kept [simp]:
  "lm_protocol_floor (set_grant i n e l) = lm_protocol_floor l" "lm_protocol_floor (clear_lease st l) = lm_protocol_floor l"
  by (simp_all add: set_grant_def clear_lease_def)

subsection \<open>The coordinator\<close>

lemma profile_primitives [keeps_rules]:
  "keeps (\<lambda>t. oc_profile_id (fst t) = p) (on_journal m)" "keeps (\<lambda>t. oc_profile_id (fst t) = p) (on_snd n)"
  by (auto simp: keeps_def wp_on_journal wp_on_snd case_prod_beta intro!: wp_mono [OF wp_top])

lemma profile_begin_result [keeps_rules]:
  "(\<And>v. keeps I (f v)) \<Longrightarrow> (\<And>v. keeps I (g v)) \<Longrightarrow> keeps I (case q of Created v \<Rightarrow> f v | Duplicate v \<Rightarrow> g v)"
  by (cases q) simp_all

lemma profile_classification [keeps_rules]:
  "keeps I a \<Longrightarrow> keeps I b \<Longrightarrow> keeps I c \<Longrightarrow>
   keeps I (case q of RcNotCommitted \<Rightarrow> a | RcCommitted \<Rightarrow> b | RcReconciliationRequired \<Rightarrow> c)"
  by (cases q) simp_all

lemma profile_kept:
  "keeps (\<lambda>t. oc_profile_id (fst t) = p) (begin_v6 x i k li reason n)"
  "keeps (\<lambda>t. oc_profile_id (fst t) = p) (issue_v7 x i k li reason n)"
  "keeps (\<lambda>t. oc_profile_id (fst t) = p) (prepare_for_v6_reconciliation x v)"
  "keeps (\<lambda>t. oc_profile_id (fst t) = p) (commit_snapshot x tx i snap m prepared t)"
  "keeps (\<lambda>t. oc_profile_id (fst t) = p) (mark_external_result_pending x i)"
  "keeps (\<lambda>t. oc_profile_id (fst t) = p) (complete x i)"
  "keeps (\<lambda>t. oc_profile_id (fst t) = p) (abort x i)"
  "keeps (\<lambda>t. oc_profile_id (fst t) = p) (require_reconciliation x i)"
  unfolding begin_v6_def issue_v7_def prepare_for_v6_reconciliation_def commit_snapshot_def finish_commit_def
    mark_external_result_pending_def complete_def abort_def require_reconciliation_def
  by (intro keeps_rules)+

lemmas kept_coordinator_calls [keeps_rules] = profile_kept [THEN kept_coordinator]

lemma kept_authorize [keeps_rules]: "keeps (group_kept r) (on_transactions (authorize_inject x a))"
proof -
  have ledger: "keeps (\<lambda>t. vault_path (fst t) = v) (on_ledger m)" for m :: "(capability_ledger \<times> world, 'b) host" and v
    unfolding on_ledger_def by (rule keeps_zoom) (auto simp: vault_path_def)
  have world: "keeps (\<lambda>t. vault_path (fst t) = v) (on_snd m)" for m :: "(world, 'b) host" and v
    by (rule keeps_on_snd) simp
  have auth: "keeps (\<lambda>t. vault_path (fst t) = v) (authorize_inject x a)" for v
    unfolding authorize_inject_def by (intro keeps_rules ledger world)
  show ?thesis
  proof (rule keepsI)
    fix s assume "group_kept r s"
    then show "wp (on_transactions (authorize_inject x a)) (\<lambda>_. group_kept r) (\<lambda>_. group_kept r) s"
      by (auto simp: wp_on_transactions group_kept_def
          intro!: wp_mono [OF keepsD [OF auth [of "vault_path (rt_transactions (fst s))"]]])
  qed
qed

subsection \<open>The handlers\<close>

lemma kept_with_runtime:
  "(\<And>r. buffer_ok r \<Longrightarrow> keeps (group_kept r0) (f r)) \<Longrightarrow> keeps (group_kept r0) (bindR the_runtime f)"
  by (simp add: keeps_def wp_bindR wp_the_runtime group_kept_def)

lemma keeps_bind_ok_or: "(\<And>v. z = Some v \<Longrightarrow> keeps I (f v)) \<Longrightarrow> keeps I (bindR (ok_or z e) f)"
  by (auto simp: keeps_def wp_bindR wp_ok_or split: option.split)

lemma keeps_bind_of_result: "(\<And>v. q = Inr v \<Longrightarrow> keeps I (f v)) \<Longrightarrow> keeps I (bindR (of_result q) f)"
  by (auto simp: keeps_def wp_bindR wp_of_result split: sum.split)

lemma pending_fits_held: "buffer_ok r \<Longrightarrow> rt_pending r = Some p \<Longrightarrow> pending_fits p"
  by (simp add: buffer_ok_def pending_fits_def)

lemma kept_leases [keeps_rules]:
  "keeps (group_kept r) (grant_enrollment_v7 x d)" "keeps (group_kept r) (begin_enrollment x d)"
  unfolding grant_enrollment_v7_def begin_enrollment_def by (intro keeps_rules kept_update_lease; simp)+

lemma kept_begin_inject [keeps_rules]: "keeps (group_kept r) (begin_inject x h d)"
  unfolding begin_inject_def ensure_authorizer_def authorize_with_recovery_def
  by (intro keeps_rules kept_update_lease; simp)

lemma keeps_purpose [keeps_rules]:
  "keeps I m \<Longrightarrow> keeps I n \<Longrightarrow> keeps I (case q of PurposeInject \<Rightarrow> m | PurposeEnroll \<Rightarrow> n)"
  by (cases q) simp_all

lemma kept_lease_request [keeps_rules]: "keeps (group_kept r) (handle_lease_request x h n q)"
  unfolding handle_lease_request_def by (intro keeps_rules)

lemma kept_inject_result [keeps_rules]: "keeps (group_kept r) (handle_inject_result x q)"
  unfolding handle_inject_result_def by (intro keeps_rules kept_update_lease; simp)

lemma kept_invalidate [keeps_rules]:
  "keeps (group_kept r) (handle_session_invalidate x q)" "keeps (group_kept r) (handle_auth_cache_clear x q')"
  unfolding handle_session_invalidate_def invalidate_session_def handle_auth_cache_clear_def
  by (intro keeps_rules kept_update_lease; simp)+

lemma kept_evict_begin [keeps_rules]: "keeps (group_kept r) (handle_evict_begin x q)"
  unfolding handle_evict_begin_def by (intro keeps_rules kept_update_lease; simp)

lemma kept_evict_result [keeps_rules]: "keeps (group_kept r) (handle_evict_result x q)"
  unfolding handle_evict_result_def by (intro keeps_rules kept_update_lease; simp)

lemma kept_evict_result_v7 [keeps_rules]: "keeps (group_kept r) (handle_evict_result_v7 x q)"
  unfolding handle_evict_result_v7_def by (intro keeps_rules)

lemma kept_operation_begin [keeps_rules]: "keeps (group_kept r) (handle_operation_begin x q)"
  unfolding handle_operation_begin_def replay_begin_def by (intro keeps_rules kept_update_lease; simp)

lemma kept_operation_status [keeps_rules]: "keeps (group_kept r) (handle_operation_status q)"
  unfolding handle_operation_status_def
  by (intro keeps_rules) (simp add: revived_def pending_fits_def)

lemma kept_remove_prepare [keeps_rules]: "keeps (group_kept r) (handle_remove_prepare q)"
  unfolding handle_remove_prepare_def by (intro keeps_rules) (simp add: pending_fits_def)

subsection \<open>Snapshots\<close>

lemma kept_commit [keeps_rules]:
  assumes "pending_fits p"
  shows "keeps (group_kept r) (commit_pending x p sn cookies)"
  using assms unfolding commit_pending_def announce_commit_def
  by (intro keeps_rules kept_update_lease; simp add: pending_fits_def)

lemma kept_finish [keeps_rules]:
  assumes "pending_fits p"
  shows "keeps (group_kept r) (finish_snapshot x p sn)"
  using assms unfolding finish_snapshot_def abort_empty_enrollment_def
  by (intro keeps_rules kept_update_lease) (simp_all add: pending_fits_def)

lemma check_chunk_fits:
  "check_chunk x p sn = Inr (bytes, n) \<Longrightarrow> pending_fits (accept_chunk sn bytes p)"
  by (auto simp: check_chunk_def accept_chunk_def pending_fits_def checked_add_usize_def word_less_nat_alt
      split: if_splits sum.splits option.splits)

lemma kept_snapshot_chunk [keeps_rules]: "keeps (group_kept r) (handle_snapshot_chunk x sn)"
  unfolding handle_snapshot_chunk_def
  by (intro kept_with_runtime keeps_bind_ok_or keeps_bind_of_result keeps_rules)
    (auto dest: check_chunk_fits)

lemma append_v7_fits:
  "append_v7_chunk x p sn = (e, p') \<Longrightarrow> pending_fits p \<Longrightarrow> pending_fits p'"
  by (auto simp: append_v7_chunk_def pending_fits_def checked_add_usize_def word_less_nat_alt Let_def
      split: if_splits sum.splits option.splits)

lemma kept_removal_chunk [keeps_rules]: "keeps (group_kept r) (handle_removal_snapshot_chunk x sn)"
  unfolding handle_removal_snapshot_chunk_def
  by (intro kept_with_runtime keeps_bind_ok_or keeps_rules kept_update_lease)
    (auto dest!: sym [of "(_, _)"] dest: append_v7_fits pending_fits_held)

lemma kept_chunk_v7 [keeps_rules]: "keeps (group_kept r) (handle_snapshot_chunk_v7 x sn)"
  unfolding handle_snapshot_chunk_v7_def process_v7_chunk_def
  by (intro kept_with_runtime keeps_bind_ok_or keeps_rules)
    (auto dest: pending_fits_held simp: pending_fits_def)

lemma kept_group_handle: "keeps (group_kept r) (group_handle x h n m)"
  unfolding group_handle_def host_only_def
  by (cases m; simp only: message.case Let_def; intro keeps_rules)

interpretation gm: invariant_machine "group_handle x h n" "group_kept r" for x h n r
  by unfold_locales (rule kept_group_handle)

end
