(* ===== verification/App_Invariant.thy ===== *)
theory App_Invariant
  imports Dispatcher Group_Invariant
begin

text \<open>
  The invariant of the application: the groups are an ordered map from identifiers to runtimes
  that carry that identifier, a bounded snapshot buffer and the policy of the configuration; the
  configuration is valid; and from the handshake on every group, also one added later, is bound to
  the profile of the connection and to its protocol. It holds when a profile has been opened and is
  kept by every message, whatever fails.
\<close>

subsection \<open>Ordered maps\<close>

abbreviation keys_sorted :: "(uuid \<times> 'v) list \<Rightarrow> bool" where
  "keys_sorted xs \<equiv> sorted_wrt (<) (map fst xs)"

lemma bt_insert_keys: "set (map fst (bt_insert k v xs)) = insert k (set (map fst xs))"
  by (induction k v xs rule: bt_insert.induct) auto

lemma bt_insert_sorted: "keys_sorted xs \<Longrightarrow> keys_sorted (bt_insert k v xs)"
proof (induction k v xs rule: bt_insert.induct)
  case (2 k v j u xs)
  then show ?case using bt_insert_keys [of k v xs] by (auto simp: not_less_iff_gr_or_eq)
qed simp

lemma bt_insert_map_of: "keys_sorted xs \<Longrightarrow> map_of (bt_insert k v xs) = (map_of xs)(k \<mapsto> v)"
proof (induction k v xs rule: bt_insert.induct)
  case (2 k v j u xs)
  then show ?case by (auto simp: fun_eq_iff map_of_eq_None_iff)
qed simp

lemma bt_remove_sorted: "keys_sorted xs \<Longrightarrow> keys_sorted (bt_remove k xs)"
  by (induction xs) (auto simp: bt_remove_def)

lemma bt_remove_map_of: "map_of (bt_remove k xs) j = (if j = k then None else map_of xs j)"
  by (induction xs) (auto simp: bt_remove_def)

subsection \<open>The invariant\<close>

definition group_good :: "native_host_app \<Rightarrow> uuid \<Rightarrow> group_runtime \<Rightarrow> bool" where
  "group_good a g r \<longleftrightarrow> rt_id r = g \<and> buffer_ok r \<and>
     (na_handshake_complete a \<longrightarrow> oc_profile_id (rt_operation_coordinator r) = na_connection_profile_id a \<and>
        (na_negotiated_protocol a = PROTOCOL_VERSION \<longrightarrow> lm_protocol_floor (rt_lease r) = PROTOCOL_VERSION))"

definition serves :: "native_host_app \<Rightarrow> account_group \<Rightarrow> bool" where
  "serves a d \<longleftrightarrow> (\<exists>r. map_of (na_groups a) (ag_id d) = Some r \<and> rt_policy r = ag_policy_level d)"

definition app_ok :: "app_ext \<Rightarrow> native_host_app \<Rightarrow> bool" where
  "app_ok x a \<longleftrightarrow> keys_sorted (na_groups a) \<and>
     (\<forall>g r. map_of (na_groups a) g = Some r \<longrightarrow> group_good a g r) \<and>
     config_ok (ce_domain_str (px_config x)) (na_config a) \<and>
     (\<forall>d \<in> set (cfg_groups (na_config a)). serves a d) \<and>
     (na_handshake_complete a \<longrightarrow> na_connection_profile_id a \<noteq> None)"

abbreviation app_inv :: "app_ext \<Rightarrow> native_host_app \<times> world \<Rightarrow> bool" where
  "app_inv x s \<equiv> app_ok x (fst s)"

lemma app_ok_other [simp]:
  "app_ok x (a\<lparr>na_audit := l\<rparr>) = app_ok x a" "app_ok x (a\<lparr>na_hello_authorizer := h\<rparr>) = app_ok x a"
  "app_ok x (a\<lparr>na_monitor := m\<rparr>) = app_ok x a" "app_ok x (a\<lparr>na_last_message_group := g\<rparr>) = app_ok x a"
  "app_ok x (a\<lparr>na_config_digest := dg\<rparr>) = app_ok x a"
  by (simp_all add: app_ok_def group_good_def serves_def)

text \<open>A runtime may be replaced by one with the same fixed parts.\<close>

lemma app_ok_replace:
  assumes "app_ok x a" and "map_of (na_groups a) g = Some r" and "fixed_parts r' = fixed_parts r" and "buffer_ok r'"
  shows "app_ok x (a\<lparr>na_groups := bt_insert g r' (na_groups a)\<rparr>)"
  using assms
  by (auto simp: app_ok_def group_good_def serves_def fixed_parts_def bt_insert_sorted bt_insert_map_of split: if_splits)

subsection \<open>Rules\<close>

lemma wp_the_app [wp_simps]: "wp the_app Q E = (\<lambda>s. Q (fst s) s)"
  by (simp add: the_app_def wp_gets)

lemma wp_update_app [wp_simps]: "wp (update_app f) Q E = (\<lambda>s. Q () (f (fst s), snd s))"
  by (simp add: update_app_def wp_modify case_prod_beta fun_eq_iff)

lemma wp_app_world [wp_simps]:
  "wp (app_world m) Q E = (\<lambda>s. wp m (\<lambda>v w. Q v (fst s, w)) (\<lambda>e w. E e (fst s, w)) (snd s))"
  by (simp add: app_world_def wp_on_snd fun_eq_iff)

lemma wp_app_audit [wp_simps]:
  "wp (app_audit m) Q E = (\<lambda>s. wp m (\<lambda>v t. Q v ((fst s)\<lparr>na_audit := fst t\<rparr>, snd t))
     (\<lambda>e t. E e ((fst s)\<lparr>na_audit := fst t\<rparr>, snd t)) (na_audit (fst s), snd s))"
  by (simp add: app_audit_def wp_zoom case_prod_beta fun_eq_iff)

lemma wp_app_worldI: "(\<And>v w'. Q v (a, w')) \<Longrightarrow> (\<And>e w'. E e (a, w')) \<Longrightarrow> wp (app_world m) Q E (a, w)"
  by (auto simp: wp_app_world intro: wp_mono [OF wp_top])

lemma wp_ifI: "(c \<Longrightarrow> wp m Q E s) \<Longrightarrow> (\<not> c \<Longrightarrow> wp n Q E s) \<Longrightarrow> wp (if c then m else n) Q E s"
  by simp

lemma wp_run_group [wp_simps]:
  "wp (run_group g r m) Q E = (\<lambda>s. wp m
     (\<lambda>v t. Q v ((fst s)\<lparr>na_groups := bt_insert g (fst t) (na_groups (fst s)), na_hello_authorizer := fst (snd t),
        na_audit := fst (snd (snd t))\<rparr>, snd (snd (snd t))))
     (\<lambda>e t. E e ((fst s)\<lparr>na_groups := bt_insert g (fst t) (na_groups (fst s)), na_hello_authorizer := fst (snd t),
        na_audit := fst (snd (snd t))\<rparr>, snd (snd (snd t))))
     (r, na_hello_authorizer (fst s), na_audit (fst s), snd s))"
  by (simp add: run_group_def wp_zoom case_prod_beta fun_eq_iff)

lemma wp_on_group:
  "wp (on_group g m) Q E s = (case map_of (na_groups (fst s)) g of
       None \<Rightarrow> E (Protocol ''unknown account group'') s | Some r \<Rightarrow> wp (run_group g r m) Q E s)"
  by (simp add: on_group_def wp_bindR wp_the_app wp_ok_or split: option.split)

lemma app_kept_calls [keeps_rules]:
  "keeps (app_inv x) the_app" "keeps (app_inv x) (app_world m)" "keeps (app_inv x) (app_audit n)" "keeps (app_inv x) (app_monitor k)"
  by (auto simp: keeps_def wp_simps app_monitor_def case_prod_beta intro!: wp_mono [OF wp_top])

lemma app_kept_update: "(\<And>a. app_ok x a \<Longrightarrow> app_ok x (f a)) \<Longrightarrow> keeps (app_inv x) (update_app f)"
  by (simp add: keeps_def wp_update_app)

lemma wp_on_group_kept:
  assumes "app_ok x a" and "\<And>r. map_of (na_groups a) g = Some r \<Longrightarrow> keeps (group_kept r) m"
  shows "wp (on_group g m) (\<lambda>_. app_inv x) (\<lambda>_. app_inv x) (a, w)"
proof (cases "map_of (na_groups a) g")
  case (Some r)
  have "group_kept r (r, na_hello_authorizer a, na_audit a, w)"
    using assms(1) Some by (auto simp: app_ok_def group_good_def group_kept_def)
  then show ?thesis
    using Some assms(1) app_ok_replace [OF assms(1) Some]
    by (auto simp: wp_on_group wp_run_group group_kept_def intro!: wp_mono [OF keepsD [OF assms(2) [OF Some]]])
qed (simp add: wp_on_group assms(1))

lemma app_kept_on_group [keeps_rules]:
  "(\<And>r. keeps (group_kept r) m) \<Longrightarrow> keeps (app_inv x) (on_group g m)"
  by (rule keepsI) (metis prod.collapse wp_on_group_kept)

lemma app_kept_audit_config [keeps_rules]:
  "keeps (app_inv x) (audit_config x' g d)" "keeps (app_inv x) updated" "keeps (app_inv x) (rejected why)"
  "keeps (app_inv x) (host_only_error what)" "keeps (app_inv x) group_ids"
  unfolding audit_config_def updated_def rejected_def host_only_error_def group_ids_def by (intro keeps_rules)+

lemma app_kept_recovery [keeps_rules]:
  "keeps (app_inv x) (recovery_candidates x' g)" "keeps (app_inv x) (handle_recovery_adopt x' q)"
proof -
  show c: "keeps (app_inv x) (recovery_candidates x' g)" for g
    unfolding recovery_candidates_def by (intro keeps_rules)
  show "keeps (app_inv x) (handle_recovery_adopt x' q)"
    unfolding handle_recovery_adopt_def by (intro keeps_rules c)
qed

lemma app_kept_route_group [keeps_rules]: "keeps (app_inv x) (route_group x' m)"
  unfolding route_group_def by (intro keeps_rules app_kept_update kept_group_handle) simp

subsection \<open>Configuration changes\<close>

lemma wp_commit_config:
  assumes "\<And>dg w'. Q () (a\<lparr>na_config_digest := dg, na_config := c\<rparr>, w')" and "\<And>e w'. E e (a, w')"
  shows "wp (commit_config x c) Q E (a, w)"
  using assms unfolding commit_config_def
  by (auto simp: wp_simps split: sum.split intro!: wp_mono [OF wp_top])

lemma wp_commit_or_rollback:
  assumes "\<And>dg w'. Q () (a\<lparr>na_config_digest := dg, na_config := c\<rparr>, w')" and "\<And>e w'. E e (a, w')"
  shows "wp (commit_or_rollback x staged r c) Q E (a, w)"
  unfolding commit_or_rollback_def wp_catchR
  by (rule wp_commit_config) (use assms in \<open>auto simp: wp_seqR wp_if wp_app_world wp_ret wp_fail intro!: wp_mono [OF wp_top]\<close>)

text \<open>A smaller valid configuration is still served.\<close>

lemma app_ok_shrink:
  assumes "app_ok x a" and "config_ok (ce_domain_str (px_config x)) c" and "set (cfg_groups c) \<subseteq> set (cfg_groups (na_config a))"
  shows "app_ok x (a\<lparr>na_config_digest := dg, na_config := c\<rparr>)"
  using assms by (auto simp: app_ok_def group_good_def serves_def)

lemma app_ok_remove:
  assumes "app_ok x a" and "\<forall>d \<in> set (cfg_groups (na_config a)). ag_id d \<noteq> g"
  shows "app_ok x (a\<lparr>na_groups := bt_remove g (na_groups a)\<rparr>)"
  using assms by (auto simp: app_ok_def group_good_def serves_def bt_remove_sorted bt_remove_map_of split: if_splits)

lemma app_kept_group_remove [keeps_rules]: "keeps (app_inv x) (handle_group_remove x q)"
proof (rule keepsI)
  fix s assume "app_inv x s"
  then obtain a w where s: "s = (a, w)" "app_ok x a" by (cases s) auto
  let ?g = "gr_account_group_id q"
  let ?c = "(na_config a)\<lparr>cfg_groups := filter (\<lambda>d. ag_id d \<noteq> ?g) (cfg_groups (na_config a))\<rparr>"
  have rest: "wp (seqR (app_world m) (seqR (update_app (\<lambda>a. a\<lparr>na_groups := bt_remove ?g (na_groups a)\<rparr>))
       (bindR (attempt (app_world n)) (\<lambda>_. bindR (attempt (audit_config x ?g d)) (\<lambda>_. updated)))))
       (\<lambda>_. app_inv x) (\<lambda>_. app_inv x) (b, v)"
    if "app_ok x b" "\<forall>d \<in> set (cfg_groups (na_config b)). ag_id d \<noteq> ?g" for b v d and m n :: "(world, unit) host"
    using that app_ok_remove [OF that]
    by (auto simp: wp_simps updated_def audit_config_def intro!: wp_mono [OF wp_top])
  show "wp (handle_group_remove x q) (\<lambda>_. app_inv x) (\<lambda>_. app_inv x) s"
  proof (cases "map_of (na_groups a) ?g")
    case None
    then show ?thesis using s by (simp add: handle_group_remove_def Let_def wp_bindR wp_the_app rejected_def wp_ret)
  next
    case (Some r)
    have commit: "wp (commit_or_rollback x True r ?c) (\<lambda>_ t. app_inv x t \<and> (\<forall>d \<in> set (cfg_groups (na_config (fst t))). ag_id d \<noteq> ?g))
        (\<lambda>_. app_inv x) (a, v)" if "config_validate (ce_domain_str (px_config x)) ?c = Inr ()" for v
      by (rule wp_commit_or_rollback) (use that s(2) in \<open>auto simp: config_validate_iff intro!: app_ok_shrink\<close>)
    show ?thesis
      unfolding handle_group_remove_def Let_def s(1)
      using s(2) Some
      by (simp add: wp_bindR wp_the_app wp_seqR [of "app_world (stage_invalidation _)"] wp_seqR [of "of_result _"]
            wp_seqR [of "commit_or_rollback _ _ _ _"] wp_of_result)
        (rule wp_app_worldI, auto split: sum.split intro!: wp_mono [OF commit] rest)
  qed
qed

lemma set_policy_in:
  assumes "d \<in> set (set_policy g level ds)" and "distinct (map ag_id ds)"
  shows "\<exists>d' \<in> set ds. ag_id d' = ag_id d \<and> ag_policy_level d = (if ag_id d = g then level else ag_policy_level d')"
  using assms
proof (induction g level ds rule: set_policy.induct)
  case (2 g level e ds)
  show ?case
  proof (cases "ag_id e = g")
    case True
    show ?thesis
    proof (cases "d \<in> set ds")
      case inside: True
      with True 2 have "ag_id d \<noteq> g" by (metis distinct.simps(2) image_eqI list.simps(9) set_map)
      with inside show ?thesis by auto
    next
      case False
      with True 2 have "d = e\<lparr>ag_policy_level := level\<rparr>" by simp
      with True show ?thesis by simp
    qed
  next
    case False
    with 2 show ?thesis by auto
  qed
qed simp

text \<open>The policy of a group changes in the configuration and in the runtime together.\<close>

lemma app_ok_set_policy:
  assumes ok: "app_ok x a" and g: "map_of (na_groups a) g = Some r"
    and c: "config_ok (ce_domain_str (px_config x)) c" "cfg_groups c = set_policy g level (cfg_groups (na_config a))"
    and r': "fixed_parts r' = fixed_parts (r\<lparr>rt_policy := level\<rparr>)" "buffer_ok r'"
  shows "app_ok x (a\<lparr>na_config_digest := dg, na_config := c, na_groups := bt_insert g r' (na_groups a)\<rparr>)"
proof -
  have "serves (a\<lparr>na_config_digest := dg, na_config := c, na_groups := bt_insert g r' (na_groups a)\<rparr>) d"
    if d: "d \<in> set (cfg_groups c)" for d
  proof -
    obtain d' where d': "d' \<in> set (cfg_groups (na_config a))" "ag_id d' = ag_id d"
        "ag_policy_level d = (if ag_id d = g then level else ag_policy_level d')"
      using set_policy_in [of d g level "cfg_groups (na_config a)"] d c(2) ok
      by (auto simp: app_ok_def config_ok_def)
    then show ?thesis using ok r'(1)
      by (fastforce simp: app_ok_def serves_def bt_insert_map_of fixed_parts_def)
  qed
  then show ?thesis using ok g c(1) r'
    by (auto simp: app_ok_def group_good_def bt_insert_sorted bt_insert_map_of fixed_parts_def split: if_splits)
qed

lemma kept_enter_monitor: "keeps (group_kept r) (enter_monitor x)"
  unfolding enter_monitor_def by (intro keeps_rules kept_update_lease) (simp add: clear_lease_def)

lemma app_kept_set_policy [keeps_rules]: "keeps (app_inv x) (handle_group_set_policy x q)"
proof (rule keepsI)
  fix s assume "app_inv x s"
  then obtain a w where s: "s = (a, w)" "app_ok x a" by (cases s) auto
  let ?g = "gp_account_group_id q" and ?level = "gp_policy_level q"
  let ?c = "(na_config a)\<lparr>cfg_groups := set_policy ?g ?level (cfg_groups (na_config a))\<rparr>"
  show "wp (handle_group_set_policy x q) (\<lambda>_. app_inv x) (\<lambda>_. app_inv x) s"
  proof (cases "map_of (na_groups a) ?g")
    case None
    then show ?thesis using s by (simp add: handle_group_set_policy_def Let_def wp_bindR wp_the_app rejected_def wp_ret)
  next
    case (Some r)
    have change: "wp (on_group ?g (seqR (update_runtime (\<lambda>r. r\<lparr>rt_policy := ?level\<rparr>)) m)) (\<lambda>_. app_inv x) (\<lambda>_. app_inv x)
        (a\<lparr>na_config_digest := dg, na_config := ?c\<rparr>, v)"
      if "config_ok (ce_domain_str (px_config x)) ?c" "\<And>r. keeps (group_kept r) m" for m dg v
    proof -
      let ?r = "r\<lparr>rt_policy := ?level\<rparr>"
      have "group_kept ?r (?r, na_hello_authorizer a, na_audit a, v)"
        using s(2) Some by (auto simp: app_ok_def group_good_def group_kept_def)
      then show ?thesis
        using Some app_ok_set_policy [OF s(2) Some that(1)]
        by (auto simp: wp_on_group wp_run_group wp_seqR wp_update_runtime group_kept_def intro!: wp_mono [OF keepsD [OF that(2)]])
    qed
    have tail: "wp (seqR (on_group ?g (seqR (update_runtime (\<lambda>r. r\<lparr>rt_policy := ?level\<rparr>)) m)) (seqR (audit_config x ?g d) updated))
        (\<lambda>_. app_inv x) (\<lambda>_. app_inv x) (a\<lparr>na_config_digest := dg, na_config := ?c\<rparr>, v)"
      if "config_ok (ce_domain_str (px_config x)) ?c" "\<And>r. keeps (group_kept r) m" for m d dg v
      unfolding wp_seqR [of "on_group _ _"]
      by (rule wp_mono [OF change [OF that]]) (auto intro!: keepsD keeps_rules)
    have inner: "keeps (group_kept r') (if e then enter_monitor x else ret ())" for r' e
      by (intro keeps_rules kept_enter_monitor)
    have commit: "wp (seqR (commit_or_rollback x e r ?c) (seqR (on_group ?g (seqR (update_runtime (\<lambda>r. r\<lparr>rt_policy := ?level\<rparr>))
          (if e then enter_monitor x else ret ()))) (seqR (audit_config x ?g d) updated))) (\<lambda>_. app_inv x) (\<lambda>_. app_inv x) (a, v)"
      if "config_validate (ce_domain_str (px_config x)) ?c = Inr ()" for e d v
      unfolding wp_seqR [of "commit_or_rollback _ _ _ _"]
      by (rule wp_commit_or_rollback) (use that s(2) in \<open>auto simp: config_validate_iff split del: if_split intro!: tail inner\<close>)
    have stage: "wp (if e then app_world m else ret ()) (\<lambda>_ t. fst t = a) (\<lambda>_ t. fst t = a) (a, w)" for e and m :: "(world, unit) host"
      by (auto simp: wp_ret intro!: wp_app_worldI)
    have body: "wp (if \<not> b then rejected why else seqR (of_result (config_validate (ce_domain_str (px_config x)) ?c))
         (seqR (commit_or_rollback x e r ?c) (seqR (on_group ?g (seqR (update_runtime (\<lambda>r. r\<lparr>rt_policy := ?level\<rparr>))
          (if e then enter_monitor x else ret ()))) (seqR (audit_config x ?g d) updated)))) (\<lambda>_. app_inv x) (\<lambda>_. app_inv x) t"
      if "fst t = a" for b why e d t
      using that s(2)
      by (cases t) (auto simp: rejected_def wp_ret wp_seqR [of "of_result _"] wp_of_result split: sum.split
          intro!: commit [of True, simplified] commit [of False, simplified])
    have rej: "wp (rejected why) (\<lambda>_. app_inv x) (\<lambda>_. app_inv x) (a, w)" for why
      by (simp add: rejected_def wp_ret s(2))
    show ?thesis
      unfolding handle_group_set_policy_def Let_def s(1) wp_bindR wp_the_app
      by (simp only: fst_conv Some option.case)
        (intro wp_ifI rej, simp only: wp_seqR [of "if _ then app_world _ else _"],
         rule wp_mono [OF stage], erule body, use s(2) in simp)
  qed
qed

subsection \<open>Binding groups to the connection\<close>

definition bound :: "uuid \<Rightarrow> u16 \<Rightarrow> group_runtime \<Rightarrow> bool" where
  "bound p n r \<longleftrightarrow> oc_profile_id (rt_operation_coordinator r) = Some p \<and>
     (n = PROTOCOL_VERSION \<longrightarrow> lm_protocol_floor (rt_lease r) = PROTOCOL_VERSION)"

definition same_core :: "group_runtime \<Rightarrow> group_runtime \<Rightarrow> bool" where
  "same_core r r' \<longleftrightarrow> rt_id r' = rt_id r \<and> rt_policy r' = rt_policy r \<and> buffer_ok r'"

lemma wp_bind_group:
  assumes "buffer_ok r"
  shows "wp (bind_group x n p) (\<lambda>_ t. same_core r (fst t) \<and> bound p n (fst t)) (\<lambda>_ t. same_core r (fst t)) (r, s)"
proof -
  have save: "wp (save_lease x) (\<lambda>_ t. same_core r (fst t) \<and> bound p n (fst t)) (\<lambda>_ t. same_core r (fst t)) (r', s)"
    if "same_core r r'" "bound p n r'" for r'
  proof -
    have "group_kept r' (r', s)" using that by (simp add: group_kept_def same_core_def)
    then show ?thesis
      by (rule wp_mono [OF keepsD [OF kept_save_lease]]) (use that in \<open>auto simp: group_kept_def same_core_def bound_def fixed_parts_def\<close>)
  qed
  have "same_core r (r\<lparr>rt_operation_coordinator := c\<rparr>)" "same_core r (r\<lparr>rt_operation_coordinator := c, rt_lease := l\<rparr>)" for c l
    using assms by (simp_all add: same_core_def)
  then show ?thesis using assms unfolding bind_group_def
    by (auto simp: wp_simps set_profile_id_def activate_protocol_v7_def bound_def PROTOCOL_VERSION_def same_core_def
        split: sum.split if_split option.split
        intro!: wp_mono [OF save [unfolded bound_def same_core_def PROTOCOL_VERSION_def]])
qed

lemma wp_handshake_group:
  assumes "buffer_ok r"
  shows "wp (handshake_group x h) (\<lambda>_ t. same_core r (fst t) \<and> bound (hs_profile_id h) (hs_protocol_version h) (fst t))
     (\<lambda>_ t. same_core r (fst t)) (r, s)"
  using assms by (auto simp: handshake_group_def wp_bindR wp_the_runtime wp_seqR wp_reject same_core_def intro!: wp_mono [OF wp_bind_group])

text \<open>Before the handshake is complete, a group may be replaced by any runtime with the same core.\<close>

definition unbound :: "app_ext \<Rightarrow> native_host_app \<times> world \<Rightarrow> bool" where
  "unbound x s \<longleftrightarrow> app_inv x s \<and> \<not> na_handshake_complete (fst s)"

definition all_bound :: "uuid \<Rightarrow> u16 \<Rightarrow> uuid set \<Rightarrow> native_host_app \<Rightarrow> bool" where
  "all_bound p n gs a \<longleftrightarrow> (\<forall>g \<in> gs. \<forall>r. map_of (na_groups a) g = Some r \<longrightarrow> bound p n r)"

lemma wp_handshake_one:
  assumes "unbound x s" and "all_bound (hs_profile_id h) (hs_protocol_version h) gs (fst s)"
  shows "wp (on_group g (handshake_group x' h))
     (\<lambda>_ t. unbound x t \<and> all_bound (hs_profile_id h) (hs_protocol_version h) (insert g gs) (fst t)
        \<and> dom (map_of (na_groups (fst t))) = dom (map_of (na_groups (fst s)))) (\<lambda>_. app_inv x) s"
proof (cases "map_of (na_groups (fst s)) g")
  case None
  then show ?thesis using assms by (simp add: wp_on_group unbound_def)
next
  case (Some r)
  have ok: "buffer_ok r" "rt_id r = g" using assms(1) Some by (auto simp: unbound_def app_ok_def group_good_def)
  have replace: "app_ok x ((fst s)\<lparr>na_groups := bt_insert g r' (na_groups (fst s)), na_hello_authorizer := b, na_audit := c\<rparr>)"
    if "same_core r r'" for r' b c
    using that assms(1) Some
    by (auto simp: unbound_def same_core_def app_ok_def group_good_def serves_def bt_insert_sorted bt_insert_map_of split: if_splits)
  have sorted: "keys_sorted (na_groups (fst s))" using assms(1) by (simp add: unbound_def app_ok_def)
  show ?thesis
    using assms Some replace
    by (auto simp: wp_on_group wp_run_group unbound_def all_bound_def bt_insert_map_of [OF sorted] insert_absorb domI
        intro!: wp_mono [OF wp_handshake_group [OF ok(1)]] split: if_splits)
qed

lemma wp_handshake_all:
  assumes "unbound x s" and "all_bound (hs_profile_id h) (hs_protocol_version h) gs (fst s)"
  shows "wp (each_group (\<lambda>g. on_group g (handshake_group x' h)) ids)
     (\<lambda>_ t. unbound x t \<and> all_bound (hs_profile_id h) (hs_protocol_version h) (gs \<union> set ids) (fst t)
        \<and> dom (map_of (na_groups (fst t))) = dom (map_of (na_groups (fst s)))) (\<lambda>_. app_inv x) s"
  using assms
proof (induction ids arbitrary: gs s)
  case (Cons g ids)
  show ?case unfolding each_group.simps wp_seqR
    by (rule wp_mono [OF wp_handshake_one [OF Cons.prems]], elim conjE, rule wp_mono [OF Cons.IH], assumption, assumption)
      simp_all
qed (simp add: wp_ret)

lemma app_ok_complete:
  assumes "unbound x (a, w)" and "all_bound p n (dom (map_of (na_groups a))) a"
  shows "app_ok x (a\<lparr>na_handshake_complete := True, na_negotiated_protocol := n, na_connection_profile_id := Some p\<rparr>)"
proof -
  have "bound p n r" if "map_of (na_groups a) g = Some r" for g r
    using assms(2) that by (auto simp: all_bound_def)
  then show ?thesis using assms(1) by (auto simp: unbound_def app_ok_def group_good_def serves_def bound_def)
qed

lemma each_group_keeps: "(\<And>g. keeps I (f g)) \<Longrightarrow> keeps I (each_group f gs)"
  by (induction gs) (simp_all add: keeps_seqR keeps_pure)

lemma wp_group_ids: "wp group_ids Q E s = Q (map fst (na_groups (fst s))) s"
  by (simp add: group_ids_def wp_bindR wp_the_app wp_ret)

lemma app_kept_handshake:
  assumes "unbound x s"
  shows "wp (handle_handshake x h) (\<lambda>_. app_inv x) (\<lambda>_. app_inv x) s"
proof -
  let ?ids = "map fst (na_groups (fst s))"
  let ?bind = "each_group (\<lambda>g. on_group g (handshake_group (px_host x) h)) ?ids"
  have dom: "dom (map_of (na_groups (fst s))) = set ?ids" by (simp add: dom_map_of_conv_image_fst)
  have bind: "wp ?bind (\<lambda>_ t. unbound x t \<and> all_bound (hs_profile_id h) (hs_protocol_version h) (dom (map_of (na_groups (fst t)))) (fst t))
      (\<lambda>_. app_inv x) s"
    by (rule wp_mono [OF wp_handshake_all [OF assms, of h "{}"]]) (auto simp: all_bound_def dom)
  have rest: "keeps (app_inv x) (bindR m (\<lambda>c. bindR the_app (\<lambda>a. seqR (each_group (\<lambda>g. app_audit (f g)) gs) (ret (k c a)))))"
    if "keeps (app_inv x) m" for m :: "'b app_m" and f gs and k :: "'b \<Rightarrow> native_host_app \<Rightarrow> message list"
    by (intro keeps_rules each_group_keeps that)
  have candidates: "keeps (app_inv x) (if v then recovery_candidates x g else ret [])" for v g
    by (intro keeps_rules)
  show ?thesis
    unfolding handle_handshake_def
    using assms
    by (auto simp: wp_seqR [of "of_result _"] wp_of_result wp_bindR [of group_ids] wp_group_ids wp_seqR [of ?bind]
          wp_seqR [of "update_app _"] wp_update_app unbound_def [of x s]
        split: sum.split split del: if_split intro!: wp_mono [OF bind] keepsD [OF rest [OF candidates]] app_ok_complete)
qed

lemma wp_build_group:
  "wp (build_group_runtime x p d) (\<lambda>r _. rt_id r = ag_id d \<and> rt_policy r = ag_policy_level d \<and> buffer_ok r) (\<lambda>_ _. True) w"
  unfolding build_group_runtime_def Let_def
  by (auto simp: wp_bindR wp_ret wp_case_prod buffer_ok_def intro!: wp_mono [OF wp_top])

lemma wp_bind_new_group:
  assumes "buffer_ok r" and "\<And>r' w'. same_core r r' \<Longrightarrow> bound p (na_negotiated_protocol a) r' \<Longrightarrow> Q r' (a, w')"
    and "\<And>e w'. E e (a, w')"
  shows "wp (bind_new_group x p r) Q E (a, w)"
  using wp_bind_group [OF assms(1), of "px_host x" "na_negotiated_protocol a" p "(na_hello_authorizer a, na_audit a, w)"] assms(2,3)
  by (auto simp: bind_new_group_def wp_bindR wp_the_app wp_def split: prod.splits sum.splits)

lemma app_ok_add:
  assumes "app_ok x a" and "na_connection_profile_id a = Some p"
    and "rt_id r = ag_id d" "rt_policy r = ag_policy_level d" "buffer_ok r" "bound p (na_negotiated_protocol a) r"
    and c: "config_ok (ce_domain_str (px_config x)) c" "cfg_groups c = cfg_groups (na_config a) @ [d]"
  shows "app_ok x (a\<lparr>na_config_digest := dg, na_config := c, na_groups := bt_insert (ag_id d) r (na_groups a)\<rparr>)"
proof -
  have "ag_id e \<noteq> ag_id d" if "e \<in> set (cfg_groups (na_config a))" for e
    using c that by (auto simp: config_ok_def dest!: imageI [of e _ ag_id])
  with assms show ?thesis
    by (auto simp: app_ok_def group_good_def serves_def bound_def bt_insert_sorted bt_insert_map_of split: if_splits)
qed

lemma app_kept_group_add [keeps_rules]: "keeps (app_inv x) (handle_group_add x q)"
proof (rule keepsI)
  fix s assume "app_inv x s"
  then obtain a w where s: "s = (a, w)" "app_ok x a" by (cases s) auto
  have tail: "wp (seqR (commit_config x c) (seqR (update_app (\<lambda>a. a\<lparr>na_groups := bt_insert (ag_id d) r (na_groups a)\<rparr>))
       (seqR (audit_config x (ag_id d) t) updated))) (\<lambda>_. app_inv x) (\<lambda>_. app_inv x) (a, v)"
    if "na_connection_profile_id a = Some p" "rt_id r = ag_id d" "rt_policy r = ag_policy_level d" "buffer_ok r"
      "bound p (na_negotiated_protocol a) r" "config_ok (ce_domain_str (px_config x)) c"
      "cfg_groups c = cfg_groups (na_config a) @ [d]" for p d r c t v
    unfolding wp_seqR [of "commit_config _ _"] wp_seqR [of "update_app _"] wp_update_app
    by (rule wp_commit_config) (use s(2) app_ok_add [OF s(2) that] in \<open>auto intro!: keepsD keeps_rules\<close>)
  have build: "wp (bindR (app_world (build_group_runtime x (na_paths a) d)) (\<lambda>r.
       bindR (ok_or (na_connection_profile_id a) e) (\<lambda>p. bindR (bind_new_group x p r) (\<lambda>r.
       seqR (commit_config x c) (seqR (update_app (\<lambda>a. a\<lparr>na_groups := bt_insert i r (na_groups a)\<rparr>))
       (seqR (audit_config x i t) updated)))))) (\<lambda>_. app_inv x) (\<lambda>_. app_inv x) (a, v)"
    if "config_ok (ce_domain_str (px_config x)) c" "cfg_groups c = cfg_groups (na_config a) @ [d]" "ag_id d = i" for d i e c t v
    unfolding wp_bindR wp_app_world wp_ok_or that(3) [symmetric]
    by (simp, rule wp_mono [OF wp_build_group])
      (use that(1,2) s(2) in \<open>auto split: option.split intro!: wp_bind_new_group tail simp: same_core_def\<close>)
  show "wp (handle_group_add x q) (\<lambda>_. app_inv x) (\<lambda>_. app_inv x) s"
    unfolding handle_group_add_def Let_def s(1) wp_bindR [of the_app] wp_bindR [of "app_world new_v4"] wp_the_app fst_conv
    using s(2)
    by (auto simp: wp_case_sum rejected_def wp_ret config_validate_iff split: sum.split intro!: wp_app_worldI build)
qed

lemma app_kept_route [keeps_rules]: "keeps (app_inv x) (route x m)"
  unfolding route_def by (cases m; simp only: message.case; intro keeps_rules)

lemma app_kept_native_handle: "keeps (app_inv x) (native_handle x m)"
proof (rule keepsI)
  fix s assume s: "app_inv x s"
  have routed: "wp (seqR (update_app (\<lambda>a. a\<lparr>na_last_message_group := None\<rparr>)) (route x m)) (\<lambda>_. app_inv x) (\<lambda>_. app_inv x) s"
    unfolding wp_seqR wp_update_app using s by (auto intro!: keepsD keeps_rules)
  show "wp (native_handle x m) (\<lambda>_. app_inv x) (\<lambda>_. app_inv x) s"
    unfolding native_handle_def wp_bindR wp_the_app
    using s routed
    by (cases m) (auto simp: host_only_error_def wp_fail unbound_def intro!: app_kept_handshake)
qed

interpretation am: invariant_machine "native_handle x" "app_inv x" for x
  by unfold_locales (rule app_kept_native_handle)

subsection \<open>Opening\<close>

lemma wp_config_load: "wp (config_load x p) (\<lambda>c _. config_ok (ce_domain_str x) (lc_config c)) (\<lambda>_ _. True) w"
  unfolding config_load_def
  by (auto simp: wp_bindR wp_seqR wp_of_result wp_ret config_validate_iff split: sum.split intro!: wp_mono [OF wp_top])

definition groups_built :: "account_group list \<Rightarrow> (uuid \<times> group_runtime) list \<Rightarrow> bool" where
  "groups_built ds gs \<longleftrightarrow> keys_sorted gs \<and> (\<forall>g r. map_of gs g = Some r \<longrightarrow> rt_id r = g \<and> buffer_ok r) \<and>
     (\<forall>d \<in> set ds. \<exists>r. map_of gs (ag_id d) = Some r \<and> rt_policy r = ag_policy_level d)"

lemma wp_build_groups:
  assumes "groups_built ks gs" and "distinct (map ag_id (ks @ ds))"
  shows "wp (build_groups x paths ds gs) (\<lambda>gs' _. groups_built (ks @ ds) gs') (\<lambda>_ _. True) w"
  using assms
proof (induction ds arbitrary: gs ks w)
  case (Cons d ds)
  have step: "groups_built (ks @ [d]) (bt_insert (ag_id d) r gs)"
    if "rt_id r = ag_id d \<and> rt_policy r = ag_policy_level d \<and> buffer_ok r" for r
  proof -
    have "ag_id e \<noteq> ag_id d" if "e \<in> set ks" for e
      using Cons.prems(2) that by (auto dest!: imageI [of e _ ag_id])
    then show ?thesis using that Cons.prems(1)
      by (auto simp: groups_built_def bt_insert_sorted bt_insert_map_of)
  qed
  show ?case unfolding build_groups.simps wp_bindR
    by (rule wp_mono [OF wp_build_group]) (use Cons.IH [OF step] Cons.prems(2) in auto)
qed (simp add: wp_ret)

lemma wp_native_open: "wp (native_open x paths) (\<lambda>a _. app_ok x a) (\<lambda>_ _. True) w"
proof -
  have build: "wp (build_groups x paths (cfg_groups c) []) (\<lambda>gs _. groups_built (cfg_groups c) gs) (\<lambda>_ _. True) w"
    if "config_ok d c" for c d w
    using wp_build_groups [of "[]" "[]" "cfg_groups c"] that by (auto simp: groups_built_def config_ok_def)
  show ?thesis
    unfolding native_open_def wp_bindR wp_seqR wp_ret
    by (rule wp_mono [OF wp_config_load], rule wp_mono [OF wp_top], rule wp_mono [OF wp_top],
        rule wp_mono [OF build], assumption, rule wp_mono [OF wp_top], rule wp_mono [OF wp_top])
      (simp_all add: app_ok_def groups_built_def group_good_def serves_def)
qed

subsection \<open>The handshake\<close>

definition floor_of :: "native_host_app \<Rightarrow> uuid \<Rightarrow> u16 option" where
  "floor_of a g = map_option (\<lambda>r. lm_protocol_floor (rt_lease r)) (map_of (na_groups a) g)"

lemma floor_of_dom: "floor_of a g = Some n \<Longrightarrow> g \<in> set (map fst (na_groups a))"
  by (force simp: floor_of_def dest!: map_of_SomeD)

lemma wp_legacy_group:
  assumes "hs_protocol_version h = LEGACY_PROTOCOL_VERSION"
  shows "wp (handshake_group x h) (\<lambda>_ t. lm_protocol_floor (rt_lease r) < PROTOCOL_VERSION \<and> rt_lease (fst t) = rt_lease r)
     (\<lambda>_ _. True) (r, s)"
  using assms by (auto simp: handshake_group_def bind_group_def wp_simps LEGACY_PROTOCOL_VERSION_def PROTOCOL_VERSION_def split: sum.split)

lemma wp_legacy_one:
  assumes "hs_protocol_version h = LEGACY_PROTOCOL_VERSION" and "keys_sorted (na_groups (fst s))"
  shows "wp (on_group g (handshake_group x h))
     (\<lambda>_ t. keys_sorted (na_groups (fst t)) \<and> floor_of (fst t) = floor_of (fst s) \<and>
        (\<forall>n. floor_of (fst s) g = Some n \<longrightarrow> n < PROTOCOL_VERSION)) (\<lambda>_ _. True) s"
  using assms(2)
  by (auto simp: wp_on_group wp_run_group bt_insert_sorted bt_insert_map_of fun_eq_iff floor_of_def split: option.split
      intro!: wp_mono [OF wp_legacy_group [OF assms(1)]])

lemma wp_legacy_all:
  assumes "hs_protocol_version h = LEGACY_PROTOCOL_VERSION" and "keys_sorted (na_groups (fst s))"
  shows "wp (each_group (\<lambda>g. on_group g (handshake_group x h)) ids)
     (\<lambda>_ t. \<forall>g \<in> set ids. \<forall>n. floor_of (fst s) g = Some n \<longrightarrow> n < PROTOCOL_VERSION) (\<lambda>_ _. True) s"
  using assms(2)
proof (induction ids arbitrary: s)
  case (Cons g ids)
  show ?case unfolding each_group.simps wp_seqR
    by (rule wp_mono [OF wp_legacy_one [OF assms(1) Cons.prems]], elim conjE, rule wp_mono [OF Cons.IH], assumption) auto
qed (simp add: wp_ret)

definition handshake_done :: "handshake \<Rightarrow> native_host_app \<times> world \<Rightarrow> bool" where
  "handshake_done h s \<longleftrightarrow> na_handshake_complete (fst s) \<and> na_connection_profile_id (fst s) = Some (hs_profile_id h) \<and>
     na_negotiated_protocol (fst s) = hs_protocol_version h"

lemma done_kept [keeps_rules]:
  "keeps (handshake_done h) the_app" "keeps (handshake_done h) (app_world m)" "keeps (handshake_done h) (app_audit n)"
  by (auto simp: keeps_def wp_simps handshake_done_def intro!: wp_mono [OF wp_top])

lemma wp_handshake_gate:
  assumes "keys_sorted (na_groups (fst s))"
  shows "wp (handle_handshake x h) (\<lambda>_ t. handshake_check h = Inr () \<and> handshake_done h t \<and>
     (hs_protocol_version h = LEGACY_PROTOCOL_VERSION \<longrightarrow>
        (\<forall>g n. floor_of (fst s) g = Some n \<longrightarrow> n < PROTOCOL_VERSION))) (\<lambda>_ _. True) s"
proof -
  let ?ids = "map fst (na_groups (fst s))"
  let ?bind = "each_group (\<lambda>g. on_group g (handshake_group (px_host x) h)) ?ids"
  let ?F = "hs_protocol_version h = LEGACY_PROTOCOL_VERSION \<longrightarrow> (\<forall>g n. floor_of (fst s) g = Some n \<longrightarrow> n < PROTOCOL_VERSION)"
  have bind: "wp ?bind (\<lambda>_ _. ?F) (\<lambda>_ _. True) s"
  proof (cases "hs_protocol_version h = LEGACY_PROTOCOL_VERSION")
    case True
    show ?thesis
      by (rule wp_mono [OF wp_legacy_all [OF True assms]]) (blast dest: floor_of_dom)+
  qed (auto intro: wp_mono [OF wp_top])
  have rest: "keeps (handshake_done h) (bindR m (\<lambda>c. bindR the_app (\<lambda>a. seqR (each_group (\<lambda>g. app_audit (f g)) gs) (ret (k c a)))))"
    if "keeps (handshake_done h) m" for m :: "'b app_m" and f gs and k :: "'b \<Rightarrow> native_host_app \<Rightarrow> message list"
    by (intro keeps_rules each_group_keeps that)
  have candidates: "keeps (handshake_done h) (if v then recovery_candidates x g else ret [])" for v g
    unfolding recovery_candidates_def by (intro keeps_rules)
  show ?thesis
    unfolding handle_handshake_def
    by (auto simp: wp_seqR [of "of_result _"] wp_of_result wp_bindR [of group_ids] wp_group_ids wp_seqR [of ?bind]
          wp_seqR [of "update_app _"] wp_update_app
        split: sum.split split del: if_split
        intro!: wp_mono [OF bind] wp_mono [OF keepsD [OF rest [OF candidates]]])
      (simp_all add: handshake_done_def)
qed

text \<open>
  C13. Nothing happens before a valid handshake: in an application that satisfies its invariant, as long
  as the handshake is not complete only a handshake succeeds, and only one with a supported protocol
  version, the extension identifier of the product, recent enough versions on both sides and the
  required capabilities; the connection is then bound to its profile and version. Protocol 6 is
  accepted only if the protocol floor that each group's lease metadata holds at that moment is below 7
  (nothing is claimed about a floor that was lost with the metadata).
\<close>

theorem handshake_gate:
  assumes "\<not> na_handshake_complete a" and "app_ok x a" and "native_handle x m (a, w) = (Inr out, (a', w'))"
  shows "\<exists>h. m = Handshake h \<and> hs_extension_id h = PRODUCT_EXTENSION_ID \<and>
    hs_protocol_version h \<in> {LEGACY_PROTOCOL_VERSION, PROTOCOL_VERSION} \<and>
    \<not> too_old (hs_extension_version h) MIN_EXTENSION_VERSION \<and> \<not> too_old CARGO_PKG_VERSION (hs_min_host_version h) \<and>
    set (if hs_protocol_version h = PROTOCOL_VERSION then V7_REQUIRED_CAPABILITIES else V6_PROTOCOL_CAPABILITIES)
      \<subseteq> set (hs_capabilities h) \<and>
    handshake_done h (a', w') \<and>
    (hs_protocol_version h = LEGACY_PROTOCOL_VERSION \<longrightarrow>
       (\<forall>g r. map_of (na_groups a) g = Some r \<longrightarrow> lm_protocol_floor (rt_lease r) < PROTOCOL_VERSION))"
proof -
  have "\<exists>h. m = Handshake h"
    using assms(1,3) by (cases m) (auto simp: native_handle_def the_app_def bindR_def gets_def host_only_error_def fail_def)
  then obtain h where m: "m = Handshake h" ..
  then have "handle_handshake x h (a, w) = (Inr out, (a', w'))"
    using assms(1,3) by (simp add: native_handle_def the_app_def bindR_def gets_def)
  from wp_okD [OF this wp_handshake_gate] assms(2) have "handshake_check h = Inr ()" "handshake_done h (a', w')"
    "hs_protocol_version h = LEGACY_PROTOCOL_VERSION \<longrightarrow> (\<forall>g n. floor_of a g = Some n \<longrightarrow> n < PROTOCOL_VERSION)"
    by (simp_all add: app_ok_def)
  moreover from this(1) have "hs_extension_id h = PRODUCT_EXTENSION_ID"
    "hs_protocol_version h \<in> {LEGACY_PROTOCOL_VERSION, PROTOCOL_VERSION}"
    "\<not> too_old (hs_extension_version h) MIN_EXTENSION_VERSION" "\<not> too_old CARGO_PKG_VERSION (hs_min_host_version h)"
    "set (if hs_protocol_version h = PROTOCOL_VERSION then V7_REQUIRED_CAPABILITIES else V6_PROTOCOL_CAPABILITIES)
      \<subseteq> set (hs_capabilities h)"
    unfolding handshake_check_def list_all_iff by (auto split: if_splits)
  ultimately show ?thesis using m by (auto simp: floor_of_def)
qed

text \<open>
  C6. The invariant of the application: after a profile has been opened and any sequence of
  messages handled, with any failures of files, cryptography or the platform in between, every
  group is registered under its own identifier, the configuration is valid and every group of it is
  served with the policy it configures, the snapshot buffer of every group is within its limits,
  and once the handshake is complete every group, including those added later, is bound to the
  profile of the connection and, on protocol 7, has the protocol floor 7.
\<close>

theorem application_invariant:
  assumes "native_open x paths w = (Inr a, w1)"
  shows "app_ok x (fst (run_steps (native_handle x) ms (a, w1)))"
proof (rule am.all_steps)
  show "app_inv x (a, w1)" using wp_okD [OF assms wp_native_open] by simp
qed

text \<open>A profile without groups opens on a file system that holds only the audit key.\<close>

definition exo_audit :: audit_ext where
  "exo_audit = exa_x\<lparr>ax_sha256 := (\<lambda>_. []), ax_anchor_json := \<lparr>to_vec = (\<lambda>_. Some [0]), from_slice = (\<lambda>_. None)\<rparr>\<rparr>"

definition exo_key :: "byte list" where "exo_key = replicate 32 0"

lemma exo_key_length: "length exo_key = 32"
  by (simp add: exo_key_def)

definition exo_w :: world where
  "exo_w = put_file [Name ''p'', Name ''audit'', Name ''audit-key.dpapi''] exo_key quiet_world"

definition exo_config :: account_groups_config where
  "exo_config = \<lparr>cfg_version = 3, cfg_compatibility_version = 3, cfg_groups = []\<rparr>"

definition exo_x :: app_ext where
  "exo_x = \<lparr>px_host = exs_x\<lparr>hx_audit := exo_audit\<rparr>,
     px_config = \<lparr>ce_domain_str = Some, ce_sha256 = (\<lambda>_. [1]),
       ce_config_json = \<lparr>to_vec = (\<lambda>_. Some [0]), from_slice = (\<lambda>_. Some exo_config)\<rparr>,
       ce_value_json = \<lparr>to_vec = (\<lambda>_. Some [0]), from_slice = (\<lambda>_. Some JNull)\<rparr>, ce_bundled = [0]\<rparr>,
     px_config_pretty = (\<lambda>_. Some [0]), px_secret = \<lparr>ls_protect = Inr, ls_unprotect = Inr\<rparr>,
     px_supports_monitoring = False, px_parse_uuid = (\<lambda>_. None),
     px_metadata = (\<lambda>_ _. None), px_lock = (\<lambda>_. ret ())\<rparr>"

lemmas exo_defs =
  quiet_world_def advance_def is_chain_file_def load_protected_def strict_prefix_def in_dir_def audit_open_def open_strict_def
  load_or_create_key_def exo_w_def key_path_def anchor_path_def checkpoint_path_def exo_key_length
  AUDIT_KEY_BYTES_def exo_audit_def exa_x_def with_logger_def drain_outbox_def exa_l_def exa_d_def outbox_path_def
  compact_expired_segments_def persist_anchor_def verify_chain_def load_checkpoint_def load_anchor_def native_open_def
  config_load_def exo_x_def exo_config_def exs_x_def config_validate_def MAX_GROUPS_def vault_groups_of_def

lemma exo_opens: "\<exists>a. fst (native_open exo_x (from_root [Name ''p'']) exo_w) = Inr a"
  by (simp add: exo_defs run_simps)

theorem application_invariant_witness:
  "\<exists>a w1. native_open exo_x (from_root [Name ''p'']) exo_w = (Inr a, w1) \<and>
     app_ok exo_x (fst (run_steps (native_handle exo_x) [GroupRemove \<lparr>gr_account_group_id = 1\<rparr>] (a, w1)))"
proof -
  obtain a w1 where run: "native_open exo_x (from_root [Name ''p'']) exo_w = (Inr a, w1)"
    using exo_opens by (metis prod.collapse)
  then show ?thesis using application_invariant by blast
qed

text \<open>An extension of the minimum version connects with protocol 6.\<close>

definition exh_a :: native_host_app where
  "exh_a = \<lparr>na_groups = [], na_audit = exa_l, na_paths = from_root [Name ''p''], na_config = exo_config,
     na_config_digest = [], na_handshake_complete = False, na_last_message_group = None, na_hello_authorizer = None,
     na_monitor = monitor_new, na_negotiated_protocol = LEGACY_PROTOCOL_VERSION, na_connection_profile_id = None\<rparr>"

definition exh_h :: handshake where
  "exh_h = \<lparr>hs_protocol_version = 6, hs_extension_id = PRODUCT_EXTENSION_ID, hs_profile_id = 3,
     hs_extension_version = ''0.4.1'', hs_min_host_version = ''0.6.0'', hs_capabilities = V6_PROTOCOL_CAPABILITIES,
     hs_cached_config_digest = None\<rparr>"

lemma exh_versions: "version_parts ''0.6.0'' = Some [0, 6, 0]" "version_parts ''0.4.1'' = Some [0, 4, 1]"
  by (simp_all add: version_parts_def parse_u64_def is_ascii_digit_def)

lemma exh_check: "handshake_check exh_h = Inr ()"
  by (simp add: handshake_check_def exh_h_def too_old_def compare_versions_def exh_versions LEGACY_PROTOCOL_VERSION_def
      PROTOCOL_VERSION_def MIN_EXTENSION_VERSION_def CARGO_PKG_VERSION_def V6_PROTOCOL_CAPABILITIES_def run_simps)

lemma exh_runs: "\<exists>out. fst (native_handle exo_x (Handshake exh_h) (exh_a, quiet_world)) = Inr out"
  using exh_check
  by (simp add: native_handle_def handle_handshake_def group_ids_def the_app_def update_app_def exh_a_def exh_h_def PROTOCOL_VERSION_def run_simps)

theorem handshake_gate_witness:
  "\<exists>out a' w'. native_handle exo_x (Handshake exh_h) (exh_a, quiet_world) = (Inr out, (a', w')) \<and> handshake_done exh_h (a', w')"
proof -
  obtain out a' w' where run: "native_handle exo_x (Handshake exh_h) (exh_a, quiet_world) = (Inr out, (a', w'))"
    using exh_runs by (metis prod.collapse)
  have "\<not> na_handshake_complete exh_a" "app_ok exo_x exh_a"
    by (simp_all add: exh_a_def app_ok_def config_ok_def exo_config_def MAX_GROUPS_def)
  from handshake_gate [OF this run] run show ?thesis by auto
qed

end
