(* ===== verification/Config_Change.thy ===== *)
theory Config_Change
  imports App_Invariant
begin

text \<open>
  Removing a group and turning it into a monitored one delete its vault. The deletion is staged by
  a rename, the configuration is written, and the staged file is deleted or renamed back: as long
  as the configuration protects the group, its only encrypted copy exists, in place or staged.
\<close>

subsection \<open>A parked vault\<close>

lemma wp_stage_parked:
  assumes "parked root g old w"
  shows "wp (stage_delete root g) (\<lambda>_. parked root g old) (\<lambda>_. parked root g old) w"
  using assms unfolding stage_delete_def by (auto simp: wp_simps parked_def split: option.split)

lemma wp_rollback_parked:
  assumes "parked root g old w"
  shows "wp (rollback_staged_delete root g) (\<lambda>_. parked root g old) (\<lambda>_. parked root g old) w"
  using assms unfolding rollback_staged_delete_def by (auto simp: wp_simps parked_def split: option.split)

text \<open>The recovery at the next start keeps a parked vault of a protected group, and puts it back.\<close>

lemma parked_kept:
  assumes "parked root g old w" and "store_leaves root w" and "own_names parse_str root (map fst (files w))"
    and "g \<in> set cs" and "recover_staged_deletions parse_str root cs w = (r, w')"
  shows "parked root g old w'"
  using wp_recover_parked [OF _ assms(3,4)] assms(1,2,5) by (fastforce simp: wp_def split: sum.splits)

lemma parked_recovered:
  assumes "parked root g (Some b) w" and "store_ready root w" and "own_names parse_str root (map fst (files w))"
    and "g \<in> set cs" and "recover_staged_deletions parse_str root cs w = (Inr (), w')"
  shows "lookup w' (path_for root g) = Some b"
proof -
  have rec: "recovered root cs w w'"
      "lookup w (staged_delete_path_for root g) \<noteq> None \<Longrightarrow> lookup w' (staged_delete_path_for root g) = None"
    using wp_okD [OF assms(5) recover_staged_deletions_wp [OF assms(2,3)]] by auto
  from assms(1) show ?thesis unfolding parked_def
    using rec(2) recovered_in_place [OF rec(1)] recovered_staged [OF rec(1) assms(4)] by fastforce
qed

text \<open>The files of the vault are neither the configuration nor part of the audit log.\<close>

definition vault_files_apart :: "native_host_app \<Rightarrow> vault_store \<Rightarrow> uuid \<Rightarrow> bool" where
  "vault_files_apart a root g \<longleftrightarrow> (\<forall>p \<in> {path_for root g, staged_delete_path_for root g}.
     p \<noteq> dp_account_groups_config (na_paths a) \<and> \<not> write_scratch (dp_account_groups_config (na_paths a)) p \<and>
     \<not> strict_prefix (al_directory (na_audit a)) p)"

definition keeps_vault :: "native_host_app \<Rightarrow> vault_store \<Rightarrow> uuid \<Rightarrow> byte list option \<Rightarrow> native_host_app \<times> world \<Rightarrow> bool" where
  "keeps_vault a root g old s \<longleftrightarrow> (g \<in> set (vault_groups_of (na_config (fst s))) \<longrightarrow> parked root g old (snd s))"

lemma wp_commit_config_parked:
  assumes "vault_files_apart a root g" and "parked root g old w"
    and "\<And>dg w'. parked root g old w' \<Longrightarrow> Q () (a\<lparr>na_config_digest := dg, na_config := c\<rparr>, w')"
    and "\<And>e w'. parked root g old w' \<Longrightarrow> E e (a, w')"
  shows "wp (commit_config x c) Q E (a, w)"
proof -
  have frame: "parked root g old w'" if "write_verified_durable (dp_account_groups_config (na_paths a)) bs v w = (res, w')"
    for bs v res w'
    using assms(1,2) by (subst parked_cong [where w = w]) (auto simp: vault_files_apart_def intro!: dw.frame [OF that])
  have written: "wp (write_verified_durable (dp_account_groups_config (na_paths a)) bs v) (\<lambda>_. parked root g old) (\<lambda>_. parked root g old) w"
    for bs v
    by (rule wp_runI) (auto intro: frame)
  show ?thesis using assms(2-4) unfolding commit_config_def
    by (auto simp: wp_bindR wp_the_app wp_of_result wp_seqR wp_app_world wp_write_verified wp_update_app
        split: sum.split intro!: wp_mono [OF written])
qed

lemma wp_commit_or_rollback_parked:
  assumes "vault_files_apart a (vt_vault_store (rt_transactions r)) (vt_group_id (rt_transactions r))"
    and "parked (vt_vault_store (rt_transactions r)) (vt_group_id (rt_transactions r)) old w"
    and "\<And>dg w'. parked (vt_vault_store (rt_transactions r)) (vt_group_id (rt_transactions r)) old w' \<Longrightarrow>
           Q () (a\<lparr>na_config_digest := dg, na_config := c\<rparr>, w')"
    and "\<And>e w'. parked (vt_vault_store (rt_transactions r)) (vt_group_id (rt_transactions r)) old w' \<Longrightarrow> E e (a, w')"
  shows "wp (commit_or_rollback x staged r c) Q E (a, w)"
  unfolding commit_or_rollback_def wp_catchR
  by (rule wp_commit_config_parked [OF assms(1,2)])
    (use assms in \<open>auto simp: wp_seqR wp_if wp_app_world wp_ret wp_fail rollback_staged_invalidation_def
       intro!: wp_mono [OF wp_rollback_parked]\<close>)

lemma wp_stage_invalidation:
  assumes "parked (vt_vault_store t) (vt_group_id t) old w"
  shows "wp (if c then app_world (stage_invalidation t) else ret ())
     (\<lambda>_ s. fst s = a \<and> parked (vt_vault_store t) (vt_group_id t) old (snd s))
     (\<lambda>_ s. fst s = a \<and> parked (vt_vault_store t) (vt_group_id t) old (snd s)) (a, w)"
  using assms by (auto simp: wp_app_world wp_ret stage_invalidation_def intro!: wp_mono [OF wp_stage_parked])

lemma wp_guarded: "(q = Inr () \<Longrightarrow> wp m Q E s) \<Longrightarrow> (\<And>e. E e s) \<Longrightarrow> wp (seqR (of_result q) m) Q E s"
  by (simp add: wp_seqR wp_of_result split: sum.split)

subsection \<open>The two messages\<close>

lemma removed_unprotected: "g \<notin> set (vault_groups_of (c\<lparr>cfg_groups := filter (\<lambda>d. ag_id d \<noteq> g) ds\<rparr>))"
  by (auto simp: vault_groups_of_def)

lemma monitored_unprotected:
  assumes "distinct (map ag_id ds)"
  shows "g \<notin> set (vault_groups_of (c\<lparr>cfg_groups := set_policy g policy_level.Monitor ds\<rparr>))"
  by (fastforce simp: vault_groups_of_def dest: set_policy_in [OF _ assms])

text \<open>Once the configuration no longer protects the group, nothing is claimed, and it does not change again.\<close>

abbreviation unprotects :: "uuid \<Rightarrow> account_groups_config \<Rightarrow> native_host_app \<times> world \<Rightarrow> bool" where
  "unprotects g c s \<equiv> na_config (fst s) = c \<and> g \<notin> set (vault_groups_of c)"

lemma config_kept_calls [keeps_rules]:
  "keeps (unprotects g c) the_app" "keeps (unprotects g c) (app_world m)" "keeps (unprotects g c) (app_audit n)"
  "keeps (unprotects g c) (on_group h k)"
  by (auto simp: keeps_def wp_simps wp_on_group split: option.split intro!: wp_mono [OF wp_top])

lemma config_kept_groups [keeps_rules]: "keeps (unprotects g c) (update_app (\<lambda>a. a\<lparr>na_groups := f (na_groups a)\<rparr>))"
  by (simp add: keeps_def wp_update_app)

lemma wp_unprotected:
  assumes "keeps (unprotects g c) m" and "na_config a = c" and "g \<notin> set (vault_groups_of c)"
  shows "wp m (\<lambda>_. keeps_vault b root g old) (\<lambda>_. keeps_vault b root g old) (a, w)"
  by (rule wp_mono [OF keepsD [OF assms(1)]]) (use assms in \<open>auto simp: keeps_vault_def\<close>)

lemma wp_group_remove_vault:
  fixes r defines "root \<equiv> vt_vault_store (rt_transactions r)"
  assumes g: "map_of (na_groups a) (gr_account_group_id q) = Some r" "vt_group_id (rt_transactions r) = gr_account_group_id q"
    and apart: "vault_files_apart a root (gr_account_group_id q)" and p: "parked root (gr_account_group_id q) old w"
  shows "wp (handle_group_remove x q) (\<lambda>_. keeps_vault a root (gr_account_group_id q) old)
     (\<lambda>_. keeps_vault a root (gr_account_group_id q) old) (a, w)"
proof -
  let ?g = "gr_account_group_id q"
  let ?c = "(na_config a)\<lparr>cfg_groups := filter (\<lambda>d. ag_id d \<noteq> ?g) (cfg_groups (na_config a))\<rparr>"
  let ?rest = "seqR (app_world (commit_staged_invalidation (rt_transactions r)))
     (seqR (update_app (\<lambda>a. a\<lparr>na_groups := bt_remove ?g (na_groups a)\<rparr>))
     (bindR (attempt (app_world (remove_group_projections (na_paths a) ?g))) (\<lambda>_.
      bindR (attempt (audit_config x ?g ''group_removed'')) (\<lambda>_. updated))))"
  have rest: "keeps (unprotects ?g ?c) ?rest"
    unfolding audit_config_def updated_def by (intro keeps_rules)
  have commit: "wp (seqR (commit_or_rollback x True r ?c) ?rest) (\<lambda>_. keeps_vault a root ?g old) (\<lambda>_. keeps_vault a root ?g old) (a, v)"
    if "parked root ?g old v" for v
    unfolding wp_seqR [of "commit_or_rollback _ _ _ _"]
    by (rule wp_commit_or_rollback_parked [where old = old])
      (use that apart in \<open>auto simp: root_def g(2) keeps_vault_def intro!: wp_unprotected [OF rest] removed_unprotected\<close>)
  have body: "wp (seqR (of_result (config_validate (ce_domain_str (px_config x)) ?c)) (seqR (commit_or_rollback x True r ?c) ?rest))
      (\<lambda>_. keeps_vault a root ?g old) (\<lambda>_. keeps_vault a root ?g old) s" if "fst s = a \<and> parked root ?g old (snd s)" for s
    using that by (cases s) (auto simp: wp_seqR [of "of_result _"] wp_of_result keeps_vault_def split: sum.split intro!: commit)
  note stage = wp_stage_invalidation [where t = "rt_transactions r" and c = True and a = a and old = old and w = w,
      unfolded g(2) root_def [symmetric] if_True, OF p]
  show ?thesis
    unfolding handle_group_remove_def Let_def wp_bindR [of the_app] wp_the_app
    by (simp only: fst_conv g(1) option.case wp_seqR [of "app_world (stage_invalidation _)"], rule wp_mono [OF stage], erule body)
      (auto simp: keeps_vault_def)
qed

lemma wp_audit_config_parked:
  assumes "vault_files_apart a root g" and "parked root g old w"
  shows "wp (seqR (audit_config x h d) updated) (\<lambda>_ s. parked root g old (snd s)) (\<lambda>_ s. parked root g old (snd s)) (a, w)"
proof -
  have "parked root g old (snd t)" if "audit_kept (na_audit a) w t" for t
    using assms that by (subst parked_cong [where w = w]) (auto simp: vault_files_apart_def audit_kept_def outside_def)
  then show ?thesis
    by (auto simp: wp_seqR audit_config_def updated_def wp_app_audit audit_record_def wp_bindR wp_the_app wp_ret
        intro!: wp_mono [OF wp_record_inner_kept])
qed

lemma wp_set_policy_vault:
  fixes r defines "root \<equiv> vt_vault_store (rt_transactions r)"
  assumes g: "map_of (na_groups a) (gp_account_group_id q) = Some r" "vt_group_id (rt_transactions r) = gp_account_group_id q"
    and ok: "distinct (map ag_id (cfg_groups (na_config a)))"
    and apart: "vault_files_apart a root (gp_account_group_id q)" and p: "parked root (gp_account_group_id q) old w"
  shows "wp (handle_group_set_policy x q) (\<lambda>_. keeps_vault a root (gp_account_group_id q) old)
     (\<lambda>_. keeps_vault a root (gp_account_group_id q) old) (a, w)"
proof -
  let ?g = "gp_account_group_id q" and ?level = "gp_policy_level q"
  let ?c = "(na_config a)\<lparr>cfg_groups := set_policy ?g ?level (cfg_groups (na_config a))\<rparr>"
  let ?e = "?level = policy_level.Monitor \<and> rt_policy r \<noteq> policy_level.Monitor"
  let ?K = "keeps_vault a root ?g old"
  let ?rest = "\<lambda>e. seqR (on_group ?g (seqR (update_runtime (\<lambda>r. r\<lparr>rt_policy := ?level\<rparr>)) (if e then enter_monitor x else ret ())))
     (seqR (audit_config x ?g ''policy_changed'') updated)"
  have gone: "keeps (unprotects ?g ?c) (?rest e)" for e
    unfolding audit_config_def updated_def by (intro keeps_rules)
  have stays: "wp (?rest False) (\<lambda>_. ?K) (\<lambda>_. ?K) (a\<lparr>na_config_digest := dg, na_config := ?c\<rparr>, v)" if "parked root ?g old v" for dg v
    using that apart g(1)
    by (auto simp: wp_seqR [of "on_group _ _"] wp_on_group wp_run_group wp_seqR [of "update_runtime _"] wp_update_runtime wp_ret
        keeps_vault_def vault_files_apart_def intro!: wp_mono [OF wp_audit_config_parked [where root = root and g = ?g and old = old]])
  have commit: "wp (seqR (commit_or_rollback x ?e r ?c) (?rest ?e)) (\<lambda>_. ?K) (\<lambda>_. ?K) (a, v)" if "parked root ?g old v" for v
    unfolding wp_seqR [of "commit_or_rollback _ _ _ _"]
  proof (rule wp_commit_or_rollback_parked [where old = old])
    fix dg w' assume held: "parked (vt_vault_store (rt_transactions r)) (vt_group_id (rt_transactions r)) old w'"
    show "wp (?rest ?e) (\<lambda>_. ?K) (\<lambda>_. ?K) (a\<lparr>na_config_digest := dg, na_config := ?c\<rparr>, w')"
    proof (cases ?e)
      case True
      then show ?thesis using monitored_unprotected [OF ok, of ?g "na_config a"] by (intro wp_unprotected [OF gone]) auto
    next
      case False
      then have e: "?e = False" by blast
      show ?thesis unfolding e using stays held by (simp add: g(2) root_def)
    qed
  qed (use that apart in \<open>auto simp: root_def g(2) keeps_vault_def\<close>)
  have body: "wp (if \<not> b then rejected why else seqR (of_result (config_validate (ce_domain_str (px_config x)) ?c))
       (seqR (commit_or_rollback x ?e r ?c) (?rest ?e))) (\<lambda>_. ?K) (\<lambda>_. ?K) s"
    if "fst s = a \<and> parked root ?g old (snd s)" for b why s
  proof (intro wp_ifI wp_guarded)
    show "wp (rejected why) (\<lambda>_. ?K) (\<lambda>_. ?K) s" and "?K s"
      using that by (simp_all add: rejected_def wp_ret keeps_vault_def)
    show "wp (seqR (commit_or_rollback x ?e r ?c) (?rest ?e)) (\<lambda>_. ?K) (\<lambda>_. ?K) s"
      using commit [of "snd s"] that by (metis prod.collapse)
  qed
  have rej: "wp (rejected why) (\<lambda>_. ?K) (\<lambda>_. ?K) (a, w)" for why
    using p by (simp add: rejected_def wp_ret keeps_vault_def)
  note stage = wp_stage_invalidation [where t = "rt_transactions r" and c = ?e and a = a and old = old and w = w,
      unfolded g(2) root_def [symmetric], OF p]
  show ?thesis
    unfolding handle_group_set_policy_def Let_def wp_bindR [of the_app] wp_the_app
    by (simp only: fst_conv g(1) option.case)
      (intro wp_ifI rej, simp only: wp_seqR [of "if _ then app_world _ else _"],
       rule wp_mono [OF stage], erule body, simp add: keeps_vault_def)
qed

fun config_target :: "message \<Rightarrow> uuid option" where
  "config_target (GroupRemove q) = Some (gr_account_group_id q)"
| "config_target (GroupSetPolicy q) = Some (gp_account_group_id q)"
| "config_target _ = None"

text \<open>
  C7. A configuration change never costs a protected group its vault. Take a group whose files are
  neither the configuration file nor part of the audit log and that has no staged copy yet, in an
  application that satisfies its invariant. Whatever fails while the group is removed or its policy is
  changed, metadata queries included, as long as the configuration in force in memory afterwards still
  protects the group, the only encrypted copy of its session is in place or staged for deletion, byte
  for byte, and never both. The recovery of the next start under that configuration keeps it so,
  whatever fails, and if it succeeds and the metadata queries answer (the code takes a failed one for
  an absent file) the vault is in place. For the recovery, no directory stands at a vault path and
  every file whose name reads as a staged vault has the name the host gives to it.
\<close>

theorem vault_survives_config_change:
  assumes m: "config_target m = Some g" and ok: "app_ok x a" and r: "map_of (na_groups a) g = Some r"
    and t: "rt_transactions r = t" "vt_group_id t = g" and apart: "vault_files_apart a (vt_vault_store t) g"
    and "lookup w (staged_delete_path_for (vt_vault_store t) g) = None"
    and run: "route x m (a, w) = (res, (a', w'))" and kept: "g \<in> set (vault_groups_of (na_config a'))"
  shows "parked (vt_vault_store t) g (lookup w (path_for (vt_vault_store t) g)) w' \<and>
    (\<forall>bytes res'' w''. lookup w (path_for (vt_vault_store t) g) = Some bytes \<longrightarrow> store_leaves (vt_vault_store t) w' \<longrightarrow>
       own_names parse_str (vt_vault_store t) (map fst (files w')) \<longrightarrow>
       recover_staged_deletions parse_str (vt_vault_store t) (vault_groups_of (na_config a')) w' = (res'', w'') \<longrightarrow>
       parked (vt_vault_store t) g (Some bytes) w'' \<and>
       (res'' = Inr () \<longrightarrow> (\<forall>n. \<not> stat_fault w' n) \<longrightarrow> lookup w'' (path_for (vt_vault_store t) g) = Some bytes))"
proof -
  let ?old = "lookup w (path_for (vt_vault_store t) g)"
  let ?K = "keeps_vault a (vt_vault_store t) g ?old"
  have p: "parked (vt_vault_store t) g ?old w" using assms(7) by (simp add: parked_def)
  have d: "distinct (map ag_id (cfg_groups (na_config a)))" using ok by (simp add: app_ok_def config_ok_def)
  have "wp (route x m) (\<lambda>_. ?K) (\<lambda>_. ?K) (a, w)"
    using m wp_group_remove_vault [of a _ r ?old w x] wp_set_policy_vault [of a _ r ?old w x] r t apart p d
    by (cases m) (auto simp: route_def)
  then have "?K (a', w')" using run by (auto simp: wp_def split: sum.splits)
  then have "parked (vt_vault_store t) g ?old w'" using kept by (simp add: keeps_vault_def)
  then show ?thesis using kept by (auto simp: store_ready_def intro: parked_recovered parked_kept)
qed

text \<open>Group 5 is to be removed, but the configuration cannot be serialised.\<close>

definition exr_config :: account_groups_config where
  "exr_config = \<lparr>cfg_version = 3, cfg_compatibility_version = 3, cfg_groups = [ex_group 5 ''.alpha.org'']\<rparr>"

definition exr_x :: app_ext where
  "exr_x = exo_x\<lparr>px_config_pretty := (\<lambda>_. None)\<rparr>"

definition exr_r :: group_runtime where
  "exr_r = exs_r\<lparr>rt_pending := None, rt_policy := Balanced\<rparr>"

definition exr_a :: native_host_app where
  "exr_a = \<lparr>na_groups = [(5, exr_r)], na_audit = exa_l, na_paths = from_root [Name ''p''], na_config = exr_config,
     na_config_digest = [], na_handshake_complete = False, na_last_message_group = None, na_hello_authorizer = None,
     na_monitor = monitor_new, na_negotiated_protocol = LEGACY_PROTOCOL_VERSION, na_connection_profile_id = None\<rparr>"

definition exr_w :: world where
  "exr_w = put_file (path_for [Name ''v''] 5) [1] quiet_world"

definition exr_run :: "(fcp_error + message list) \<times> native_host_app \<times> world" where
  "exr_run = route exr_x (GroupRemove \<lparr>gr_account_group_id = 5\<rparr>) (exr_a, exr_w)"

lemma exr_ok: "app_ok exr_x exr_a"
proof -
  have "config_ok Some exr_config"
    by (simp add: config_ok_def exr_config_def ex_group_def group_ok_def ex_trim is_nil_def
      normalize_scope_def trim_start_dots_def to_ascii_lowercase_def ascii_lower_char_def char_of_def
      is_valid_scope_def MAX_SCOPE_LEN_def MAX_GROUPS_def contains_def ends_with_def suffix_Cons
      sublist_Cons_right is_ascii_alphanumeric_def is_ascii_digit_def is_ascii_lowercase_def)
  then show ?thesis
    by (simp add: app_ok_def group_good_def serves_def exr_a_def exr_r_def exs_r_def exr_x_def exo_x_def buffer_ok_def
        exr_config_def ex_group_def)
qed

lemmas exr_run_defs = route_def handle_group_remove_def exr_a_def exr_x_def exo_x_def exr_config_def exr_r_def exs_r_def
  ext_t_def exr_w_def quiet_world_def ex_group_def config_validate_def MAX_GROUPS_def commit_or_rollback_def commit_config_def
  the_app_def app_world_def to_bytes_def

lemma exr_runs: "fst exr_run = Inl Json" "na_config (fst (snd exr_run)) = exr_config"
  by (simp_all add: exr_run_def exr_run_defs run_simps)

lemma exr_restarts: "fst (recover_staged_deletions (\<lambda>_. None) [Name ''v''] [5] (snd (snd exr_run))) = Inr ()"
  by (simp add: exr_run_def exr_run_defs run_simps)

lemma exr_ready:
  "store_ready [Name ''v''] (snd (snd exr_run))" "own_names (\<lambda>_. None) [Name ''v''] (map fst (files (snd (snd exr_run))))"
  by (simp_all add: store_ready_def store_leaves_def leaf_def own_names_def in_root_not_below exr_run_def exr_run_defs run_simps)

theorem vault_survives_config_change_witness:
  "fst exr_run = Inl Json \<and> parked [Name ''v''] 5 (Some [1]) (snd (snd exr_run)) \<and>
     (\<exists>w''. recover_staged_deletions (\<lambda>_. None) [Name ''v''] [5] (snd (snd exr_run)) = (Inr (), w'') \<and>
        lookup w'' (path_for [Name ''v''] 5) = Some [1])"
proof -
  have run: "route exr_x (GroupRemove \<lparr>gr_account_group_id = 5\<rparr>) (exr_a, exr_w) =
      (fst exr_run, (fst (snd exr_run), snd (snd exr_run)))"
    by (simp add: exr_run_def)
  have g: "map_of (na_groups exr_a) 5 = Some exr_r" "rt_transactions exr_r = ext_t" "vt_group_id ext_t = 5"
    by (simp_all add: exr_a_def exr_r_def exs_r_def ext_t_def)
  have apart: "vault_files_apart exr_a (vt_vault_store ext_t) 5"
    by (simp add: vault_files_apart_def exr_a_def ext_t_def from_root_def path_for_def staged_delete_path_for_def write_scratch_def
        temporary_path_def file_name_def with_file_name_def strict_prefix_def exa_l_def exa_d_def)
  have old: "lookup exr_w (staged_delete_path_for (vt_vault_store ext_t) 5) = None"
      "lookup exr_w (path_for (vt_vault_store ext_t) 5) = Some [1]"
    by (simp_all add: exr_w_def ext_t_def quiet_world_def lookup_def put_file_def path_for_def staged_delete_path_for_def)
  have kept: "5 \<in> set (vault_groups_of (na_config (fst (snd exr_run))))"
    by (simp add: exr_runs(2) vault_groups_of_def exr_config_def ex_group_def)
  have protected: "vault_groups_of (na_config (fst (snd exr_run))) = [5]"
    by (simp add: exr_runs(2) vault_groups_of_def exr_config_def ex_group_def)
  obtain w'' where again: "recover_staged_deletions (\<lambda>_. None) [Name ''v''] [5] (snd (snd exr_run)) = (Inr (), w'')"
    using exr_restarts by (metis prod.collapse)
  from vault_survives_config_change [OF _ exr_ok g apart old(1) run kept, of "\<lambda>_. None"] old(2) exr_ready again exr_runs(1)
  show ?thesis by (auto simp: ext_t_def protected store_ready_def)
qed

end
