(* ===== verification/Removal_Check.thy ===== *)
theory Removal_Check
  imports Group_Invariant
begin

text \<open>
  The end of an operation: the check before the browser removes cookies, the bound on what a group
  collects in memory, and what the host reports about an enrolment whose cookies do not match.
\<close>

subsection \<open>Memory\<close>

text \<open>
  C25. What a group holds in memory is bounded and its identity is fixed: over any sequence of
  messages from the extension, whatever fails, the snapshot being collected has at most 32 MiB of
  JSON and 100000 cookies, and the identifier, the policy, the lease file, the vault file, the bound
  profile and the protocol floor of the group are unchanged.
\<close>

theorem group_memory_bounded:
  assumes "rt_pending r = None \<or> rt_pending r = Some p0 \<and> pending_fits p0"
    and "run_steps (group_handle x h n) ms (r, s) = (r', s')"
  shows "fixed_parts r' = fixed_parts r \<and>
    (\<forall>p. rt_pending r' = Some p \<longrightarrow> po_snapshot_bytes p \<le> 33554432 \<and> length (po_snapshot_cookies p) \<le> 100000)"
proof -
  have "group_kept r (r, s)" using assms(1) by (auto simp: group_kept_def buffer_ok_def pending_fits_def)
  from gm.all_steps [OF this, of x h n ms] assms(2) show ?thesis
    by (auto simp: group_kept_def buffer_ok_def MAX_SNAPSHOT_BYTES_def MAX_SNAPSHOT_COOKIES_def)
qed

subsection \<open>The check before removal\<close>

text \<open>What the tag of an operation's snapshot is bound to.\<close>

definition snapshot_context :: "uuid \<Rightarrow> operation_coordinator \<Rightarrow> journal_operation \<Rightarrow> snapshot_tag_context" where
  "snapshot_context profile c op = \<lparr>stc_profile_id = profile, stc_account_group_id = oj_account_group_id (js_journal (oc_journal c)),
     stc_operation_id = jo_operation_id op, stc_operation_sequence = jo_sequence op,
     stc_base_vault_sequence = jo_base_vault_sequence op\<rparr>"

lemma wp_removal_chunk:
  assumes "rt_pending r = Some p"
  shows "wp (handle_removal_snapshot_chunk x sn)
     (\<lambda>ms _. \<forall>e. EvictRemoveAuthorized e \<in> set ms \<longrightarrow> (\<exists>canonical.
        hx_cookies_json x (po_snapshot_cookies (snd (append_v7_chunk x p sn))) = Some canonical \<and>
        verify_snapshot (je_sha256 (hx_journal x)) (rt_operation_coordinator r) (s7_operation_id sn)
          (s7_operation_sequence sn) (s7_attempt_id sn) canonical = Inr True)) (\<lambda>_ _. True) (r, s)"
  using assms
  by (cases "append_v7_chunk x p sn")
    (auto simp: handle_removal_snapshot_chunk_def wp_bindR wp_the_runtime wp_ok_or wp_seqR wp_set_pending wp_if wp_ret wp_fail
      wp_of_result to_bytes_def completed_message_def split: option.split sum.split
      intro!: wp_mono [OF wp_top])

text \<open>
  C8. The browser may remove only what is in the vault: when the host authorises a removal, the
  cookies the browser has just listed, over all chunks, serialise to exactly the bytes of the
  snapshot whose tag the journal recorded when the vault was written. The hypothesis is that
  SHA-256 has no collision among the strings hashed for the two tags.
\<close>

theorem removal_only_of_saved_cookies:
  assumes "rt_pending r = Some p" and "handle_removal_snapshot_chunk x sn (r, s) = (Inr ms, t)"
    and "EvictRemoveAuthorized e \<in> set ms"
    and "c = rt_operation_coordinator r" and "coord_operation (s7_operation_id sn) c = Some op" and "jo_snapshot op = Some b"
    and "oc_profile_id c = Some profile" and "ctx = snapshot_context profile c op" and "sha = je_sha256 (hx_journal x)"
    and saved: "sb_snapshot_tag b = tag sha (oc_tagger c) ctx saved"
    and free: "\<And>listed. hx_cookies_json x (po_snapshot_cookies (snd (append_v7_chunk x p sn))) = Some listed \<Longrightarrow>
      inj_on sha (hmac_inputs sha (oc_tagger c) (tag_input ctx listed) \<union> hmac_inputs sha (oc_tagger c) (tag_input ctx saved))"
  shows "hx_cookies_json x (po_snapshot_cookies (snd (append_v7_chunk x p sn))) = Some saved"
proof -
  from wp_okD [OF assms(2) wp_removal_chunk [OF assms(1)]] assms(3) obtain listed where
    l: "hx_cookies_json x (po_snapshot_cookies (snd (append_v7_chunk x p sn))) = Some listed"
      "verify_snapshot sha c (s7_operation_id sn) (s7_operation_sequence sn) (s7_attempt_id sn) listed = Inr True"
    using assms(4,9) by blast
  have id: "jo_operation_id op = s7_operation_id sn"
    using assms(5) by (auto simp: coord_operation_def find_operation_def find_Some_iff)
  have "tag sha (oc_tagger c) ctx listed = tag sha (oc_tagger c) ctx saved"
    using l(2) assms(5,6,7,8) saved id by (auto simp: verify_snapshot_def snapshot_context_def split: if_splits)
  with tag_collision_free [OF free [OF l(1)]] show ?thesis using l(1) by blast
qed

subsection \<open>Enrolments that do not match\<close>

lemma wp_save_lease_state:
  "wp (save_lease x) (\<lambda>_ t. lm_state (rt_lease (fst t)) = lm_state (rt_lease (fst s)) \<and>
     rt_operation_coordinator (fst t) = rt_operation_coordinator (fst s)) (\<lambda>_ _. True) s"
  by (auto simp: save_lease_def advance_lease_def persist_lease_def wp_bindR wp_seqR wp_the_runtime wp_of_result wp_update_lease
      wp_in_world advance_transition_def split: sum.split option.split if_split intro!: wp_mono [OF wp_top])

text \<open>The operation is recorded as one that needs reconciliation.\<close>

abbreviation needs_reconciliation :: "uuid \<Rightarrow> group_runtime \<Rightarrow> bool" where
  "needs_reconciliation i r \<equiv> \<exists>op. coord_operation i (rt_operation_coordinator r) = Some op \<and> jo_phase op = ReconciliationRequired"

lemma wp_require_reconciliation:
  "wp (require_reconciliation x i) (\<lambda>_ t. \<exists>op. coord_operation i (fst t) = Some op \<and> jo_phase op = ReconciliationRequired)
     (\<lambda>_ _. True) (c, w)"
  unfolding require_reconciliation_def wp_on_journal prod.case
  by (rule wp_transition_op) (auto simp: coord_operation_def)

lemma wp_enrollment_mismatch:
  assumes "rt_pending r = Some p" and "po_kind p = PendingEnrollment" and "po_snapshot_cookie_count p \<noteq> Some (e7_remaining_cookie_count q)"
    and "e7_success q" and "e7_remaining_cookie_count q > 0"
  shows "wp (handle_evict_result_v7 x q) (\<lambda>ms t. lm_state (rt_lease (fst t)) = Degraded \<and> needs_reconciliation (e7_operation_id q) (fst t) \<and>
     ms = [completed_message (rt_id r) (e7_operation_id q) (e7_operation_sequence q) (e7_lease_id q) True]) (\<lambda>_ _. True) (r, s)"
proof -
  have tail: "wp (seqR (save_lease x) (seqR (record_operation_audit x i ev oc d) (ret v)))
      (\<lambda>_ t. lm_state (rt_lease (fst t)) = Degraded \<and> needs_reconciliation k (fst t)) (\<lambda>_ _. True) u"
    if "lm_state (rt_lease (fst u)) = Degraded" "needs_reconciliation k (fst u)" for u i ev oc d k and v :: 'b
    unfolding wp_seqR
    by (rule wp_mono [OF wp_save_lease_state])
      (use that in \<open>auto simp: record_operation_audit_def wp_bindR wp_the_runtime wp_in_audit wp_ret intro!: wp_mono [OF wp_top]\<close>)
  show ?thesis using assms
    by (auto simp: handle_evict_result_v7_def handle_evict_result_def enrollment_retained_def Let_def wp_bindR wp_the_runtime wp_ok_or
        wp_reject wp_seqR [of "reject _ _"] wp_seqR [of "set_pending _"] wp_seqR [of "on_coordinator _"] wp_seqR [of "update_lease _"]
        wp_set_pending wp_on_coordinator wp_update_lease wp_ret
        intro!: wp_mono [OF wp_require_reconciliation] wp_mono [OF tail])
qed

text \<open>
  C40. An enrolment whose cookies do not match is reported as a success: if an enrolment is pending and
  the extension reports success with a positive number of cookies different from the number in the
  snapshot, then whenever protocol 7 answers, it answers that the operation completed successfully,
  while the host has marked the group degraded and the operation in the journal as needing
  reconciliation.
\<close>

theorem enrollment_mismatch_reported_as_success:
  assumes "rt_pending r = Some p" and "po_kind p = PendingEnrollment" and "po_snapshot_cookie_count p \<noteq> Some (e7_remaining_cookie_count q)"
    and "e7_success q" and "e7_remaining_cookie_count q > 0"
    and "handle_evict_result_v7 x q (r, s) = (Inr ms, (r', s'))"
  shows "lm_state (rt_lease r') = Degraded \<and>
    (\<exists>op. coord_operation (e7_operation_id q) (rt_operation_coordinator r') = Some op \<and> jo_phase op = ReconciliationRequired) \<and>
    (\<exists>m. ms = [OperationCompleted m] \<and> oc_success m \<and> oc_operation_id m = e7_operation_id q)"
  using wp_okD [OF assms(6) wp_enrollment_mismatch [OF assms(1-5)]] by (simp add: completed_message_def)

text \<open>
  A version 7 chunk whose digest is recorded is answered with nothing. The digest is recorded
  before the chunk is processed, so resending a chunk whose processing failed has no effect.
\<close>

theorem repeated_chunk_ignored:
  assumes "rt_pending r = Some p" and "v7_bound r p sn" and "hx_cookies_json x (s7_cookies sn) = Some bs"
    and "po_snapshot_chunk_digests p (s7_chunk_index sn) = Some (hx_sha256 x bs)"
  shows "handle_snapshot_chunk_v7 x sn (r, s) = (Inr [], (r, s))"
  using assms by (simp add: handle_snapshot_chunk_v7_def the_runtime_def to_bytes_def Let_def run_simps)

subsection \<open>Witnesses\<close>

definition exm_chunk :: cookies_snapshot_chunk where
  "exm_chunk = exs_chunk\<lparr>sn_chunk_count := 2, sn_cookie_count := 2\<rparr>"

definition exm_run :: group_state_t where
  "exm_run = run_steps (group_handle exs_x [] 6) [CookiesSnapshotChunk exm_chunk] (exs_r, None, exa_l, quiet_world)"

lemma exm_collects: "map_option po_snapshot_cookies (rt_pending (fst exm_run)) = Some [ext_cookie]"
  by (simp add: exm_run_def exm_chunk_def group_handle_def PROTOCOL_VERSION_def Let_def exs_defs run_simps)

theorem group_memory_bounded_witness:
  "\<exists>p. rt_pending (fst exm_run) = Some p \<and> po_snapshot_cookies p = [ext_cookie] \<and> po_snapshot_bytes p \<le> 33554432
     \<and> fixed_parts (fst exm_run) = fixed_parts exs_r"
proof -
  obtain p where p: "rt_pending (fst exm_run) = Some p" "po_snapshot_cookies p = [ext_cookie]"
    using exm_collects by auto
  have "rt_pending exs_r = None \<or> rt_pending exs_r = Some exs_pending \<and> pending_fits exs_pending"
    by (simp add: exs_r_def exs_pending_def)
  from group_memory_bounded [OF this, of exs_x "[]" 6 "[CookiesSnapshotChunk exm_chunk]" "(None, exa_l, quiet_world)"
      "fst exm_run" "snd exm_run"] p
  show ?thesis by (simp add: exm_run_def)
qed

definition exd_saved :: "byte list" where "exd_saved = [1, 2]"

definition exd_op :: journal_operation where
  "exd_op = exj_op\<lparr>jo_operation_id := 9, jo_attempt_id := Some 7, jo_sequence := 1\<rparr>"

definition exd_journal :: "journal_operation \<Rightarrow> operation_coordinator" where
  "exd_journal op = \<lparr>oc_journal = exj_s0\<lparr>js_journal := (journal_empty 5)\<lparr>oj_operations := [op]\<rparr>\<rparr>, oc_tagger = [], oc_profile_id = Some 4\<rparr>"

definition exd_ctx :: snapshot_tag_context where
  "exd_ctx = snapshot_context 4 (exd_journal exd_op) exd_op"

definition exd_b :: snapshot_binding where
  "exd_b = \<lparr>sb_snapshot_tag = tag (\<lambda>bs. bs) [] exd_ctx exd_saved, sb_previous_vault_digest = None, sb_target_vault_digest = [],
     sb_target_vault_sequence = 1, sb_cookie_count = 1, sb_aggregate_bytes = 2\<rparr>"

definition exd_x :: host_ext where
  "exd_x = exs_x\<lparr>hx_journal := exc_ext\<lparr>je_sha256 := (\<lambda>bs. bs)\<rparr>, hx_cookies_json := (\<lambda>_. Some exd_saved)\<rparr>"

definition exd_r :: group_runtime where
  "exd_r = exs_r\<lparr>rt_operation_coordinator := exd_journal (exd_op\<lparr>jo_snapshot := Some exd_b\<rparr>),
     rt_pending := Some (exs_pending\<lparr>po_confirmed := True, po_attempt_id := Some 7\<rparr>)\<rparr>"

definition exd_chunk :: cookies_snapshot_chunk_v7 where
  "exd_chunk = \<lparr>s7_account_group_id = 5, s7_operation_id = 9, s7_operation_sequence = 1, s7_lease_id = None, s7_attempt_id = 7,
     s7_purpose = ''removal_precheck'', s7_chunk_index = 0, s7_chunk_count = 1, s7_cookie_count = 1, s7_cookies = [ext_cookie]\<rparr>"

lemmas exd_defs = exd_op_def exd_journal_def exd_x_def exd_r_def exd_chunk_def exd_b_def

lemma exd_authorises:
  "\<exists>e. fst (handle_removal_snapshot_chunk exd_x exd_chunk (exd_r, None, exa_l, quiet_world)) = Inr [EvictRemoveAuthorized e]"
  by (simp add: handle_removal_snapshot_chunk_def exd_defs exd_saved_def append_v7_chunk_def verify_snapshot_def exs_r_def exs_x_def exs_pending_def
      new_pending_def to_bytes_def checked_add_usize_def MAX_SNAPSHOT_BYTES_def MAX_SNAPSHOT_COOKIES_def the_runtime_def set_pending_def
      update_runtime_def coord_operation_def find_operation_def exd_ctx_def snapshot_context_def exj_s0_def journal_empty_def Let_def
      bindR_def seqR_def gets_def modify_def ok_or_def of_result_def ret_def fail_def)

theorem removal_only_of_saved_cookies_witness:
  "(\<exists>e t. handle_removal_snapshot_chunk exd_x exd_chunk (exd_r, None, exa_l, quiet_world) = (Inr [EvictRemoveAuthorized e], t))
   \<and> hx_cookies_json exd_x (po_snapshot_cookies (snd (append_v7_chunk exd_x (the (rt_pending exd_r)) exd_chunk))) = Some exd_saved"
proof -
  obtain e t where run: "handle_removal_snapshot_chunk exd_x exd_chunk (exd_r, None, exa_l, quiet_world) = (Inr [EvictRemoveAuthorized e], t)"
    using exd_authorises by (metis prod.collapse)
  let ?c = "rt_operation_coordinator exd_r" and ?op = "exd_op\<lparr>jo_snapshot := Some exd_b\<rparr>"
  have c: "coord_operation (s7_operation_id exd_chunk) ?c = Some ?op" "oc_profile_id ?c = Some 4" "oc_tagger ?c = []"
      "snapshot_context 4 ?c ?op = exd_ctx"
    by (simp_all add: exd_defs coord_operation_def find_operation_def exj_s0_def exd_ctx_def snapshot_context_def journal_empty_def)
  have "rt_pending exd_r = Some (the (rt_pending exd_r))" by (simp add: exd_r_def)
  from removal_only_of_saved_cookies [OF this run _ refl c(1) _ c(2) refl refl, of e exd_b exd_saved]
  have "hx_cookies_json exd_x (po_snapshot_cookies (snd (append_v7_chunk exd_x (the (rt_pending exd_r)) exd_chunk))) = Some exd_saved"
    by (simp add: c exd_b_def exd_x_def)
  with run show ?thesis by blast
qed

text \<open>Two cookies are kept where the snapshot had one.\<close>

definition exe_lease :: lease_metadata where
  "exe_lease = exs_lease\<lparr>lm_state := Degraded, lm_pending_operation_id := None, lm_transition_sequence := 1\<rparr>"

definition exe_x :: host_ext where
  "exe_x = exs_x\<lparr>hx_journal := exc_ext\<lparr>je_journal_json := table_codec [exc_journal ReconciliationRequired]\<rparr>,
     hx_lease_json := table_codec [exe_lease]\<rparr>"

definition exe_r :: group_runtime where
  "exe_r = exs_r\<lparr>rt_lease := exs_lease, rt_operation_coordinator := exc_c\<lparr>oc_journal := exj_s0\<lparr>js_journal := exc_journal BrowserRemovalPending\<rparr>\<rparr>,
     rt_pending := Some (exs_pending\<lparr>po_kind := PendingEnrollment, po_confirmed := True, po_attempt_id := Some 7,
       po_snapshot_cookie_count := Some 1\<rparr>)\<rparr>"

definition exe_q :: evict_result_v7 where
  "exe_q = \<lparr>e7_account_group_id = 5, e7_operation_id = 9, e7_operation_sequence = 1, e7_lease_id = None, e7_attempt_id = 7,
     e7_success = True, e7_remaining_cookie_count = 2\<rparr>"

lemma exe_runs: "\<exists>ms. fst (handle_evict_result_v7 exe_x exe_q (exe_r, None, exa_l, quiet_world)) = Inr ms"
  by (simp add: handle_evict_result_v7_def handle_evict_result_def enrollment_retained_def exe_q_def exe_r_def exe_x_def exe_lease_def
      require_reconciliation_def save_lease_def advance_lease_def advance_transition_def exs_defs run_simps exc_defs)

theorem enrollment_mismatch_reported_as_success_witness:
  "\<exists>m r' s'. handle_evict_result_v7 exe_x exe_q (exe_r, None, exa_l, quiet_world) = (Inr [OperationCompleted m], (r', s')) \<and>
     oc_success m \<and> lm_state (rt_lease r') = Degraded"
proof -
  obtain ms r' s' where run: "handle_evict_result_v7 exe_x exe_q (exe_r, None, exa_l, quiet_world) = (Inr ms, (r', s'))"
    using exe_runs by (metis prod.collapse)
  let ?p = "exs_pending\<lparr>po_kind := PendingEnrollment, po_confirmed := True, po_attempt_id := Some 7, po_snapshot_cookie_count := Some 1\<rparr>"
  have "rt_pending exe_r = Some ?p" by (simp add: exe_r_def)
  from enrollment_mismatch_reported_as_success [OF this _ _ _ _ run]
  obtain m where "ms = [OperationCompleted m]" "oc_success m" "lm_state (rt_lease r') = Degraded"
    by (auto simp: exe_q_def)
  with run show ?thesis by blast
qed

end
