(* ===== verification/Tpm_Session.thy ===== *)
theory Tpm_Session
  imports Invariance World "HOL-Library.Sublist"
begin

text \<open>
  The TPM session the Linux backends share (\<open>crypto/authorizer/linux.rs\<close>,
  \<open>crypto/platform_kek/linux.rs\<close>, \<open>local_secret/linux.rs\<close>): selecting the device, recreating the parent key, loading a
  stored key under it, and flushing every handle on the way out. The commands of \<open>tss_esapi\<close> and
  the device are parameters. A log beside the world records the handles that were opened and those
  for which a flush was requested, and the programs that were started; the code does not read it.
\<close>

subsection \<open>Keys\<close>

record object_attributes =
  oa_fixed_tpm :: bool
  oa_fixed_parent :: bool
  oa_sensitive_data_origin :: bool
  oa_user_with_auth :: bool
  oa_restricted :: bool
  oa_decrypt :: bool
  oa_sign_encrypt :: bool
  oa_no_da :: bool

datatype public_algorithm = AlgEcc | AlgRsa | AlgKeyedHash

datatype key_scheme = SchemeNull | SchemeEcDsaSha256 | SchemeOaepSha256

text \<open>What the builders are given. The curve is NIST P-256 and the modulus has 2048 bits.\<close>

record key_template =
  kt_algorithm :: public_algorithm
  kt_attributes :: object_attributes
  kt_scheme :: key_scheme
  kt_is_signing_key :: bool
  kt_is_decryption_key :: bool
  kt_restricted :: bool
  kt_symmetric_aes_128_cfb :: bool

text \<open>A public area: what it was built from, and for an elliptic curve key its point.\<close>

record tpm_public =
  tp_template :: key_template
  tp_x :: "byte list"
  tp_y :: "byte list"

definition parent_template :: key_template where
  "parent_template = \<lparr>kt_algorithm = AlgEcc,
     kt_attributes = \<lparr>oa_fixed_tpm = True, oa_fixed_parent = True, oa_sensitive_data_origin = True,
       oa_user_with_auth = True, oa_restricted = True, oa_decrypt = True, oa_sign_encrypt = False, oa_no_da = True\<rparr>,
     kt_scheme = SchemeNull, kt_is_signing_key = False, kt_is_decryption_key = True, kt_restricted = True,
     kt_symmetric_aes_128_cfb = True\<rparr>"

type_synonym handle = nat

record tpm_ext =
  te_env_tcti :: "string option"
  te_simulator_feature :: bool
  te_parse_tcti :: "string \<Rightarrow> bool"
  te_context :: "string \<Rightarrow> (world, unit) host"
  te_build :: "key_template \<Rightarrow> tpm_public fcp_result"
  te_create_primary :: "tpm_public \<Rightarrow> (world, handle) host"
  te_create :: "handle \<Rightarrow> tpm_public \<Rightarrow> byte list option \<Rightarrow> (world, byte list \<times> tpm_public) host"
  te_load :: "handle \<Rightarrow> byte list \<Rightarrow> tpm_public \<Rightarrow> (world, handle) host"
  te_flush :: "handle \<Rightarrow> (world, unit) host"
  te_private :: "byte list \<Rightarrow> bool"
  te_marshall :: "tpm_public \<Rightarrow> byte list fcp_result"
  te_unmarshall :: "byte list \<Rightarrow> tpm_public option"

subsection \<open>The session\<close>

text \<open>
  A program with its arguments, as \<open>std::process::Command\<close> starts it, and what it leaves: whether
  it succeeded and its standard output, or \<open>None\<close> when it could not be started.
\<close>

type_synonym command = "string \<times> string list"
type_synonym command_output = "(bool \<times> byte list) option"

record session_log =
  sl_opened :: "handle list"
  sl_flushed :: "handle list"
  sl_commands :: "(command \<times> command_output) list"

type_synonym 'a tpm_m = "(session_log \<times> world, 'a) host"

definition empty_log :: session_log where
  "empty_log = \<lparr>sl_opened = [], sl_flushed = [], sl_commands = []\<rparr>"

definition log_opened :: "handle \<Rightarrow> unit tpm_m" where
  "log_opened h = modify (\<lambda>(l, w). (l\<lparr>sl_opened := h # sl_opened l\<rparr>, w))"

definition log_flushed :: "handle \<Rightarrow> unit tpm_m" where
  "log_flushed h = modify (\<lambda>(l, w). (l\<lparr>sl_flushed := h # sl_flushed l\<rparr>, w))"

text \<open>Running a backend operation as its callers see it: the log starts empty and is dropped.\<close>

definition run_logged :: "'a tpm_m \<Rightarrow> (world, 'a) host" where
  "run_logged m = (\<lambda>w. case m (empty_log, w) of (r, (_, w')) \<Rightarrow> (r, w'))"

definition default_tcti :: string where
  "default_tcti = ''device:/dev/tpmrm0''"

definition open_context :: "tpm_ext \<Rightarrow> unit tpm_m" where
  "open_context x =
     (let tcti = (case te_env_tcti x of None \<Rightarrow> default_tcti | Some t \<Rightarrow> t) in
      seqR (reject (\<not> te_simulator_feature x \<and> \<not> prefix ''device:'' tcti)
              (Crypto ''refusing a non-hardware TPM: this build requires a TPM character device''))
     (seqR (reject (\<not> te_parse_tcti x tcti) (Crypto ''TPM TCTI configuration is not valid''))
           (on_snd (te_context x tcti))))"

definition create_parent :: "tpm_ext \<Rightarrow> handle tpm_m" where
  "create_parent x =
     bindR (of_result (te_build x parent_template)) (\<lambda>public.
     bindR (on_snd (te_create_primary x public)) (\<lambda>h. seqR (log_opened h) (ret h)))"

text \<open>\<open>let _ = context.flush_context(..)\<close>: the outcome of the flush is dropped.\<close>

definition flush_context :: "tpm_ext \<Rightarrow> handle \<Rightarrow> unit tpm_m" where
  "flush_context x h = seqR (log_flushed h) (catchR (on_snd (te_flush x h)) (\<lambda>_. ret ()))"

text \<open>The closure runs, the handle is flushed, and only then its result is looked at.\<close>

definition then_flush :: "tpm_ext \<Rightarrow> handle \<Rightarrow> 'a tpm_m \<Rightarrow> 'a tpm_m" where
  "then_flush x h body = bindR (attempt body) (\<lambda>r. seqR (flush_context x h) (of_result r))"

definition with_parent :: "tpm_ext \<Rightarrow> (handle \<Rightarrow> 'a tpm_m) \<Rightarrow> 'a tpm_m" where
  "with_parent x body = seqR (open_context x) (bindR (create_parent x) (\<lambda>parent. then_flush x parent (body parent)))"

text \<open>The second half of both \<open>with_key\<close> functions; they differ in the error of a failed load.\<close>

definition with_loaded ::
    "tpm_ext \<Rightarrow> (fcp_error \<Rightarrow> fcp_error) \<Rightarrow> byte list \<Rightarrow> tpm_public \<Rightarrow> (handle \<Rightarrow> 'a tpm_m) \<Rightarrow> 'a tpm_m" where
  "with_loaded x load_error private public operation = with_parent x (\<lambda>parent.
     bindR (map_err load_error (on_snd (te_load x parent private public))) (\<lambda>key.
     seqR (log_opened key) (then_flush x key (operation key))))"

subsection \<open>No handle is leaked\<close>

text \<open>How often a handle was opened and no flush was requested for it.\<close>

definition debt :: "session_log \<Rightarrow> handle \<Rightarrow> int" where
  "debt l h = int (count_list (sl_opened l) h) - int (count_list (sl_flushed l) h)"

definition balanced :: "(session_log \<times> world, 'e, 'a) rm \<Rightarrow> bool" where
  "balanced m \<longleftrightarrow> (\<forall>d. keeps (\<lambda>(l, _). debt l = d) m)"

named_theorems balanced_rules \<open>programs that flush every handle they open\<close>

lemma balanced_bindR [balanced_rules]: "balanced m \<Longrightarrow> (\<And>v. balanced (f v)) \<Longrightarrow> balanced (bindR m f)"
  by (simp add: balanced_def keeps_bindR)

lemma balanced_seqR [balanced_rules]: "balanced m \<Longrightarrow> balanced n \<Longrightarrow> balanced (seqR m n)"
  by (simp add: balanced_def keeps_seqR)

lemma balanced_map_err [balanced_rules]: "balanced m \<Longrightarrow> balanced (map_err f m)"
  by (simp add: balanced_def keeps_map_err)

lemma balanced_catchR [balanced_rules]: "balanced m \<Longrightarrow> (\<And>e. balanced (h e)) \<Longrightarrow> balanced (catchR m h)"
  by (simp add: balanced_def keeps_catchR)

lemma balanced_attempt [balanced_rules]: "balanced m \<Longrightarrow> balanced (attempt m)"
  by (simp add: balanced_def keeps_attempt)

lemma balanced_pure [balanced_rules]:
  "balanced (ret v)" "balanced (fail e)" "balanced (of_result q)" "balanced (ok_or z e)" "balanced (reject c e)"
  by (simp_all add: balanced_def keeps_pure)

lemma balanced_on_snd [balanced_rules]: "balanced (on_snd m)"
  by (auto simp: balanced_def intro!: keeps_on_snd)

lemma balanced_if [balanced_rules]: "balanced m \<Longrightarrow> balanced n \<Longrightarrow> balanced (if c then m else n)"
  by simp

lemma balanced_option [balanced_rules]:
  "balanced m \<Longrightarrow> (\<And>v. balanced (f v)) \<Longrightarrow> balanced (case z of None \<Rightarrow> m | Some v \<Rightarrow> f v)"
  by (simp split: option.split)

lemma balanced_sum [balanced_rules]:
  "(\<And>e. balanced (g e)) \<Longrightarrow> (\<And>v. balanced (f v)) \<Longrightarrow> balanced (case z of Inl e \<Rightarrow> g e | Inr v \<Rightarrow> f v)"
  by (simp split: sum.split)

lemma balanced_prod [balanced_rules]: "(\<And>a b. balanced (f a b)) \<Longrightarrow> balanced (case z of (a, b) \<Rightarrow> f a b)"
  by (simp split: prod.split)

lemma balanced_let [balanced_rules]: "(\<And>v. balanced (f v)) \<Longrightarrow> balanced (let v = z in f v)"
  by (simp add: Let_def)

lemma balanced_open_context [balanced_rules]: "balanced (open_context x)"
  by (auto simp: open_context_def Let_def intro!: balanced_rules)

text \<open>Opening a handle, running a balanced body and flushing the handle is balanced.\<close>

lemma balanced_bracket:
  assumes "balanced body"
  shows "balanced (seqR (log_opened h) (then_flush x h body))"
  unfolding balanced_def
proof (intro allI keepsI)
  fix d and s :: "session_log \<times> world"
  obtain l w where s: "s = (l, w)" by (cases s)
  assume "case s of (l, _) \<Rightarrow> debt l = d"
  then have "case (l\<lparr>sl_opened := h # sl_opened l\<rparr>, w) of (l, _) \<Rightarrow> debt l = d(h := d h + 1)"
    by (auto simp: s debt_def fun_eq_iff)
  from keepsD [OF assms [unfolded balanced_def, rule_format] this]
  have "wp body (\<lambda>_ (l, _). debt l = d(h := d h + 1)) (\<lambda>_ (l, _). debt l = d(h := d h + 1)) (l\<lparr>sl_opened := h # sl_opened l\<rparr>, w)" .
  moreover have "debt (l'\<lparr>sl_flushed := h # sl_flushed l'\<rparr>) = d" if "debt l' = d(h := d h + 1)" for l'
    using that by (auto simp: debt_def fun_eq_iff split: if_splits)
  moreover have "wp (catchR (on_snd (te_flush x h)) (\<lambda>_. ret ())) (\<lambda>_ (l, _). debt l = d) (\<lambda>_ (l, _). debt l = d) (l', v)"
    if "debt l' = d" for l' v
    using that by (simp add: wp_simps wp_def split: prod.split sum.split)
  ultimately show "wp (seqR (log_opened h) (then_flush x h body)) (\<lambda>_ (l, _). debt l = d) (\<lambda>_ (l, _). debt l = d) s"
    unfolding s then_flush_def flush_context_def log_opened_def log_flushed_def wp_seqR wp_bindR wp_modify wp_attempt prod.case
    by (auto simp: wp_of_result case_prod_unfold elim!: wp_mono split: sum.split)
qed

lemma balanced_with_parent [balanced_rules]:
  assumes "\<And>h. balanced (body h)"
  shows "balanced (with_parent x body)"
proof -
  have *: "with_parent x body = seqR (open_context x) (bindR (of_result (te_build x parent_template)) (\<lambda>public.
      bindR (on_snd (te_create_primary x public)) (\<lambda>h. seqR (log_opened h) (then_flush x h (body h)))))"
    by (simp add: with_parent_def create_parent_def fun_eq_iff seqR_def bindR_def ret_def split: prod.split sum.split)
  show ?thesis unfolding * by (intro balanced_rules balanced_bracket assms)
qed

lemma balanced_with_loaded [balanced_rules]:
  "(\<And>h. balanced (operation h)) \<Longrightarrow> balanced (with_loaded x f private public operation)"
  unfolding with_loaded_def by (intro balanced_rules balanced_bracket)

subsection \<open>What a successful session returns\<close>

lemma yields_then_flush: "yields body P \<Longrightarrow> yields (then_flush x h body) P"
  unfolding then_flush_def bindR_def seqR_def attempt_def of_result_def
  by (rule yieldsI) (auto split: prod.splits sum.splits dest: yieldsD)

lemma yields_with_parent: "(\<And>h. yields (body h) P) \<Longrightarrow> yields (with_parent x body) P"
  unfolding with_parent_def by (intro yields_seqR [OF yields_top] yields_bindR [OF yields_top] yields_then_flush)

lemma yields_run_logged: "yields m P \<Longrightarrow> run_logged m w = (Inr v, w') \<Longrightarrow> P v"
  by (auto simp: run_logged_def dest: yieldsD split: prod.splits)

end
