(* ===== verification/Tpm_Kek.thy ===== *)
theory Tpm_Kek
  imports Tpm_Session Transaction
begin

text \<open>
  \<open>crypto/platform_kek/linux.rs\<close>: the key-encryption key of a profile on Linux. The TPM-wrapped key
  blobs live in a file; every use reads it, loads the key under the recreated parent and flushes
  both. The result is shown to meet the contract \<open>kek_sound\<close> under which \<open>transaction.rs\<close> is
  verified, and no operation leaks a TPM handle.
\<close>

definition RSA_BITS :: nat where "RSA_BITS = 2048"

record key_blobs =
  kb_version :: u16
  kb_private_hex :: string
  kb_public_hex :: string

text \<open>The RSA commands, the conversion to an RSA buffer and the JSON text of the blobs.\<close>

record kek_ext = tpm_ext +
  ke_rsa_buffer :: "byte list \<Rightarrow> bool"
  ke_rsa_encrypt :: "handle \<Rightarrow> byte list \<Rightarrow> (world, byte list) host"
  ke_rsa_decrypt :: "handle \<Rightarrow> byte list \<Rightarrow> (world, byte list) host"
  ke_blobs_json :: "key_blobs codec"

definition kek_template :: key_template where
  "kek_template = \<lparr>kt_algorithm = AlgRsa,
     kt_attributes = \<lparr>oa_fixed_tpm = True, oa_fixed_parent = True, oa_sensitive_data_origin = True,
       oa_user_with_auth = True, oa_restricted = False, oa_decrypt = True, oa_sign_encrypt = False, oa_no_da = True\<rparr>,
     kt_scheme = SchemeOaepSha256, kt_is_signing_key = False, kt_is_decryption_key = True, kt_restricted = False,
     kt_symmetric_aes_128_cfb = False\<rparr>"

definition kek_hex :: "byte list \<Rightarrow> string" where
  "kek_hex bytes = concat (map hex_byte bytes)"

text \<open>
  \<open>str::from_utf8\<close> on a pair of bytes: two ASCII characters or one two-byte character. Only the
  former can pass \<open>from_str_radix\<close>.
\<close>

definition pair_is_utf8 :: "char \<Rightarrow> char \<Rightarrow> bool" where
  "pair_is_utf8 c d = (let a = of_char c :: nat; b = of_char d :: nat in
     a < 128 \<and> b < 128 \<or> 194 \<le> a \<and> a < 224 \<and> 128 \<le> b \<and> b < 192)"

fun unhex_pairs :: "string \<Rightarrow> byte list fcp_result" where
  "unhex_pairs (c # d # cs) =
     (if \<not> pair_is_utf8 c d then Inl (Format ''KEK blob hex is not ASCII'')
      else case radix_pair c d of
        None \<Rightarrow> Inl (Format ''KEK blob hex is malformed'')
      | Some b \<Rightarrow> map_sum id ((#) b) (unhex_pairs cs))"
| "unhex_pairs _ = Inr []"

definition unhex :: "string \<Rightarrow> byte list fcp_result" where
  "unhex text = (if odd (length text) then Inl (Format ''KEK blob hex has odd length'') else unhex_pairs text)"

definition kek_with_key :: "kek_ext \<Rightarrow> path \<Rightarrow> (handle \<Rightarrow> 'a tpm_m) \<Rightarrow> 'a tpm_m" where
  "kek_with_key x key_path operation =
     bindR (on_snd (fs_read key_path)) (\<lambda>bytes.
     bindR (of_result (json_from_slice (ke_blobs_json x) bytes)) (\<lambda>blobs.
     seqR (reject (kb_version blobs \<noteq> 1) (Format ''unsupported KEK blob version''))
    (bindR (of_result (unhex (kb_private_hex blobs))) (\<lambda>private.
     seqR (reject (\<not> te_private x private) (Format ''stored KEK private area is malformed''))
    (bindR (of_result (unhex (kb_public_hex blobs))) (\<lambda>public_bytes.
     bindR (ok_or (te_unmarshall x public_bytes) (Format ''stored KEK public area is malformed'')) (\<lambda>public.
     with_loaded (tpm_ext.truncate x) (\<lambda>e. e) private public operation)))))))"

definition check_blobs :: "kek_ext \<Rightarrow> key_blobs \<Rightarrow> byte list \<Rightarrow> unit fcp_result" where
  "check_blobs x blobs persisted = (case json_from_slice (ke_blobs_json x) persisted of
       Inl e \<Rightarrow> Inl e
     | Inr parsed \<Rightarrow> if kb_private_hex parsed \<noteq> kb_private_hex blobs \<or> kb_public_hex parsed \<noteq> kb_public_hex blobs
         then Inl (Format ''KEK blobs failed to round-trip'') else Inr ())"

definition kek_create :: "kek_ext \<Rightarrow> path \<Rightarrow> unit tpm_m" where
  "kek_create x key_path = with_parent (tpm_ext.truncate x) (\<lambda>parent.
     bindR (of_result (te_build x kek_template)) (\<lambda>template.
     bindR (on_snd (te_create x parent template None)) (\<lambda>(out_private, out_public).
     bindR (of_result (te_marshall x out_public)) (\<lambda>public_bytes.
       let blobs = \<lparr>kb_version = 1, kb_private_hex = kek_hex out_private, kb_public_hex = kek_hex public_bytes\<rparr> in
     bindR (of_result (json_to_vec (ke_blobs_json x) blobs)) (\<lambda>bytes.
     on_snd (write_verified key_path bytes (check_blobs x blobs)))))))"

definition ensure_exists :: "kek_ext \<Rightarrow> path \<Rightarrow> unit tpm_m" where
  "ensure_exists x key_path = bindR (on_snd (fs_exists key_path)) (\<lambda>present.
     if present then kek_with_key x key_path (\<lambda>_. ret ()) else kek_create x key_path)"

definition wrap_dek :: "kek_ext \<Rightarrow> path \<Rightarrow> secret_dek \<Rightarrow> byte list tpm_m" where
  "wrap_dek x key_path dek =
     bindR (kek_with_key x key_path (\<lambda>key.
       seqR (reject (\<not> ke_rsa_buffer x dek) (Crypto ''DEK is not a valid RSA input''))
            (on_snd (ke_rsa_encrypt x key dek)))) (\<lambda>wrapped.
     seqR (reject (length wrapped \<noteq> WRAPPED_DEK_BYTES) (Crypto ''RSA-2048 wrapped DEK length is not 256'')) (ret wrapped))"

definition unwrap_dek :: "kek_ext \<Rightarrow> path \<Rightarrow> byte list \<Rightarrow> secret_dek tpm_m" where
  "unwrap_dek x key_path wrapped =
     seqR (reject (length wrapped \<noteq> WRAPPED_DEK_BYTES) (Format ''wrapped DEK must be {WRAPPED_DEK_BYTES} bytes''))
    (bindR (kek_with_key x key_path (\<lambda>key.
       seqR (reject (\<not> ke_rsa_buffer x wrapped) (Format ''wrapped DEK is not a valid RSA ciphertext''))
            (on_snd (ke_rsa_decrypt x key wrapped)))) (\<lambda>recovered.
     if length recovered = DEK_BYTES then ret recovered else fail (Crypto ''unwrapped DEK length is not 32'')))"

text \<open>\<open>PlatformKek::at\<close> and its three methods, over this backend.\<close>

definition linux_kek :: "kek_ext \<Rightarrow> path \<Rightarrow> platform_kek" where
  "linux_kek x key_path = \<lparr>kek_ensure_exists = run_logged (ensure_exists x key_path),
     kek_wrap_dek = (\<lambda>dek. run_logged (wrap_dek x key_path dek)),
     kek_unwrap_dek = (\<lambda>wrapped. run_logged (unwrap_dek x key_path wrapped))\<rparr>"

subsection \<open>Handles\<close>

lemma balanced_with_key [balanced_rules]: "(\<And>h. balanced (operation h)) \<Longrightarrow> balanced (kek_with_key x key_path operation)"
  unfolding kek_with_key_def by (intro balanced_rules)

lemma kek_balanced:
  "balanced (ensure_exists x key_path)" "balanced (wrap_dek x key_path dek)" "balanced (unwrap_dek x key_path wrapped)"
  unfolding ensure_exists_def wrap_dek_def unwrap_dek_def kek_create_def by (intro balanced_rules)+

subsection \<open>Files\<close>

text \<open>The TPM commands leave the file at \<open>p\<close> alone.\<close>

abbreviation file_is :: "path \<Rightarrow> byte list option \<Rightarrow> world \<Rightarrow> bool" where
  "file_is p v w \<equiv> lookup w p = v"

definition tpm_off_file :: "tpm_ext \<Rightarrow> path \<Rightarrow> bool" where
  "tpm_off_file x p \<longleftrightarrow> (\<forall>v. (\<forall>t. keeps (file_is p v) (te_context x t)) \<and>
     (\<forall>q. keeps (file_is p v) (te_create_primary x q)) \<and>
     (\<forall>h q a. keeps (file_is p v) (te_create x h q a)) \<and>
     (\<forall>h b q. keeps (file_is p v) (te_load x h b q)) \<and>
     (\<forall>h. keeps (file_is p v) (te_flush x h)))"

definition rsa_off_file :: "kek_ext \<Rightarrow> path \<Rightarrow> bool" where
  "rsa_off_file x p \<longleftrightarrow> tpm_off_file (tpm_ext.truncate x) p \<and>
     (\<forall>v h b. keeps (file_is p v) (ke_rsa_encrypt x h b) \<and> keeps (file_is p v) (ke_rsa_decrypt x h b))"

definition off_file :: "path \<Rightarrow> 'a tpm_m \<Rightarrow> bool" where
  "off_file p m \<longleftrightarrow> (\<forall>v. keeps (\<lambda>s. file_is p v (snd s)) m)"

lemma off_file_on_snd: "(\<And>v. keeps (file_is p v) m) \<Longrightarrow> off_file p (on_snd m)"
  by (simp add: off_file_def keeps_def wp_on_snd)

lemma off_file_rules:
  "off_file p m \<Longrightarrow> (\<And>v. off_file p (f v)) \<Longrightarrow> off_file p (bindR m f)"
  "off_file p n \<Longrightarrow> off_file p k \<Longrightarrow> off_file p (seqR n k)"
  "off_file p m \<Longrightarrow> off_file p (map_err g m)" "off_file p m \<Longrightarrow> off_file p (attempt m)"
  "off_file p m \<Longrightarrow> (\<And>e. off_file p (h e)) \<Longrightarrow> off_file p (catchR m h)"
  "off_file p m \<Longrightarrow> off_file p m' \<Longrightarrow> off_file p (if c then m else m')"
  "(\<And>a b. off_file p (q a b)) \<Longrightarrow> off_file p (case z of (a, b) \<Rightarrow> q a b)"
  "off_file p (ret u)" "off_file p (fail e)" "off_file p (of_result r)" "off_file p (ok_or y e)" "off_file p (reject c e)"
  by (auto simp: off_file_def intro: keeps_rules)

lemma off_file_logs: "off_file p (log_opened h)" "off_file p (log_flushed h)"
  by (auto simp: off_file_def log_opened_def log_flushed_def intro!: keeps_modify)

lemma off_file_reads: "off_file p (on_snd (fs_read q))" "off_file p (on_snd (fs_exists q))"
  by (auto intro!: off_file_on_snd simp: keeps_def wp_simps split: option.split)

lemma off_file_write:
  assumes "p \<noteq> t" and "\<not> write_scratch t p"
  shows "off_file p (on_snd (write_verified t bs v))"
proof (rule off_file_on_snd, rule keepsI)
  fix b w assume b: "file_is p b w"
  show "wp (write_verified t bs v) (\<lambda>_. file_is p b) (\<lambda>_. file_is p b) w"
    unfolding wp_write_verified by (rule wp_runI; drule dw.frame [OF _ assms]) (use b in simp_all)
qed

lemma off_file_with_parent:
  assumes "tpm_off_file x p" and "\<And>h. off_file p (body h)"
  shows "off_file p (with_parent x body)"
  using assms unfolding with_parent_def open_context_def create_parent_def then_flush_def flush_context_def Let_def tpm_off_file_def
  by (intro off_file_rules off_file_logs off_file_on_snd) blast+

lemma off_file_with_loaded:
  assumes "tpm_off_file x p" and "\<And>h. off_file p (operation h)"
  shows "off_file p (with_loaded x f private public operation)"
  unfolding with_loaded_def then_flush_def flush_context_def
  using assms by (intro off_file_with_parent off_file_rules off_file_logs off_file_on_snd assms) (auto simp: tpm_off_file_def)

lemma off_file_with_key:
  assumes "tpm_off_file (tpm_ext.truncate x) p" and "\<And>h. off_file p (operation h)"
  shows "off_file p (kek_with_key x q operation)"
  unfolding kek_with_key_def by (intro off_file_rules off_file_reads off_file_with_loaded assms)

lemma off_file_kek:
  assumes "rsa_off_file x p" and "p \<noteq> key_path" and "\<not> write_scratch key_path p"
  shows "off_file p (ensure_exists x key_path)" and "off_file p (wrap_dek x key_path dek)" and "off_file p (unwrap_dek x key_path wrapped)"
proof -
  have t: "tpm_off_file (tpm_ext.truncate x) p" using assms(1) by (simp add: rsa_off_file_def)
  have c: "off_file p (on_snd (te_create x h q a))" for h q a
    using t by (intro off_file_on_snd) (simp add: tpm_off_file_def tpm_ext.truncate_def)
  have e: "off_file p (on_snd (ke_rsa_encrypt x h b))" "off_file p (on_snd (ke_rsa_decrypt x h b))" for h b
    using assms(1) by (auto simp: rsa_off_file_def intro: off_file_on_snd)
  show "off_file p (ensure_exists x key_path)"
    unfolding ensure_exists_def kek_create_def Let_def
    by (intro off_file_rules off_file_reads off_file_with_key off_file_with_parent off_file_write t c assms)
  show "off_file p (wrap_dek x key_path dek)" "off_file p (unwrap_dek x key_path wrapped)"
    unfolding wrap_dek_def unwrap_dek_def by (intro off_file_rules off_file_with_key t e)+
qed

lemma run_logged_file: "off_file p m \<Longrightarrow> run_logged m w = (r, w') \<Longrightarrow> lookup w' p = lookup w p"
  unfolding off_file_def run_logged_def
  by (cases "m (empty_log, w)") (auto dest!: spec [of _ "lookup w p"] keeps_run [where s = "(empty_log, w)"])

subsection \<open>The contract of the key-encryption key\<close>

text \<open>
  RSA-OAEP: a ciphertext made by encryption decrypts, when it decrypts, to what was encrypted, and
  no ciphertext decrypts to two plaintexts.
\<close>

definition rsa_oaep_sound :: "kek_ext \<Rightarrow> bool" where
  "rsa_oaep_sound x \<longleftrightarrow>
     (\<forall>h dek w c w' h' v d v'. ke_rsa_encrypt x h dek w = (Inr c, w') \<longrightarrow>
        ke_rsa_decrypt x h' c v = (Inr d, v') \<longrightarrow> d = dek) \<and>
     (\<forall>h c w d w' h' v d' v'. ke_rsa_decrypt x h c w = (Inr d, w') \<longrightarrow>
        ke_rsa_decrypt x h' c v = (Inr d', v') \<longrightarrow> d = d')"

text \<open>What a session returns, its body returned.\<close>

lemma then_flush_result:
  assumes "\<And>s. wp body (\<lambda>v _. P v) (\<lambda>_ _. True) s"
  shows "wp (then_flush x h body) (\<lambda>v _. P v) (\<lambda>_ _. True) s"
  unfolding then_flush_def wp_bindR wp_attempt wp_seqR wp_of_result
  by (rule wp_mono [OF assms]) (auto intro!: wp_mono [OF wp_top])

lemma with_parent_result:
  assumes "\<And>h s. wp (body h) (\<lambda>v _. P v) (\<lambda>_ _. True) s"
  shows "wp (with_parent x body) (\<lambda>v _. P v) (\<lambda>_ _. True) s"
  unfolding with_parent_def wp_bindR wp_seqR
  by (rule wp_mono [OF wp_top], rule wp_mono [OF wp_top], rule then_flush_result [OF assms]) auto

lemma with_key_result:
  assumes "\<And>h s. wp (operation h) (\<lambda>v _. P v) (\<lambda>_ _. True) s"
  shows "wp (kek_with_key x key_path operation) (\<lambda>v _. P v) (\<lambda>_ _. True) s"
proof -
  have "wp (with_loaded (tpm_ext.truncate x) f b q operation) (\<lambda>v _. P v) (\<lambda>_ _. True) s" for f b q s
    unfolding with_loaded_def
    by (rule with_parent_result) (auto simp: wp_bindR wp_seqR intro!: wp_mono [OF wp_top] then_flush_result assms)
  then show ?thesis
    unfolding kek_with_key_def wp_bindR wp_seqR
    by (intro wp_mono [OF wp_top [of "on_snd (fs_read key_path)"]])
      (auto simp: wp_of_result wp_reject wp_ok_or split: sum.split option.split)
qed

lemma run_logged_wp: "wp m (\<lambda>v _. P v) (\<lambda>_ _. True) (empty_log, w) \<Longrightarrow> run_logged m w = (Inr v, w') \<Longrightarrow> P v"
  by (auto simp: run_logged_def wp_def split: prod.splits)

lemma wrap_dek_result:
  assumes "run_logged (wrap_dek x key_path dek) w = (Inr c, w')"
  shows "length c = WRAPPED_DEK_BYTES \<and> (\<exists>h v v'. ke_rsa_encrypt x h dek v = (Inr c, v'))"
proof (rule run_logged_wp [OF _ assms])
  have "wp (kek_with_key x key_path (\<lambda>key. seqR (reject (\<not> ke_rsa_buffer x dek) (Crypto ''DEK is not a valid RSA input''))
      (on_snd (ke_rsa_encrypt x key dek)))) (\<lambda>c _. \<exists>h v v'. ke_rsa_encrypt x h dek v = (Inr c, v')) (\<lambda>_ _. True) s" for s
    by (rule with_key_result) (auto simp: wp_simps wp_def split: prod.split sum.split)
  then show "wp (wrap_dek x key_path dek) (\<lambda>c _. length c = WRAPPED_DEK_BYTES \<and> (\<exists>h v v'. ke_rsa_encrypt x h dek v = (Inr c, v')))
      (\<lambda>_ _. True) (empty_log, w)"
    unfolding wrap_dek_def wp_bindR [of "kek_with_key _ _ _"] by (rule wp_mono) (auto simp: wp_simps)
qed

lemma unwrap_dek_result:
  assumes "run_logged (unwrap_dek x key_path c) w = (Inr d, w')"
  shows "length d = DEK_BYTES \<and> (\<exists>h v v'. ke_rsa_decrypt x h c v = (Inr d, v'))"
proof (rule run_logged_wp [OF _ assms])
  have "wp (kek_with_key x key_path (\<lambda>key. seqR (reject (\<not> ke_rsa_buffer x c) (Format ''wrapped DEK is not a valid RSA ciphertext''))
      (on_snd (ke_rsa_decrypt x key c)))) (\<lambda>d _. \<exists>h v v'. ke_rsa_decrypt x h c v = (Inr d, v')) (\<lambda>_ _. True) s" for s
    by (rule with_key_result) (auto simp: wp_simps wp_def split: prod.split sum.split)
  note k = wp_mono [OF this]
  show "wp (unwrap_dek x key_path c) (\<lambda>d _. length d = DEK_BYTES \<and> (\<exists>h v v'. ke_rsa_decrypt x h c v = (Inr d, v')))
      (\<lambda>_ _. True) (empty_log, w)"
    unfolding unwrap_dek_def wp_seqR [of "reject (length _ \<noteq> _) _"] wp_reject wp_bindR [of "kek_with_key _ _ _"]
    by (auto intro!: k simp: wp_simps) blast
qed

text \<open>
  A backend meets the contract when every wrapped key is a ciphertext of it, every unwrapped key a
  decryption, decryption inverts encryption and is a function, and no call touches the vault file.
\<close>

lemma kek_soundI:
  assumes "\<And>dek c w w'. kek_wrap_dek k dek w = (Inr c, w') \<Longrightarrow> enc dek c"
    and "\<And>c d w w'. kek_unwrap_dek k c w = (Inr d, w') \<Longrightarrow> dec c d"
    and "\<And>dek c d. enc dek c \<Longrightarrow> dec c d \<Longrightarrow> d = dek" and "\<And>c d d'. dec c d \<Longrightarrow> dec c d' \<Longrightarrow> d' = d"
    and "\<And>w r w'. kek_ensure_exists k w = (r, w') \<Longrightarrow> lookup w' p = lookup w p"
    and "\<And>dek w r w'. kek_wrap_dek k dek w = (r, w') \<Longrightarrow> lookup w' p = lookup w p"
    and "\<And>c w r w'. kek_unwrap_dek k c w = (r, w') \<Longrightarrow> lookup w' p = lookup w p"
  shows "kek_sound k p"
  unfolding kek_sound_def unwraps_only_def unwraps_def by (intro conjI allI impI; (elim exE)?; meson assms)

text \<open>
  C16. Refinement: the Linux key backend meets the contract the vault transactions are verified
  against. If RSA-OAEP decryption, where it succeeds, inverts encryption and yields one plaintext per
  ciphertext (the law ranges over all loaded keys: that a decryption succeeds only under the key that
  encrypted is part of it), and the TPM's commands leave the vault file alone, then wrapping and unwrapping through the stored key blobs, with every failure of the TPM
  and of the file system on the way, unwraps only to the key that was wrapped, always to the same
  one, and never touches the vault file.
\<close>

theorem linux_kek_sound:
  assumes "rsa_oaep_sound x" and "rsa_off_file x p" and "p \<noteq> key_path" and "\<not> write_scratch key_path p"
  shows "kek_sound (linux_kek x key_path) p"
proof (rule kek_soundI [where enc = "\<lambda>dek c. \<exists>h v v'. ke_rsa_encrypt x h dek v = (Inr c, v')"
      and dec = "\<lambda>c d. \<exists>h v v'. ke_rsa_decrypt x h c v = (Inr d, v')"])
  show "\<exists>h v v'. ke_rsa_encrypt x h dek v = (Inr c, v')" if "kek_wrap_dek (linux_kek x key_path) dek w = (Inr c, w')" for dek c w w'
    using that wrap_dek_result by (fastforce simp: linux_kek_def)
  show "\<exists>h v v'. ke_rsa_decrypt x h c v = (Inr d, v')" if "kek_unwrap_dek (linux_kek x key_path) c w = (Inr d, w')" for c d w w'
    using that unwrap_dek_result by (fastforce simp: linux_kek_def)
  note off = off_file_kek [OF assms(2-4)]
  show "lookup w' p = lookup w p" if "kek_ensure_exists (linux_kek x key_path) w = (r, w')" for w r w'
    using that run_logged_file [OF off(1)] by (simp add: linux_kek_def)
  show "lookup w' p = lookup w p" if "kek_wrap_dek (linux_kek x key_path) dek w = (r, w')" for dek w r w'
    using that run_logged_file [OF off(2)] by (simp add: linux_kek_def)
  show "lookup w' p = lookup w p" if "kek_unwrap_dek (linux_kek x key_path) c w = (r, w')" for c w r w'
    using that run_logged_file [OF off(3)] by (simp add: linux_kek_def)
qed (use assms(1) in \<open>unfold rsa_oaep_sound_def, blast\<close>)+

subsection \<open>A concrete key\<close>

text \<open>A TPM that creates one key and pads what it encrypts.\<close>

definition exk_public :: tpm_public where
  "exk_public = \<lparr>tp_template = kek_template, tp_x = [], tp_y = []\<rparr>"

definition exk_blobs :: key_blobs where
  "exk_blobs = \<lparr>kb_version = 1, kb_private_hex = ''01'', kb_public_hex = ''02''\<rparr>"

definition exk_x :: kek_ext where
  "exk_x = \<lparr>te_env_tcti = None, te_simulator_feature = False, te_parse_tcti = (\<lambda>_. True), te_context = (\<lambda>_. ret ()),
     te_build = (\<lambda>t. Inr \<lparr>tp_template = t, tp_x = [], tp_y = []\<rparr>), te_create_primary = (\<lambda>_. ret 1),
     te_create = (\<lambda>_ _ _. ret ([1], exk_public)), te_load = (\<lambda>_ _ _. ret 2), te_flush = (\<lambda>_. ret ()),
     te_private = (\<lambda>_. True), te_marshall = (\<lambda>_. Inr [2]), te_unmarshall = (\<lambda>_. Some exk_public),
     ke_rsa_buffer = (\<lambda>_. True),
     ke_rsa_encrypt = (\<lambda>_ b. if length b = 32 then ret (b @ replicate 224 9) else fail Tpm),
     ke_rsa_decrypt = (\<lambda>_ c. if drop 32 c = replicate 224 9 then ret (take 32 c) else fail Tpm),
     ke_blobs_json = table_codec [exk_blobs]\<rparr>"

definition exk_path :: path where
  "exk_path = [Name ''d'', Name ''kek-key.json'']"

definition exk_vault :: path where
  "exk_vault = [Name ''d'', Name ''5.vault'']"

lemmas exk_defs = exk_x_def exk_path_def exk_vault_def tpm_ext.truncate_def

lemma exk_rsa: "rsa_oaep_sound exk_x"
  by (auto simp: rsa_oaep_sound_def exk_defs ret_def fail_def split: if_splits)

lemma exk_off: "rsa_off_file exk_x exk_vault"
  by (auto simp: rsa_off_file_def tpm_off_file_def exk_defs intro!: keeps_rules)

lemma exk_paths: "exk_vault \<noteq> exk_path" "\<not> write_scratch exk_path exk_vault"
  by (auto simp: exk_defs write_scratch_def temporary_path_def file_name_def with_file_name_def)

theorem linux_kek_sound_witness: "kek_sound (linux_kek exk_x exk_path) exk_vault"
  by (rule linux_kek_sound [OF exk_rsa exk_off exk_paths])

text \<open>The key is created on first use, and a wrapped key comes back through the stored blobs.\<close>

theorem kek_first_use:
  "case kek_ensure_exists (linux_kek exk_x exk_path) quiet_world of (r, w1) \<Rightarrow> r = Inr () \<and>
     (case kek_wrap_dek (linux_kek exk_x exk_path) (replicate 32 7) w1 of (c, w2) \<Rightarrow>
        fst (kek_unwrap_dek (linux_kek exk_x exk_path) (case c of Inr b \<Rightarrow> b | Inl _ \<Rightarrow> []) w2) = Inr (replicate 32 7))"
  by (simp add: linux_kek_def run_logged_def ensure_exists_def kek_create_def kek_with_key_def wrap_dek_def unwrap_dek_def
      with_loaded_def with_parent_def then_flush_def flush_context_def open_context_def create_parent_def log_opened_def
      log_flushed_def check_blobs_def exk_defs exk_blobs_def kek_hex_def hex_byte_def HEX_def unhex_def pair_is_utf8_def
      radix_pair_def hex_nibble_def quiet_world_def table_codec_def default_tcti_def empty_log_def WRAPPED_DEK_BYTES_def
      DEK_BYTES_def run_simps)

end
