(* ===== verification/Webauthn_Codec.thy ===== *)
theory Webauthn_Codec
  imports Vault_Format
begin

text \<open>
  \<open>crypto/webauthn_codec.rs\<close>: the decoders of the two binary shapes a platform authenticator
  returns, the COSE key inside the authenticator data and the DER form of an ECDSA signature, and
  the hexadecimal text of the credential registry.

  Each reader is a slice and a position, as in the source. What the decoders rely on is the
  interface \<open>slice_reader\<close>: taking a prefix that is there returns it and moves past it. It is
  interpreted on both readers. Positions are \<open>usize\<close> values of a 64-bit target; an array
  \<open>[u8; 32]\<close> is a list whose length the code has checked.
\<close>

unbundle bit_operations_syntax

subsection \<open>CBOR\<close>

record cbor_reader =
  cb_data :: "byte list"
  cb_pos :: nat

definition cbor_new :: "byte list \<Rightarrow> cbor_reader" where
  "cbor_new data = \<lparr>cb_data = data, cb_pos = 0\<rparr>"

definition cbor_take :: "nat \<Rightarrow> (cbor_reader, byte list) host" where
  "cbor_take len = (\<lambda>r. let e = cb_pos r + len in
     if usize_limit \<le> e then (Inl (Capability ''CBOR offset overflow''), r)
     else if length (cb_data r) < e then (Inl (Capability ''CBOR input truncated''), r)
     else (Inr (take len (drop (cb_pos r) (cb_data r))), r\<lparr>cb_pos := e\<rparr>))"

text \<open>The integer after the first byte of an item, in 0, 1, 2, 4 or 8 bytes.\<close>

definition read_header :: "(cbor_reader, byte \<times> u64) host" where
  "read_header = bindR (cbor_take 1) (\<lambda>b.
     let first = b ! 0; major = drop_bit 5 first; info = first AND 0x1f;
         follow = (\<lambda>n. bindR (cbor_take n) (\<lambda>bs. ret (major, of_nat (be_nat bs)))) in
     if info \<le> 23 then ret (major, ucast info)
     else if info = 24 then follow 1
     else if info = 25 then follow 2
     else if info = 26 then follow 4
     else if info = 27 then follow 8
     else fail (Capability ''unsupported CBOR length encoding''))"

definition read_map_header :: "(cbor_reader, u64) host" where
  "read_map_header = bindR read_header (\<lambda>(major, count).
     seqR (reject (major \<noteq> 5) (Capability ''expected a CBOR map'')) (ret count))"

definition read_int :: "(cbor_reader, int) host" where
  "read_int = bindR read_header (\<lambda>(major, argument).
     if major = 0 then
       seqR (reject (2 ^ 63 \<le> unat argument) (Capability ''CBOR uint too large'')) (ret (int (unat argument)))
     else if major = 1 then
       seqR (reject (2 ^ 63 \<le> unat argument) (Capability ''CBOR negint too large'')) (ret (- 1 - int (unat argument)))
     else fail (Capability ''expected a CBOR integer''))"

definition read_byte_string :: "(cbor_reader, byte list) host" where
  "read_byte_string = bindR read_header (\<lambda>(major, len).
     seqR (reject (major \<noteq> 2) (Capability ''expected a CBOR byte string'')) (cbor_take (unat len)))"

subsection \<open>The COSE key\<close>

definition FLAG_ATTESTED_CREDENTIAL_DATA :: byte where
  "FLAG_ATTESTED_CREDENTIAL_DATA = 0x40"

definition COSE_KTY_EC2 :: int where
  "COSE_KTY_EC2 = 2"

definition COSE_ALG_ES256 :: int where
  "COSE_ALG_ES256 = - 7"

definition COSE_CRV_P256 :: int where
  "COSE_CRV_P256 = 1"

text \<open>The five local variables the loop over the map fills in; a repeated key overwrites.\<close>

record cose_fields =
  ck_kty :: "int option"
  ck_alg :: "int option"
  ck_crv :: "int option"
  ck_x :: "byte list option"
  ck_y :: "byte list option"

definition cose_none :: cose_fields where
  "cose_none = \<lparr>ck_kty = None, ck_alg = None, ck_crv = None, ck_x = None, ck_y = None\<rparr>"

definition cose_field :: "cose_fields \<Rightarrow> (cbor_reader, cose_fields) host" where
  "cose_field f = bindR read_int (\<lambda>key.
     if key = 1 then bindR read_int (\<lambda>v. ret (f\<lparr>ck_kty := Some v\<rparr>))
     else if key = 3 then bindR read_int (\<lambda>v. ret (f\<lparr>ck_alg := Some v\<rparr>))
     else if key = - 1 then bindR read_int (\<lambda>v. ret (f\<lparr>ck_crv := Some v\<rparr>))
     else if key = - 2 then bindR read_byte_string (\<lambda>v. ret (f\<lparr>ck_x := Some v\<rparr>))
     else if key = - 3 then bindR read_byte_string (\<lambda>v. ret (f\<lparr>ck_y := Some v\<rparr>))
     else fail (Capability ''unexpected COSE_Key field {other}''))"

fun cose_loop :: "nat \<Rightarrow> cose_fields \<Rightarrow> (cbor_reader, cose_fields) host" where
  "cose_loop 0 f = ret f"
| "cose_loop (Suc n) f = bindR (cose_field f) (cose_loop n)"

definition to_array_32 :: "byte list \<Rightarrow> byte list fcp_result" where
  "to_array_32 bytes =
     (if length bytes = 32 then Inr bytes else Inl (Capability ''COSE_Key coordinate is not 32 bytes''))"

definition cose_check :: "cose_fields \<Rightarrow> (cbor_reader, byte list \<times> byte list) host" where
  "cose_check f =
     seqR (reject (ck_kty f \<noteq> Some COSE_KTY_EC2 \<or> ck_alg f \<noteq> Some COSE_ALG_ES256 \<or> ck_crv f \<noteq> Some COSE_CRV_P256)
             (Capability ''COSE_Key is not an ES256 EC2 key''))
    (bindR (ok_or (ck_x f) (Capability ''COSE_Key missing x'')) (\<lambda>xb.
     bindR (of_result (to_array_32 xb)) (\<lambda>x.
     bindR (ok_or (ck_y f) (Capability ''COSE_Key missing y'')) (\<lambda>yb.
     bindR (of_result (to_array_32 yb)) (\<lambda>y. ret (x, y))))))"

definition parse_cose_ec2_public_key :: "byte list \<Rightarrow> (byte list \<times> byte list) fcp_result" where
  "parse_cose_ec2_public_key data = fst (bindR read_map_header (\<lambda>count.
     bindR (cose_loop (unat count) cose_none) cose_check) (cbor_new data))"

text \<open>\<open>slice.get(from..to)\<close>.\<close>

definition get_range :: "byte list \<Rightarrow> nat \<Rightarrow> nat \<Rightarrow> byte list option" where
  "get_range bs from to = (if from \<le> to \<and> to \<le> length bs then Some (take (to - from) (drop from bs)) else None)"

definition parse_attested_credential :: "byte list \<Rightarrow> (byte list \<times> byte list \<times> byte list) fcp_result" where
  "parse_attested_credential auth_data =
     (if length auth_data < 37 then Inl (Capability ''authenticatorData is shorter than the fixed header'')
      else if auth_data ! 32 AND FLAG_ATTESTED_CREDENTIAL_DATA = 0
        then Inl (Capability ''authenticatorData has no attested credential data'')
      else let pos = 37 + 16 in
        case get_range auth_data pos (pos + 2) of
          None \<Rightarrow> Inl (Capability ''authenticatorData truncated before credIdLen'')
        | Some len_bytes \<Rightarrow>
            let cred_id_len = unat (of_nat (be_nat len_bytes) :: u16); pos = pos + 2 in
            (case get_range auth_data pos (pos + cred_id_len) of
               None \<Rightarrow> Inl (Capability ''authenticatorData truncated before credentialId'')
             | Some credential_id \<Rightarrow>
                 let pos = pos + cred_id_len in
                 (case get_range auth_data pos (length auth_data) of
                    None \<Rightarrow> Inl (Capability ''authenticatorData truncated before credentialPublicKey'')
                  | Some cose_key \<Rightarrow> (case parse_cose_ec2_public_key cose_key of
                        Inl e \<Rightarrow> Inl e
                      | Inr (x, y) \<Rightarrow> Inr (credential_id, x, y)))))"

subsection \<open>DER\<close>

record der_reader =
  dr_data :: "byte list"
  dr_pos :: nat

definition der_new :: "byte list \<Rightarrow> der_reader" where
  "der_new data = \<lparr>dr_data = data, dr_pos = 0\<rparr>"

definition der_take :: "nat \<Rightarrow> (der_reader, byte list) host" where
  "der_take len = (\<lambda>r. let e = dr_pos r + len in
     if usize_limit \<le> e then (Inl (Capability ''DER offset overflow''), r)
     else if length (dr_data r) < e then (Inl (Capability ''DER input truncated''), r)
     else (Inr (take len (drop (dr_pos r) (dr_data r))), r\<lparr>dr_pos := e\<rparr>))"

text \<open>
  \<open>checked_shl(8)\<close> answers \<open>None\<close> only for a shift of 64 or more, so the bits it shifts
  out are lost; the addition is checked.
\<close>

fun der_length_loop :: "u64 \<Rightarrow> byte list \<Rightarrow> u64 option" where
  "der_length_loop acc [] = Some acc"
| "der_length_loop acc (b # bs) =
     (case checked_add (push_bit 8 acc) (ucast b) of
        None \<Rightarrow> None
      | Some acc' \<Rightarrow> der_length_loop acc' bs)"

definition read_length :: "(der_reader, u64) host" where
  "read_length = bindR (der_take 1) (\<lambda>b.
     let first = b ! 0 in
     if first AND 0x80 = 0 then ret (ucast first)
     else bindR (der_take (unat (first AND 0x7f))) (\<lambda>bytes.
       ok_or (der_length_loop 0 bytes) (Capability ''DER length overflow'')))"

definition expect_tag :: "byte \<Rightarrow> (der_reader, unit) host" where
  "expect_tag t = bindR (der_take 1) (\<lambda>b.
     seqR (reject (b ! 0 \<noteq> t) (Capability ''unexpected DER tag''))
    (bindR read_length (\<lambda>_. ret ())))"

definition strip_guard :: "byte list \<Rightarrow> byte list" where
  "strip_guard bytes = (case bytes of
       a # b # bs \<Rightarrow> if a = 0 \<and> b AND 0x80 \<noteq> 0 then b # bs else bytes
     | _ \<Rightarrow> bytes)"

definition read_integer :: "(der_reader, byte list) host" where
  "read_integer = bindR (der_take 1) (\<lambda>b.
     seqR (reject (b ! 0 \<noteq> 0x02) (Capability ''expected a DER INTEGER''))
    (bindR read_length (\<lambda>len.
     bindR (der_take (unat len)) (\<lambda>bytes. ret (strip_guard bytes)))))"

definition left_pad_32 :: "byte list \<Rightarrow> byte list fcp_result" where
  "left_pad_32 value =
     (if 32 < length value then Inl (Capability ''DER integer is wider than a P-256 coordinate'')
      else Inr (replicate (32 - length value) 0 @ value))"

definition der_ecdsa_signature_to_raw :: "byte list \<Rightarrow> byte list fcp_result" where
  "der_ecdsa_signature_to_raw der = fst (seqR (expect_tag 0x30)
    (bindR read_integer (\<lambda>r.
     bindR read_integer (\<lambda>s.
     bindR (of_result (left_pad_32 r)) (\<lambda>r32.
     bindR (of_result (left_pad_32 s)) (\<lambda>s32. ret (r32 @ s32)))))) (der_new der))"

subsection \<open>Hexadecimal text of the registry\<close>

definition hex_encode :: "byte list \<Rightarrow> string" where
  "hex_encode bytes = concat (map hex_byte bytes)"

definition hex_decode :: "string \<Rightarrow> byte list fcp_result" where
  "hex_decode text =
     (if odd (length text) then Inl (Capability ''hex string has odd length'')
      else case decode_pairs hex_nibble text of
        None \<Rightarrow> Inl (Capability ''invalid hex digit'')
      | Some out \<Rightarrow> Inr out)"

subsection \<open>Reference encoders\<close>

text \<open>
  The encodings the decoders are meant for, as the fixtures of the module's tests build them: a
  DER \<open>SEQUENCE\<close> of two minimal \<open>INTEGER\<close>s and the five entries of an ES256 key.
\<close>

fun trim_integer :: "byte list \<Rightarrow> byte list" where
  "trim_integer (a # b # bs) = (if a = 0 \<and> b AND 0x80 = 0 then trim_integer (b # bs) else a # b # bs)"
| "trim_integer bs = bs"

definition encode_der_integer :: "byte list \<Rightarrow> byte list" where
  "encode_der_integer value =
     (let trimmed = trim_integer value;
          content = (if hd trimmed AND 0x80 \<noteq> 0 then 0 # trimmed else trimmed)
      in [0x02, of_nat (length content)] @ content)"

definition encode_der_signature :: "byte list \<Rightarrow> byte list \<Rightarrow> byte list" where
  "encode_der_signature r s =
     (let body = encode_der_integer r @ encode_der_integer s in [0x30, of_nat (length body)] @ body)"

definition encode_cose_key :: "byte list \<Rightarrow> byte list \<Rightarrow> byte list" where
  "encode_cose_key x y =
     [0xA5, 1, 2, 3, 0x26, 0x20, 1, 0x21, 0x58, 32] @ x @ [0x22, 0x58, 32] @ y"

subsection \<open>Readers\<close>

text \<open>
  \<open>reads mk m xs v\<close>: at any position whose next bytes are \<open>xs\<close>, the reader \<open>m\<close>
  returns \<open>v\<close> and moves past them. \<open>advances mk k m\<close>: a successful run moves by at
  least \<open>k\<close> bytes and stays inside the slice.
\<close>

definition reads :: "(byte list \<Rightarrow> nat \<Rightarrow> 'r) \<Rightarrow> ('r, 'a) host \<Rightarrow> byte list \<Rightarrow> 'a \<Rightarrow> bool" where
  "reads mk m xs v \<longleftrightarrow> (\<forall>pre ys. length (pre @ xs @ ys) < usize_limit \<longrightarrow>
     m (mk (pre @ xs @ ys) (length pre)) = (Inr v, mk (pre @ xs @ ys) (length (pre @ xs))))"

definition advances :: "(byte list \<Rightarrow> nat \<Rightarrow> 'r) \<Rightarrow> nat \<Rightarrow> ('r, 'a) host \<Rightarrow> bool" where
  "advances mk k m \<longleftrightarrow> (\<forall>d p v t. p \<le> length d \<longrightarrow> m (mk d p) = (Inr v, t) \<longrightarrow>
     (\<exists>q. t = mk d q \<and> p + k \<le> q \<and> q \<le> length d))"

named_theorems reader_rules \<open>how the combinators read and advance\<close>

lemma reads_ret [reader_rules]: "reads mk (ret v) [] v"
  by (simp add: reads_def ret_def)

lemma reads_bind [reader_rules]:
  assumes "reads mk m xs v" and "reads mk (f v) ys w"
  shows "reads mk (bindR m f) (xs @ ys) w"
  unfolding reads_def
proof (intro allI impI)
  fix pre zs :: "byte list"
  let ?d = "pre @ xs @ ys @ zs"
  assume "length (pre @ (xs @ ys) @ zs) < usize_limit"
  then have "m (mk ?d (length pre)) = (Inr v, mk ?d (length (pre @ xs)))"
      and "f v (mk ?d (length (pre @ xs))) = (Inr w, mk ?d (length (pre @ xs @ ys)))"
    using assms(1) [unfolded reads_def, rule_format, of pre "ys @ zs"]
      assms(2) [unfolded reads_def, rule_format, of "pre @ xs" zs] by simp_all
  then show "bindR m f (mk (pre @ (xs @ ys) @ zs) (length pre)) = (Inr w, mk (pre @ (xs @ ys) @ zs) (length (pre @ xs @ ys)))"
    by (simp add: bindR_def)
qed

lemma reads_bind_ret: "reads mk m xs v \<Longrightarrow> reads mk (bindR m (\<lambda>v. ret (g v))) xs (g v)"
  using reads_bind [of mk m xs v "\<lambda>v. ret (g v)" "[]" "g v"] by (simp add: reads_ret)

lemma reads_reject: "\<not> c \<Longrightarrow> reads mk n xs v \<Longrightarrow> reads mk (seqR (reject c e) n) xs v"
  by (simp add: reads_def seqR_def bindR_def reject_def ret_def)

lemma reads_run: "reads mk m xs v \<Longrightarrow> length (xs @ ys) < usize_limit \<Longrightarrow> fst (m (mk (xs @ ys) 0)) = Inr v"
  unfolding reads_def by (drule spec [of _ "[]"], drule spec [of _ ys]) simp

lemma advances_ret [reader_rules]: "advances mk 0 (ret v)"
  by (auto simp: advances_def ret_def)

lemma advances_fail [reader_rules]: "advances mk k (fail e)"
  by (simp add: advances_def fail_def)

lemma advances_mono: "advances mk k m \<Longrightarrow> j \<le> k \<Longrightarrow> advances mk j m"
  unfolding advances_def by (meson add_left_mono order_trans)

lemma advances_bind:
  assumes "advances mk j m" and "\<And>v. advances mk k (f v)"
  shows "advances mk (j + k) (bindR m f)"
  unfolding advances_def
proof (intro allI impI)
  fix d p w t
  assume p: "p \<le> length d" and "bindR m f (mk d p) = (Inr w, t)"
  then obtain v s where m: "m (mk d p) = (Inr v, s)" and f: "f v s = (Inr w, t)"
    by (auto simp: bindR_def split: prod.splits sum.splits)
  from assms(1) p m obtain q where q: "s = mk d q" "p + j \<le> q" "q \<le> length d" unfolding advances_def by blast
  with assms(2) f obtain q' where "t = mk d q'" "q + k \<le> q'" "q' \<le> length d" unfolding advances_def by blast
  with q show "\<exists>q. t = mk d q \<and> p + (j + k) \<le> q \<and> q \<le> length d" by auto
qed

lemma advances_bind_head:
  "advances mk k m \<Longrightarrow> (\<And>v. advances mk 0 (f v)) \<Longrightarrow> advances mk k (bindR m f)"
  using advances_bind [of mk k m 0 f] by simp

lemma advances_reject: "advances mk k n \<Longrightarrow> advances mk k (seqR (reject c e) n)"
  by (simp add: advances_def seqR_def bindR_def reject_def ret_def fail_def)

lemma advances_ok_or [reader_rules]: "advances mk 0 (ok_or x e)"
  by (simp add: ok_or_def reader_rules split: option.split)

locale slice_reader =
  fixes tk :: "nat \<Rightarrow> ('r, byte list) host"
    and mk :: "byte list \<Rightarrow> nat \<Rightarrow> 'r"
  assumes take_ok: "p + n < usize_limit \<Longrightarrow> p + n \<le> length d \<Longrightarrow> tk n (mk d p) = (Inr (take n (drop p d)), mk d (p + n))"
    and take_stop: "usize_limit \<le> p + n \<or> length d < p + n \<Longrightarrow> \<exists>e. tk n (mk d p) = (Inl e, mk d p)"
begin

lemma reads_take: "length xs = n \<Longrightarrow> reads mk (tk n) xs xs"
  by (auto simp: reads_def take_ok)

lemma advances_take: "advances mk n (tk n)"
  unfolding advances_def
proof (intro allI impI)
  fix d p v t
  assume "p \<le> length d" and run: "tk n (mk d p) = (Inr v, t)"
  then have "p + n < usize_limit \<and> p + n \<le> length d" using take_stop [of p n d] by (fastforce simp: not_less)
  with run show "\<exists>q. t = mk d q \<and> p + n \<le> q \<and> q \<le> length d" by (auto simp: take_ok)
qed

lemma take_length:
  assumes "tk n (mk d p) = (Inr v, t)"
  shows "length v = n"
proof -
  from assms have "p + n < usize_limit \<and> p + n \<le> length d" using take_stop [of p n d] by (fastforce simp: not_less)
  with assms take_ok [of p n d] show ?thesis by auto
qed

end

definition cbor_at :: "byte list \<Rightarrow> nat \<Rightarrow> cbor_reader" where
  "cbor_at d p = \<lparr>cb_data = d, cb_pos = p\<rparr>"

definition der_at :: "byte list \<Rightarrow> nat \<Rightarrow> der_reader" where
  "der_at d p = \<lparr>dr_data = d, dr_pos = p\<rparr>"

interpretation cbor: slice_reader cbor_take cbor_at
  by unfold_locales (auto simp: cbor_take_def cbor_at_def Let_def)

interpretation der: slice_reader der_take der_at
  by unfold_locales (auto simp: der_take_def der_at_def Let_def)

lemma cbor_at_self: "cbor_at (cb_data r) (cb_pos r) = r"
  by (simp add: cbor_at_def)

lemma cbor_new_at: "cbor_new d = cbor_at d 0"
  by (simp add: cbor_new_def cbor_at_def)

lemma der_new_at: "der_new d = der_at d 0"
  by (simp add: der_new_def der_at_def)

subsection \<open>The map loop\<close>

lemma advances_header: "advances cbor_at 1 read_header"
  unfolding read_header_def Let_def
  by (rule advances_bind_head)
    (auto intro!: cbor.advances_take reader_rules advances_bind_head advances_mono [OF cbor.advances_take])

lemma advances_int: "advances cbor_at 1 read_int"
  unfolding read_int_def
  by (rule advances_bind_head)
    (auto intro!: advances_header reader_rules advances_reject simp del: One_nat_def)

lemma advances_byte_string: "advances cbor_at 1 read_byte_string"
  unfolding read_byte_string_def
  by (rule advances_bind_head)
    (auto intro!: advances_header advances_reject advances_mono [OF cbor.advances_take] simp del: One_nat_def)

lemma advances_field: "advances cbor_at 2 (cose_field f)"
  unfolding cose_field_def
  by (rule advances_bind [of _ 1 _ 1, unfolded one_add_one])
    (auto intro!: advances_int reader_rules advances_bind_head advances_byte_string simp del: One_nat_def)

lemma cose_loop_cap:
  "p \<le> length d \<Longrightarrow> Suc ((length d - p) div 2) \<le> k \<Longrightarrow>
     cose_loop n f (cbor_at d p) = cose_loop (min n k) f (cbor_at d p)"
proof (induction n arbitrary: f p k)
  case 0
  then show ?case by simp
next
  case (Suc n)
  from Suc.prems obtain j where k: "k = Suc j" "(length d - p) div 2 \<le> j" by (cases k) auto
  show ?case
  proof (cases "cose_field f (cbor_at d p)")
    case (Pair r t)
    show ?thesis
    proof (cases r)
      case (Inl e)
      with Pair k show ?thesis by (simp add: bindR_def)
    next
      case (Inr g)
      with Pair Suc.prems advances_field obtain q where q: "t = cbor_at d q" "p + 2 \<le> q" "q \<le> length d"
        unfolding advances_def by blast
      then have "Suc ((length d - q) div 2) \<le> j" using k by linarith
      from Suc.IH [OF q(3) this] show ?thesis using Pair Inr k q by (simp add: bindR_def)
    qed
  qed
qed

text \<open>
  C33. Termination against a hostile header: the entry count of the CBOR map is read from the input
  and may be any 64-bit number, but every entry takes at least two bytes, so the loop behaves
  exactly as one of at most half the remaining input plus one iterations.
\<close>

theorem cose_loop_bounded_by_input:
  assumes "cb_pos r \<le> length (cb_data r)"
  shows "cose_loop n f r = cose_loop (min n (Suc ((length (cb_data r) - cb_pos r) div 2))) f r"
  using cose_loop_cap [OF assms order_refl] by (simp only: cbor_at_self)

theorem cose_loop_bounded_by_input_witness:
  "cose_loop (2 ^ 64 - 1) cose_none (cbor_new [1, 2]) = cose_loop 2 cose_none (cbor_new [1, 2])"
  using cose_loop_bounded_by_input [of "cbor_new [1, 2]" "2 ^ 64 - 1" cose_none]
  by (simp add: cbor_new_def flip: numeral_2_eq_2 del: cose_loop.simps)

subsection \<open>Reading an ES256 key\<close>

lemma reads_header_short:
  assumes "b AND 0x1f \<le> 23"
  shows "reads cbor_at read_header [b] (drop_bit 5 b, ucast (b AND 0x1f))"
proof -
  have "reads cbor_at read_header ([b] @ []) (drop_bit 5 b, ucast (b AND 0x1f))"
    unfolding read_header_def by (rule reads_bind [OF cbor.reads_take]) (simp_all add: assms reads_ret Let_def)
  then show ?thesis by simp
qed

lemma reads_header_byte:
  assumes "b AND 0x1f = 24"
  shows "reads cbor_at read_header [b, n] (drop_bit 5 b, ucast n)"
proof -
  have "reads cbor_at (bindR (cbor_take 1) (\<lambda>bs. ret (drop_bit 5 b, of_nat (be_nat bs)))) ([n] @ []) (drop_bit 5 b, ucast n :: u64)"
    by (rule reads_bind [OF cbor.reads_take]) (simp_all add: be_nat_def reads_ret)
  then have "reads cbor_at read_header ([b] @ [n]) (drop_bit 5 b, ucast n)"
    unfolding read_header_def by (intro reads_bind [OF cbor.reads_take]) (simp_all add: assms Let_def)
  then show ?thesis by simp
qed

lemma reads_int:
  assumes "reads cbor_at read_header xs (major, n)" and "major = 0 \<or> major = 1" and "unat n < 2 ^ 63"
  shows "reads cbor_at read_int xs (if major = 0 then int (unat n) else - 1 - int (unat n))"
proof -
  have "reads cbor_at read_int (xs @ []) (if major = 0 then int (unat n) else - 1 - int (unat n))"
    unfolding read_int_def using assms by (intro reads_bind [OF assms(1)]) (auto intro!: reads_reject reads_ret)
  then show ?thesis by simp
qed

lemma reads_small_int:
  assumes "b AND 0x1f \<le> 23" and "drop_bit 5 b = 0 \<or> drop_bit 5 b = 1"
  shows "reads cbor_at read_int [b] (if drop_bit 5 b = 0 then int (unat (b AND 0x1f)) else - 1 - int (unat (b AND 0x1f)))"
proof -
  have le: "unat (b AND 0x1f) \<le> 23" using assms(1) by (simp add: word_le_nat_alt)
  then have u: "unat (ucast (b AND 0x1f) :: u64) = unat (b AND 0x1f)"
    by (simp add: unsigned_ucast_eq take_bit_nat_eq_self)
  with le have "unat (ucast (b AND 0x1f) :: u64) < 2 ^ 63" by simp
  from reads_int [OF reads_header_short [OF assms(1)] assms(2) this] show ?thesis by (simp only: u)
qed

lemma reads_bytes:
  assumes "length xs = 32"
  shows "reads cbor_at read_byte_string ([0x58, 32] @ xs) xs"
proof -
  have "reads cbor_at read_header [0x58, 32] (2, 32)"
    using reads_header_byte [of "0x58" 32] by simp
  then show ?thesis
    unfolding read_byte_string_def by (rule reads_bind) (simp add: reads_reject cbor.reads_take assms)
qed

lemma reads_fields:
  "reads cbor_at (cose_field f) [1, 2] (f\<lparr>ck_kty := Some 2\<rparr>)"
  "reads cbor_at (cose_field f) [3, 0x26] (f\<lparr>ck_alg := Some (- 7)\<rparr>)"
  "reads cbor_at (cose_field f) [0x20, 1] (f\<lparr>ck_crv := Some 1\<rparr>)"
proof -
  have i: "reads cbor_at read_int [1] 1" "reads cbor_at read_int [2] 2" "reads cbor_at read_int [3] 3"
    "reads cbor_at read_int [0x26] (- 7)" "reads cbor_at read_int [0x20] (- 1)"
    using reads_small_int [of 1] reads_small_int [of 2] reads_small_int [of 3] reads_small_int [of "0x26"]
      reads_small_int [of "0x20"] by simp_all
  have "reads cbor_at (cose_field f) ([1] @ [2]) (f\<lparr>ck_kty := Some 2\<rparr>)"
    unfolding cose_field_def by (intro reads_bind [OF i(1)]) (use reads_bind_ret [OF i(2)] in simp)
  then show "reads cbor_at (cose_field f) [1, 2] (f\<lparr>ck_kty := Some 2\<rparr>)" by simp
  have "reads cbor_at (cose_field f) ([3] @ [0x26]) (f\<lparr>ck_alg := Some (- 7)\<rparr>)"
    unfolding cose_field_def by (intro reads_bind [OF i(3)]) (use reads_bind_ret [OF i(4)] in simp)
  then show "reads cbor_at (cose_field f) [3, 0x26] (f\<lparr>ck_alg := Some (- 7)\<rparr>)" by simp
  have "reads cbor_at (cose_field f) ([0x20] @ [1]) (f\<lparr>ck_crv := Some 1\<rparr>)"
    unfolding cose_field_def by (intro reads_bind [OF i(5)]) (use reads_bind_ret [OF i(1)] in simp)
  then show "reads cbor_at (cose_field f) [0x20, 1] (f\<lparr>ck_crv := Some 1\<rparr>)" by simp
qed

lemma reads_coordinates:
  assumes "length xs = 32"
  shows "reads cbor_at (cose_field f) ([0x21, 0x58, 32] @ xs) (f\<lparr>ck_x := Some xs\<rparr>)"
    and "reads cbor_at (cose_field f) ([0x22, 0x58, 32] @ xs) (f\<lparr>ck_y := Some xs\<rparr>)"
proof -
  have i: "reads cbor_at read_int [0x21] (- 2)" "reads cbor_at read_int [0x22] (- 3)"
    using reads_small_int [of "0x21"] reads_small_int [of "0x22"] by simp_all
  note v = reads_bind_ret [OF reads_bytes [OF assms]]
  have "reads cbor_at (cose_field f) ([0x21] @ ([0x58, 32] @ xs)) (f\<lparr>ck_x := Some xs\<rparr>)"
    unfolding cose_field_def by (intro reads_bind [OF i(1)]) (use v in simp)
  then show "reads cbor_at (cose_field f) ([0x21, 0x58, 32] @ xs) (f\<lparr>ck_x := Some xs\<rparr>)" by simp
  have "reads cbor_at (cose_field f) ([0x22] @ ([0x58, 32] @ xs)) (f\<lparr>ck_y := Some xs\<rparr>)"
    unfolding cose_field_def by (intro reads_bind [OF i(2)]) (use v in simp)
  then show "reads cbor_at (cose_field f) ([0x22, 0x58, 32] @ xs) (f\<lparr>ck_y := Some xs\<rparr>)" by simp
qed

lemma reads_cose_step:
  "reads cbor_at (cose_field f) xs g \<Longrightarrow> reads cbor_at (cose_loop n g) ys h \<Longrightarrow>
     reads cbor_at (cose_loop (Suc n) f) (xs @ ys) h"
  unfolding cose_loop.simps by (rule reads_bind)

lemma reads_cose_loop:
  assumes "length x = 32" and "length y = 32"
  shows "reads cbor_at (cose_loop 5 cose_none)
    ([1, 2] @ [3, 0x26] @ [0x20, 1] @ ([0x21, 0x58, 32] @ x) @ ([0x22, 0x58, 32] @ y) @ [])
    \<lparr>ck_kty = Some 2, ck_alg = Some (- 7), ck_crv = Some 1, ck_x = Some x, ck_y = Some y\<rparr>"
proof -
  have five: "(5 :: nat) = Suc (Suc (Suc (Suc (Suc 0))))" by simp
  have "reads cbor_at (cose_loop 0 f) [] f" for f by (simp add: reads_ret)
  note steps = reads_cose_step [OF reads_fields(1)] reads_cose_step [OF reads_fields(2)] reads_cose_step [OF reads_fields(3)]
    reads_cose_step [OF reads_coordinates(1) [OF assms(1)]] reads_cose_step [OF reads_coordinates(2) [OF assms(2)] this]
  from steps(5) [of "\<lparr>ck_kty = Some 2, ck_alg = Some (- 7), ck_crv = Some 1, ck_x = Some x, ck_y = None\<rparr>"]
  show ?thesis unfolding five by (intro steps(1-4)) (simp add: cose_none_def)
qed

lemma cose_key_decodes:
  assumes "length x = 32" and "length y = 32" and "length rest < 2 ^ 63"
  shows "parse_cose_ec2_public_key (encode_cose_key x y @ rest) = Inr (x, y)"
proof -
  let ?f = "\<lparr>ck_kty = Some 2, ck_alg = Some (- 7), ck_crv = Some 1, ck_x = Some x, ck_y = Some y\<rparr>"
  have "reads cbor_at read_header [0xA5] (5, 5)" using reads_header_short [of "0xA5"] by simp
  then have h: "reads cbor_at read_map_header [0xA5] 5"
    unfolding read_map_header_def by (rule reads_bind [where ys = "[]", simplified]) (simp add: reads_reject reads_ret)
  have c: "reads cbor_at (cose_check ?f) [] (x, y)"
    by (simp add: reads_def cose_check_def assms to_array_32_def COSE_KTY_EC2_def COSE_ALG_ES256_def COSE_CRV_P256_def
        seqR_def bindR_def reject_def ret_def ok_or_def of_result_def)
  have "reads cbor_at (bindR (cose_loop (unat (5 :: u64)) cose_none) cose_check) (drop 1 (encode_cose_key x y)) (x, y)"
    using reads_bind [where f = cose_check, OF reads_cose_loop [OF assms(1,2)] c] by (simp add: encode_cose_key_def)
  from reads_bind [where f = "\<lambda>n. bindR (cose_loop (unat n) cose_none) cose_check", OF h this]
  have "reads cbor_at (bindR read_map_header (\<lambda>n. bindR (cose_loop (unat n) cose_none) cose_check)) (encode_cose_key x y) (x, y)"
    by (simp add: encode_cose_key_def)
  then show ?thesis
    unfolding parse_cose_ec2_public_key_def cbor_new_at
    by (rule reads_run) (use assms in \<open>simp add: encode_cose_key_def usize_limit_def\<close>)
qed

subsection \<open>DER signatures\<close>

lemma high_bit_small:
  assumes "n < 128"
  shows "(of_nat n :: byte) AND 0x80 = 0"
proof -
  have u: "unat (of_nat n :: byte) = n" using assms by (intro unat_of_nat_small) simp
  have "bit (of_nat n :: byte) 7 \<longleftrightarrow> bit (unat (of_nat n :: byte)) 7" by (simp only: bit_unsigned_iff possible_bit_nat simp_thms)
  also have "\<dots> \<longleftrightarrow> False" unfolding u using assms by (simp add: bit_iff_odd)
  finally show ?thesis using and_exp_eq_0_iff_not_bit [of "of_nat n :: byte" 7] by simp
qed

lemma reads_length_short:
  assumes "n < 128"
  shows "reads der_at read_length [of_nat n] (of_nat n)"
proof -
  have "(ucast (of_nat n :: byte) :: u64) = of_nat n" using assms by (simp add: unsigned_of_nat take_bit_nat_eq_self)
  with assms have "reads der_at read_length ([of_nat n] @ []) (of_nat n)"
    unfolding read_length_def by (intro reads_bind [OF der.reads_take]) (simp_all add: high_bit_small reads_ret)
  then show ?thesis by simp
qed

lemma reads_expect_tag:
  assumes "n < 128"
  shows "reads der_at (expect_tag t) [t, of_nat n] ()"
proof -
  have "reads der_at (expect_tag t) ([t] @ [of_nat n]) ()"
    unfolding expect_tag_def
    by (intro reads_bind [OF der.reads_take] reads_reject reads_bind_ret [OF reads_length_short [OF assms]]) simp_all
  then show ?thesis by simp
qed

lemma reads_integer:
  assumes "length bs < 128"
  shows "reads der_at read_integer (2 # of_nat (length bs) # bs) (strip_guard bs)"
proof -
  have "unat (of_nat (length bs) :: u64) = length bs" using assms by (intro unat_of_nat_small) simp
  then have "reads der_at (der_take (unat (of_nat (length bs) :: u64))) bs bs" by (simp add: der.reads_take)
  from reads_bind [where f = "\<lambda>n. bindR (der_take (unat n)) (\<lambda>bytes. ret (strip_guard bytes))",
      OF reads_length_short [OF assms] reads_bind_ret [OF this]]
  have "reads der_at read_integer ([2] @ [of_nat (length bs)] @ bs) (strip_guard bs)"
    unfolding read_integer_def by (intro reads_bind [OF der.reads_take]) (simp_all add: reads_reject)
  then show ?thesis by simp
qed

lemma trim_integer_pad: "\<exists>k. v = replicate k 0 @ trim_integer v"
proof (induction v rule: trim_integer.induct)
  case (1 a b bs)
  show ?case
  proof (cases "a = 0 \<and> b AND 0x80 = 0")
    case True
    with 1 obtain k where "b # bs = replicate k 0 @ trim_integer (b # bs)" by auto
    with True have "a # b # bs = replicate (Suc k) 0 @ trim_integer (a # b # bs)" by simp
    then show ?thesis by blast
  next
    case False
    then show ?thesis by (intro exI [of _ 0]) auto
  qed
qed auto

lemma strip_guard_pad: "\<exists>k. bs = replicate k 0 @ strip_guard bs"
  by (auto simp: strip_guard_def split: list.split intro: exI [of _ 0] exI [of _ 1])

lemma trim_integer_Nil [simp]: "trim_integer v = [] \<longleftrightarrow> v = []"
  by (induction v rule: trim_integer.induct) auto

lemma encoded_integer:
  assumes "length v = 32"
  obtains bs where "encode_der_integer v = 2 # of_nat (length bs) # bs" and "length bs \<le> 33"
    and "left_pad_32 (strip_guard bs) = Inr v"
proof -
  let ?t = "trim_integer v"
  define bs where "bs = (if hd ?t AND 0x80 \<noteq> 0 then 0 # ?t else ?t)"
  obtain k where k: "v = replicate k 0 @ ?t" using trim_integer_pad by blast
  have "length (replicate k (0 :: byte) @ ?t) = 32" using k assms by simp
  then have t: "length ?t \<le> 32" by simp
  obtain j where j: "v = replicate j 0 @ strip_guard bs"
  proof (cases "hd ?t AND 0x80 = 0")
    case True
    obtain i where "?t = replicate i 0 @ strip_guard ?t" using strip_guard_pad by blast
    with k have "v = replicate (k + i) 0 @ strip_guard ?t" by (simp add: replicate_add)
    with True show ?thesis by (intro that) (simp add: bs_def)
  next
    case False
    have "?t \<noteq> []" using assms by auto
    then have "strip_guard (0 # ?t) = ?t" using False by (cases ?t) (auto simp: strip_guard_def)
    with k False show ?thesis by (intro that [of k]) (simp add: bs_def)
  qed
  have len: "length v = j + length (strip_guard bs)" by (subst j) simp
  then have "replicate (32 - length (strip_guard bs)) 0 @ strip_guard bs = v" using assms j by simp
  then have "left_pad_32 (strip_guard bs) = Inr v" using len assms by (simp add: left_pad_32_def)
  with t show ?thesis by (intro that [of bs]) (simp_all add: bs_def encode_der_integer_def Let_def)
qed

lemma der_signature_decodes:
  assumes "length r = 32" and "length s = 32"
  shows "der_ecdsa_signature_to_raw (encode_der_signature r s) = Inr (r @ s)"
proof -
  obtain a where a: "encode_der_integer r = 2 # of_nat (length a) # a" "length a \<le> 33" "left_pad_32 (strip_guard a) = Inr r"
    using encoded_integer [OF assms(1)] .
  obtain b where b: "encode_der_integer s = 2 # of_nat (length b) # b" "length b \<le> 33" "left_pad_32 (strip_guard b) = Inr s"
    using encoded_integer [OF assms(2)] .
  let ?body = "encode_der_integer r @ encode_der_integer s"
  let ?f = "\<lambda>r s. bindR (of_result (left_pad_32 r)) (\<lambda>r32. bindR (of_result (left_pad_32 s)) (\<lambda>s32. ret (r32 @ s32)))"
  have ra: "reads der_at read_integer (encode_der_integer r) (strip_guard a)" and
       rb: "reads der_at read_integer (encode_der_integer s) (strip_guard b)"
    using a b by (simp_all add: reads_integer)
  have "reads der_at (?f (strip_guard a) (strip_guard b)) [] (r @ s)"
    by (simp add: reads_def bindR_def of_result_def ret_def a b)
  from reads_bind [where f = "?f (strip_guard a)", OF rb this]
  have "reads der_at (bindR read_integer (?f (strip_guard a))) (encode_der_integer s) (r @ s)" by simp
  from reads_bind [where f = "\<lambda>r. bindR read_integer (?f r)", OF ra this]
  have body: "reads der_at (bindR read_integer (\<lambda>r. bindR read_integer (?f r))) ?body (r @ s)" .
  have "length ?body < 128" using a b by simp
  from reads_bind [where f = "\<lambda>_. bindR read_integer (\<lambda>r. bindR read_integer (?f r))", OF reads_expect_tag [OF this] body]
  have "reads der_at (seqR (expect_tag 0x30) (bindR read_integer (\<lambda>r. bindR read_integer (?f r)))) (encode_der_signature r s) (r @ s)"
    by (simp add: seqR_def encode_der_signature_def Let_def)
  from reads_run [OF this, of "[]"] \<open>length ?body < 128\<close> show ?thesis
    by (simp add: der_ecdsa_signature_to_raw_def der_new_at encode_der_signature_def Let_def usize_limit_def)
qed

text \<open>
  C31. Round trip of signatures: a DER \<open>SEQUENCE\<close> of the minimal \<open>INTEGER\<close> encodings of two
  32-byte coordinates decodes to exactly these coordinates in the fixed-width form, whatever their
  leading zero bytes and their sign bits are.
\<close>

theorem der_signature_round_trip:
  assumes "length r = 32" and "length s = 32"
  shows "der_ecdsa_signature_to_raw (encode_der_signature r s) = Inr (r @ s)"
  using assms by (rule der_signature_decodes)

theorem der_signature_round_trip_witness:
  "der_ecdsa_signature_to_raw (encode_der_signature (replicate 31 0 @ [1]) (replicate 32 0x90)) = Inr (replicate 31 0 @ [1] @ replicate 32 0x90)"
  using der_signature_round_trip [of "replicate 31 0 @ [1]" "replicate 32 0x90"] by simp

lemma hex_round_trip [simp]: "hex_decode (hex_encode bs) = Inr bs"
proof -
  have "hex_encode bs = encode_hex bs" by (simp add: hex_encode_def encode_hex_def)
  then show ?thesis using decode_pairs_encode_hex [OF HEX_nibble(2), of bs] by (simp add: hex_decode_def)
qed

lemma get_range_mid: "length pre = a \<Longrightarrow> a + length mid = b \<Longrightarrow> get_range (pre @ mid @ suf) a b = Some mid"
  by (auto simp: get_range_def)

text \<open>
  C32. Parsing of a new credential: from authenticator data laid out as WebAuthn specifies it (a hash of 32
  bytes, the flags with the attested-credential bit set, four bytes of counter, 16 of the
  authenticator's identifier, a credential id of at most 65535 bytes under its length in network order,
  and the COSE key with two coordinates of 32 bytes), the host takes exactly the credential id and the
  two coordinates. The other fields, and fewer than \<open>2 ^ 63\<close> bytes of extension data after the key, do
  not matter.
\<close>

theorem attested_credential_decodes:
  assumes "length rp_id_hash = 32" and "flags AND FLAG_ATTESTED_CREDENTIAL_DATA \<noteq> 0" and "length sign_count = 4"
    and "length aaguid = 16" and "length credential_id < 2 ^ 16" and "length x = 32" and "length y = 32"
    and "length extensions < 2 ^ 63"
  shows "parse_attested_credential (rp_id_hash @ [flags] @ sign_count @ aaguid @
           rev (u16_to_le (of_nat (length credential_id))) @ credential_id @ encode_cose_key x y @ extensions)
         = Inr (credential_id, x, y)"
proof -
  let ?l = "rev (u16_to_le (of_nat (length credential_id)))"
  let ?k = "encode_cose_key x y @ extensions"
  let ?d = "rp_id_hash @ [flags] @ sign_count @ aaguid @ ?l @ credential_id @ ?k"
  have flag: "?d ! 32 = flags" using assms(1) by (simp add: nth_append)
  have len: "unat (of_nat (be_nat ?l) :: u16) = length credential_id"
    using u16_le.dec_enc [of "of_nat (length credential_id)"] assms(5)
    by (simp add: be_nat_def u16_from_le_def unat_of_nat)
  have r1: "get_range ?d 53 55 = Some ?l"
    using get_range_mid [of "rp_id_hash @ [flags] @ sign_count @ aaguid" 53 ?l 55 "credential_id @ ?k"] assms by simp
  have r2: "get_range ?d 55 (55 + length credential_id) = Some credential_id"
    using get_range_mid [of "rp_id_hash @ [flags] @ sign_count @ aaguid @ ?l" 55 credential_id _ ?k] assms by simp
  have r3: "get_range ?d (55 + length credential_id) (length ?d) = Some ?k"
    using get_range_mid [of "rp_id_hash @ [flags] @ sign_count @ aaguid @ ?l @ credential_id" _ ?k _ "[]"] assms by simp
  have n: "\<not> length ?d < 37" using assms by simp
  show ?thesis
    unfolding parse_attested_credential_def flag Let_def
    using assms(2) n r1 r2 r3 cose_key_decodes [OF assms(6-8)] len by simp
qed

theorem attested_credential_decodes_witness:
  "parse_attested_credential (replicate 32 0xAA @ [0x40] @ replicate 4 0 @ replicate 16 0xBB @
     rev (u16_to_le (of_nat (length [1, 2 :: byte]))) @ [1, 2] @ encode_cose_key (replicate 32 0x11) (replicate 32 0x22) @ [])
   = Inr ([1, 2], replicate 32 0x11, replicate 32 0x22)"
  by (rule attested_credential_decodes) (simp_all add: FLAG_ATTESTED_CREDENTIAL_DATA_def)

subsection \<open>What the DER reader does not check\<close>

text \<open>\<open>extends mk m\<close>: a success does not depend on the bytes after the slice.\<close>

definition extends :: "(byte list \<Rightarrow> nat \<Rightarrow> 'r) \<Rightarrow> ('r, 'a) host \<Rightarrow> bool" where
  "extends mk m \<longleftrightarrow> (\<forall>d p v t us. m (mk d p) = (Inr v, t) \<longrightarrow>
     (\<exists>q. t = mk d q \<and> m (mk (d @ us) p) = (Inr v, mk (d @ us) q)))"

lemma extends_ret: "extends mk (ret v)"
  by (auto simp: extends_def ret_def)

lemma extends_of_result: "extends mk (of_result v)"
  by (auto simp: extends_def of_result_def)

lemma extends_ok_or: "extends mk (ok_or v e)"
  by (auto simp: extends_def ok_or_def ret_def fail_def split: option.split)

lemma extends_reject: "extends mk (reject c e)"
  by (auto simp: extends_def reject_def ret_def fail_def)

lemma extends_bind:
  assumes "extends mk m" and "\<And>v. extends mk (f v)"
  shows "extends mk (bindR m f)"
  unfolding extends_def
proof (intro allI impI)
  fix d p w t us
  assume "bindR m f (mk d p) = (Inr w, t)"
  then obtain v s where m: "m (mk d p) = (Inr v, s)" and f: "f v s = (Inr w, t)"
    by (auto simp: bindR_def split: prod.splits sum.splits)
  from assms(1) m obtain q where q: "s = mk d q" "m (mk (d @ us) p) = (Inr v, mk (d @ us) q)"
    unfolding extends_def by blast
  with assms(2) f obtain q' where "t = mk d q'" "f v (mk (d @ us) q) = (Inr w, mk (d @ us) q')"
    unfolding extends_def by blast
  with q show "\<exists>q. t = mk d q \<and> bindR m f (mk (d @ us) p) = (Inr w, mk (d @ us) q)" by (auto simp: bindR_def)
qed

lemma extends_seq: "extends mk m \<Longrightarrow> extends mk n \<Longrightarrow> extends mk (seqR m n)"
  unfolding seqR_def by (rule extends_bind)

lemma extends_der_take: "extends der_at (der_take n)"
  by (auto simp: extends_def der_take_def der_at_def Let_def split: if_splits)

lemmas extends_rules = extends_ret extends_of_result extends_ok_or extends_reject extends_bind extends_seq extends_der_take

lemma extends_length: "extends der_at read_length"
  by (auto simp: read_length_def Let_def intro!: extends_rules)

lemma extends_integer: "extends der_at read_integer"
  by (auto simp: read_integer_def intro!: extends_rules extends_length)

lemma extends_tag: "extends der_at (expect_tag t)"
  by (auto simp: expect_tag_def intro!: extends_rules extends_length)

text \<open>
  The DER decoder does not check that the \<open>SEQUENCE\<close> ends where its length says or that
  the input ends there: any bytes may follow an accepted signature, and the result is the same. The
  module comment says that anything but the exact shape is rejected.
\<close>

theorem der_trailing_bytes_ignored:
  assumes "der_ecdsa_signature_to_raw der = Inr raw"
  shows "der_ecdsa_signature_to_raw (der @ us) = Inr raw"
proof -
  let ?m = "seqR (expect_tag 0x30) (bindR read_integer (\<lambda>r. bindR read_integer (\<lambda>s. bindR (of_result (left_pad_32 r))
    (\<lambda>r32. bindR (of_result (left_pad_32 s)) (\<lambda>s32. ret (r32 @ s32))))))"
  have "extends der_at ?m" by (intro extends_rules extends_tag extends_integer)
  moreover obtain t where "?m (der_at der 0) = (Inr raw, t)"
    using assms by (metis der_ecdsa_signature_to_raw_def der_new_at prod.collapse)
  ultimately have "\<exists>q. ?m (der_at (der @ us) 0) = (Inr raw, der_at (der @ us) q)"
    unfolding extends_def by blast
  then show ?thesis by (auto simp: der_ecdsa_signature_to_raw_def der_new_at)
qed

theorem der_trailing_bytes_ignored_witness:
  "der_ecdsa_signature_to_raw (encode_der_signature (replicate 32 1) (replicate 32 2) @ [0xFF, 0xFF]) = Inr (replicate 32 1 @ replicate 32 2)"
  using der_trailing_bytes_ignored [OF der_signature_decodes, of "replicate 32 1" "replicate 32 2" "[0xFF, 0xFF]"] by simp

lemma le_nat_append: "le_nat (xs @ ys) = le_nat xs + le_nat ys * 256 ^ length xs"
  by (induction xs) (simp_all add: algebra_simps)

lemma push_bit_8: "push_bit 8 (acc :: u64) = of_nat (256 * unat acc)"
  by (simp add: push_bit_eq_mult)

text \<open>
  The length of a long form is the big-endian value of its bytes modulo \<open>2 ^ 64\<close>: the loop's
  overflow error is never returned, because the shift drops the high bits without reporting it and
  leaves room for the byte that is added.
\<close>

theorem der_length_wraps:
  "der_length_loop acc bs = Some (of_nat (unat acc * 256 ^ length bs + be_nat bs))"
proof (induction bs arbitrary: acc)
  case Nil
  then show ?case by (simp add: be_nat_def)
next
  case (Cons b bs)
  have b: "unat b < 256" using unat_lt2p [of b] by simp
  have ub: "unat (ucast b :: u64) = unat b" using b by (simp add: unsigned_ucast_eq take_bit_nat_eq_self)
  have sh: "unat (push_bit 8 acc) = 256 * unat acc mod 2 ^ 64" by (simp only: push_bit_8 unat_of_nat) simp
  have "256 * unat acc mod 2 ^ 64 = 256 * (unat acc mod 2 ^ 56)" by (simp add: mult_mod_right)
  moreover have "unat acc mod 2 ^ 56 < 2 ^ 56" by simp
  ultimately have "unat (push_bit 8 acc) + unat (ucast b :: u64) < 2 ^ 64" unfolding sh ub using b by simp
  then have ca: "checked_add (push_bit 8 acc) (ucast b) = Some (push_bit 8 acc + ucast b)" by (simp add: checked_add_def)
  have v: "push_bit 8 acc + ucast b = (of_nat (256 * unat acc + unat b) :: u64)"
    by (simp add: push_bit_8)
  have be: "be_nat (b # bs) = unat b * 256 ^ length bs + be_nat bs"
    by (simp add: be_nat_def le_nat_append)
  show ?case
    by (simp add: ca Cons v be unat_of_nat algebra_simps) (simp add: push_bit_eq_mult)
qed

end
