(* ===== verification/Tpm_Authorizer.thy ===== *)
theory Tpm_Authorizer
  imports Tpm_Kek Webauthn_Codec Snapshot_Protocol
begin

text \<open>
  \<open>crypto/authorizer/linux.rs\<close>: the user-verified signing authority on Linux, a P-256 key inside
  the TPM whose authorisation value is the user's PIN. The registry file keeps the wrapped key and
  its public point; the PIN is asked for by an external program. The TPM commands, the programs, the
  P-256 verifier, SHA-256 and the JSON text of the registry are parameters. The operations are
  assembled into the \<open>authorizer\<close> interface of \<open>crypto/capability.rs\<close> at the end.
\<close>

subsection \<open>Data\<close>

definition MINIMUM_PIN_LENGTH :: nat where "MINIMUM_PIN_LENGTH = 4"

definition PROMPT_TITLE :: string where "PROMPT_TITLE = ''FURSOY Vault''"

definition LOW_ATTEMPT_WARNING :: u32 where "LOW_ATTEMPT_WARNING = 3"

record credential_registry =
  rg_version :: u16
  rg_private_hex :: string
  rg_public_hex :: string
  rg_public_key_x_hex :: string
  rg_public_key_y_hex :: string

record lockout_status =
  lk_locked :: bool
  lk_remaining :: "u32 option"

datatype prompt_tool = KDialog | Zenity | SystemdAskPassword

text \<open>The kinds of a TPM error the code tells apart, and the signatures the TPM returns.\<close>

datatype tss_error = TssAuthFail | TssLockout | TssOther

datatype tpm_signature = SigEcDsa "byte list" "byte list" | SigOther

datatype property_tag = LockoutCounter | MaxAuthFail

record auth_ext = tpm_ext +
  ae_env_set :: "string \<Rightarrow> bool"
  ae_output :: "command \<Rightarrow> world \<Rightarrow> command_output \<times> world"
  ae_property :: "property_tag \<Rightarrow> world \<Rightarrow> u32 option \<times> world"
  ae_auth :: "byte list \<Rightarrow> bool"
  ae_sha256 :: "byte list \<Rightarrow> byte list"
  ae_digest :: "byte list \<Rightarrow> bool"
  ae_null_hashcheck :: "unit fcp_result"
  ae_set_auth :: "handle \<Rightarrow> byte list \<Rightarrow> (world, unit) host"
  ae_sign :: "handle \<Rightarrow> byte list \<Rightarrow> (world, tss_error, tpm_signature) rm"
  ae_sec1_key :: "byte list \<Rightarrow> bool"
  ae_p256_signature :: "byte list \<Rightarrow> bool"
  ae_p256_verify :: "byte list \<Rightarrow> byte list \<Rightarrow> byte list \<Rightarrow> bool"
  ae_registry_json :: "credential_registry codec"

subsection \<open>Asking for the PIN\<close>

fun tool_command :: "prompt_tool \<Rightarrow> string \<Rightarrow> command" where
  "tool_command KDialog prompt = (''kdialog'', [''--title'', PROMPT_TITLE, ''--password'', prompt])"
| "tool_command Zenity prompt = (''zenity'', [''--password'', ''--title'', PROMPT_TITLE])"
| "tool_command SystemdAskPassword prompt = (''systemd-ask-password'',
     [''--no-tty'', ''--timeout=120'', ''--icon=security-high'', ''--id=fursoy-vault'', prompt])"

text \<open>Starting the program and collecting its exit status and output; the PIN is kept as bytes.\<close>

definition run_command :: "auth_ext \<Rightarrow> command \<Rightarrow> command_output tpm_m" where
  "run_command x c = bindR (on_snd (\<lambda>w. case ae_output x c w of (r, w') \<Rightarrow> (Inr r, w'))) (\<lambda>r.
     seqR (modify (\<lambda>(l, w). (l\<lparr>sl_commands := (c, r) # sl_commands l\<rparr>, w))) (ret r))"

definition trim_newlines :: "byte list \<Rightarrow> byte list" where
  "trim_newlines bs = rev (dropWhile (\<lambda>b. b = 10 \<or> b = 13) (rev bs))"

text \<open>\<open>Inr (Some pin)\<close>, \<open>Inr None\<close> when the user declines, \<open>Inl ()\<close> when the tool is unusable.\<close>

definition tool_answer :: "command_output \<Rightarrow> unit + byte list option" where
  "tool_answer output = (case output of
        None \<Rightarrow> Inl ()
      | Some (success, stdout) \<Rightarrow>
          if \<not> success then Inr None
          else if \<not> valid_utf8 stdout then Inl ()
          else (let pin = trim_newlines stdout in if pin = [] then Inr None else Inr (Some pin)))"

definition ask :: "auth_ext \<Rightarrow> prompt_tool \<Rightarrow> string \<Rightarrow> (unit + byte list option) tpm_m" where
  "ask x tool prompt = bindR (run_command x (tool_command tool prompt)) (\<lambda>output. ret (tool_answer output))"

definition cancelled :: fcp_error where
  "cancelled = Capability ''the PIN prompt was dismissed''"

text \<open>The loop over the graphical tools; \<open>None\<close> when none of them is usable.\<close>

fun ask_tools :: "auth_ext \<Rightarrow> string \<Rightarrow> prompt_tool list \<Rightarrow> byte list option tpm_m" where
  "ask_tools x prompt [] = ret None"
| "ask_tools x prompt (tool # tools) = bindR (ask x tool prompt) (\<lambda>r. case r of
       Inr answer \<Rightarrow> (case answer of Some pin \<Rightarrow> ret (Some pin) | None \<Rightarrow> fail cancelled)
     | Inl u \<Rightarrow> ask_tools x prompt tools)"

definition graphical :: "auth_ext \<Rightarrow> bool" where
  "graphical x \<longleftrightarrow> ae_env_set x ''WAYLAND_DISPLAY'' \<or> ae_env_set x ''DISPLAY''"

definition prompt_pin :: "auth_ext \<Rightarrow> string \<Rightarrow> byte list tpm_m" where
  "prompt_pin x prompt =
     bindR (if graphical x then ask_tools x prompt [KDialog, Zenity] else ret None) (\<lambda>found. case found of
       Some pin \<Rightarrow> ret pin
     | None \<Rightarrow> bindR (ask x SystemdAskPassword prompt) (\<lambda>r. case r of
           Inr answer \<Rightarrow> (case answer of Some pin \<Rightarrow> ret pin | None \<Rightarrow> fail cancelled)
         | Inl u \<Rightarrow> fail (Capability (if graphical x then ''no PIN prompt is available: install kdialog or zenity''
             else ''no PIN prompt is available on this system''))))"

definition auth_from :: "auth_ext \<Rightarrow> byte list \<Rightarrow> byte list fcp_result" where
  "auth_from x pin = (if ae_auth x pin then Inr pin else Inl (Capability ''the PIN is too long for this TPM''))"

subsection \<open>Lockout\<close>

definition read_property :: "auth_ext \<Rightarrow> property_tag \<Rightarrow> u32 option tpm_m" where
  "read_property x t = on_snd (\<lambda>w. case ae_property x t w of (r, w') \<Rightarrow> (Inr r, w'))"

definition lockout_state :: "auth_ext \<Rightarrow> lockout_status tpm_m" where
  "lockout_state x = seqR (open_context (tpm_ext.truncate x))
    (bindR (read_property x LockoutCounter) (\<lambda>counter.
     bindR (read_property x MaxAuthFail) (\<lambda>maximum.
     ret (case (counter, maximum) of
        (Some c, Some m) \<Rightarrow> \<lparr>lk_locked = m \<le> c, lk_remaining = Some (saturating_sub m c)\<rparr>
      | _ \<Rightarrow> \<lparr>lk_locked = False, lk_remaining = None\<rparr>))))"

text \<open>The number is shown only up to \<open>LOW_ATTEMPT_WARNING\<close>, so it is one digit.\<close>

definition unlock_prompt :: "lockout_status \<Rightarrow> string" where
  "unlock_prompt lockout =
     (let base = ''Enter your FURSOY Vault PIN to unlock this session'' in
      case lk_remaining lockout of
        Some remaining \<Rightarrow> if remaining \<le> LOW_ATTEMPT_WARNING
          then base @ [CHR 0x0A, CHR 0x0A] @ ''Attempts left before the security chip locks: '' @ [char_of (48 + unat remaining)]
          else base
      | None \<Rightarrow> base)"

subsection \<open>Keys\<close>

definition unusable :: fcp_error where
  "unusable = Capability ''tpm_credential_unusable''"

definition assert_requires_auth :: "tpm_public \<Rightarrow> unit fcp_result" where
  "assert_requires_auth public =
     (if kt_algorithm (tp_template public) \<noteq> AlgEcc then Inl unusable
      else if \<not> oa_user_with_auth (kt_attributes (tp_template public))
        then Inl (Capability ''stored credential does not require a PIN; refusing to sign'')
      else if \<not> oa_sign_encrypt (kt_attributes (tp_template public)) then Inl unusable
      else Inr ())"

definition with_key :: "auth_ext \<Rightarrow> credential_registry \<Rightarrow> (handle \<Rightarrow> 'a tpm_m) \<Rightarrow> 'a tpm_m" where
  "with_key x registry operation =
     bindR (of_result (hex_decode (rg_private_hex registry))) (\<lambda>private.
     seqR (reject (\<not> te_private x private) unusable)
    (bindR (of_result (hex_decode (rg_public_hex registry))) (\<lambda>public_bytes.
     bindR (ok_or (te_unmarshall x public_bytes) unusable) (\<lambda>public.
     seqR (of_result (assert_requires_auth public))
          (with_loaded (tpm_ext.truncate x) (\<lambda>_. unusable) private public operation)))))"

definition signing_key_template :: key_template where
  "signing_key_template = \<lparr>kt_algorithm = AlgEcc,
     kt_attributes = \<lparr>oa_fixed_tpm = True, oa_fixed_parent = True, oa_sensitive_data_origin = True,
       oa_user_with_auth = True, oa_restricted = False, oa_decrypt = False, oa_sign_encrypt = True, oa_no_da = False\<rparr>,
     kt_scheme = SchemeEcDsaSha256, kt_is_signing_key = True, kt_is_decryption_key = False, kt_restricted = False,
     kt_symmetric_aes_128_cfb = False\<rparr>"

definition pad32 :: "byte list \<Rightarrow> byte list" where
  "pad32 bytes = replicate (32 - length bytes) 0 @ bytes"

fun raw_signature :: "tpm_signature \<Rightarrow> byte list fcp_result" where
  "raw_signature (SigEcDsa r s) = Inr (pad32 r @ pad32 s)"
| "raw_signature SigOther = Inl (Crypto ''TPM returned a non-ECDSA signature'')"

definition public_key_point :: "tpm_public \<Rightarrow> (byte list \<times> byte list) fcp_result" where
  "public_key_point public =
     (if kt_algorithm (tp_template public) = AlgEcc then Inr (pad32 (tp_x public), pad32 (tp_y public))
      else Inl (Crypto ''created credential is not an ECC key''))"

subsection \<open>Signing and verifying\<close>

fun signing_failure :: "tss_error \<Rightarrow> fcp_error" where
  "signing_failure TssAuthFail = UserActionable ''pin_incorrect''"
| "signing_failure TssLockout = UserActionable ''pin_locked_out''"
| "signing_failure TssOther = Capability ''user verification failed''"

definition verify_signature :: "auth_ext \<Rightarrow> credential_registry \<Rightarrow> signed_capability \<Rightarrow> unit fcp_result" where
  "verify_signature x registry cap =
     (case validate_shape (sc_payload cap) of Inl e \<Rightarrow> Inl e | Inr _ \<Rightarrow>
      if sc_proof_context cap \<noteq> [] then Inl (Capability ''capability carries proof context this backend never produces'')
      else case hex_decode (rg_public_key_x_hex registry) of Inl e \<Rightarrow> Inl e | Inr px \<Rightarrow>
      (case hex_decode (rg_public_key_y_hex registry) of Inl e \<Rightarrow> Inl e | Inr py \<Rightarrow>
       let sec1 = [0x04] @ px @ py in
       if \<not> ae_sec1_key x sec1 then Inl (Capability ''stored public key is malformed'')
       else if \<not> ae_p256_signature x (sc_signature cap) then Inl (Capability ''signature is not a P-256 signature'')
       else if \<not> ae_p256_verify x sec1 (canonical_bytes (sc_payload cap)) (sc_signature cap)
         then Inl (Capability ''capability signature did not verify'')
       else Inr ()))"

text \<open>The closure \<open>sign\<close> passes to \<open>with_key\<close>.\<close>

definition sign_with_pin :: "auth_ext \<Rightarrow> byte list \<Rightarrow> byte list \<Rightarrow> handle \<Rightarrow> byte list tpm_m" where
  "sign_with_pin x pin message key =
     bindR (of_result (auth_from x pin)) (\<lambda>auth.
     seqR (on_snd (ae_set_auth x key auth))
    (let digest = ae_sha256 x message in
     seqR (reject (\<not> ae_digest x digest) (Crypto ''capability digest is not a valid TPM digest''))
    (seqR (of_result (ae_null_hashcheck x))
    (bindR (map_err signing_failure (on_snd (ae_sign x key digest))) (\<lambda>signature.
     of_result (raw_signature signature))))))"

definition sign :: "auth_ext \<Rightarrow> credential_registry \<Rightarrow> capability_payload \<Rightarrow> signed_capability tpm_m" where
  "sign x registry payload =
     seqR (of_result (validate_shape payload))
    (let message = canonical_bytes payload in
     bindR (lockout_state x) (\<lambda>lockout.
     seqR (reject (lk_locked lockout) (UserActionable ''pin_locked_out''))
    (bindR (prompt_pin x (unlock_prompt lockout)) (\<lambda>pin.
     bindR (with_key x registry (sign_with_pin x pin message)) (\<lambda>signature.
       let signed = \<lparr>sc_payload = payload, sc_signature = signature, sc_proof_context = []\<rparr> in
     seqR (of_result (verify_signature x registry signed)) (ret signed))))))"

subsection \<open>Enrolment and the registry\<close>

definition check_registry :: "auth_ext \<Rightarrow> credential_registry \<Rightarrow> byte list \<Rightarrow> unit fcp_result" where
  "check_registry x registry persisted = (case json_from_slice (ae_registry_json x) persisted of
       Inl e \<Rightarrow> Inl e
     | Inr parsed \<Rightarrow> if rg_private_hex parsed \<noteq> rg_private_hex registry
         then Inl (Format ''credential registry failed to round-trip'') else Inr ())"

definition enroll_credential :: "auth_ext \<Rightarrow> path \<Rightarrow> credential_registry tpm_m" where
  "enroll_credential x credential_path =
     bindR (prompt_pin x ''Choose a PIN for FURSOY Vault (at least 4 characters)'') (\<lambda>pin.
     seqR (reject (chars_count pin < MINIMUM_PIN_LENGTH) (UserActionable ''pin_too_short''))
    (bindR (prompt_pin x ''Enter the same PIN again to confirm'') (\<lambda>confirmation.
     seqR (reject (pin \<noteq> confirmation) (UserActionable ''pin_mismatch''))
    (with_parent (tpm_ext.truncate x) (\<lambda>parent.
       bindR (of_result (auth_from x pin)) (\<lambda>auth.
       bindR (of_result (te_build x signing_key_template)) (\<lambda>template.
       bindR (on_snd (te_create x parent template (Some auth))) (\<lambda>(out_private, out_public).
       bindR (of_result (public_key_point out_public)) (\<lambda>(px, py).
       bindR (of_result (te_marshall x out_public)) (\<lambda>public_bytes.
         let registry = \<lparr>rg_version = 1, rg_private_hex = hex_encode out_private, rg_public_hex = hex_encode public_bytes,
               rg_public_key_x_hex = hex_encode px, rg_public_key_y_hex = hex_encode py\<rparr> in
       bindR (of_result (json_to_vec (ae_registry_json x) registry)) (\<lambda>bytes.
       seqR (on_snd (write_verified credential_path bytes (check_registry x registry))) (ret registry))))))))))))"

definition load_registry :: "auth_ext \<Rightarrow> path \<Rightarrow> credential_registry tpm_m" where
  "load_registry x path = bindR (on_snd (fs_read path)) (\<lambda>bytes.
     bindR (of_result (json_from_slice (ae_registry_json x) bytes)) (\<lambda>registry.
     seqR (reject (rg_version registry \<noteq> 1) (Format ''unsupported credential registry version'')) (ret registry)))"

definition quarantine_registry :: "path \<Rightarrow> unit tpm_m" where
  "quarantine_registry path =
     bindR (ok_or (path_parent path) (Format ''credential registry has no parent'')) (\<lambda>parent.
     bindR (on_snd new_v4) (\<lambda>i.
     on_snd (fs_rename path (parent @ [Name (''authorizer-credential.retired-'' @ uuid_text i @ ''.json'')]))))"

definition open_existing :: "auth_ext \<Rightarrow> path \<Rightarrow> credential_registry tpm_m" where
  "open_existing x credential_path = load_registry x credential_path"

definition open_or_create :: "auth_ext \<Rightarrow> path \<Rightarrow> credential_registry tpm_m" where
  "open_or_create x credential_path =
     bindR (on_snd (fs_exists credential_path)) (\<lambda>present.
     if present then
       bindR (attempt (load_registry x credential_path)) (\<lambda>r. case r of
           Inr registry \<Rightarrow> ret registry
         | Inl e \<Rightarrow> seqR (quarantine_registry credential_path) (enroll_credential x credential_path))
     else enroll_credential x credential_path)"

text \<open>\<open>None\<close> is \<open>Ok(false)\<close>: the authorizer is left as it was.\<close>

definition recover_if_credential_vanished :: "auth_ext \<Rightarrow> fcp_error \<Rightarrow> path \<Rightarrow> credential_registry option tpm_m" where
  "recover_if_credential_vanished x error credential_path =
     (if error \<noteq> unusable then ret None
      else seqR (quarantine_registry credential_path)
          (bindR (enroll_credential x credential_path) (\<lambda>registry. ret (Some registry))))"

text \<open>The interface of \<open>crypto/capability.rs\<close> on this backend.\<close>

definition linux_authorizer :: "auth_ext \<Rightarrow> credential_registry \<Rightarrow> authorizer" where
  "linux_authorizer x registry = \<lparr>auth_sign = (\<lambda>payload. run_logged (sign x registry payload)),
     auth_verify_signature = verify_signature x registry\<rparr>"

definition linux_open :: "auth_ext \<Rightarrow> path \<Rightarrow> (world, authorizer) host" where
  "linux_open x credential_path = run_logged (bindR (open_or_create x credential_path) (\<lambda>registry.
     ret (linux_authorizer x registry)))"

definition linux_recover :: "auth_ext \<Rightarrow> authorizer \<Rightarrow> fcp_error \<Rightarrow> path \<Rightarrow> (world, bool \<times> authorizer) host" where
  "linux_recover x a error credential_path = run_logged (bindR (recover_if_credential_vanished x error credential_path) (\<lambda>r.
     ret (case r of None \<Rightarrow> (False, a) | Some registry \<Rightarrow> (True, linux_authorizer x registry))))"

subsection \<open>Handles\<close>

lemma balanced_run_command [balanced_rules]: "balanced (run_command x c)"
  unfolding run_command_def
  by (intro balanced_rules) (auto simp: balanced_def debt_def intro!: keeps_modify)

lemma balanced_ask_tools [balanced_rules]: "balanced (ask_tools x prompt tools)"
  by (induction tools) (auto simp: ask_def intro!: balanced_rules)

lemma balanced_prompt_pin [balanced_rules]: "balanced (prompt_pin x prompt)"
  unfolding prompt_pin_def ask_def by (intro balanced_rules)

lemma balanced_lockout_state [balanced_rules]: "balanced (lockout_state x)"
  unfolding lockout_state_def read_property_def by (intro balanced_rules)

lemma balanced_sign: "balanced (sign x registry payload)"
  unfolding sign_def with_key_def sign_with_pin_def by (intro balanced_rules)

lemma balanced_enroll [balanced_rules]: "balanced (enroll_credential x p)"
  unfolding enroll_credential_def by (intro balanced_rules)

lemma balanced_quarantine [balanced_rules]: "balanced (quarantine_registry p)"
  unfolding quarantine_registry_def by (intro balanced_rules)

lemma balanced_open: "balanced (open_or_create x p)" "balanced (recover_if_credential_vanished x e p)"
  unfolding open_or_create_def load_registry_def recover_if_credential_vanished_def by (intro balanced_rules)+

text \<open>
  C34. Transient TPM handles never leak: in every operation of the two Linux backends (signing,
  enrolment, opening and recovering the credential; creating, wrapping and unwrapping with the key
  encryption key), whatever the TPM, the prompt programs and the file system do and whichever error
  is returned, a flush is requested exactly as often as a handle was opened, handle by handle.
\<close>

theorem tpm_handles_released:
  "balanced (sign x registry payload) \<and> balanced (open_or_create x credential_path) \<and>
   balanced (recover_if_credential_vanished x error credential_path) \<and>
   balanced (ensure_exists y kek_path) \<and> balanced (wrap_dek y kek_path dek) \<and> balanced (unwrap_dek y kek_path wrapped)"
  by (intro conjI balanced_sign balanced_open kek_balanced)

subsection \<open>Prompting\<close>

lemma tool_answer_pin: "tool_answer output = Inr (Some pin) \<Longrightarrow> pin \<noteq> []"
  by (auto simp: tool_answer_def Let_def split: option.splits if_splits)

lemma ask_run:
  "ask x tool prompt (l, w) = (case ae_output x (tool_command tool prompt) w of (r, w') \<Rightarrow>
     (Inr (tool_answer r), (l\<lparr>sl_commands := (tool_command tool prompt, r) # sl_commands l\<rparr>, w')))"
  by (simp add: ask_def run_command_def monad_defs split: prod.split)

lemma wp_ask:
  "wp (ask x tool prompt) Q E (l, w) =
     (case ae_output x (tool_command tool prompt) w of (r, w') \<Rightarrow>
        Q (tool_answer r) (l\<lparr>sl_commands := (tool_command tool prompt, r) # sl_commands l\<rparr>, w'))"
  by (simp add: ask_run wp_def split: prod.split)

lemma prompt_pin_nonempty: "wp (prompt_pin x prompt) (\<lambda>pin _. pin \<noteq> []) (\<lambda>_ _. True) s"
proof -
  have ask: "wp (ask x tool prompt) (\<lambda>r _. \<forall>pin. r = Inr (Some pin) \<longrightarrow> pin \<noteq> []) (\<lambda>_ _. False) s" for tool s
    by (cases s) (auto simp: wp_ask dest: tool_answer_pin split: prod.split)
  have "wp (ask_tools x prompt tools) (\<lambda>r _. \<forall>pin. r = Some pin \<longrightarrow> pin \<noteq> []) (\<lambda>_ _. True) s" for tools s
  proof (induction tools arbitrary: s)
    case (Cons t ts)
    then show ?case unfolding ask_tools.simps wp_bindR
      by (intro wp_mono [OF ask]) (auto simp: wp_simps split: sum.split option.split)
  qed (simp add: wp_ret)
  then show ?thesis
    unfolding prompt_pin_def wp_bindR
    by (auto simp: wp_simps split: option.split sum.split intro!: wp_mono [OF ask] elim!: wp_mono)
qed

definition prompt_outcome :: "command_output \<Rightarrow> fcp_error + byte list \<Rightarrow> bool" where
  "prompt_outcome output r \<longleftrightarrow> (case tool_answer output of
       Inr (Some pin) \<Rightarrow> r = Inr pin
     | Inr None \<Rightarrow> r = Inl cancelled
     | Inl _ \<Rightarrow> \<exists>m. r = Inl (Capability m))"

definition asks_until_answered :: "session_log \<Rightarrow> fcp_error + byte list \<Rightarrow> session_log \<Rightarrow> bool" where
  "asks_until_answered l r l' \<longleftrightarrow> (\<exists>c output earlier. sl_commands l' = (c, output) # earlier @ sl_commands l \<and>
     length earlier \<le> 2 \<and> (\<forall>(_, o') \<in> set earlier. tool_answer o' = Inl ()) \<and> prompt_outcome output r)"

lemma asks_until_answeredI:
  assumes "sl_commands l' = (c, output) # earlier @ sl_commands l" and "length earlier \<le> 2"
    and "\<forall>(_, o') \<in> set earlier. tool_answer o' = Inl ()" and "prompt_outcome output r"
  shows "asks_until_answered l r l'"
  using assms unfolding asks_until_answered_def by blast

lemmas prompt_run = prompt_pin_def bindR_def ret_def fail_def ask_run prompt_outcome_def

lemma prompt_graphical:
  assumes "prompt_pin x prompt (l, w) = (r, (l', w'))" and "graphical x"
  shows "asks_until_answered l r l'"
proof -
  let ?k = "tool_command KDialog prompt" and ?z = "tool_command Zenity prompt" and ?s = "tool_command SystemdAskPassword prompt"
  obtain o1 w1 where k: "ae_output x ?k w = (o1, w1)" by fastforce
  obtain o2 w2 where z: "ae_output x ?z w1 = (o2, w2)" by fastforce
  obtain o3 w3 where s: "ae_output x ?s w2 = (o3, w3)" by fastforce
  note run = assms k z s
  consider a where "tool_answer o1 = Inr a" | a where "tool_answer o1 = Inl ()" "tool_answer o2 = Inr a"
    | "tool_answer o1 = Inl ()" "tool_answer o2 = Inl ()"
    by (metis old.unit.exhaust sum.exhaust)
  then show ?thesis
  proof cases
    case 1
    with run have "sl_commands l' = (?k, o1) # [] @ sl_commands l \<and> prompt_outcome o1 r"
      by (auto simp: prompt_run simp del: tool_command.simps split: option.splits)
    then show ?thesis by (auto intro!: asks_until_answeredI)
  next
    case 2
    with run have "sl_commands l' = (?z, o2) # [(?k, o1)] @ sl_commands l \<and> prompt_outcome o2 r"
      by (auto simp: prompt_run simp del: tool_command.simps split: option.splits)
    with 2 show ?thesis by (auto intro!: asks_until_answeredI simp del: append_Cons)
  next
    case 3
    with run have "sl_commands l' = (?s, o3) # [(?z, o2), (?k, o1)] @ sl_commands l \<and> prompt_outcome o3 r"
      by (auto simp: prompt_run simp del: tool_command.simps split: option.splits sum.splits)
    with 3 show ?thesis by (auto intro!: asks_until_answeredI simp del: append_Cons)
  qed
qed

text \<open>
  C35. A refused prompt is final. The programs that ask for the PIN are started one after the other
  only as long as they turn out to be unusable: every program but the last one left no answer. A
  declined prompt therefore ends the request with the cancellation error, an answer is returned as
  it was given, and no program is started after either.
\<close>

theorem refused_prompt_is_final:
  assumes "prompt_pin x prompt (l, w) = (r, (l', w'))"
  shows "asks_until_answered l r l'"
proof (cases "graphical x")
  case False
  let ?s = "tool_command SystemdAskPassword prompt"
  obtain o3 w3 where s: "ae_output x ?s w = (o3, w3)" by fastforce
  with False assms have "sl_commands l' = (?s, o3) # [] @ sl_commands l \<and> prompt_outcome o3 r"
    by (auto simp: prompt_run simp del: tool_command.simps split: option.splits sum.splits)
  then show ?thesis by (auto intro!: asks_until_answeredI)
qed (rule prompt_graphical [OF assms])

subsection \<open>What a signature proves\<close>

text \<open>
  The signature bytes came from the TPM's sign command on the digest of the message, right after a
  non-empty PIN was set as the authorisation value of that key.
\<close>

definition signed_under_pin :: "auth_ext \<Rightarrow> byte list \<Rightarrow> byte list \<Rightarrow> bool" where
  "signed_under_pin x message signature \<longleftrightarrow> (\<exists>h pin v v1 v2 s. pin \<noteq> [] \<and> ae_set_auth x h pin v = (Inr (), v1) \<and>
     ae_sign x h (ae_sha256 x message) v1 = (Inr s, v2) \<and> raw_signature s = Inr signature)"

text \<open>The stored key is a P-256 signing key whose use needs its authorisation value.\<close>

definition key_requires_pin :: "auth_ext \<Rightarrow> credential_registry \<Rightarrow> bool" where
  "key_requires_pin x registry \<longleftrightarrow> (\<exists>bs public. hex_decode (rg_public_hex registry) = Inr bs \<and> te_unmarshall x bs = Some public \<and>
     kt_algorithm (tp_template public) = AlgEcc \<and> oa_user_with_auth (kt_attributes (tp_template public)) \<and>
     oa_sign_encrypt (kt_attributes (tp_template public)))"

lemma sign_with_pin_result:
  assumes "pin \<noteq> []"
  shows "wp (sign_with_pin x pin message key) (\<lambda>sig _. signed_under_pin x message sig) (\<lambda>_ _. True) s"
proof -
  obtain l v where s: "s = (l, v)" by (cases s)
  obtain q v1 where a: "ae_set_auth x key pin v = (q, v1)" by fastforce
  obtain g v2 where b: "ae_sign x key (ae_sha256 x message) v1 = (g, v2)" by fastforce
  have "signed_under_pin x message sig" if "q = Inr ()" "g = Inr t" "raw_signature t = Inr sig" for t sig
    using assms a b that unfolding signed_under_pin_def by blast
  then show ?thesis
    using a b by (auto simp: sign_with_pin_def auth_from_def s wp_def monad_defs Let_def split: sum.split if_splits)
qed

lemma with_loaded_result:
  assumes "\<And>h s. wp (operation h) (\<lambda>v _. P v) (\<lambda>_ _. True) s"
  shows "wp (with_loaded y f private public operation) (\<lambda>v _. P v) (\<lambda>_ _. True) s"
  unfolding with_loaded_def
  by (rule with_parent_result) (auto simp: wp_bindR wp_seqR intro!: wp_mono [OF wp_top] then_flush_result assms)

lemma wp_with_key:
  assumes "\<And>h s. wp (operation h) (\<lambda>v _. P v) (\<lambda>_ _. True) s"
  shows "wp (with_key x registry operation) (\<lambda>v _. P v \<and> key_requires_pin x registry) (\<lambda>_ _. True) s"
proof (cases "key_requires_pin x registry")
  case True
  then show ?thesis
    unfolding with_key_def wp_bindR wp_seqR wp_of_result wp_reject wp_ok_or
    by (auto intro!: with_loaded_result assms split: sum.split option.split)
next
  case False
  then show ?thesis
    unfolding with_key_def wp_bindR wp_seqR wp_of_result wp_reject wp_ok_or
    by (auto simp: key_requires_pin_def assert_requires_auth_def split: sum.split option.split)
qed

text \<open>What a successful \<open>sign\<close> establishes.\<close>

lemma wp_linux_sign:
  "wp (auth_sign (linux_authorizer x registry) payload)
     (\<lambda>cap _. sc_payload cap = payload \<and> sc_proof_context cap = [] \<and> verify_signature x registry cap = Inr () \<and>
        signed_under_pin x (canonical_bytes payload) (sc_signature cap) \<and> key_requires_pin x registry)
     (\<lambda>_ _. True) w"
proof -
  let ?P = "\<lambda>cap. sc_payload cap = payload \<and> sc_proof_context cap = [] \<and> verify_signature x registry cap = Inr () \<and>
    signed_under_pin x (canonical_bytes payload) (sc_signature cap) \<and> key_requires_pin x registry"
  have k: "wp (bindR (with_key x registry (sign_with_pin x pin (canonical_bytes payload))) (\<lambda>signature.
      let signed = \<lparr>sc_payload = payload, sc_signature = signature, sc_proof_context = []\<rparr> in
      seqR (of_result (verify_signature x registry signed)) (ret signed))) (\<lambda>v _. ?P v) (\<lambda>_ _. True) s" if "pin \<noteq> []" for pin s
    unfolding wp_bindR [of "with_key _ _ _"] Let_def
    by (rule wp_mono [OF wp_with_key [OF sign_with_pin_result [OF that]]]) (auto simp: wp_simps split: sum.split)
  have "wp (sign x registry payload) (\<lambda>v _. ?P v) (\<lambda>_ _. True) (empty_log, w)"
    unfolding sign_def Let_def [of "canonical_bytes payload"] wp_seqR wp_bindR [of "lockout_state x"] wp_bindR [of "prompt_pin _ _"] wp_of_result wp_reject
    by (auto split: sum.split intro!: wp_mono [OF wp_top [of "lockout_state x"]] wp_mono [OF prompt_pin_nonempty] k)
  from run_logged_wp [OF this] show ?thesis by (auto simp: linux_authorizer_def intro!: wp_runI)
qed

text \<open>
  C14. A signature proves that the user was verified: whenever the Linux authorizer returns a signed
  capability, it is for the requested payload, its signature verifies under the registered public
  key, it was made by the TPM over the digest of the payload's canonical bytes after a non-empty PIN
  was set, and the key is one the TPM refuses to use without a PIN.
\<close>

theorem linux_signature_proves_pin:
  assumes "auth_sign (linux_authorizer x registry) payload w = (Inr cap, w')"
  shows "sc_payload cap = payload \<and> sc_proof_context cap = [] \<and>
    auth_verify_signature (linux_authorizer x registry) cap = Inr () \<and>
    signed_under_pin x (canonical_bytes payload) (sc_signature cap) \<and> key_requires_pin x registry"
  using wp_okD [OF assms wp_linux_sign] by (simp add: linux_authorizer_def)

subsection \<open>Refusals\<close>

text \<open>The errors of a user who declines the prompt, mistypes the PIN or is locked out.\<close>

definition refusals :: "fcp_error set" where
  "refusals = {cancelled, UserActionable ''pin_locked_out''} \<union> range signing_failure"

lemma refusal_not_unusable:
  assumes "e \<in> refusals"
  shows "e \<noteq> unusable"
proof -
  from assms consider "e = cancelled" | "e = UserActionable ''pin_locked_out''" | t where "e = signing_failure t"
    unfolding refusals_def by blast
  then show ?thesis
  proof cases
    case (3 t)
    then show ?thesis by (cases t) (simp_all add: unusable_def)
  qed (simp_all add: cancelled_def unusable_def)
qed

text \<open>
  C19. A refusal is never retried into a fresh credential: when authorising an injection fails
  because the user declined the prompt, entered a wrong PIN or is locked out, the group's recovery
  step with the Linux backend returns that error. No new credential is enrolled, no second signature
  is requested, and files, ledger and lease are as the failed attempt left them.
\<close>

theorem refusal_never_reenrols:
  assumes "hx_recover_credential x = linux_recover y"
    and "on_transactions (authorize_inject (hx_tx x) a) s = (Inl e, (r, held, rest))" and "e \<in> refusals"
  shows "authorize_with_recovery x hello_credential a s = (Inl e, (r, Some a, rest))"
proof -
  have "linux_recover y a e p w = (Inr (False, a), w)" for p w
    using refusal_not_unusable [OF assms(3)]
    by (simp add: linux_recover_def recover_if_credential_vanished_def run_logged_def monad_defs empty_log_def)
  with assms(1,2) show ?thesis
    by (cases rest) (simp add: authorize_with_recovery_def in_world_def in_audit_def monad_defs)
qed

subsection \<open>Enrolment\<close>

text \<open>
  What the TPM and serde are relied on for: a created key has the attributes and the algorithm of
  the template it was created from, its public area reads back as it was written, and the registry's
  text reads back.
\<close>

definition tpm_creates_as_told :: "auth_ext \<Rightarrow> bool" where
  "tpm_creates_as_told x \<longleftrightarrow>
     (\<forall>t p. te_build x t = Inr p \<longrightarrow> tp_template p = t) \<and>
     (\<forall>h p a w b q w'. te_create x h p a w = (Inr (b, q), w') \<longrightarrow> tp_template q = tp_template p) \<and>
     (\<forall>p bs. te_marshall x p = Inr bs \<longrightarrow> te_unmarshall x bs = Some p)"

definition registry_text_reads_back :: "auth_ext \<Rightarrow> bool" where
  "registry_text_reads_back x \<longleftrightarrow> (\<forall>r bs. to_vec (ae_registry_json x) r = Some bs \<longrightarrow> from_slice (ae_registry_json x) bs = Some r)"

lemma with_parent_keeps:
  assumes "\<And>h v. keeps (Q v) (flush_context x h)" and "\<And>h s. wp (body h) Q (\<lambda>_ _. True) s"
  shows "wp (with_parent x body) Q (\<lambda>_ _. True) s"
proof -
  have "wp (then_flush x h (body h)) Q (\<lambda>_ _. True) s" for h s
    unfolding then_flush_def wp_bindR wp_attempt wp_seqR wp_of_result
    by (rule wp_mono [OF assms(2)])
      (auto split: sum.split intro: wp_mono [OF keepsD [OF assms(1)]] wp_mono [OF wp_top])
  then show ?thesis
    unfolding with_parent_def wp_seqR wp_bindR
    by (intro wp_mono [OF wp_top [of "open_context x"]] wp_mono [OF wp_top [of "create_parent x"]])
qed

text \<open>The registry in the file is \<open>r\<close>, and its key needs the PIN.\<close>

definition registered :: "auth_ext \<Rightarrow> path \<Rightarrow> credential_registry \<Rightarrow> session_log \<times> world \<Rightarrow> bool" where
  "registered x path r s \<longleftrightarrow> key_requires_pin x r \<and> rg_version r = 1 \<and>
     (\<exists>bs. lookup (snd s) path = Some bs \<and> from_slice (ae_registry_json x) bs = Some r)"

lemma enroll_result:
  assumes "tpm_creates_as_told x" and "registry_text_reads_back x"
    and "\<And>h v. keeps (file_is path v) (te_flush x h)"
  shows "wp (enroll_credential x path) (registered x path) (\<lambda>_ _. True) s"
proof -
  have flush: "keeps (registered x path r) (flush_context (tpm_ext.truncate x) h)" for r h
  proof (rule keepsI)
    fix s :: "session_log \<times> world" assume reg: "registered x path r s"
    obtain l w where s: "s = (l, w)" by (cases s)
    have "wp (te_flush x h) (\<lambda>_ w'. lookup w' path = lookup w path) (\<lambda>_ w'. lookup w' path = lookup w path) w"
      by (rule keepsD [OF assms(3) refl])
    then show "wp (flush_context (tpm_ext.truncate x) h) (\<lambda>_. registered x path r) (\<lambda>_. registered x path r) s"
      using reg by (auto simp: s flush_context_def log_flushed_def wp_simps tpm_ext.truncate_def registered_def elim!: wp_mono)
  qed
  have create: "wp (te_create x h p a) (\<lambda>v _. tp_template (snd v) = tp_template p) (\<lambda>_ _. True) w" for h p a w
    by (rule wp_runI) (use assms(1) in \<open>metis tpm_creates_as_told_def prod.collapse\<close>, simp)
  have wrote: "wp (write_verified path bs v) (\<lambda>_ w'. lookup w' path = Some bs) (\<lambda>_ _. True) w" for bs v w
    unfolding wp_write_verified by (rule wp_runI) (auto dest: dw.committed)
  have gate: "key_requires_pin x r" if "te_build x signing_key_template = Inr t" "tp_template q = tp_template t"
      "te_marshall x q = Inr bs" "rg_public_hex r = hex_encode bs" for r t q bs
    using that assms(1) by (auto simp: key_requires_pin_def tpm_creates_as_told_def signing_key_template_def)
  have json: "from_slice (ae_registry_json x) bs = Some r" if "json_to_vec (ae_registry_json x) r = Inr bs" for r bs
    using that assms(2) by (auto simp: json_to_vec_def registry_text_reads_back_def split: option.splits)
  have body: "wp (bindR (of_result (auth_from x pin)) (\<lambda>auth. bindR (of_result (te_build x signing_key_template)) (\<lambda>template.
       bindR (on_snd (te_create x parent template (Some auth))) (\<lambda>(out_private, out_public).
       bindR (of_result (public_key_point out_public)) (\<lambda>(px, py).
       bindR (of_result (te_marshall x out_public)) (\<lambda>public_bytes.
         let registry = \<lparr>rg_version = 1, rg_private_hex = hex_encode out_private, rg_public_hex = hex_encode public_bytes,
               rg_public_key_x_hex = hex_encode px, rg_public_key_y_hex = hex_encode py\<rparr> in
       bindR (of_result (json_to_vec (ae_registry_json x) registry)) (\<lambda>bytes.
       seqR (on_snd (write_verified path bytes (check_registry x registry))) (ret registry)))))))) (registered x path) (\<lambda>_ _. True) s"
    for pin parent s
    unfolding wp_bindR wp_of_result wp_on_snd
    by (auto simp: Let_def wp_bindR wp_seqR wp_of_result wp_on_snd wp_ret registered_def split: sum.split prod.split
        intro!: wp_mono [OF create] wp_mono [OF wrote] json gate)
  show ?thesis
    unfolding enroll_credential_def wp_bindR [of "prompt_pin _ _"] wp_seqR [of "reject _ _"] wp_reject
    by (auto intro!: wp_mono [OF wp_top [of "prompt_pin _ _"]] with_parent_keeps [OF flush] body)
qed

text \<open>
  Enrolment gives a credential that works: if enrolling succeeds, the registry it returns is the
  one in the file, so that opening the existing credential later gives exactly it, and its key
  passes the gate that signing applies.
\<close>

theorem enrolled_credential_opens:
  assumes "tpm_creates_as_told x" and "registry_text_reads_back x"
    and "\<forall>h v. keeps (file_is path v) (te_flush x h)"
    and "enroll_credential x path (l, w) = (Inr r, (l', w'))"
    and "io_fault w' (tick w') = None"
  shows "fst (open_existing x path (k, w')) = Inr r \<and> key_requires_pin x r"
proof -
  have "registered x path r (l', w')" using wp_okD [OF assms(4) enroll_result [OF assms(1,2)]] assms(3) by simp
  with assms(5) show ?thesis
    by (auto simp: registered_def open_existing_def load_registry_def monad_defs fs_read_def io_call_def json_from_slice_def)
qed

subsection \<open>A concrete authorizer\<close>

text \<open>A TPM with one signing key, and a prompt program that answers with a PIN or is declined.\<close>

definition exp_public :: tpm_public where
  "exp_public = \<lparr>tp_template = signing_key_template, tp_x = [1], tp_y = [2]\<rparr>"

definition exp_registry :: credential_registry where
  "exp_registry = \<lparr>rg_version = 1, rg_private_hex = ''09'', rg_public_hex = ''07'',
     rg_public_key_x_hex = hex_encode (pad32 [1]), rg_public_key_y_hex = hex_encode (pad32 [2])\<rparr>"

definition exp_x :: "command_output \<Rightarrow> auth_ext" where
  "exp_x output = \<lparr>te_env_tcti = None, te_simulator_feature = False, te_parse_tcti = (\<lambda>_. True), te_context = (\<lambda>_. ret ()),
     te_build = (\<lambda>t. Inr \<lparr>tp_template = t, tp_x = [], tp_y = []\<rparr>), te_create_primary = (\<lambda>_. ret 1),
     te_create = (\<lambda>_ p _. ret ([9], \<lparr>tp_template = tp_template p, tp_x = [1], tp_y = [2]\<rparr>)),
     te_load = (\<lambda>_ _ _. ret 2), te_flush = (\<lambda>_. ret ()), te_private = (\<lambda>_. True),
     te_marshall = (\<lambda>p. if p = exp_public then Inr [7] else Inl Tpm),
     te_unmarshall = (\<lambda>bs. if bs = [7] then Some exp_public else None),
     ae_env_set = (\<lambda>_. False), ae_output = (\<lambda>_ w. (output, w)), ae_property = (\<lambda>_ w. (None, w)),
     ae_auth = (\<lambda>_. True), ae_sha256 = (\<lambda>bs. bs), ae_digest = (\<lambda>_. True), ae_null_hashcheck = Inr (),
     ae_set_auth = (\<lambda>_ _. ret ()), ae_sign = (\<lambda>_ _. ret (SigEcDsa [1] [2])), ae_sec1_key = (\<lambda>_. True),
     ae_p256_signature = (\<lambda>_. True), ae_p256_verify = (\<lambda>_ _ _. True), ae_registry_json = table_codec [exp_registry]\<rparr>"

definition exp_pin :: command_output where
  "exp_pin = Some (True, [49, 50, 51, 52, 10])"

definition exp_path :: path where
  "exp_path = [Name ''d'', Name ''hello-credential.json'']"

lemmas exp_defs = exp_x_def exp_pin_def tpm_ext.truncate_def open_context_def create_parent_def with_parent_def then_flush_def
  flush_context_def log_opened_def log_flushed_def default_tcti_def empty_log_def prompt_pin_def ask_run graphical_def
  tool_answer_def trim_newlines_def utf8_tail_def Let_def run_logged_def

theorem refused_prompt_is_final_witness:
  "\<exists>l' w'. prompt_pin (exp_x (Some (False, []))) ''PIN'' (empty_log, quiet_world) = (Inl cancelled, (l', w')) \<and>
     asks_until_answered empty_log (Inl cancelled) l'"
proof -
  have "fst (prompt_pin (exp_x (Some (False, []))) ''PIN'' (empty_log, quiet_world)) = Inl cancelled"
    by (simp add: exp_defs monad_defs)
  then obtain l' w' where "prompt_pin (exp_x (Some (False, []))) ''PIN'' (empty_log, quiet_world) = (Inl cancelled, (l', w'))"
    by (metis prod.collapse)
  with refused_prompt_is_final [OF this] show ?thesis by blast
qed

lemma exp_signs: "\<exists>cap. fst (auth_sign (linux_authorizer (exp_x exp_pin) exp_registry) ex_payload quiet_world) = Inr cap"
proof -
  have "validate_shape ex_payload = Inr ()" by (auto simp: validate_shape_iff ex_payload_def intro: exI [of _ 0])
  moreover have "hex_decode ''09'' = Inr [9]" "hex_decode ''07'' = Inr [7]"
    by (simp_all add: hex_decode_def hex_nibble_def)
  ultimately show ?thesis
    by (simp add: linux_authorizer_def sign_def lockout_state_def read_property_def with_key_def with_loaded_def sign_with_pin_def
        auth_from_def assert_requires_auth_def exp_public_def signing_key_template_def verify_signature_def exp_registry_def
        exp_defs monad_defs split: option.split)
qed

theorem linux_signature_proves_pin_witness:
  "\<exists>cap w'. auth_sign (linux_authorizer (exp_x exp_pin) exp_registry) ex_payload quiet_world = (Inr cap, w') \<and>
     signed_under_pin (exp_x exp_pin) (canonical_bytes ex_payload) (sc_signature cap)"
proof -
  obtain cap w' where run: "auth_sign (linux_authorizer (exp_x exp_pin) exp_registry) ex_payload quiet_world = (Inr cap, w')"
    using exp_signs by (metis prod.collapse)
  with linux_signature_proves_pin [OF run] show ?thesis by blast
qed

text \<open>The user declines the prompt while the group's ledger has a reservation for the request.\<close>

definition exq_auth :: authorizer where
  "exq_auth = linux_authorizer (exp_x (Some (False, []))) exp_registry"

definition exq_x :: host_ext where
  "exq_x = exs_x\<lparr>hx_tx := ext_tx\<lparr>tx_ledger_json := table_codec [reserved_ledger ext_ledger_payload ex_fresh,
       (reserved_ledger ext_ledger_payload ex_fresh)\<lparr>cl_pending := None\<rparr>]\<rparr>,
     hx_recover_credential := linux_recover (exp_x (Some (False, [])))\<rparr>"

lemma exq_declines: "validate_shape p = Inr () \<Longrightarrow> auth_sign exq_auth p w = (Inl cancelled, w)"
  by (simp add: exq_auth_def linux_authorizer_def sign_def lockout_state_def read_property_def exp_defs monad_defs)

lemma exq_fails:
  "fst (on_transactions (authorize_inject (hx_tx exq_x) exq_auth) (exs_r, None, exa_l, quiet_world)) = Inl cancelled"
  by (simp add: on_transactions_def exs_r_def exq_x_def run_simps ext_auth_defs exq_declines validate_shape_def is_nil_def upt_rec)

theorem refusal_never_reenrols_witness:
  "\<exists>s. authorize_with_recovery exq_x exp_path exq_auth (exs_r, None, exa_l, quiet_world) = (Inl cancelled, s)"
proof -
  obtain r held rest where run: "on_transactions (authorize_inject (hx_tx exq_x) exq_auth) (exs_r, None, exa_l, quiet_world) =
      (Inl cancelled, (r, held, rest))"
    using exq_fails by (metis prod.collapse)
  have "hx_recover_credential exq_x = linux_recover (exp_x (Some (False, [])))" by (simp add: exq_x_def)
  from refusal_never_reenrols [OF this run] show ?thesis by (auto simp: refusals_def)
qed

lemma exp_laws:
  "tpm_creates_as_told (exp_x exp_pin)" "registry_text_reads_back (exp_x exp_pin)"
  "\<forall>h v. keeps (file_is exp_path v) (te_flush (exp_x exp_pin) h)"
  by (auto simp: tpm_creates_as_told_def registry_text_reads_back_def exp_x_def exp_public_def ret_def keeps_pure
      dest: table1_codec split: if_splits) (simp add: keeps_def wp_def)

lemma exp_enrolls:
  "fst (enroll_credential (exp_x exp_pin) exp_path (empty_log, quiet_world)) = Inr exp_registry"
  "io_fault (snd (snd (enroll_credential (exp_x exp_pin) exp_path (empty_log, quiet_world)))) = (\<lambda>_. None)"
proof -
  have "hex_encode [9] = ''09''" "hex_encode [7] = ''07''"
    by (simp_all add: hex_encode_def hex_byte_def HEX_def)
  then show "fst (enroll_credential (exp_x exp_pin) exp_path (empty_log, quiet_world)) = Inr exp_registry"
    "io_fault (snd (snd (enroll_credential (exp_x exp_pin) exp_path (empty_log, quiet_world)))) = (\<lambda>_. None)"
    by (simp_all add: enroll_credential_def MINIMUM_PIN_LENGTH_def chars_count_def auth_from_def public_key_point_def check_registry_def
        exp_public_def signing_key_template_def exp_registry_def exp_path_def exp_defs run_simps quiet_world_def table_codec_def
        split: option.split)
qed

theorem enrolled_credential_opens_witness:
  "\<exists>l' w'. enroll_credential (exp_x exp_pin) exp_path (empty_log, quiet_world) = (Inr exp_registry, (l', w')) \<and>
     fst (open_existing (exp_x exp_pin) exp_path (empty_log, w')) = Inr exp_registry"
proof -
  obtain l' w' where run: "enroll_credential (exp_x exp_pin) exp_path (empty_log, quiet_world) = (Inr exp_registry, (l', w'))"
    using exp_enrolls by (metis prod.collapse)
  have "io_fault w' (tick w') = None" using exp_enrolls(2) unfolding run by simp
  from enrolled_credential_opens [OF exp_laws run this] run show ?thesis by blast
qed

end
