(* ===== verification/Hello_Authorizer.thy ===== *)
theory Hello_Authorizer
  imports Webauthn_Codec Transaction Audit_Log
begin

text \<open>
  \<open>crypto/authorizer/windows.rs\<close>: the user-verified signing authority on Windows, a Windows Hello
  credential used through \<open>webauthn.dll\<close>. The calls into Windows (the COM apartment, the two
  WebAuthn ceremonies, CNG), SHA-256, the UUID parser and the JSON text of the registry are
  parameters; what the host sends to them, how it reads their answers and what it accepts as proof
  are the definitions.
\<close>

subsection \<open>Data\<close>

definition RP_ID :: string where "RP_ID = ''fursoy-vault.local''"

definition ORIGIN :: string where "ORIGIN = ''https://fursoy-vault.local''"

record hello_authorizer =
  ha_credential_id :: "byte list"
  ha_public_key_x :: "byte list"
  ha_public_key_y :: "byte list"

record hello_registry =
  hr_version :: u16
  hr_profile_user_id_hex :: string
  hr_credential_id_hex :: string
  hr_public_key_x_hex :: string
  hr_public_key_y_hex :: string

text \<open>
  \<open>he_make_credential\<close> takes the user id and the client data and returns the authenticator data;
  \<open>he_get_assertion\<close> takes the credential id and the client data and returns the authenticator
  data and the DER signature, or the code of the error. The CNG calls return an \<open>NTSTATUS\<close>.
\<close>

record hello_ext =
  he_com_initialize :: "(world, unit) host"
  he_platform_authenticator_available :: "(world, bool) host"
  he_make_credential :: "byte list \<Rightarrow> byte list \<Rightarrow> (world, u32, byte list) rm"
  he_get_assertion :: "byte list \<Rightarrow> byte list \<Rightarrow> (world, u32, byte list \<times> byte list) rm"
  he_open_algorithm_provider :: int
  he_import_key_pair :: "byte list \<Rightarrow> int"
  he_verify_signature :: "byte list \<Rightarrow> byte list \<Rightarrow> byte list \<Rightarrow> int"
  he_sha256 :: "byte list \<Rightarrow> byte list"
  he_parse_uuid :: "string \<Rightarrow> uuid option"
  he_registry_json :: "hello_registry codec"

definition quote_mark :: string where "quote_mark = [CHR 0x22]"

text \<open>The member \<open>"name":"value"\<close> of the client data.\<close>

definition json_member :: "string \<Rightarrow> string \<Rightarrow> string" where
  "json_member name v = quote_mark @ name @ quote_mark @ '':'' @ quote_mark @ v @ quote_mark"

definition client_data_json :: "byte list \<Rightarrow> string \<Rightarrow> byte list" where
  "client_data_json challenge_bytes ceremony_type = map byte_of_char
     (''{'' @ json_member ''type'' ceremony_type @ '','' @ json_member ''challenge'' (hex_encode challenge_bytes) @ '',''
      @ json_member ''origin'' ORIGIN @ '','' @ quote_mark @ ''crossOrigin'' @ quote_mark @ '':false}'')"

subsection \<open>Verifying\<close>

definition validate_authenticator_context :: "hello_ext \<Rightarrow> byte list \<Rightarrow> unit fcp_result" where
  "validate_authenticator_context x authenticator_data =
     (if length authenticator_data < 37 then Inl (Capability ''assertion authenticatorData is truncated'')
      else if take 32 authenticator_data \<noteq> he_sha256 x (map byte_of_char RP_ID)
        then Inl (Capability ''assertion RP ID hash mismatch'')
      else let flags = authenticator_data ! 32 in
        if flags AND 0x01 = 0 then Inl (Capability ''assertion lacks user presence'')
        else if flags AND 0x04 = 0 then Inl (Capability ''assertion lacks user verification'')
        else Inr ())"

definition check_ntstatus :: "int \<Rightarrow> unit fcp_result" where
  "check_ntstatus status = (if 0 \<le> status then Inr () else Inl (Capability ''{context} failed with NTSTATUS {:#x}''))"

definition BCRYPT_ECDSA_PUBLIC_P256_MAGIC :: u32 where
  "BCRYPT_ECDSA_PUBLIC_P256_MAGIC = 0x31534345"

definition verify_ecdsa_p256 :: "hello_ext \<Rightarrow> byte list \<Rightarrow> byte list \<Rightarrow> byte list \<Rightarrow> byte list \<Rightarrow> unit fcp_result" where
  "verify_ecdsa_p256 x px py digest signature =
     (let blob = u32_to_le BCRYPT_ECDSA_PUBLIC_P256_MAGIC @ u32_to_le 32 @ px @ py in
      case check_ntstatus (he_open_algorithm_provider x) of Inl e \<Rightarrow> Inl e | Inr _ \<Rightarrow>
      (case check_ntstatus (he_import_key_pair x blob) of Inl e \<Rightarrow> Inl e | Inr _ \<Rightarrow>
       check_ntstatus (he_verify_signature x blob digest signature)))"

definition hello_verify_signature :: "hello_ext \<Rightarrow> hello_authorizer \<Rightarrow> signed_capability \<Rightarrow> unit fcp_result" where
  "hello_verify_signature x a cap =
     (case validate_shape (sc_payload cap) of Inl e \<Rightarrow> Inl e | Inr _ \<Rightarrow>
     (case validate_authenticator_context x (sc_proof_context cap) of Inl e \<Rightarrow> Inl e | Inr _ \<Rightarrow>
      if length (sc_signature cap) \<noteq> 64 then Inl (Capability ''signature is not 64 bytes'')
      else let client_data_hash = he_sha256 x (client_data_json (canonical_bytes (sc_payload cap)) ''webauthn.get'');
               digest = he_sha256 x (sc_proof_context cap @ client_data_hash)
           in verify_ecdsa_p256 x (ha_public_key_x a) (ha_public_key_y a) digest (sc_signature cap)))"

subsection \<open>Signing\<close>

definition assertion_error :: "u32 \<Rightarrow> fcp_error" where
  "assertion_error code = (if code = 0x80090011 \<or> code = 0x80070490 then Capability ''hello_credential_missing''
     else Capability ''Windows Hello signing failed: {error}'')"

definition sign_assertion :: "hello_ext \<Rightarrow> hello_authorizer \<Rightarrow> capability_payload \<Rightarrow> (world, signed_capability) host" where
  "sign_assertion x a payload =
     seqR (of_result (validate_shape payload))
    (bindR (map_err assertion_error (he_get_assertion x (ha_credential_id a)
              (client_data_json (canonical_bytes payload) ''webauthn.get''))) (\<lambda>(authenticator_data, signature_der).
     bindR (of_result (der_ecdsa_signature_to_raw signature_der)) (\<lambda>signature.
       let signed = \<lparr>sc_payload = payload, sc_signature = signature, sc_proof_context = authenticator_data\<rparr> in
     seqR (of_result (hello_verify_signature x a signed)) (ret signed))))"

subsection \<open>The registry\<close>

fun name_uuid :: "(string \<Rightarrow> uuid option) \<Rightarrow> seg \<Rightarrow> uuid option" where
  "name_uuid parse (IdName u s) = (if s = [] then Some u else None)"
| "name_uuid parse (Name s) = parse s"

definition hello_user_id :: "hello_ext \<Rightarrow> path \<Rightarrow> byte list fcp_result" where
  "hello_user_id x registry_path = (case Option.bind (path_parent registry_path) file_name of
       None \<Rightarrow> Inl (Format ''Hello registry has no profile identity'')
     | Some name \<Rightarrow> (case name_uuid (he_parse_uuid x) name of
          None \<Rightarrow> Inl (Format ''Hello registry profile identity is invalid'')
        | Some profile_id \<Rightarrow> Inr (uuid_as_bytes profile_id)))"

definition hello_to_array_32 :: "byte list \<Rightarrow> byte list fcp_result" where
  "hello_to_array_32 bytes =
     (if length bytes = 32 then Inr bytes else Inl (Capability ''Hello credential public key is not 32 bytes''))"

definition hello_load_registry :: "hello_ext \<Rightarrow> path \<Rightarrow> (world, hello_authorizer) host" where
  "hello_load_registry x path =
     bindR (fs_read path) (\<lambda>bytes.
     bindR (of_result (json_from_slice (he_registry_json x) bytes)) (\<lambda>registry.
     seqR (reject (hr_version registry \<noteq> 2) (Format ''unsupported Hello credential registry version''))
    (bindR (of_result (hello_user_id x path)) (\<lambda>user_id.
     seqR (reject (hr_profile_user_id_hex registry \<noteq> hex_encode user_id)
             (Format ''Hello credential belongs to another profile identity''))
    (bindR (of_result (hex_decode (hr_credential_id_hex registry))) (\<lambda>credential_id.
     bindR (of_result (hex_decode (hr_public_key_x_hex registry))) (\<lambda>xb.
     bindR (of_result (hello_to_array_32 xb)) (\<lambda>px.
     bindR (of_result (hex_decode (hr_public_key_y_hex registry))) (\<lambda>yb.
     bindR (of_result (hello_to_array_32 yb)) (\<lambda>py.
     ret \<lparr>ha_credential_id = credential_id, ha_public_key_x = px, ha_public_key_y = py\<rparr>))))))))))"

definition hello_quarantine_registry :: "path \<Rightarrow> (world, unit) host" where
  "hello_quarantine_registry path =
     bindR (ok_or (path_parent path) (Format ''Hello registry has no parent'')) (\<lambda>parent.
     bindR new_v4 (\<lambda>i. fs_rename path (parent @ [Name (''hello-credential.retired-'' @ uuid_text i @ ''.json'')])))"

definition create_credential :: "hello_ext \<Rightarrow> byte list \<Rightarrow> (world, byte list \<times> byte list \<times> byte list) host" where
  "create_credential x user_id =
     bindR (he_platform_authenticator_available x) (\<lambda>available.
     seqR (reject (\<not> available) UserVerificationNotConfigured)
    (bindR (fill_random 16) (\<lambda>creation_nonce.
     bindR (map_err (\<lambda>_. Capability ''Windows Hello credential creation failed: {error}'')
              (he_make_credential x user_id (client_data_json creation_nonce ''webauthn.create''))) (\<lambda>authenticator_data.
     of_result (parse_attested_credential authenticator_data)))))"

definition check_hello_registry :: "hello_ext \<Rightarrow> hello_registry \<Rightarrow> byte list \<Rightarrow> unit fcp_result" where
  "check_hello_registry x registry persisted = (case json_from_slice (he_registry_json x) persisted of
       Inl e \<Rightarrow> Inl e
     | Inr parsed \<Rightarrow>
         if hr_profile_user_id_hex parsed \<noteq> hr_profile_user_id_hex registry
            \<or> hr_credential_id_hex parsed \<noteq> hr_credential_id_hex registry
         then Inl (Format ''Hello credential registry failed to round-trip'') else Inr ())"

definition create_authorizer :: "hello_ext \<Rightarrow> path \<Rightarrow> (world, hello_authorizer) host" where
  "create_authorizer x registry_path =
     bindR (of_result (hello_user_id x registry_path)) (\<lambda>profile_user_id.
     bindR (create_credential x profile_user_id) (\<lambda>(credential_id, px, py).
       let registry = \<lparr>hr_version = 2, hr_profile_user_id_hex = hex_encode profile_user_id,
             hr_credential_id_hex = hex_encode credential_id, hr_public_key_x_hex = hex_encode px,
             hr_public_key_y_hex = hex_encode py\<rparr> in
     bindR (of_result (json_to_vec (he_registry_json x) registry)) (\<lambda>bytes.
     seqR (write_verified registry_path bytes (check_hello_registry x registry))
    (ret \<lparr>ha_credential_id = credential_id, ha_public_key_x = px, ha_public_key_y = py\<rparr>))))"

definition hello_open_existing :: "hello_ext \<Rightarrow> path \<Rightarrow> (world, hello_authorizer) host" where
  "hello_open_existing x credential_path = seqR (he_com_initialize x) (hello_load_registry x credential_path)"

definition hello_open_or_create :: "hello_ext \<Rightarrow> path \<Rightarrow> (world, hello_authorizer) host" where
  "hello_open_or_create x credential_path =
     seqR (he_com_initialize x)
    (bindR (fs_exists credential_path) (\<lambda>present.
     if present then
       bindR (attempt (hello_load_registry x credential_path)) (\<lambda>r. case r of
           Inr a \<Rightarrow> ret a
         | Inl e \<Rightarrow> seqR (hello_quarantine_registry credential_path) (create_authorizer x credential_path))
     else create_authorizer x credential_path))"

definition recreate :: "hello_ext \<Rightarrow> path \<Rightarrow> (world, hello_authorizer) host" where
  "recreate x credential_path =
     seqR (he_com_initialize x)
    (bindR (fs_exists credential_path) (\<lambda>present.
     seqR (if present then hello_quarantine_registry credential_path else ret ())
          (create_authorizer x credential_path)))"

text \<open>The new authorizer is \<open>None\<close> where the source returns \<open>Ok(false)\<close>.\<close>

definition hello_recover :: "hello_ext \<Rightarrow> fcp_error \<Rightarrow> path \<Rightarrow> (world, hello_authorizer option) host" where
  "hello_recover x error credential_path =
     (if error \<noteq> Capability ''hello_credential_missing'' then ret None
      else bindR (recreate x credential_path) (\<lambda>a. ret (Some a)))"

definition windows_authorizer :: "hello_ext \<Rightarrow> hello_authorizer \<Rightarrow> authorizer" where
  "windows_authorizer x a = \<lparr>auth_sign = sign_assertion x a, auth_verify_signature = hello_verify_signature x a\<rparr>"

text \<open>The constructors as the dispatcher calls them; the authorizer stays when nothing vanished.\<close>

definition windows_open :: "hello_ext \<Rightarrow> path \<Rightarrow> (world, authorizer) host" where
  "windows_open x credential_path = bindR (hello_open_or_create x credential_path) (\<lambda>a. ret (windows_authorizer x a))"

definition windows_recover :: "hello_ext \<Rightarrow> authorizer \<Rightarrow> fcp_error \<Rightarrow> path \<Rightarrow> (world, bool \<times> authorizer) host" where
  "windows_recover x self error credential_path = bindR (hello_recover x error credential_path) (\<lambda>r.
     ret (case r of None \<Rightarrow> (False, self) | Some a \<Rightarrow> (True, windows_authorizer x a)))"

subsection \<open>What a signature proves\<close>

lemma authenticator_context_iff:
  "validate_authenticator_context x d = Inr () \<longleftrightarrow> 37 \<le> length d \<and> take 32 d = he_sha256 x (map byte_of_char RP_ID) \<and>
     d ! 32 AND 0x01 \<noteq> 0 \<and> d ! 32 AND 0x04 \<noteq> 0"
  by (auto simp: validate_authenticator_context_def Let_def)

lemma hello_verifies:
  assumes "hello_verify_signature x a cap = Inr ()"
  shows "validate_authenticator_context x (sc_proof_context cap) = Inr () \<and> length (sc_signature cap) = 64"
  using assms by (auto simp: hello_verify_signature_def Let_def split: sum.splits if_splits)

text \<open>
  A Windows Hello signature proves that the user was verified: whenever the authorizer returns a
  signed capability, it carries the requested payload, the assertion came from the stored credential
  over client data built from exactly this payload's canonical bytes, the authenticator data names
  this relying party and has the user-present and user-verified flags set, and the signature has 64
  bytes and verifies under the stored public key.
\<close>

theorem hello_signature_proves_verification:
  assumes "auth_sign (windows_authorizer x a) payload w = (Inr cap, w')"
  shows "sc_payload cap = payload \<and> auth_verify_signature (windows_authorizer x a) cap = Inr () \<and>
    length (sc_signature cap) = 64 \<and> take 32 (sc_proof_context cap) = he_sha256 x (map byte_of_char RP_ID) \<and>
    sc_proof_context cap ! 32 AND 0x01 \<noteq> 0 \<and> sc_proof_context cap ! 32 AND 0x04 \<noteq> 0 \<and>
    (\<exists>v v' der. he_get_assertion x (ha_credential_id a) (client_data_json (canonical_bytes payload) ''webauthn.get'') v
       = (Inr (sc_proof_context cap, der), v') \<and> der_ecdsa_signature_to_raw der = Inr (sc_signature cap))"
proof -
  obtain data der v' raw where get: "he_get_assertion x (ha_credential_id a) (client_data_json (canonical_bytes payload) ''webauthn.get'') w
        = (Inr (data, der), v')" and raw: "der_ecdsa_signature_to_raw der = Inr raw"
      and cap: "cap = \<lparr>sc_payload = payload, sc_signature = raw, sc_proof_context = data\<rparr>"
      and ver: "hello_verify_signature x a cap = Inr ()"
    using assms by (auto simp: windows_authorizer_def sign_assertion_def monad_defs Let_def split: prod.splits sum.splits)
  from hello_verifies [OF ver] have "validate_authenticator_context x data = Inr ()" "length raw = 64" by (simp_all add: cap)
  with get raw ver cap show ?thesis
    by (auto simp: windows_authorizer_def authenticator_context_iff)
qed

subsection \<open>What a signature is bound to\<close>

lemma hex_encode_inj: "hex_encode a = hex_encode b \<longleftrightarrow> a = b"
  using hex_round_trip by (metis sum.inject(2))

lemma byte_of_char_inj: "byte_of_char c = byte_of_char d \<longleftrightarrow> c = d"
proof
  assume "byte_of_char c = byte_of_char d"
  then have "unat (of_nat (of_char c) :: byte) = unat (of_nat (of_char d) :: byte)" by (simp add: byte_of_char_def)
  then have "(of_char c :: nat) = of_char d" by (simp add: unat_of_nat)
  then show "c = d" by simp
qed simp

lemma client_data_inj: "client_data_json a t = client_data_json b t \<longleftrightarrow> a = b"
proof -
  have "inj byte_of_char" by (rule injI) (simp add: byte_of_char_inj)
  then show ?thesis
    by (simp add: client_data_json_def json_member_def quote_mark_def inj_map_eq_map hex_encode_inj)
qed

definition hello_digest :: "hello_ext \<Rightarrow> signed_capability \<Rightarrow> byte list" where
  "hello_digest x cap = he_sha256 x (sc_proof_context cap @
     he_sha256 x (client_data_json (canonical_bytes (sc_payload cap)) ''webauthn.get''))"

text \<open>
  The digest under the signature determines the capability: two capabilities with the same digest
  have the same payload and the same authenticator data, provided SHA-256 has 32 bytes and does not
  collide. A signature cannot be moved to another payload or relieved of its flags.
\<close>

theorem hello_digest_binds:
  assumes "\<And>bs. length (he_sha256 x bs) = 32" and "\<And>bs cs. he_sha256 x bs = he_sha256 x cs \<Longrightarrow> bs = cs"
    and "hello_digest x cap = hello_digest x cap'"
  shows "sc_payload cap = sc_payload cap' \<and> sc_proof_context cap = sc_proof_context cap'"
proof -
  let ?h = "\<lambda>c. he_sha256 x (client_data_json (canonical_bytes (sc_payload c)) ''webauthn.get'')"
  have "sc_proof_context cap @ ?h cap = sc_proof_context cap' @ ?h cap'"
    using assms(2,3) by (simp add: hello_digest_def)
  moreover have "length (?h cap) = length (?h cap')" by (simp add: assms(1))
  ultimately have "sc_proof_context cap = sc_proof_context cap'" "?h cap = ?h cap'" by (metis append_eq_append_conv)+
  then show ?thesis using assms(2) client_data_inj canonical_bytes_inj by blast
qed

text \<open>A registry opens only under the profile it was created for.\<close>

theorem hello_registry_is_of_this_profile:
  assumes "hello_load_registry x p w = (Inr a, w')"
  shows "\<exists>bs registry user_id. lookup w p = Some bs \<and> from_slice (he_registry_json x) bs = Some registry \<and>
    hello_user_id x p = Inr user_id \<and> hr_profile_user_id_hex registry = hex_encode user_id"
  using assms by (auto simp: hello_load_registry_def monad_defs fs_read_def io_call_def json_from_slice_def
      split: option.splits sum.splits if_splits)

subsection \<open>A concrete credential\<close>

definition exw_data :: "byte list" where
  "exw_data = replicate 32 7 @ [5, 0, 0, 0, 0]"

definition exw_x :: hello_ext where
  "exw_x = \<lparr>he_com_initialize = ret (), he_platform_authenticator_available = ret True, he_make_credential = (\<lambda>_ _. fail 1),
     he_get_assertion = (\<lambda>_ _. ret (exw_data, encode_der_signature (replicate 32 1) (replicate 32 2))),
     he_open_algorithm_provider = 0, he_import_key_pair = (\<lambda>_. 0), he_verify_signature = (\<lambda>_ _ _. 0),
     he_sha256 = (\<lambda>_. replicate 32 7), he_parse_uuid = (\<lambda>_. None), he_registry_json = table_codec []\<rparr>"

definition exw_a :: hello_authorizer where
  "exw_a = \<lparr>ha_credential_id = [1], ha_public_key_x = replicate 32 3, ha_public_key_y = replicate 32 4\<rparr>"

lemma exw_signs: "\<exists>cap. fst (auth_sign (windows_authorizer exw_x exw_a) ex_payload quiet_world) = Inr cap"
proof -
  have "validate_shape ex_payload = Inr ()" by (auto simp: validate_shape_iff ex_payload_def intro: exI [of _ 0])
  moreover have "der_ecdsa_signature_to_raw (encode_der_signature (replicate 32 1) (replicate 32 2)) = Inr (replicate 32 1 @ replicate 32 2)"
    by (rule der_signature_decodes) simp_all
  ultimately show ?thesis
    by (simp add: windows_authorizer_def sign_assertion_def hello_verify_signature_def validate_authenticator_context_def
        verify_ecdsa_p256_def check_ntstatus_def exw_x_def exw_data_def monad_defs nth_append)
qed

theorem hello_signature_proves_verification_witness:
  "\<exists>cap w'. auth_sign (windows_authorizer exw_x exw_a) ex_payload quiet_world = (Inr cap, w') \<and>
     sc_payload cap = ex_payload \<and> sc_proof_context cap ! 32 AND 0x04 \<noteq> 0"
proof -
  obtain cap w' where run: "auth_sign (windows_authorizer exw_x exw_a) ex_payload quiet_world = (Inr cap, w')"
    using exw_signs by (metis prod.collapse)
  with hello_signature_proves_verification [OF run] show ?thesis by blast
qed

end
