(* ===== verification/Injection.thy ===== *)
theory Injection
  imports App_Invariant Tpm_Authorizer Hello_Authorizer
begin

text \<open>
  When cookies leave the host. The handlers of \<open>dispatcher.rs\<close> are searched for every answer that
  carries cookies, and the one that does is joined with the ledger, the transactions and the
  authorizer behind it: from the message back to the user who was verified. What that argument needs
  of the authorizer is the locale \<open>verifying_backend\<close>; the backends of \<open>authorizer/linux.rs\<close> and
  \<open>authorizer/windows.rs\<close> interpret it, with the PIN the TPM accepted and with the Windows Hello
  assertion as the proof.
\<close>

subsection \<open>Answers without cookies\<close>

text \<open>The only message to the browser that carries cookies is an injection chunk.\<close>

definition hands_out :: "message list \<Rightarrow> bool" where
  "hands_out out \<longleftrightarrow> (\<exists>c. CookiesInjectChunk c \<in> set out)"

abbreviation cookieless :: "('s, 'e, message list) rm \<Rightarrow> bool" where
  "cookieless m \<equiv> yields m (\<lambda>out. \<not> hands_out out)"

named_theorems cookieless_rules \<open>programs whose answer carries no cookies\<close>

lemma hands_out_simps [simp]:
  "\<not> hands_out []" "hands_out (m # ms) \<longleftrightarrow> (\<exists>c. m = CookiesInjectChunk c) \<or> hands_out ms"
  by (auto simp: hands_out_def)

lemmas cookieless_structure [cookieless_rules] = answer_rules

lemma cookieless_ret [cookieless_rules]: "\<not> hands_out out \<Longrightarrow> cookieless (ret out)"
  by (rule yields_ret)

lemma cookieless_answers [simp]:
  "grant_message g li ex cs \<noteq> CookiesInjectChunk c" "invalidated_message g why \<noteq> CookiesInjectChunk c"
  "confirmed_message g p sn n \<noteq> CookiesInjectChunk c" "semantic_status g jo \<noteq> CookiesInjectChunk c"
  "snapshot_required g oi sq ol at \<noteq> CookiesInjectChunk c" "completed_message g oi sq ol ok \<noteq> CookiesInjectChunk c"
  "config_updated_message a \<noteq> CookiesInjectChunk c"
  by (simp_all add: grant_message_def invalidated_message_def confirmed_message_def semantic_status_def
      snapshot_required_def completed_message_def config_updated_message_def)

lemma bind_confirmation_cookies [simp]: "hands_out (map (bind_confirmation sq at) out) \<longleftrightarrow> hands_out out"
proof -
  have "(\<exists>c. bind_confirmation sq at m = CookiesInjectChunk c) \<longleftrightarrow> (\<exists>c. m = CookiesInjectChunk c)" for m
    by (cases m) simp_all
  then show ?thesis by (induction out) simp_all
qed

lemma cookieless_lease [cookieless_rules]:
  "cookieless (lease_deny why)" "cookieless (grant_enrollment_v7 x d)" "cookieless (begin_enrollment x d)"
  "cookieless (handle_inject_result x ir)" "cookieless (invalidate_session x why')" "cookieless host_only"
  unfolding lease_deny_def grant_enrollment_v7_def begin_enrollment_def handle_inject_result_def invalidate_session_def host_only_def
  by (intro cookieless_rules; simp)+

lemma cookieless_sessions [cookieless_rules]:
  "cookieless (handle_session_invalidate x si)" "cookieless (handle_auth_cache_clear x ac)"
  "cookieless (handle_evict_begin x er)" "cookieless (handle_evict_result x et)" "cookieless (handle_evict_result_v7 x e7)"
  unfolding handle_session_invalidate_def handle_auth_cache_clear_def handle_evict_begin_def handle_evict_result_def
    handle_evict_result_v7_def
  by (intro cookieless_rules; simp)+

lemma cookieless_operations [cookieless_rules]:
  "cookieless (handle_operation_begin x ob)" "cookieless (handle_operation_status oq)" "cookieless (handle_remove_prepare ep)"
  "cookieless (handle_removal_snapshot_chunk x s7)"
  unfolding handle_operation_begin_def replay_begin_def handle_operation_status_def handle_remove_prepare_def
    handle_removal_snapshot_chunk_def
  by (intro cookieless_rules; simp)+

lemma cookieless_snapshot [cookieless_rules]: "cookieless (handle_snapshot_chunk x sn)"
  unfolding handle_snapshot_chunk_def finish_snapshot_def abort_empty_enrollment_def commit_pending_def announce_commit_def
  by (intro cookieless_rules; simp)

lemma cookieless_snapshot_v7 [cookieless_rules]: "cookieless (handle_snapshot_chunk_v7 x s7)"
proof -
  have "cookieless (process_v7_chunk x s7)"
    unfolding process_v7_chunk_def
    by (intro cookieless_rules yields_bindR [OF cookieless_snapshot]) simp
  then show ?thesis unfolding handle_snapshot_chunk_v7_def by (intro cookieless_rules; simp)
qed

text \<open>Of all messages to a group only a lease request for an injection can be answered with cookies.\<close>

lemma cookieless_group_handle:
  assumes "\<And>q. m = LeaseRequest q \<Longrightarrow> lr_purpose q \<noteq> PurposeInject"
  shows "cookieless (group_handle x h v m)"
  using assms
  by (cases m) (auto simp: group_handle_def handle_lease_request_def Let_def host_only_def
      intro!: cookieless_rules split: lease_purpose.split)

lemma yields_on_group: "yields m P \<Longrightarrow> yields (on_group g m) P"
  unfolding on_group_def run_group_def by (intro yields_last yields_zoom)

lemma cookieless_config [cookieless_rules]:
  "cookieless updated" "cookieless (rejected why)" "cookieless (host_only_error what)"
  unfolding updated_def rejected_def host_only_error_def by (intro cookieless_rules; simp)+

lemma cookieless_config_changes [cookieless_rules]:
  "cookieless (handle_group_add x ga)" "cookieless (handle_group_remove x gr)" "cookieless (handle_group_set_policy x gp)"
  unfolding handle_group_add_def handle_group_remove_def handle_group_set_policy_def by (intro cookieless_rules)+

lemma cookieless_profile [cookieless_rules]:
  "cookieless (handle_recovery_adopt x ra)" "cookieless (handle_handshake x h)"
  unfolding handle_recovery_adopt_def handle_handshake_def app_world_def by (intro cookieless_rules yields_part; simp)+

lemma cookieless_monitor [cookieless_rules]:
  "cookieless (app_monitor (poll ax mp))" "cookieless (app_monitor (accept_extension_event ax me))"
proof -
  have events: "cookieless (poll_events ax n)" for n
  proof (induction n)
    case (Suc n)
    have "cookieless (bindR (poll_events ax n) (\<lambda>messages. ret (MonitorAlert alert # messages)))" for alert
      by (rule yields_bindR [OF Suc]) (simp add: yields_ret)
    then show ?case unfolding poll_events.simps
      by (intro yields_last(1)) (auto split: list.split intro!: cookieless_ret yields_last(2))
  qed (simp add: yields_ret)
  show "cookieless (app_monitor (poll ax mp))" "cookieless (app_monitor (accept_extension_event ax me))"
    unfolding app_monitor_def poll_def accept_extension_event_def
    by (intro yields_zoom cookieless_rules events; simp)+
qed

text \<open>And of all messages to the host.\<close>

lemma native_handle_hands_out:
  assumes "native_handle x m (a, w) = (Inr out, s')" and "hands_out out"
  obtains q r where "na_handshake_complete a" "m = LeaseRequest q" "lr_purpose q = PurposeInject"
    "map_of (na_groups a) (lr_account_group_id q) = Some r"
    "\<exists>s''. handle_lease_request (px_host x) (dp_hello_credential (na_paths a)) (na_negotiated_protocol a) q
        (r, na_hello_authorizer a, na_audit a, w) = (Inr out, s'')"
proof -
  have "cookieless (native_handle x m)" if none: "\<And>q. m = LeaseRequest q \<Longrightarrow> lr_purpose q \<noteq> PurposeInject"
  proof -
    have "cookieless (route_group x m)"
      unfolding route_group_def by (intro cookieless_rules yields_on_group cookieless_group_handle none)
    then have "cookieless (route x m)"
      unfolding route_def by (cases m; simp only: message.case; intro cookieless_rules)
    then show ?thesis
      unfolding native_handle_def by (intro cookieless_rules; cases m; simp only: message.case; intro cookieless_rules)
  qed
  with assms obtain q where q: "m = LeaseRequest q" "lr_purpose q = PurposeInject"
    by (auto dest: yieldsD)
  have "na_handshake_complete a" using assms q(1)
    by (auto simp: native_handle_def host_only_error_def the_app_def monad_defs split: if_splits)
  moreover from this obtain r s'' where "map_of (na_groups a) (lr_account_group_id q) = Some r"
      "handle_lease_request (px_host x) (dp_hello_credential (na_paths a)) (na_negotiated_protocol a) q
        (r, na_hello_authorizer a, na_audit a, w) = (Inr out, s'')"
    using assms q(1)
    by (auto simp: native_handle_def route_def route_group_def on_group_def run_group_def group_handle_def the_app_def
        update_app_def monad_defs zoom_def split: prod.splits option.splits sum.splits)
  ultimately show thesis using q that by blast
qed

subsection \<open>The authorizer in its slot\<close>

text \<open>The authorizer the host holds, when it holds one, satisfies \<open>B\<close>.\<close>

definition held_by :: "(authorizer \<Rightarrow> bool) \<Rightarrow> authorizer option \<Rightarrow> bool" where
  "held_by B h \<longleftrightarrow> (\<forall>a. h = Some a \<longrightarrow> B a)"

abbreviation held_inv :: "(authorizer \<Rightarrow> bool) \<Rightarrow> group_state_t \<Rightarrow> bool" where
  "held_inv B s \<equiv> held_by B (fst (snd s))"

abbreviation slot_inv :: "(authorizer \<Rightarrow> bool) \<Rightarrow> native_host_app \<times> world \<Rightarrow> bool" where
  "slot_inv B s \<equiv> held_by B (na_hello_authorizer (fst s))"

lemma held_by_simps [simp]: "held_by B None" "held_by B (Some a) \<longleftrightarrow> B a"
  by (auto simp: held_by_def)

lemma held_primitives [keeps_rules]:
  "keeps (held_inv B) the_runtime" "keeps (held_inv B) (in_world m)" "keeps (held_inv B) (in_audit n)"
  "keeps (held_inv B) (with_transactions f)" "keeps (held_inv B) (update_runtime h)"
  "keeps (held_inv B) (on_coordinator c)" "keeps (held_inv B) (on_transactions t)"
  by (auto simp: keeps_def wp_simps update_runtime_def case_prod_beta intro!: wp_mono [OF wp_top])

lemma held_updates [keeps_rules]:
  "keeps (held_inv B) (update_lease f)" "keeps (held_inv B) (set_pending p)" "keeps (held_inv B) (persist_lease x)"
  "keeps (held_inv B) (save_lease x)" "keeps (held_inv B) (record_operation_audit x i ev oc d)"
  "keeps (held_inv B) (audit_group x ev oc d)" "keeps (held_inv B) (lease_deny why)" "keeps (held_inv B) already_enrolled"
  "keeps (held_inv B) m \<Longrightarrow> keeps (held_inv B) (restoring q m)" "keeps (held_inv B) host_only"
  unfolding update_lease_def set_pending_def persist_lease_def save_lease_def advance_lease_def record_operation_audit_def
    audit_group_def lease_deny_def already_enrolled_def restoring_def host_only_def
  by (intro keeps_rules; assumption?)+

lemma held_sessions [keeps_rules]:
  "keeps (held_inv B) (grant_enrollment_v7 x d)" "keeps (held_inv B) (begin_enrollment x d)"
  "keeps (held_inv B) (handle_inject_result x ir)" "keeps (held_inv B) (handle_session_invalidate x si)"
  "keeps (held_inv B) (handle_auth_cache_clear x ac)" "keeps (held_inv B) (handle_evict_begin x er)"
  "keeps (held_inv B) (handle_evict_result x et)" "keeps (held_inv B) (handle_operation_begin x ob)"
  "keeps (held_inv B) (handle_operation_status oq)" "keeps (held_inv B) (handle_remove_prepare ep)"
  unfolding grant_enrollment_v7_def begin_enrollment_def handle_inject_result_def handle_session_invalidate_def
    invalidate_session_def handle_auth_cache_clear_def handle_evict_begin_def handle_evict_result_def
    handle_operation_begin_def replay_begin_def handle_operation_status_def handle_remove_prepare_def
  by (intro keeps_rules)+

lemma held_snapshots [keeps_rules]:
  "keeps (held_inv B) (handle_snapshot_chunk x sn)" "keeps (held_inv B) (handle_removal_snapshot_chunk x s7)"
  "keeps (held_inv B) (handle_evict_result_v7 x e7)"
  unfolding handle_snapshot_chunk_def finish_snapshot_def abort_empty_enrollment_def commit_pending_def announce_commit_def
    handle_removal_snapshot_chunk_def handle_evict_result_v7_def
  by (intro keeps_rules)+

lemma held_chunk_v7 [keeps_rules]: "keeps (held_inv B) (handle_snapshot_chunk_v7 x s7)"
  unfolding handle_snapshot_chunk_v7_def process_v7_chunk_def by (intro keeps_rules)

lemma slot_calls [keeps_rules]:
  "keeps (slot_inv B) the_app" "keeps (slot_inv B) (app_world m)" "keeps (slot_inv B) (app_audit n)" "keeps (slot_inv B) (app_monitor k)"
  by (auto simp: keeps_def wp_simps app_monitor_def case_prod_beta intro!: wp_mono [OF wp_top])

lemma slot_update: "(\<And>a. na_hello_authorizer (f a) = na_hello_authorizer a) \<Longrightarrow> keeps (slot_inv B) (update_app f)"
  by (simp add: keeps_def wp_update_app)

lemma slot_on_group: "keeps (held_inv B) m \<Longrightarrow> keeps (slot_inv B) (on_group g m)"
  by (auto simp: keeps_def wp_on_group wp_run_group split: option.split intro!: wp_mono)

lemma slot_small [keeps_rules]:
  "keeps (slot_inv B) (audit_config x g d)" "keeps (slot_inv B) updated" "keeps (slot_inv B) (rejected why)"
  "keeps (slot_inv B) (host_only_error what)" "keeps (slot_inv B) group_ids" "keeps (slot_inv B) (recovery_candidates x g)"
  "keeps (slot_inv B) (commit_config x c)"
  unfolding audit_config_def updated_def rejected_def host_only_error_def group_ids_def recovery_candidates_def commit_config_def
  by (intro keeps_rules slot_update; simp)+

lemma slot_each_group: "(\<And>g. keeps (slot_inv B) (f g)) \<Longrightarrow> keeps (slot_inv B) (each_group f gs)"
  by (rule each_group_keeps)

lemma slot_config_changes [keeps_rules]:
  "keeps (slot_inv B) (handle_group_add x ga)" "keeps (slot_inv B) (handle_group_remove x gr)"
  "keeps (slot_inv B) (handle_group_set_policy x gp)" "keeps (slot_inv B) (handle_recovery_adopt x ra)"
  "keeps (slot_inv B) (handle_handshake x h)"
proof -
  have bind: "keeps (slot_inv B) (bind_new_group x i r)" for i r
    by (auto simp: keeps_def bind_new_group_def the_app_def wp_def monad_defs split: prod.splits sum.splits)
  have rollback: "keeps (slot_inv B) (commit_or_rollback x st r c)" for st r c
    unfolding commit_or_rollback_def by (intro keeps_rules)
  have monitor: "keeps (held_inv B) (enter_monitor x)"
    unfolding enter_monitor_def by (intro keeps_rules)
  have bound: "keeps (held_inv B) (handshake_group hx h)" for hx
    unfolding handshake_group_def bind_group_def by (intro keeps_rules)
  show "keeps (slot_inv B) (handle_group_add x ga)" unfolding handle_group_add_def
    by (intro keeps_rules bind slot_update; simp)
  show "keeps (slot_inv B) (handle_group_remove x gr)" unfolding handle_group_remove_def
    by (intro keeps_rules rollback slot_update; simp)
  show "keeps (slot_inv B) (handle_group_set_policy x gp)" unfolding handle_group_set_policy_def
    by (intro keeps_rules rollback slot_on_group monitor)
  show "keeps (slot_inv B) (handle_recovery_adopt x ra)" unfolding handle_recovery_adopt_def
    by (intro keeps_rules)
  show "keeps (slot_inv B) (handle_handshake x h)" unfolding handle_handshake_def
    by (intro keeps_rules slot_each_group slot_on_group bound slot_update; simp)
qed

lemma wp_open_slot: "wp (native_open x paths) (\<lambda>a _. na_hello_authorizer a = None) (\<lambda>_ _. True) w"
  unfolding native_open_def
  by (auto simp: wp_simps case_prod_beta split: sum.split option.split intro!: wp_mono [OF wp_top])

subsection \<open>What an answer with cookies carries\<close>

text \<open>
  The capability number \<open>n\<close> of group \<open>g\<close> was signed for an injection, the signature carries the
  backend's proof that the user was verified, and the ledger file recorded it as consumed.
\<close>

definition approved :: "(signed_capability \<Rightarrow> bool) \<Rightarrow> tx_ext \<Rightarrow> vault_transactions \<Rightarrow> uuid \<Rightarrow> u64 \<Rightarrow> bool" where
  "approved proves x t g n \<longleftrightarrow> (\<exists>cap ledger v.
     cp_operation (sc_payload cap) = CapInject \<and> cp_account_group_id (sc_payload cap) = g \<and>
     cp_monotonic_sequence (sc_payload cap) = n \<and> proves cap \<and>
     stored (tx_ledger_json x) (vt_capability_store t) v = Some ledger \<and> cl_last_consumed_sequence ledger = n)"

text \<open>What an authorisation leaves of the transactions besides the ledger.\<close>

definition same_vault :: "vault_transactions \<Rightarrow> vault_transactions \<Rightarrow> bool" where
  "same_vault t t' \<longleftrightarrow> vt_group_id t' = vt_group_id t \<and> vt_capability_store t' = vt_capability_store t"

lemma same_vault_ledger: "t' = t\<lparr>vt_capability_ledger := l\<rparr> \<Longrightarrow> same_vault t t'"
  by (simp add: same_vault_def)

lemma approved_same: "same_vault t t' \<Longrightarrow> approved proves x t' g n \<Longrightarrow> approved proves x t g n"
  by (simp add: approved_def same_vault_def)

lemma same_vault_trans: "same_vault t u \<Longrightarrow> same_vault u v \<Longrightarrow> same_vault t v"
  by (simp add: same_vault_def)

lemma same_vault_refl [simp]: "same_vault t t"
  by (simp add: same_vault_def)

lemma inject_messages_for:
  "inject_messages g lease_id k n i chunks = Inr ms \<Longrightarrow> CookiesInjectChunk c \<in> set ms \<Longrightarrow>
     ic_account_group_id c = g \<and> ic_lease_id c = lease_id"
  by (induction g lease_id k n i chunks arbitrary: ms rule: inject_messages.induct) (auto split: if_splits sum.splits)

lemma wp_read_authorised:
  "wp (read_for_inject x t cc) (\<lambda>_ _. cc_account_group_id cc = vt_group_id t) (\<lambda>_ _. True) w"
  unfolding read_for_inject_def wp_seqR wp_of_result require_authorization_def
  by (auto intro: wp_mono [OF wp_top])

text \<open>An answer that carries cookies opens with the grant whose capability was approved.\<close>

definition approved_answer :: "(signed_capability \<Rightarrow> bool) \<Rightarrow> tx_ext \<Rightarrow> group_runtime \<Rightarrow> message list \<Rightarrow> bool" where
  "approved_answer proves x r out \<longleftrightarrow> (\<exists>lease_id expiry n ms. out = grant_message (rt_id r) lease_id expiry (Some n) # ms \<and>
     approved proves x (rt_transactions r) (vt_group_id (rt_transactions r)) n \<and>
     (\<forall>c. CookiesInjectChunk c \<in> set out \<longrightarrow> ic_account_group_id c = rt_id r \<and> ic_lease_id c = lease_id))"

text \<open>The guards in front of an injection.\<close>

lemma lease_request_hands_out:
  assumes "handle_lease_request x p v q (r, s) = (Inr out, s')" and "lr_purpose q = PurposeInject" and "hands_out out"
  shows "rt_pending r = None" "\<not> has_unresolved (rt_operation_coordinator r)" "\<not> monitoring_only (parameters (rt_policy r))"
    "lm_state (rt_lease r) = Sealed"
    "begin_inject x p (lease_duration_ms (parameters (rt_policy r))) (r, s) = (Inr out, s')"
proof -
  have deny: "\<not> (lease_deny why (r, s) = (Inr out, s'))" for why
    using assms(3) yieldsD [OF cookieless_lease(1)] by blast
  show "rt_pending r = None" "\<not> has_unresolved (rt_operation_coordinator r)" "\<not> monitoring_only (parameters (rt_policy r))"
    and begins: "begin_inject x p (lease_duration_ms (parameters (rt_policy r))) (r, s) = (Inr out, s')"
    using assms(1,2) deny
    by (auto simp: handle_lease_request_def the_runtime_def monad_defs Let_def split: if_splits)
  show "lm_state (rt_lease r) = Sealed"
    using begins deny by (auto simp: begin_inject_def the_runtime_def monad_defs split: if_splits)
qed

subsection \<open>Backends that verify the user\<close>

text \<open>The host is built for one platform: the constructors of the authorizer are those of its backend.\<close>

definition host_with :: "(path \<Rightarrow> (world, authorizer) host) \<Rightarrow>
    (authorizer \<Rightarrow> fcp_error \<Rightarrow> path \<Rightarrow> (world, bool \<times> authorizer) host) \<Rightarrow> host_ext \<Rightarrow> bool" where
  "host_with opens recovers x \<longleftrightarrow> hx_open_or_create x = opens \<and> hx_recover_credential x = recovers"

text \<open>
  What the dispatcher relies on: opening and recovering a credential give authorizers of the backend,
  and a capability such an authorizer signs carries the proof that the user was verified.
\<close>

locale verifying_backend =
  fixes backs :: "authorizer \<Rightarrow> bool"
    and opens :: "path \<Rightarrow> (world, authorizer) host"
    and recovers :: "authorizer \<Rightarrow> fcp_error \<Rightarrow> path \<Rightarrow> (world, bool \<times> authorizer) host"
    and proves :: "signed_capability \<Rightarrow> bool"
  assumes wp_opens: "wp (opens p) (\<lambda>a _. backs a) (\<lambda>_ _. True) w"
    and wp_recovers: "backs a \<Longrightarrow> wp (recovers a e p) (\<lambda>(_, a') _. backs a') (\<lambda>_ _. True) w"
    and sign_proves: "backs a \<Longrightarrow> auth_sign a payload w = (Inr cap, w') \<Longrightarrow> proves cap"
begin

lemma wp_host:
  assumes "host_with opens recovers x"
  shows "wp (hx_open_or_create x p) (\<lambda>a _. backs a) (\<lambda>_ _. True) w"
    and "backs a \<Longrightarrow> wp (hx_recover_credential x a e p) (\<lambda>(_, a') _. backs a') (\<lambda>_ _. True) w"
  using assms by (simp_all add: host_with_def wp_opens wp_recovers)

lemma wp_authorize:
  assumes "backs a"
  shows "wp (authorize_inject x a)
     (\<lambda>cc (t', w'). approved proves x t (cc_account_group_id cc) (cc_monotonic_sequence cc) \<and> same_vault t t')
     (\<lambda>_ (t', w'). same_vault t t') (t, w)"
proof (rule wp_mono [OF wp_authorize_inject], safe)
  fix cc t' w' payload cap v v'
  assume run: "auth_sign a (sc_payload cap) v = (Inr cap, v')" and l: "t' = t\<lparr>vt_capability_ledger := vt_capability_ledger t'\<rparr>"
    and facts: "cp_operation (sc_payload cap) = CapInject" "cp_account_group_id (sc_payload cap) = cl_account_group_id (vt_capability_ledger t)"
    "cc_monotonic_sequence cc = cp_monotonic_sequence (sc_payload cap)" "cc_account_group_id cc = cl_account_group_id (vt_capability_ledger t)"
    "stored (tx_ledger_json x) (vt_capability_store t) w' = Some (vt_capability_ledger t')"
    "cl_last_consumed_sequence (vt_capability_ledger t') = cc_monotonic_sequence cc"
  from sign_proves [OF assms run] facts show "approved proves x t (cc_account_group_id cc) (cc_monotonic_sequence cc)"
    unfolding approved_def by metis
qed (blast intro: same_vault_ledger)+

lemma wp_ensure:
  assumes "host_with opens recovers x" and "held_by backs held"
  shows "wp (ensure_authorizer x p) (\<lambda>a s'. held_by backs (Some a) \<and> held_inv backs s' \<and> fst s' = r)
     (\<lambda>_. held_inv backs) (r, held, l, w)"
  using assms(2)
  by (auto simp: ensure_authorizer_def wp_simps split: option.split intro!: wp_mono [OF wp_host(1) [OF assms(1)]])

lemma wp_recovery:
  assumes "host_with opens recovers x" and "held_by backs (Some a)" and "held_inv backs s"
  shows "wp (authorize_with_recovery x p a)
     (\<lambda>cc s'. approved proves (hx_tx x) (rt_transactions (fst s)) (cc_account_group_id cc) (cc_monotonic_sequence cc) \<and>
        same_vault (rt_transactions (fst s)) (rt_transactions (fst s')) \<and> rt_id (fst s') = rt_id (fst s) \<and> held_inv backs s')
     (\<lambda>_. held_inv backs) s"
proof -
  have once: "wp (on_transactions (authorize_inject (hx_tx x) b))
      (\<lambda>cc s'. approved proves (hx_tx x) (rt_transactions (fst z)) (cc_account_group_id cc) (cc_monotonic_sequence cc) \<and>
        same_vault (rt_transactions (fst z)) (rt_transactions (fst s')) \<and> rt_id (fst s') = rt_id (fst z) \<and> held_inv backs s')
      (\<lambda>_ s'. same_vault (rt_transactions (fst z)) (rt_transactions (fst s')) \<and> rt_id (fst s') = rt_id (fst z) \<and> held_inv backs s') z"
    if "held_by backs (Some b)" "held_inv backs z" for b z
    using that by (auto simp: wp_on_transactions intro!: wp_mono [OF wp_authorize])
  show ?thesis unfolding authorize_with_recovery_def wp_catchR
    using assms(2,3)
    by (intro wp_mono [OF once [OF assms(2,3)]])
      (auto simp: wp_bindR wp_seqR wp_in_world wp_modify wp_if wp_fail case_prod_beta
        intro!: wp_mono [OF wp_host(2) [OF assms(1)]] wp_mono [OF once], (metis approved_same same_vault_trans)+)
qed

lemma wp_begin_inject:
  assumes "host_with opens recovers x" and "held_by backs held"
  shows "wp (begin_inject x p d) (\<lambda>out s'. held_inv backs s' \<and> (hands_out out \<longrightarrow> approved_answer proves (hx_tx x) r out))
     (\<lambda>_. held_inv backs) (r, held, l, w)"
proof -
  let ?Q = "\<lambda>out s'. held_inv backs s' \<and> (hands_out out \<longrightarrow> approved_answer proves (hx_tx x) r out)"
  have world: "wp (in_world m) Q (\<lambda>_. held_inv backs) s"
    if "held_inv backs s" "\<And>v s'. held_inv backs s' \<Longrightarrow> fst s' = fst s \<Longrightarrow> Q v s'" for m :: "(world, 'b) host" and Q s
    using that by (auto simp: wp_in_world intro!: wp_mono [OF wp_top])
  have kept: "wp m (\<lambda>_ s'. Q s') (\<lambda>_. held_inv backs) s" if "keeps (held_inv backs) m" "held_inv backs s" "\<And>s'. held_inv backs s' \<Longrightarrow> Q s'"
    for m :: "unit group_m" and Q s
    using that by (auto intro: wp_mono [OF keepsD])
  have sealed: "wp (if c then ret False else with_transactions vault_exists) Q (\<lambda>_. held_inv backs) s"
    if "held_inv backs s" "\<And>v s'. held_inv backs s' \<Longrightarrow> fst s' = fst s \<Longrightarrow> Q v s'" for c Q s
    using that by (auto simp: wp_ret wp_with_transactions intro!: wp_mono [OF wp_top])
  have read: "wp (with_transactions (\<lambda>t. read_for_inject (hx_tx x) t cc)) Q (\<lambda>_. held_inv backs) s"
    if "held_inv backs s" "\<And>v s'. held_inv backs s' \<Longrightarrow> cc_account_group_id cc = vt_group_id (rt_transactions (fst s)) \<Longrightarrow> Q v s'" for cc Q s
    using that by (auto simp: wp_with_transactions intro!: wp_mono [OF wp_read_authorised])
  have auth: "wp (authorize_with_recovery x p a) Q (\<lambda>_. held_inv backs) s"
    if "held_by backs (Some a)" "held_inv backs s" "\<And>cc s'. held_inv backs s' \<Longrightarrow>
      approved proves (hx_tx x) (rt_transactions (fst s)) (cc_account_group_id cc) (cc_monotonic_sequence cc) \<Longrightarrow>
      vt_group_id (rt_transactions (fst s')) = vt_group_id (rt_transactions (fst s)) \<Longrightarrow> Q cc s'" for a Q s
    using that by (auto simp: same_vault_def intro!: wp_mono [OF wp_recovery [OF assms(1)]])
  have ensure: "wp (ensure_authorizer x p) Q (\<lambda>_. held_inv backs) s"
    if "held_inv backs s" "\<And>a s'. held_inv backs s' \<Longrightarrow> held_by backs (Some a) \<Longrightarrow> fst s' = fst s \<Longrightarrow> Q a s'" for Q s
    using that by (cases s) (auto intro!: wp_mono [OF wp_ensure [OF assms(1)]])
  have answer: "approved_answer proves (hx_tx x) r (grant_message (rt_id r) lease_id expiry (Some n) # messages)"
    if "inject_messages (rt_id r) lease_id k m 0 chunks = Inr messages"
      "approved proves (hx_tx x) (rt_transactions r) (vt_group_id (rt_transactions r)) n" for lease_id expiry k m n chunks messages
    unfolding approved_answer_def using that inject_messages_for [OF that(1)]
    by (intro exI [of _ lease_id] exI [of _ expiry] exI [of _ n] exI [of _ messages]) (auto simp: grant_message_def)
  show ?thesis
    unfolding begin_inject_def wp_bindR [of the_runtime] wp_the_runtime wp_bindR [of "if _ then _ else _"]
    by (rule sealed) (use assms(2) in \<open>auto simp: wp_lease_deny wp_bindR wp_seqR wp_ok_or wp_of_result wp_ret split: option.split sum.split
        intro!: world kept ensure auth read keeps_rules answer\<close>)
qed

lemma held_group_handle:
  assumes "host_with opens recovers x"
  shows "keeps (held_inv backs) (group_handle x p v m)"
proof -
  have inject: "keeps (held_inv backs) (begin_inject x p d)" for d
  proof (rule keepsI)
    fix s :: group_state_t assume "held_inv backs s"
    then show "wp (begin_inject x p d) (\<lambda>_. held_inv backs) (\<lambda>_. held_inv backs) s"
      by (cases s) (auto intro: wp_mono [OF wp_begin_inject [OF assms]])
  qed
  have "keeps (held_inv backs) (handle_lease_request x p v q)" for q
    unfolding handle_lease_request_def
    by (intro keeps_rules; cases "lr_purpose q") (simp_all add: inject keeps_rules)
  then show ?thesis unfolding group_handle_def Let_def
    by (cases m; simp only: message.case) (intro keeps_rules)+
qed

lemma slot_native_handle:
  assumes "host_with opens recovers (px_host x)"
  shows "keeps (slot_inv backs) (native_handle x m)"
proof -
  have "keeps (slot_inv backs) (route_group x m)" unfolding route_group_def
    by (intro keeps_rules slot_update slot_on_group held_group_handle [OF assms]) simp
  then have "keeps (slot_inv backs) (route x m)"
    unfolding route_def by (cases m; simp only: message.case; intro keeps_rules)
  then have "keeps (slot_inv backs) (seqR (update_app (\<lambda>a. a\<lparr>na_last_message_group := None\<rparr>)) (route x m))"
    by (intro keeps_rules slot_update) simp_all
  then show ?thesis
    unfolding native_handle_def by (intro keeps_rules; cases m; simp only: message.case; intro keeps_rules)
qed

end

text \<open>The authorizer in the slot stays one of the backend over all messages.\<close>

sublocale verifying_backend \<subseteq> slot: invariant_machine "native_handle x"
  "\<lambda>s. host_with opens recovers (px_host x) \<longrightarrow> slot_inv backs s" for x
proof unfold_locales
  show "keeps (\<lambda>s. host_with opens recovers (px_host x) \<longrightarrow> slot_inv backs s) (native_handle x m)" for m
    using slot_native_handle [of x m] by (cases "host_with opens recovers (px_host x)") (simp_all add: keeps_def wp_top)
qed

context verifying_backend
begin

lemma cookies_leave_only_proved:
  assumes "host_with opens recovers (px_host x)" and "native_open x paths w0 = (Inr a0, w1)"
    and "run_steps (native_handle x) ms (a0, w1) = (a, w)"
    and "native_handle x m (a, w) = (Inr out, s')" and "CookiesInjectChunk c \<in> set out"
  shows "\<exists>q r lease_id expiry n rest. na_handshake_complete a \<and> m = LeaseRequest q \<and> lr_purpose q = PurposeInject \<and>
    map_of (na_groups a) (lr_account_group_id q) = Some r \<and> rt_pending r = None \<and>
    \<not> has_unresolved (rt_operation_coordinator r) \<and> lm_state (rt_lease r) = Sealed \<and>
    out = grant_message (lr_account_group_id q) lease_id expiry (Some n) # rest \<and>
    ic_account_group_id c = lr_account_group_id q \<and> ic_lease_id c = lease_id \<and>
    approved proves (hx_tx (px_host x)) (rt_transactions r) (vt_group_id (rt_transactions r)) n"
proof -
  have "host_with opens recovers (px_host x) \<longrightarrow> slot_inv backs (a, w)"
    unfolding assms(3) [symmetric] by (rule slot.all_steps) (simp add: wp_okD [OF assms(2) wp_open_slot])
  with assms(1) have held: "held_by backs (na_hello_authorizer a)" by simp
  have "app_inv x (a, w)"
    unfolding assms(3) [symmetric] by (rule am.all_steps) (simp add: wp_okD [OF assms(2) wp_native_open])
  then have ids: "rt_id r = g" if "map_of (na_groups a) g = Some r" for g r
    using that by (auto simp: app_ok_def group_good_def)
  have "hands_out out" using assms(5) by (auto simp: hands_out_def)
  from native_handle_hands_out [OF assms(4) this] obtain q r s'' where q: "na_handshake_complete a" "m = LeaseRequest q"
      "lr_purpose q = PurposeInject" "map_of (na_groups a) (lr_account_group_id q) = Some r"
      and run: "handle_lease_request (px_host x) (dp_hello_credential (na_paths a)) (na_negotiated_protocol a) q
        (r, na_hello_authorizer a, na_audit a, w) = (Inr out, s'')" by metis
  note guards = lease_request_hands_out [OF run q(3) \<open>hands_out out\<close>]
  have "approved_answer proves (hx_tx (px_host x)) r out"
    using wp_okD [OF guards(5) wp_begin_inject [OF assms(1) held]] \<open>hands_out out\<close> by simp
  then obtain lease_id expiry n rest where "out = grant_message (rt_id r) lease_id expiry (Some n) # rest"
      "approved proves (hx_tx (px_host x)) (rt_transactions r) (vt_group_id (rt_transactions r)) n"
      "ic_account_group_id c = rt_id r \<and> ic_lease_id c = lease_id"
    using assms(5) unfolding approved_answer_def by blast
  then show ?thesis using q guards(1,2,4) ids [OF q(4)]
    by (intro exI [of _ q] exI [of _ r] exI [of _ lease_id] exI [of _ expiry] exI [of _ n] exI [of _ rest]) simp
qed

end

subsection \<open>The backends of the program\<close>

text \<open>
  The proof on Linux: the TPM signed the payload after a non-empty PIN was set, with a key it refuses
  to use without one, and the signature verifies.
\<close>

definition pin_proof :: "auth_ext \<Rightarrow> signed_capability \<Rightarrow> bool" where
  "pin_proof y cap \<longleftrightarrow> signed_under_pin y (canonical_bytes (sc_payload cap)) (sc_signature cap) \<and>
     (\<exists>registry. key_requires_pin y registry \<and> verify_signature y registry cap = Inr ())"

interpretation linux: verifying_backend "\<lambda>a. \<exists>registry. a = linux_authorizer y registry" "linux_open y" "linux_recover y"
  "pin_proof y" for y
proof unfold_locales
  show "wp (linux_open y p) (\<lambda>a _. \<exists>registry. a = linux_authorizer y registry) (\<lambda>_ _. True) w" for p w
    by (auto simp: wp_def linux_open_def run_logged_def monad_defs split: prod.splits sum.splits)
  show "wp (linux_recover y a e p) (\<lambda>(_, a') _. \<exists>registry. a' = linux_authorizer y registry) (\<lambda>_ _. True) w"
    if "\<exists>registry. a = linux_authorizer y registry" for a e p w
    using that by (auto simp: wp_def linux_recover_def run_logged_def monad_defs split: prod.splits sum.splits option.splits)
  show "pin_proof y cap" if "\<exists>registry. a = linux_authorizer y registry" "auth_sign a payload w = (Inr cap, w')" for a payload w cap w'
    using that wp_okD [OF _ wp_linux_sign] unfolding pin_proof_def by metis
qed

text \<open>
  The proof on Windows: the assertion came from a stored credential over client data built from
  exactly this payload, its authenticator data names this relying party and has the user-present and
  user-verified flags set, and the signature verifies under the credential's public key.
\<close>

definition hello_proof :: "hello_ext \<Rightarrow> signed_capability \<Rightarrow> bool" where
  "hello_proof y cap \<longleftrightarrow> length (sc_signature cap) = 64 \<and>
     take 32 (sc_proof_context cap) = he_sha256 y (map byte_of_char RP_ID) \<and>
     sc_proof_context cap ! 32 AND 0x01 \<noteq> 0 \<and> sc_proof_context cap ! 32 AND 0x04 \<noteq> 0 \<and>
     (\<exists>a v v' der. hello_verify_signature y a cap = Inr () \<and>
        he_get_assertion y (ha_credential_id a) (client_data_json (canonical_bytes (sc_payload cap)) ''webauthn.get'') v
          = (Inr (sc_proof_context cap, der), v') \<and> der_ecdsa_signature_to_raw der = Inr (sc_signature cap))"

interpretation hello: verifying_backend "\<lambda>a. \<exists>h. a = windows_authorizer y h" "windows_open y" "windows_recover y"
  "hello_proof y" for y
proof unfold_locales
  show "wp (windows_open y p) (\<lambda>a _. \<exists>h. a = windows_authorizer y h) (\<lambda>_ _. True) w" for p w
    by (auto simp: windows_open_def wp_simps intro!: wp_mono [OF wp_top])
  show "wp (windows_recover y a e p) (\<lambda>(_, a') _. \<exists>h. a' = windows_authorizer y h) (\<lambda>_ _. True) w"
    if "\<exists>h. a = windows_authorizer y h" for a e p w
    using that by (auto simp: windows_recover_def wp_simps split: option.splits intro!: wp_mono [OF wp_top])
  show "hello_proof y cap" if "\<exists>h. a = windows_authorizer y h" "auth_sign a payload w = (Inr cap, w')" for a payload w cap w'
  proof -
    from that obtain h where "auth_sign (windows_authorizer y h) payload w = (Inr cap, w')" by blast
    from hello_signature_proves_verification [OF this] show ?thesis
      unfolding hello_proof_def by (auto simp: windows_authorizer_def)
  qed
qed

subsection \<open>Properties\<close>

text \<open>
  C1. No cookie leaves the vault without the PIN: after a profile was opened on a Linux host and any
  messages were handled, successfully or not, an answer that carries cookies is the answer to a lease
  request for an injection into an existing, sealed group, after a handshake and with no operation
  pending or waiting for recovery. It opens with a grant whose capability sequence is that of a
  capability for an injection into this group's vault, which the TPM signed after a non-empty PIN was
  set, with a key it refuses to use without one, whose signature verifies and which the ledger file
  recorded as consumed. Every cookie chunk of the answer is for this group and under the granted lease.
\<close>

theorem cookies_leave_only_after_pin:
  assumes "host_with (linux_open y) (linux_recover y) (px_host x)" and "native_open x paths w0 = (Inr a0, w1)"
    and "run_steps (native_handle x) ms (a0, w1) = (a, w)"
    and "native_handle x m (a, w) = (Inr out, s')" and "CookiesInjectChunk c \<in> set out"
  shows "\<exists>q r lease_id expiry n rest. na_handshake_complete a \<and> m = LeaseRequest q \<and> lr_purpose q = PurposeInject \<and>
    map_of (na_groups a) (lr_account_group_id q) = Some r \<and> rt_pending r = None \<and>
    \<not> has_unresolved (rt_operation_coordinator r) \<and> lm_state (rt_lease r) = Sealed \<and>
    out = grant_message (lr_account_group_id q) lease_id expiry (Some n) # rest \<and>
    ic_account_group_id c = lr_account_group_id q \<and> ic_lease_id c = lease_id \<and>
    approved (pin_proof y) (hx_tx (px_host x)) (rt_transactions r) (vt_group_id (rt_transactions r)) n"
  by (rule linux.cookies_leave_only_proved [OF assms])

text \<open>
  C15. No cookie leaves the vault without Windows Hello: on a Windows host as well, after any messages, an
  answer that carries cookies is the answer to a lease request for an injection into an existing, sealed
  group, after a handshake and with no operation pending or waiting for recovery. It opens with a grant
  whose capability sequence is that of a capability for an injection into this group's vault, which the
  ledger file recorded as consumed and for which Windows returned an assertion over client data built
  from exactly this payload, with this relying party, the user-present and user-verified flags and a
  signature that verifies. Every cookie chunk of the answer is for this group and under the granted lease.
\<close>

theorem cookies_leave_only_after_hello:
  assumes "host_with (windows_open y) (windows_recover y) (px_host x)" and "native_open x paths w0 = (Inr a0, w1)"
    and "run_steps (native_handle x) ms (a0, w1) = (a, w)"
    and "native_handle x m (a, w) = (Inr out, s')" and "CookiesInjectChunk c \<in> set out"
  shows "\<exists>q r lease_id expiry n rest. na_handshake_complete a \<and> m = LeaseRequest q \<and> lr_purpose q = PurposeInject \<and>
    map_of (na_groups a) (lr_account_group_id q) = Some r \<and> rt_pending r = None \<and>
    \<not> has_unresolved (rt_operation_coordinator r) \<and> lm_state (rt_lease r) = Sealed \<and>
    out = grant_message (lr_account_group_id q) lease_id expiry (Some n) # rest \<and>
    ic_account_group_id c = lr_account_group_id q \<and> ic_lease_id c = lease_id \<and>
    approved (hello_proof y) (hx_tx (px_host x)) (rt_transactions r) (vt_group_id (rt_transactions r)) n"
  by (rule hello.cookies_leave_only_proved [OF assms])

subsection \<open>A concrete injection\<close>

text \<open>
  A profile with one protected group whose vault holds one cookie, over any authorizer whose registry
  is the file \<open>hello-credential.json\<close>: the profile is opened, the extension connects with protocol 6
  and asks for the cookies, the user is verified.
\<close>

definition exi_vault :: "byte list" where
  "exi_vault = the (lookup ext_w1 (vault_path ext_t))"

definition exi_w :: world where
  "exi_w = put_file [Name ''p'', Name ''audit'', Name ''audit-key.dpapi''] exo_key
     (put_file [Name ''p'', Name ''operations'', Name ''snapshot-key.dpapi''] exo_key
     (put_file [Name ''p'', Name ''hello-credential.json''] [0]
     (put_file (path_for [Name ''p'', Name ''vault'', Name ''groups''] 5) exi_vault
     (quiet_world\<lparr>clock_ms := (\<lambda>_. Some 1000), rng_byte := (\<lambda>_ _. 3), rng_uuid := (\<lambda>_. 100)\<rparr>))))"

definition exi_config :: account_groups_config where
  "exi_config = exo_config\<lparr>cfg_groups := [\<lparr>ag_id = 5, ag_display_name = ''Example'', ag_scope = ''example.org'',
     ag_policy_level = Balanced, ag_store_policy = NormalProfile\<rparr>]\<rparr>"

definition exi_audit :: audit_ext where
  "exi_audit = exo_audit\<lparr>ax_unsigned_json := \<lparr>to_vec = (\<lambda>_. Some [0]), from_slice = (\<lambda>_. None)\<rparr>,
     ax_entry_json := \<lparr>to_vec = (\<lambda>_. Some [0]), from_slice = (\<lambda>_. None)\<rparr>\<rparr>"

definition exi_payloads :: "vault_payload codec" where
  "exi_payloads = table_codec [ext_payload 1, ext_payload 2]"

definition exi_lease :: lease_metadata where
  "exi_lease = (lease_initial 5 True)\<lparr>lm_state := Leased, lm_lease_id := Some 100, lm_granted_at_unix_ms := Some 1000,
     lm_expires_at_unix_ms := Some (1000 + lease_duration_ms (parameters Balanced)), lm_vault_sequence := 1, lm_transition_sequence := 1\<rparr>"

definition exi_x :: "(path \<Rightarrow> (world, authorizer) host) \<Rightarrow>
    (authorizer \<Rightarrow> fcp_error \<Rightarrow> path \<Rightarrow> (world, bool \<times> authorizer) host) \<Rightarrow> app_ext" where
  "exi_x opens recovers = exo_x\<lparr>px_host := exs_x\<lparr>hx_audit := exi_audit, hx_tx := ext_tx\<lparr>tx_payload_json := exi_payloads, tx_ledger_json := table_codec [ex_fresh,
       reserved_ledger ext_ledger_payload ex_fresh, consumed_ledger ext_ledger_payload (reserved_ledger ext_ledger_payload ex_fresh)]\<rparr>,
     hx_lease_json := table_codec [lease_initial 5 True, exi_lease], hx_open_or_create := opens,
     hx_recover_credential := recovers\<rparr>,
     px_config := (px_config exo_x)\<lparr>ce_config_json := \<lparr>to_vec = (\<lambda>_. Some [0]), from_slice = (\<lambda>_. Some exi_config)\<rparr>\<rparr>\<rparr>"

lemmas exi_defs = exi_w_def exi_config_def exi_audit_def exi_x_def ext_auth_defs build_group_runtime_def lease_path_def
  capability_path_def operation_journal_path_def from_root_def coordinator_open_def repair_lease_v1_projection_def

lemma exi_scope: "is_valid_scope Some (normalize_scope ''example.org'')" "trim ''Example'' \<noteq> []"
  by code_simp+

lemmas exi_open_defs = exi_defs exo_defs tagger_load_or_create_def journal_open_def exc_ext_def on_local_def
  startup_recover_def operation_journals_exist_def journal_validate_def journal_empty_def SNAPSHOT_KEY_BYTES_def exi_scope

text \<open>The application and the world after opening, and after the handshake.\<close>

definition exi_r :: group_runtime where
  "exi_r = \<lparr>rt_id = 5, rt_policy = Balanced,
     rt_transactions = \<lparr>vt_group_id = 5, vt_vault_store = [Name ''p'', Name ''vault'', Name ''groups''],
       vt_capability_ledger = ex_fresh,
       vt_capability_store = [Name ''p'', Name ''leases'', Name ''capabilities'', IdName 5 ''.json'']\<rparr>,
     rt_lease_store = [Name ''p'', Name ''leases'', Name ''groups'', IdName 5 ''.json''], rt_lease = lease_initial 5 True,
     rt_operation_coordinator = \<lparr>oc_journal = \<lparr>js_path = [Name ''p'', Name ''operations'', Name ''groups'', IdName 5 ''.json''],
       js_account_group_id = 5, js_journal = journal_empty 5\<rparr>, oc_tagger = exo_key, oc_profile_id = None\<rparr>,
     rt_pending = None\<rparr>"

definition exi_a :: native_host_app where
  "exi_a = \<lparr>na_groups = [(5, exi_r)],
     na_audit = \<lparr>al_directory = [Name ''p'', Name ''audit''], al_key = exo_key, al_sequence = 0, al_mac = ZERO_MAC,
       al_recovered_on_open = False\<rparr>,
     na_paths = from_root [Name ''p''], na_config = exi_config, na_config_digest = encode_hex [1],
     na_handshake_complete = False, na_last_message_group = None, na_hello_authorizer = None, na_monitor = monitor_new,
     na_negotiated_protocol = LEGACY_PROTOCOL_VERSION, na_connection_profile_id = None\<rparr>"

definition exi_w1 :: world where
  "exi_w1 = exi_w\<lparr>files := files exi_w @ [([Name ''p'', Name ''leases'', Name ''capabilities'', IdName 5 ''.json''], [0]),
       ([Name ''p'', Name ''leases'', Name ''groups'', IdName 5 ''.json''], [0]),
       ([Name ''p'', Name ''audit'', Name ''audit-anchor.dpapi''], [0])],
     dirs := [[Name ''p'', Name ''audit''], [Name ''p'', Name ''audit''],
       [Name ''p'', Name ''leases'', Name ''groups''], [Name ''p'', Name ''leases'', Name ''capabilities'']], tick := 46\<rparr>"

lemma exi_opens: "native_open (exi_x opens recovers) (from_root [Name ''p'']) exi_w = (Inr exi_a, exi_w1)"
  by (simp add: exi_open_defs exi_a_def exi_r_def exi_w1_def run_simps)

definition exi_b :: native_host_app where
  "exi_b = exi_a\<lparr>na_groups := [(5, exi_r\<lparr>rt_operation_coordinator := (rt_operation_coordinator exi_r)\<lparr>oc_profile_id := Some 3\<rparr>\<rparr>)],
     na_audit := (na_audit exi_a)\<lparr>al_sequence := 1, al_mac := []\<rparr>, na_handshake_complete := True, na_connection_profile_id := Some 3\<rparr>"

definition exi_w2 :: world where
  "exi_w2 = exi_w1\<lparr>files := files exi_w1 @ [(day_path [Name ''p'', Name ''audit''] 0, [0, 10])],
     dirs := [Name ''p'', Name ''audit''] # dirs exi_w1, tick := 58\<rparr>"

lemmas exi_step_defs = exi_open_defs exi_a_def exi_r_def exi_w1_def native_handle_def group_ids_def the_app_def update_app_def
  on_group_def run_group_def the_runtime_def update_runtime_def app_audit_def audit_record_def record_inner_def

lemma exi_connects: "run_steps (native_handle (exi_x opens recovers)) [Handshake exh_h] (exi_a, exi_w1) = (exi_b, exi_w2)"
  using exh_check
  by (simp add: exi_step_defs exi_b_def exi_w2_def run_simps handle_handshake_def handshake_group_def bind_group_def
      set_profile_id_def exh_h_def)

definition exi_record :: vault_record where "exi_record = projr (record_decode exi_vault)"

lemma exi_record: "record_decode exi_vault = Inr exi_record"
   "open_record ex_aead (table_codec [ext_payload 1, ext_payload 2]) exi_record (take 32 (vh_wrapped_dek (vr_header exi_record))) = Inr (ext_payload 1)"
proof -
  obtain r where r: "record_decode exi_vault = Inr r"
    "\<forall>d. unwraps ext_kek (vh_wrapped_dek (vr_header r)) d \<longrightarrow> open_record ex_aead (table_codec [ext_payload 1, ext_payload 2]) r d = Inr (ext_payload 1)"
    using ext_vault1 by (auto simp: exi_vault_def vault_holds_def ext_tx_def)
  have "unwraps ext_kek b (take 32 b)" for b by (simp add: unwraps_def ext_kek_def ret_def)
  with r show "record_decode exi_vault = Inr exi_record" 
   "open_record ex_aead (table_codec [ext_payload 1, ext_payload 2]) exi_record (take 32 (vh_wrapped_dek (vr_header exi_record))) = Inr (ext_payload 1)"
    by (simp_all add: exi_record_def)
qed

lemma exi_read:
  assumes "vt_group_id t = 5" "vt_vault_store t = [Name ''p'', Name ''vault'', Name ''groups'']"
    and "cc_account_group_id cc = 5" "cc_operation cc = CapInject"
    and "io_fault w = (\<lambda>_. None)" "lookup w [Name ''p'', Name ''vault'', Name ''groups'', IdName 5 ''.fcpv''] = Some exi_vault"
    and "tx_aead x = ex_aead" "tx_payload_json x = exi_payloads" "tx_kek x = ext_kek"
  shows "read_for_inject x t cc w = (Inr (ext_payload 1), advance w)"
  using exi_record assms by (simp add: exi_payloads_def read_for_inject_def require_authorization_def vault_read_def path_for_def ext_kek_def monad_defs fs_read_def io_call_def lookup_def)

lemma exi_chunks: "chunk_cookie_records (\<lambda>_. Some [1]) [ext_cookie] = Inr [[ext_cookie]]"
  by (simp add: chunk_cookie_records_def to_bytes_def COOKIE_CHUNK_TARGET_BYTES_def)

text \<open>The request, and its answer.\<close>

definition exi_q :: lease_request where
  "exi_q = \<lparr>lr_account_group_id = 5, lr_purpose = PurposeInject\<rparr>"

lemma exi_injects:
  assumes opens: "\<And>w. lookup w [Name ''p'', Name ''hello-credential.json''] = Some [0] \<Longrightarrow> stat_fault w = (\<lambda>_. False) \<Longrightarrow>
      io_fault w = (\<lambda>_. None) \<Longrightarrow> opens [Name ''p'', Name ''hello-credential.json''] w = (Inr au, advance (advance w))"
    and signs: "\<And>p w. validate_shape p = Inr () \<Longrightarrow>
      auth_sign au p w = (Inr \<lparr>sc_payload = p, sc_signature = sg, sc_proof_context = pc\<rparr>, w)"
    and verifies: "\<And>p. validate_shape p = Inr () \<Longrightarrow>
      auth_verify_signature au \<lparr>sc_payload = p, sc_signature = sg, sc_proof_context = pc\<rparr> = Inr ()"
  shows "\<exists>grant c s'. native_handle (exi_x opens recovers) (LeaseRequest exi_q) (exi_b, exi_w2) = (Inr [grant, CookiesInjectChunk c], s')"
proof -
  have "\<exists>grant c. fst (native_handle (exi_x opens recovers) (LeaseRequest exi_q) (exi_b, exi_w2)) = Inr [grant, CookiesInjectChunk c]"
    by (simp add: exi_step_defs exi_b_def exi_q_def exi_w2_def exi_lease_def run_simps route_def route_group_def group_handle_def
      handle_lease_request_def begin_inject_def Let_def has_unresolved_def ensure_authorizer_def authorize_with_recovery_def
      with_transactions_def in_world_def in_audit_def on_transactions_def update_lease_def save_lease_def advance_lease_def
      persist_lease_def audit_group_def set_grant_def to_u32_def exi_read signs verifies opens exi_chunks lookup_def
      ext_payload_def LEASE_BACKSTOP_MS_def del: read_for_inject_def)
  then show ?thesis by (metis prod.collapse)
qed

text \<open>On Linux, with the TPM of \<open>Tpm_Authorizer\<close>, where the PIN is entered.\<close>

abbreviation exi_linux :: app_ext where
  "exi_linux \<equiv> exi_x (linux_open (exp_x exp_pin)) (linux_recover (exp_x exp_pin))"

lemma exi_linux_injects:
  "\<exists>grant c s'. native_handle exi_linux (LeaseRequest exi_q) (exi_b, exi_w2) = (Inr [grant, CookiesInjectChunk c], s')"
proof (rule exi_injects)
  let ?au = "linux_authorizer (exp_x exp_pin) exp_registry" and ?cap = "\<lambda>p. \<lparr>sc_payload = p, sc_signature = pad32 [1] @ pad32 [2], sc_proof_context = []\<rparr>"
  show "linux_open (exp_x exp_pin) p w = (Inr ?au, advance (advance w))"
    if "lookup w p = Some [0]" "stat_fault w = (\<lambda>_. False)" "io_fault w = (\<lambda>_. None)" for w p
    using that by (simp add: run_simps table_codec_def linux_open_def open_or_create_def load_registry_def run_logged_def empty_log_def
        exp_x_def exp_registry_def)
  show "auth_verify_signature ?au (?cap p) = Inr ()" if "validate_shape p = Inr ()" for p
    using that by (simp add: linux_authorizer_def verify_signature_def exp_registry_def exp_defs)
  have "hex_decode ''09'' = Inr [9]" "hex_decode ''07'' = Inr [7]" by (simp_all add: hex_decode_def hex_nibble_def)
  then show "auth_sign ?au p w = (Inr (?cap p), w)" if "validate_shape p = Inr ()" for p w
    using that
    by (simp add: linux_authorizer_def sign_def lockout_state_def read_property_def with_key_def with_loaded_def sign_with_pin_def
        auth_from_def assert_requires_auth_def exp_public_def signing_key_template_def verify_signature_def exp_registry_def
        exp_defs monad_defs split: option.split)
qed

theorem cookies_leave_only_after_pin_witness:
  "\<exists>grant c n s'. native_handle exi_linux (LeaseRequest exi_q) (exi_b, exi_w2) = (Inr [grant, CookiesInjectChunk c], s') \<and>
     ic_account_group_id c = 5 \<and> (\<exists>t. approved (pin_proof (exp_x exp_pin)) (hx_tx (px_host exi_linux)) t (vt_group_id t) n)"
proof -
  obtain grant c s' where run: "native_handle exi_linux (LeaseRequest exi_q) (exi_b, exi_w2) = (Inr [grant, CookiesInjectChunk c], s')"
    using exi_linux_injects by blast
  have "host_with (linux_open (exp_x exp_pin)) (linux_recover (exp_x exp_pin)) (px_host exi_linux)"
    "CookiesInjectChunk c \<in> set [grant, CookiesInjectChunk c]" by (simp_all add: host_with_def exi_x_def)
  from cookies_leave_only_after_pin [OF this(1) exi_opens exi_connects run this(2)] run show ?thesis
    by (fastforce simp: exi_q_def)
qed

text \<open>On Windows, with the credential of \<open>Hello_Authorizer\<close> in the registry of this profile.\<close>

definition exv_registry :: hello_registry where
  "exv_registry = \<lparr>hr_version = 2, hr_profile_user_id_hex = hex_encode (uuid_as_bytes 7), hr_credential_id_hex = hex_encode [1],
     hr_public_key_x_hex = hex_encode (replicate 32 3), hr_public_key_y_hex = hex_encode (replicate 32 4)\<rparr>"

definition exv_x :: hello_ext where
  "exv_x = exw_x\<lparr>he_parse_uuid := (\<lambda>_. Some 7), he_registry_json := table_codec [exv_registry]\<rparr>"

abbreviation exv_windows :: app_ext where
  "exv_windows \<equiv> exi_x (windows_open exv_x) (windows_recover exv_x)"

lemma exv_windows_injects:
  "\<exists>grant c s'. native_handle exv_windows (LeaseRequest exi_q) (exi_b, exi_w2) = (Inr [grant, CookiesInjectChunk c], s')"
proof (rule exi_injects)
  let ?au = "windows_authorizer exv_x exw_a" and ?cap = "\<lambda>p. \<lparr>sc_payload = p, sc_signature = replicate 32 1 @ replicate 32 2, sc_proof_context = exw_data\<rparr>"
  show "windows_open exv_x [Name ''p'', Name ''hello-credential.json''] w = (Inr ?au, advance (advance w))"
    if "lookup w [Name ''p'', Name ''hello-credential.json''] = Some [0]" "stat_fault w = (\<lambda>_. False)" "io_fault w = (\<lambda>_. None)" for w
    using that by (simp add: run_simps table_codec_def windows_open_def hello_open_or_create_def hello_load_registry_def hello_user_id_def
        hello_to_array_32_def hex_round_trip exv_x_def exw_x_def exw_a_def exv_registry_def)
  show verifies: "auth_verify_signature ?au (?cap p) = Inr ()" if "validate_shape p = Inr ()" for p
    using that by (simp add: windows_authorizer_def hello_verify_signature_def validate_authenticator_context_def
        verify_ecdsa_p256_def check_ntstatus_def exv_x_def exw_x_def exw_data_def nth_append)
  have "der_ecdsa_signature_to_raw (encode_der_signature (replicate 32 1) (replicate 32 2)) = Inr (replicate 32 1 @ replicate 32 2)"
    by (rule der_signature_decodes) simp_all
  then show "auth_sign ?au p w = (Inr (?cap p), w)" if "validate_shape p = Inr ()" for p w
    using that verifies [OF that] by (simp add: windows_authorizer_def sign_assertion_def exv_x_def exw_x_def monad_defs)
qed

theorem cookies_leave_only_after_hello_witness:
  "\<exists>grant c n s'. native_handle exv_windows (LeaseRequest exi_q) (exi_b, exi_w2) = (Inr [grant, CookiesInjectChunk c], s') \<and>
     ic_account_group_id c = 5 \<and> (\<exists>t. approved (hello_proof exv_x) (hx_tx (px_host exv_windows)) t (vt_group_id t) n)"
proof -
  obtain grant c s' where run: "native_handle exv_windows (LeaseRequest exi_q) (exi_b, exi_w2) = (Inr [grant, CookiesInjectChunk c], s')"
    using exv_windows_injects by blast
  have "host_with (windows_open exv_x) (windows_recover exv_x) (px_host exv_windows)"
    "CookiesInjectChunk c \<in> set [grant, CookiesInjectChunk c]" by (simp_all add: host_with_def exi_x_def)
  from cookies_leave_only_after_hello [OF this(1) exi_opens exi_connects run this(2)] run show ?thesis
    by (fastforce simp: exi_q_def)
qed

end
