(* ===== verification/Cng_Kek.thy ===== *)
theory Cng_Kek
  imports Tpm_Kek
begin

text \<open>
  \<open>crypto/platform_kek/windows.rs\<close>: the key-encryption key of a profile on Windows, a named RSA key of
  the Platform Crypto Provider. The NCrypt functions are parameters. Every operation opens the
  provider and the key anew and both are freed when they go out of scope, which the session log of
  \<open>Tpm_Session\<close> records.
\<close>

datatype cng_property = ImplType | PcpTpmVersion | AlgorithmName | KeyLength | ExportPolicy

definition KEK_NAME :: string where "KEK_NAME = ''FURSOY.Vault.KEK.v1''"

definition NTE_BAD_KEYSET :: u32 where "NTE_BAD_KEYSET = 0x80090016"

text \<open>Values of the platform headers.\<close>

definition NCRYPT_IMPL_HARDWARE_FLAG :: u32 where "NCRYPT_IMPL_HARDWARE_FLAG = 1"
definition NCRYPT_IMPL_SOFTWARE_FLAG :: u32 where "NCRYPT_IMPL_SOFTWARE_FLAG = 2"

text \<open>
  A call that fills a buffer is given the size of the buffer and returns what it wrote from the start
  of it and the length it reports; the two need not agree.
\<close>

record cng_ext =
  ng_open_provider :: "(world, handle) host"
  ng_open_key :: "handle \<Rightarrow> string \<Rightarrow> (world, handle) host"
  ng_create_key :: "handle \<Rightarrow> string \<Rightarrow> (world, handle) host"
  ng_set_property :: "handle \<Rightarrow> cng_property \<Rightarrow> byte list \<Rightarrow> (world, unit) host"
  ng_property_length :: "handle \<Rightarrow> cng_property \<Rightarrow> (world, u32) host"
  ng_get_property :: "handle \<Rightarrow> cng_property \<Rightarrow> nat \<Rightarrow> (world, byte list \<times> u32) host"
  ng_finalize_key :: "handle \<Rightarrow> (world, unit) host"
  ng_free_object :: "handle \<Rightarrow> (world, unit) host"
  ng_is_invalid :: "handle \<Rightarrow> bool"
  ng_encrypted_length :: "handle \<Rightarrow> byte list \<Rightarrow> (world, u32) host"
  ng_encrypt :: "handle \<Rightarrow> byte list \<Rightarrow> nat \<Rightarrow> (world, byte list \<times> u32) host"
  ng_decrypt :: "handle \<Rightarrow> byte list \<Rightarrow> nat \<Rightarrow> (world, byte list \<times> u32) host"

text \<open>A zeroed buffer of \<open>n\<close> bytes after a call wrote \<open>bytes\<close> into it.\<close>

definition filled :: "nat \<Rightarrow> byte list \<Rightarrow> byte list" where
  "filled n bytes = take n (bytes @ replicate (n - length bytes) 0)"

lemma length_filled [simp]: "length (filled n bytes) = n"
  by (simp add: filled_def)

subsection \<open>Properties of handles\<close>

definition get_property :: "cng_ext \<Rightarrow> handle \<Rightarrow> cng_property \<Rightarrow> (world, byte list) host" where
  "get_property x h property =
     bindR (ng_property_length x h property) (\<lambda>size.
     bindR (ng_get_property x h property (unat size)) (\<lambda>(bytes, len).
     ret (take (unat len) (filled (unat size) bytes))))"

definition get_u32 :: "cng_ext \<Rightarrow> handle \<Rightarrow> cng_property \<Rightarrow> (world, u32) host" where
  "get_u32 x h property = bindR (get_property x h property) (\<lambda>bytes.
     seqR (reject (length bytes \<noteq> 4) (Crypto ''CNG u32 property has invalid length'')) (ret (u32_from_le bytes)))"

definition set_u32 :: "cng_ext \<Rightarrow> handle \<Rightarrow> cng_property \<Rightarrow> u32 \<Rightarrow> (world, unit) host" where
  "set_u32 x h property v = ng_set_property x h property (u32_to_le v)"

text \<open>\<open>as_chunks::<2>\<close>, a trailing odd byte dropped.\<close>

fun utf16_units :: "byte list \<Rightarrow> u16 list" where
  "utf16_units (b # c # bs) = u16_from_le [b, c] # utf16_units bs"
| "utf16_units _ = []"

text \<open>\<open>String::from_utf16\<close>, as code points; an unpaired surrogate fails.\<close>

fun from_utf16 :: "u16 list \<Rightarrow> nat list option" where
  "from_utf16 [] = Some []"
| "from_utf16 (u # us) =
     (if unat u < 0xD800 \<or> 0xE000 \<le> unat u then map_option ((#) (unat u)) (from_utf16 us)
      else case us of
        l # rest \<Rightarrow> if unat u < 0xDC00 \<and> 0xDC00 \<le> unat l \<and> unat l < 0xE000
          then map_option ((#) (0x10000 + (unat u - 0xD800) * 0x400 + (unat l - 0xDC00))) (from_utf16 rest)
          else None
      | [] \<Rightarrow> None)"

definition get_utf16 :: "cng_ext \<Rightarrow> handle \<Rightarrow> cng_property \<Rightarrow> (world, nat list) host" where
  "get_utf16 x h property = bindR (get_property x h property) (\<lambda>bytes.
     ok_or (from_utf16 (takeWhile (\<lambda>u. u \<noteq> 0) (utf16_units bytes))) (Crypto ''CNG UTF-16 property is invalid''))"

definition RSA_TEXT :: "nat list" where "RSA_TEXT = map of_char ''RSA''"

subsection \<open>Provider and key\<close>

definition require_hardware_only :: "cng_ext \<Rightarrow> handle \<Rightarrow> (world, unit) host" where
  "require_hardware_only x provider =
     bindR (get_u32 x provider ImplType) (\<lambda>implementation.
     seqR (reject (and implementation NCRYPT_IMPL_HARDWARE_FLAG = 0 \<or> and implementation NCRYPT_IMPL_SOFTWARE_FLAG \<noteq> 0)
             (Crypto ''Microsoft Platform Crypto Provider is not hardware-only''))
    (bindR (get_u32 x provider PcpTpmVersion) (\<lambda>tpm_version.
     reject (tpm_version \<noteq> 0x00020000) (Crypto ''Microsoft Platform Crypto Provider is not TPM 2.0''))))"

definition validate_key :: "cng_ext \<Rightarrow> handle \<Rightarrow> (world, unit) host" where
  "validate_key x key =
     bindR (get_utf16 x key AlgorithmName) (\<lambda>algorithm.
     bindR (get_u32 x key KeyLength) (\<lambda>bits.
     bindR (get_u32 x key ExportPolicy) (\<lambda>export_policy.
     reject (algorithm \<noteq> RSA_TEXT \<or> bits \<noteq> of_nat RSA_BITS \<or> export_policy \<noteq> 0)
       (Crypto ''persisted KEK is not non-exportable RSA-2048''))))"

text \<open>\<open>Drop\<close> of a provider or a key: an invalid handle is left alone, a failure to free is ignored.\<close>

definition drop_handle :: "cng_ext \<Rightarrow> handle \<Rightarrow> unit tpm_m" where
  "drop_handle x h = (if ng_is_invalid x h then ret ()
     else seqR (log_flushed h) (catchR (on_snd (ng_free_object x h)) (\<lambda>_. ret ())))"

text \<open>A handle in scope while \<open>body\<close> runs, dropped on every way out.\<close>

definition holding :: "cng_ext \<Rightarrow> handle \<Rightarrow> 'a tpm_m \<Rightarrow> 'a tpm_m" where
  "holding x h body = seqR (if ng_is_invalid x h then ret () else log_opened h)
     (bindR (attempt body) (\<lambda>r. seqR (drop_handle x h) (of_result r)))"

text \<open>\<open>Key::create\<close>: on an error after the creation the half-made key is dropped.\<close>

definition key_create :: "cng_ext \<Rightarrow> handle \<Rightarrow> handle tpm_m" where
  "key_create x provider = bindR (on_snd (ng_create_key x provider KEK_NAME)) (\<lambda>key.
     seqR (catchR (on_snd (seqR (set_u32 x key KeyLength (of_nat RSA_BITS))
                          (seqR (set_u32 x key ExportPolicy 0) (ng_finalize_key x key))))
             (\<lambda>e. holding x key (fail e)))
          (ret key))"

definition with_provider :: "cng_ext \<Rightarrow> (handle \<Rightarrow> 'a tpm_m) \<Rightarrow> 'a tpm_m" where
  "with_provider x body = bindR (on_snd (ng_open_provider x)) (\<lambda>provider.
     holding x provider (seqR (on_snd (require_hardware_only x provider)) (body provider)))"

definition with_cng_key :: "cng_ext \<Rightarrow> (handle \<Rightarrow> 'a tpm_m) \<Rightarrow> 'a tpm_m" where
  "with_cng_key x operation = with_provider x (\<lambda>provider.
     bindR (on_snd (ng_open_key x provider KEK_NAME)) (\<lambda>key.
     holding x key (seqR (on_snd (validate_key x key)) (operation key))))"

definition cng_ensure_exists :: "cng_ext \<Rightarrow> unit tpm_m" where
  "cng_ensure_exists x = with_provider x (\<lambda>provider.
     bindR (attempt (on_snd (ng_open_key x provider KEK_NAME))) (\<lambda>r. case r of
       Inr key \<Rightarrow> holding x key (on_snd (validate_key x key))
     | Inl e \<Rightarrow> if e = Windows NTE_BAD_KEYSET
         then bindR (key_create x provider) (\<lambda>key. holding x key (on_snd (validate_key x key)))
         else fail e))"

definition cng_wrap_dek :: "cng_ext \<Rightarrow> secret_dek \<Rightarrow> byte list tpm_m" where
  "cng_wrap_dek x dek = with_cng_key x (\<lambda>key.
     bindR (on_snd (ng_encrypted_length x key dek)) (\<lambda>size.
     seqR (reject (unat size \<noteq> WRAPPED_DEK_BYTES) (Crypto ''RSA-2048 wrapped DEK length is not 256''))
    (bindR (on_snd (ng_encrypt x key dek (unat size))) (\<lambda>(bytes, len).
     ret (take (unat len) (filled (unat size) bytes))))))"

definition cng_unwrap_dek :: "cng_ext \<Rightarrow> byte list \<Rightarrow> secret_dek tpm_m" where
  "cng_unwrap_dek x wrapped =
     seqR (reject (length wrapped \<noteq> WRAPPED_DEK_BYTES) (Format ''wrapped DEK must be {WRAPPED_DEK_BYTES} bytes''))
    (with_cng_key x (\<lambda>key.
     bindR (on_snd (ng_decrypt x key wrapped DEK_BYTES)) (\<lambda>(bytes, len).
     seqR (reject (unat len \<noteq> DEK_BYTES) (Crypto ''unwrapped DEK length is not 32''))
          (ret (filled DEK_BYTES bytes)))))"

definition windows_kek :: "cng_ext \<Rightarrow> platform_kek" where
  "windows_kek x = \<lparr>kek_ensure_exists = run_logged (cng_ensure_exists x),
     kek_wrap_dek = (\<lambda>dek. run_logged (cng_wrap_dek x dek)),
     kek_unwrap_dek = (\<lambda>wrapped. run_logged (cng_unwrap_dek x wrapped))\<rparr>"

subsection \<open>Handles\<close>

text \<open>Dropping a key or a provider is a flush in the sense of \<open>Tpm_Session\<close>.\<close>

lemma holding_then_flush:
  "\<not> ng_is_invalid x h \<Longrightarrow> holding x h body = seqR (log_opened h) (then_flush (undefined\<lparr>te_flush := ng_free_object x\<rparr>) h body)"
  by (simp add: holding_def drop_handle_def then_flush_def flush_context_def)

lemma balanced_holding [balanced_rules]: "balanced body \<Longrightarrow> balanced (holding x h body)"
proof (cases "ng_is_invalid x h")
  assume "ng_is_invalid x h" and "balanced body"
  then show ?thesis by (simp add: holding_def drop_handle_def) (intro balanced_rules)
qed (simp add: holding_then_flush balanced_bracket)

lemma cng_balanced:
  "balanced (cng_ensure_exists x)" "balanced (cng_wrap_dek x dek)" "balanced (cng_unwrap_dek x wrapped)"
  unfolding cng_ensure_exists_def cng_wrap_dek_def cng_unwrap_dek_def with_cng_key_def with_provider_def key_create_def
  by (intro balanced_rules)+

subsection \<open>The key is bound to the hardware\<close>

lemma yields_lift: "yields m P \<Longrightarrow> yields (on_snd m) P"
  by (rule yields_mono [OF yields_on_snd]) (auto simp: yields_def)

lemma yields_holding: "yields body P \<Longrightarrow> yields (holding x h body) P"
  unfolding holding_def bindR_def seqR_def attempt_def of_result_def
  by (rule yieldsI) (auto split: prod.splits sum.splits dest: yieldsD)

text \<open>A property was read from a handle and had a value that satisfies \<open>P\<close>.\<close>

definition saw :: "cng_ext \<Rightarrow> handle \<Rightarrow> cng_property \<Rightarrow> (u32 \<Rightarrow> bool) \<Rightarrow> bool" where
  "saw x h property P \<longleftrightarrow> (\<exists>w v w'. get_u32 x h property w = (Inr v, w') \<and> P v)"

definition hardware_provider :: "cng_ext \<Rightarrow> handle \<Rightarrow> bool" where
  "hardware_provider x p \<longleftrightarrow>
     saw x p ImplType (\<lambda>i. and i NCRYPT_IMPL_HARDWARE_FLAG \<noteq> 0 \<and> and i NCRYPT_IMPL_SOFTWARE_FLAG = 0) \<and>
     saw x p PcpTpmVersion (\<lambda>v. v = 0x00020000)"

definition non_exportable_rsa :: "cng_ext \<Rightarrow> handle \<Rightarrow> bool" where
  "non_exportable_rsa x k \<longleftrightarrow> (\<exists>w w'. get_utf16 x k AlgorithmName w = (Inr RSA_TEXT, w')) \<and>
     saw x k KeyLength (\<lambda>b. b = 2048) \<and> saw x k ExportPolicy (\<lambda>e. e = 0)"

text \<open>A key of the vault's name, opened in or created by a provider that passed the check.\<close>

definition protected_key :: "cng_ext \<Rightarrow> handle \<Rightarrow> bool" where
  "protected_key x k \<longleftrightarrow> non_exportable_rsa x k \<and> (\<exists>p w w'. ng_open_provider x w = (Inr p, w') \<and> hardware_provider x p \<and>
     (\<exists>v v'. ng_open_key x p KEK_NAME v = (Inr k, v') \<or> ng_create_key x p KEK_NAME v = (Inr k, v')))"

lemma require_yields: "yields (require_hardware_only x p) (\<lambda>_. hardware_provider x p)"
  unfolding require_hardware_only_def
  apply (rule yields_bindR [OF yields_self], rule yields_seqR [OF yields_reject], rule yields_bindR [OF yields_self],
      rule yields_mono [OF yields_reject])
  apply (auto simp: hardware_provider_def saw_def)
  done

lemma validate_yields: "yields (validate_key x k) (\<lambda>_. non_exportable_rsa x k)"
  unfolding validate_key_def
  apply (rule yields_bindR [OF yields_self], rule yields_bindR [OF yields_self], rule yields_bindR [OF yields_self],
      rule yields_mono [OF yields_reject])
  apply (auto simp: non_exportable_rsa_def saw_def RSA_BITS_def)
  done

lemma with_provider_yields:
  assumes "\<And>p w w'. ng_open_provider x w = (Inr p, w') \<Longrightarrow> hardware_provider x p \<Longrightarrow> yields (body p) Q"
  shows "yields (with_provider x body) Q"
  unfolding with_provider_def
  by (rule yields_bindR [OF yields_on_snd], rule yields_holding, rule yields_seqR [OF yields_lift [OF require_yields]])
    (use assms in blast)

lemma held_key_yields:
  assumes "ng_open_provider x w = (Inr p, w')" and "hardware_provider x p"
    and "ng_open_key x p KEK_NAME v = (Inr k, v') \<or> ng_create_key x p KEK_NAME v = (Inr k, v')"
    and "protected_key x k \<Longrightarrow> yields body Q"
  shows "yields (holding x k (seqR (on_snd (validate_key x k)) body)) Q"
  by (rule yields_holding, rule yields_seqR [OF yields_lift [OF validate_yields]])
    (use assms in \<open>auto simp: protected_key_def\<close>)

lemma with_cng_key_yields:
  assumes "\<And>k. protected_key x k \<Longrightarrow> yields (operation k) Q"
  shows "yields (with_cng_key x operation) Q"
  unfolding with_cng_key_def
proof (rule with_provider_yields)
  fix p w w' assume p: "ng_open_provider x w = (Inr p, w')" "hardware_provider x p"
  show "yields (bindR (on_snd (ng_open_key x p KEK_NAME)) (\<lambda>key.
      holding x key (seqR (on_snd (validate_key x key)) (operation key)))) Q"
    by (rule yields_bindR [OF yields_on_snd]) (use held_key_yields [OF p] assms in blast)
qed

text \<open>How a wrapped key came about, and what unwrapping one gave.\<close>

definition encrypted_under :: "cng_ext \<Rightarrow> handle \<Rightarrow> secret_dek \<Rightarrow> byte list \<Rightarrow> bool" where
  "encrypted_under x k dek c \<longleftrightarrow> (\<exists>v bytes len v'. ng_encrypt x k dek WRAPPED_DEK_BYTES v = (Inr (bytes, len), v') \<and>
     c = take (unat len) (filled WRAPPED_DEK_BYTES bytes))"

definition decrypted_under :: "cng_ext \<Rightarrow> handle \<Rightarrow> byte list \<Rightarrow> secret_dek \<Rightarrow> bool" where
  "decrypted_under x k c dek \<longleftrightarrow> (\<exists>v bytes len v'. ng_decrypt x k c DEK_BYTES v = (Inr (bytes, len), v') \<and>
     unat len = DEK_BYTES \<and> dek = filled DEK_BYTES bytes)"

lemma wrap_yields: "yields (cng_wrap_dek x dek) (\<lambda>c. \<exists>k. protected_key x k \<and> encrypted_under x k dek c)"
  unfolding cng_wrap_dek_def
  apply (rule with_cng_key_yields, rule yields_bindR [OF yields_top], rule yields_seqR [OF yields_reject],
      rule yields_bindR [OF yields_on_snd])
  apply (fastforce simp: encrypted_under_def intro!: yields_ret split: prod.split)
  done

lemma unwrap_yields: "yields (cng_unwrap_dek x c) (\<lambda>d. \<exists>k. protected_key x k \<and> decrypted_under x k c d)"
  unfolding cng_unwrap_dek_def
  apply (rule yields_seqR [OF yields_top], rule with_cng_key_yields, rule yields_bindR [OF yields_on_snd])
  apply (clarsimp split: prod.split)
  apply (rule yields_seqR [OF yields_reject], rule yields_ret)
  apply (fastforce simp: decrypted_under_def)
  done

lemma ensure_yields: "yields (cng_ensure_exists x) (\<lambda>_. \<exists>k. protected_key x k)"
  unfolding cng_ensure_exists_def
proof (rule with_provider_yields)
  fix p w w' assume p: "ng_open_provider x w = (Inr p, w')" "hardware_provider x p"
  have held: "yields (holding x k (on_snd (validate_key x k))) (\<lambda>_. \<exists>k. protected_key x k)"
    if "ng_open_key x p KEK_NAME v = (Inr k, v') \<or> ng_create_key x p KEK_NAME v = (Inr k, v')" for k v v'
    by (rule yields_holding, rule yields_mono [OF yields_lift [OF validate_yields]])
      (use p that in \<open>auto simp: protected_key_def\<close>)
  have "yields (key_create x p) (\<lambda>k. \<exists>v v'. ng_create_key x p KEK_NAME v = (Inr k, v'))"
    unfolding key_create_def
    by (rule yields_bindR [OF yields_on_snd], rule yields_seqR [OF yields_top], rule yields_ret) blast
  then have made: "yields (bindR (key_create x p) (\<lambda>key. holding x key (on_snd (validate_key x key)))) (\<lambda>_. \<exists>k. protected_key x k)"
    by (rule yields_bindR) (use held in blast)
  have tried: "yields (attempt (on_snd (ng_open_key x p KEK_NAME))) (\<lambda>r. \<forall>k. r = Inr k \<longrightarrow> (\<exists>v v'. ng_open_key x p KEK_NAME v = (Inr k, v')))"
    by (fastforce simp: yields_def attempt_def on_snd_def zoom_def split: prod.splits)
  show "yields (bindR (attempt (on_snd (ng_open_key x p KEK_NAME))) (\<lambda>r. case r of
       Inr key \<Rightarrow> holding x key (on_snd (validate_key x key))
     | Inl e \<Rightarrow> if e = Windows NTE_BAD_KEYSET
         then bindR (key_create x p) (\<lambda>key. holding x key (on_snd (validate_key x key)))
         else fail e)) (\<lambda>_. \<exists>k. protected_key x k)"
    by (rule yields_bindR [OF tried]) (use held made in \<open>auto intro: yields_fail split: sum.split\<close>)
qed

text \<open>
  C24. On Windows a data key is only ever wrapped or unwrapped under a key of the platform's hardware:
  each operation that succeeds used a key opened (or, for \<open>ensure_exists\<close>, perhaps created) in a
  provider whose implementation type was read as hardware and not software and whose TPM version was
  read as 2.0, and the key itself was read as a non-exportable RSA key of 2048 bits.
\<close>

theorem windows_kek_hardware_bound:
  "(kek_wrap_dek (windows_kek x) dek w = (Inr c, w') \<longrightarrow> (\<exists>k. protected_key x k \<and> encrypted_under x k dek c)) \<and>
   (kek_unwrap_dek (windows_kek x) c' v = (Inr d, v') \<longrightarrow> (\<exists>k. protected_key x k \<and> decrypted_under x k c' d)) \<and>
   (kek_ensure_exists (windows_kek x) u = (Inr (), u') \<longrightarrow> (\<exists>k. protected_key x k))"
  using yields_run_logged [OF wrap_yields] yields_run_logged [OF unwrap_yields] yields_run_logged [OF ensure_yields]
  unfolding windows_kek_def by simp

subsection \<open>The contract of the key-encryption key\<close>

text \<open>RSA-OAEP under the one key of the vault's name, as in \<open>Tpm_Kek\<close>.\<close>

definition cng_oaep_sound :: "cng_ext \<Rightarrow> bool" where
  "cng_oaep_sound x \<longleftrightarrow>
     (\<forall>k dek c k' d. encrypted_under x k dek c \<longrightarrow> decrypted_under x k' c d \<longrightarrow> d = dek) \<and>
     (\<forall>k c d k' d'. decrypted_under x k c d \<longrightarrow> decrypted_under x k' c d' \<longrightarrow> d' = d)"

definition cng_off_file :: "cng_ext \<Rightarrow> path \<Rightarrow> bool" where
  "cng_off_file x p \<longleftrightarrow> (\<forall>v h q n b. keeps (file_is p v) (ng_open_provider x) \<and> keeps (file_is p v) (ng_open_key x h KEK_NAME) \<and>
     keeps (file_is p v) (ng_create_key x h KEK_NAME) \<and> keeps (file_is p v) (ng_set_property x h q b) \<and>
     keeps (file_is p v) (ng_property_length x h q) \<and> keeps (file_is p v) (ng_get_property x h q n) \<and>
     keeps (file_is p v) (ng_finalize_key x h) \<and> keeps (file_is p v) (ng_free_object x h) \<and>
     keeps (file_is p v) (ng_encrypted_length x h b) \<and> keeps (file_is p v) (ng_encrypt x h b n) \<and>
     keeps (file_is p v) (ng_decrypt x h b n))"

lemma off_file_checks:
  assumes "cng_off_file x p"
  shows "off_file p (on_snd (require_hardware_only x h))" and "off_file p (on_snd (validate_key x h))"
    and "off_file p (on_snd (seqR (set_u32 x h KeyLength n) (seqR (set_u32 x h ExportPolicy 0) (ng_finalize_key x h))))"
  using assms unfolding require_hardware_only_def validate_key_def get_u32_def get_utf16_def get_property_def set_u32_def cng_off_file_def
  by (intro off_file_on_snd keeps_rules; blast)+

lemma off_file_holding:
  assumes "cng_off_file x p" and "off_file p body"
  shows "off_file p (holding x h body)"
  using assms unfolding holding_def drop_handle_def cng_off_file_def
  by (intro off_file_rules off_file_logs off_file_on_snd) blast+

lemma off_file_cng:
  assumes "cng_off_file x p"
  shows "off_file p (cng_ensure_exists x)" and "off_file p (cng_wrap_dek x dek)" and "off_file p (cng_unwrap_dek x c)"
proof -
  have calls: "off_file p (on_snd (ng_open_provider x))" "off_file p (on_snd (ng_open_key x h KEK_NAME))"
    "off_file p (on_snd (ng_create_key x h KEK_NAME))" "off_file p (on_snd (ng_encrypted_length x h b))"
    "off_file p (on_snd (ng_encrypt x h b n))" "off_file p (on_snd (ng_decrypt x h b n))" for h b n
    using assms by (auto simp: cng_off_file_def intro!: off_file_on_snd)
  have by_case: "off_file p (case r of Inr key \<Rightarrow> f key | Inl e \<Rightarrow> g e)"
    if "\<And>k. off_file p (f k)" "\<And>e. off_file p (g e)" for r :: "fcp_error + handle" and f g :: "_ \<Rightarrow> unit tpm_m"
    using that by (simp split: sum.split)
  show "off_file p (cng_ensure_exists x)"
    unfolding cng_ensure_exists_def with_provider_def key_create_def
    by (intro off_file_rules by_case off_file_holding off_file_checks calls assms)
  show "off_file p (cng_wrap_dek x dek)" "off_file p (cng_unwrap_dek x c)"
    unfolding cng_wrap_dek_def cng_unwrap_dek_def with_cng_key_def with_provider_def
    by (intro off_file_rules off_file_holding off_file_checks calls assms)+
qed

text \<open>The Windows backend meets the contract the vault transactions are verified against, as the Linux one does.\<close>

theorem windows_kek_sound:
  assumes "cng_oaep_sound x" and "cng_off_file x p"
  shows "kek_sound (windows_kek x) p"
proof (rule kek_soundI [where enc = "\<lambda>dek c. \<exists>k. encrypted_under x k dek c" and dec = "\<lambda>c d. \<exists>k. decrypted_under x k c d"])
  show "\<exists>k. encrypted_under x k dek c" if "kek_wrap_dek (windows_kek x) dek w = (Inr c, w')" for dek c w w'
    using that yields_run_logged [OF wrap_yields] by (fastforce simp: windows_kek_def)
  show "\<exists>k. decrypted_under x k c d" if "kek_unwrap_dek (windows_kek x) c w = (Inr d, w')" for c d w w'
    using that yields_run_logged [OF unwrap_yields] by (fastforce simp: windows_kek_def)
  note off = off_file_cng [OF assms(2)]
  show "lookup w' p = lookup w p" if "kek_ensure_exists (windows_kek x) w = (r, w')" for w r w'
    using that run_logged_file [OF off(1)] by (simp add: windows_kek_def)
  show "lookup w' p = lookup w p" if "kek_wrap_dek (windows_kek x) dek w = (r, w')" for dek w r w'
    using that run_logged_file [OF off(2)] by (simp add: windows_kek_def)
  show "lookup w' p = lookup w p" if "kek_unwrap_dek (windows_kek x) c w = (r, w')" for c w r w'
    using that run_logged_file [OF off(3)] by (simp add: windows_kek_def)
qed (use assms(1) in \<open>unfold cng_oaep_sound_def, blast\<close>)+

subsection \<open>A concrete provider\<close>

fun exn_property :: "cng_property \<Rightarrow> byte list" where
  "exn_property ImplType = u32_to_le 1"
| "exn_property PcpTpmVersion = u32_to_le 0x20000"
| "exn_property AlgorithmName = [82, 0, 83, 0, 65, 0, 0, 0]"
| "exn_property KeyLength = u32_to_le 2048"
| "exn_property ExportPolicy = u32_to_le 0"

definition exn_x :: cng_ext where
  "exn_x = \<lparr>ng_open_provider = ret 1, ng_open_key = (\<lambda>_ _. ret 2), ng_create_key = (\<lambda>_ _. fail (Windows 5)),
     ng_set_property = (\<lambda>_ _ _. ret ()), ng_property_length = (\<lambda>_ q. ret (of_nat (length (exn_property q)))),
     ng_get_property = (\<lambda>_ q n. ret (exn_property q, of_nat n)), ng_finalize_key = (\<lambda>_. ret ()), ng_free_object = (\<lambda>_. ret ()),
     ng_is_invalid = (\<lambda>h. h = 0), ng_encrypted_length = (\<lambda>_ _. ret 256),
     ng_encrypt = (\<lambda>_ b _. ret (b @ replicate 224 9, 256)), ng_decrypt = (\<lambda>_ c _. ret (take 32 c, 32))\<rparr>"

lemmas exn_eval = run_logged_def with_cng_key_def with_provider_def holding_def drop_handle_def require_hardware_only_def
  validate_key_def get_u32_def get_utf16_def get_property_def filled_def exn_x_def RSA_TEXT_def RSA_BITS_def
  NCRYPT_IMPL_HARDWARE_FLAG_def NCRYPT_IMPL_SOFTWARE_FLAG_def WRAPPED_DEK_BYTES_def DEK_BYTES_def log_opened_def log_flushed_def
  empty_log_def u32_le.enc_length u32_le.dec_enc u16_from_le_def run_simps

lemma exn_wraps: "kek_wrap_dek (windows_kek exn_x) (replicate 32 7) quiet_world = (Inr (replicate 32 7 @ replicate 224 9), quiet_world)"
  by (simp add: windows_kek_def cng_wrap_dek_def exn_eval)

lemma exn_unwraps: "kek_unwrap_dek (windows_kek exn_x) (replicate 32 7 @ replicate 224 9) quiet_world = (Inr (replicate 32 7), quiet_world)"
  by (simp add: windows_kek_def cng_unwrap_dek_def exn_eval)

lemma exn_exists: "kek_ensure_exists (windows_kek exn_x) quiet_world = (Inr (), quiet_world)"
  by (simp add: windows_kek_def cng_ensure_exists_def exn_eval)

theorem windows_kek_hardware_bound_witness:
  "(\<exists>k. protected_key exn_x k \<and> encrypted_under exn_x k (replicate 32 7) (replicate 32 7 @ replicate 224 9)) \<and>
   (\<exists>k. protected_key exn_x k \<and> decrypted_under exn_x k (replicate 32 7 @ replicate 224 9) (replicate 32 7)) \<and>
   (\<exists>k. protected_key exn_x k)"
  using windows_kek_hardware_bound [of exn_x] exn_wraps exn_unwraps exn_exists by blast

end
