(* ===== verification/Sealed_Secret.thy ===== *)
theory Sealed_Secret
  imports Tpm_Kek Local_Secret
begin

text \<open>
  The two backends of \<open>local_secret\<close>: sealing to the TPM (\<open>local_secret/linux.rs\<close>), over the session
  of \<open>Tpm_Session\<close>, and DPAPI (\<open>local_secret/windows.rs\<close>). The audit log and the snapshot tags keep
  their keys this way; what they rely on is that a protected secret comes back as itself.
\<close>

subsection \<open>Sealing to the TPM\<close>

text \<open>\<open>SensitiveData::try_from\<close>, \<open>create\<close> with sensitive data, and \<open>unseal\<close>.\<close>

record seal_ext = tpm_ext +
  se_sensitive :: "byte list \<Rightarrow> bool"
  se_create_sealed :: "handle \<Rightarrow> tpm_public \<Rightarrow> byte list \<Rightarrow> (world, byte list \<times> tpm_public) host"
  se_unseal :: "handle \<Rightarrow> (world, byte list) host"

definition sealed_template :: key_template where
  "sealed_template = \<lparr>kt_algorithm = AlgKeyedHash,
     kt_attributes = \<lparr>oa_fixed_tpm = True, oa_fixed_parent = True, oa_sensitive_data_origin = False,
       oa_user_with_auth = True, oa_restricted = False, oa_decrypt = False, oa_sign_encrypt = False, oa_no_da = True\<rparr>,
     kt_scheme = SchemeNull, kt_is_signing_key = False, kt_is_decryption_key = False, kt_restricted = False,
     kt_symmetric_aes_128_cfb = False\<rparr>"

definition protect :: "seal_ext \<Rightarrow> byte list \<Rightarrow> byte list tpm_m" where
  "protect x plaintext =
     seqR (reject (\<not> se_sensitive x plaintext) (Crypto ''secret is too large to seal''))
          (with_parent (tpm_ext.truncate x) (\<lambda>parent.
     bindR (of_result (te_build x sealed_template)) (\<lambda>template.
     bindR (on_snd (se_create_sealed x parent template plaintext)) (\<lambda>(out_private, out_public).
     bindR (of_result (te_marshall x out_public)) (\<lambda>public_bytes.
     of_result (seal_encode public_bytes out_private))))))"

definition unprotect :: "seal_ext \<Rightarrow> byte list \<Rightarrow> byte list tpm_m" where
  "unprotect x ciphertext =
     bindR (of_result (seal_decode ciphertext)) (\<lambda>(public_bytes, private_bytes).
     bindR (ok_or (te_unmarshall x public_bytes) (Crypto ''sealed secret has a malformed public area'')) (\<lambda>public.
     seqR (reject (\<not> te_private x private_bytes) (Crypto ''sealed secret has a malformed private area''))
          (with_loaded (tpm_ext.truncate x) (\<lambda>e. e) private_bytes public (\<lambda>handle. on_snd (se_unseal x handle)))))"

subsection \<open>DPAPI\<close>

definition AUDIT_ENTROPY :: "byte list" where
  "AUDIT_ENTROPY = map byte_of_char ''FURSOY.Vault.Audit.v2''"

text \<open>
  The blob a DPAPI call fills: the bytes behind \<open>pbData\<close>, or \<open>None\<close> for a null pointer, and the
  length \<open>cbData\<close>. Both calls get the input, the optional entropy and, for protection, a description.
\<close>

record dpapi_blob =
  db_data :: "byte list option"
  db_length :: u32

record dpapi_ext =
  dp_protect_data :: "byte list \<Rightarrow> string \<Rightarrow> byte list \<Rightarrow> (world, dpapi_blob) host"
  dp_unprotect_data :: "byte list \<Rightarrow> byte list \<Rightarrow> (world, dpapi_blob) host"
  dp_local_free :: "(world, unit) host"

text \<open>The slice that is copied out of an output blob.\<close>

definition blob_bytes :: "dpapi_blob \<Rightarrow> byte list" where
  "blob_bytes blob = take (unat (db_length blob)) (case db_data blob of None \<Rightarrow> [] | Some bytes \<Rightarrow> bytes)"

definition transform :: "dpapi_ext \<Rightarrow> byte list \<Rightarrow> bool \<Rightarrow> (world, byte list) host" where
  "transform x input encrypting =
     seqR (reject (2 ^ 32 \<le> length input) (Format ''DPAPI input exceeds u32''))
    (bindR (if encrypting then dp_protect_data x input ''FURSOY audit integrity material'' AUDIT_ENTROPY
            else dp_unprotect_data x input AUDIT_ENTROPY) (\<lambda>output.
     seqR (reject (db_data output = None \<and> db_length output \<noteq> 0) (Crypto ''DPAPI returned an invalid output blob''))
    (seqR (catchR (dp_local_free x) (\<lambda>_. ret ()))
          (ret (blob_bytes output)))))"

definition dpapi_protect :: "dpapi_ext \<Rightarrow> byte list \<Rightarrow> (world, byte list) host" where
  "dpapi_protect x plaintext = transform x plaintext True"

definition dpapi_unprotect :: "dpapi_ext \<Rightarrow> byte list \<Rightarrow> (world, byte list) host" where
  "dpapi_unprotect x ciphertext = transform x ciphertext False"

subsection \<open>Handles\<close>

lemma balanced_protect: "balanced (protect x plaintext)" and balanced_unprotect: "balanced (unprotect x ciphertext)"
  unfolding protect_def unprotect_def by (intro balanced_rules)+

subsection \<open>A protected secret comes back\<close>

text \<open>
  The TPM: an object created with data and loaded again from its two areas, in any later state and
  under any parent, unseals, when it unseals, to that data.
\<close>

definition tpm_unseals :: "seal_ext \<Rightarrow> bool" where
  "tpm_unseals x \<longleftrightarrow> (\<forall>template parent data w private public w' bytes public' parent' v h v1 d v2.
     te_build x sealed_template = Inr template \<longrightarrow>
     se_create_sealed x parent template data w = (Inr (private, public), w') \<longrightarrow>
     te_marshall x public = Inr bytes \<longrightarrow> te_unmarshall x bytes = Some public' \<longrightarrow>
     te_load x parent' private public' v = (Inr h, v1) \<longrightarrow> se_unseal x h v1 = (Inr d, v2) \<longrightarrow> d = data)"

text \<open>What DPAPI documents: data protected with an entropy is unprotected, with that entropy, to itself.\<close>

definition dpapi_inverse :: "dpapi_ext \<Rightarrow> bool" where
  "dpapi_inverse x \<longleftrightarrow> (\<forall>input text entropy w blob w' v out v'.
     dp_protect_data x input text entropy w = (Inr blob, w') \<longrightarrow>
     dp_unprotect_data x (blob_bytes blob) entropy v = (Inr out, v') \<longrightarrow> blob_bytes out = input)"

text \<open>How a blob came about, and what a blob gives.\<close>

definition sealed_as :: "seal_ext \<Rightarrow> byte list \<Rightarrow> byte list \<Rightarrow> bool" where
  "sealed_as x data blob \<longleftrightarrow> (\<exists>template parent w private public w' bytes.
     te_build x sealed_template = Inr template \<and> se_create_sealed x parent template data w = (Inr (private, public), w') \<and>
     te_marshall x public = Inr bytes \<and> seal_encode bytes private = Inr blob)"

lemma protect_yields: "yields (protect x data) (sealed_as x data)"
  unfolding protect_def
  apply (intro yields_seqR [OF yields_top] yields_with_parent)
  apply (rule yields_bindR [OF yields_of_result])
  apply (rule yields_bindR [OF yields_on_snd])
  apply (clarsimp split: prod.split)
  apply (rule yields_bindR [OF yields_of_result])
  apply (rule yields_mono [OF yields_of_result])
  apply (unfold sealed_as_def, blast)
  done

text \<open>The loaded object is the one that is unsealed: nothing happens between the two commands.\<close>

lemma load_unseal_yields:
  "yields (bindR (map_err f (on_snd (te_load y parent private public))) (\<lambda>key.
      seqR (log_opened key) (then_flush y key (on_snd (se_unseal x key)))))
    (\<lambda>d. \<exists>v h v1 v2. te_load y parent private public v = (Inr h, v1) \<and> se_unseal x h v1 = (Inr d, v2))"
  by (fastforce simp: yields_def bindR_def seqR_def map_err_def log_opened_def modify_def then_flush_def attempt_def
      on_snd_def zoom_def of_result_def split: prod.splits sum.splits)

lemma unprotect_yields:
  "yields (unprotect x blob) (\<lambda>d. \<exists>bytes private public' parent' v h v1 v2. seal_encode bytes private = Inr blob \<and>
     te_unmarshall x bytes = Some public' \<and> te_load x parent' private public' v = (Inr h, v1) \<and> se_unseal x h v1 = (Inr d, v2))"
  unfolding unprotect_def with_loaded_def
  apply (rule yields_bindR [OF yields_of_result])
  apply (clarsimp split: prod.split)
  apply (rule yields_bindR [OF yields_ok_or])
  apply (rule yields_seqR [OF yields_top])
  apply (rule yields_with_parent)
  apply (rule yields_mono [OF load_unseal_yields])
  apply (unfold seal_decode_iff tpm_ext.truncate_def tpm_ext.simps, blast)
  done

text \<open>
  The audit key, the chain anchor and the snapshot key survive protection on Linux: a blob
  returned by \<open>protect\<close> is never unprotected to anything but the secret it was made from, in any later
  state of the machine, whatever fails in between, if the TPM unseals what it sealed; and only the
  encoding of two areas is ever handed to the TPM, so a blob that is not one is refused.
\<close>

theorem sealed_secret_round_trip:
  assumes "tpm_unseals x" and "run_logged (unprotect x blob) v = (Inr d, v')"
  shows "(run_logged (protect x data) w = (Inr blob, w') \<longrightarrow> d = data) \<and>
    (\<exists>public private. seal_encode public private = Inr blob)"
proof (intro conjI impI)
  from yields_run_logged [OF unprotect_yields assms(2)] obtain b' q' p' parent' v h v1 v2 where
    read: "seal_encode b' q' = Inr blob" "te_unmarshall x b' = Some p'"
      "te_load x parent' q' p' v = (Inr h, v1)" "se_unseal x h v1 = (Inr d, v2)" by blast
  then show "\<exists>public private. seal_encode public private = Inr blob" by blast
  assume "run_logged (protect x data) w = (Inr blob, w')"
  from yields_run_logged [OF protect_yields this] obtain t parent w q p w' b where
    made: "te_build x sealed_template = Inr t" "se_create_sealed x parent t data w = (Inr (q, p), w')"
      "te_marshall x p = Inr b" "seal_encode b q = Inr blob" unfolding sealed_as_def by blast
  with read(1) have "b' = b \<and> q' = q" by (auto simp: seal_decode_iff [symmetric])
  with read have "te_unmarshall x b = Some p'" "te_load x parent' q p' v = (Inr h, v1)" by simp_all
  from assms(1) [unfolded tpm_unseals_def, rule_format, OF made(1-3) this read(4)] show "d = data" .
qed

text \<open>The same of DPAPI on Windows.\<close>

lemma transform_yields:
  "yields (transform x input e) (\<lambda>out. \<exists>w blob w'. out = blob_bytes blob \<and>
     (if e then dp_protect_data x input ''FURSOY audit integrity material'' AUDIT_ENTROPY else dp_unprotect_data x input AUDIT_ENTROPY) w = (Inr blob, w'))"
  unfolding transform_def
  by (rule yields_seqR [OF yields_top], rule yields_bindR [OF yields_self], rule yields_seqR [OF yields_top],
      rule yields_seqR [OF yields_top], rule yields_ret) blast

theorem dpapi_round_trip:
  assumes "dpapi_inverse x" and "dpapi_protect x data w = (Inr blob, w')" and "dpapi_unprotect x blob v = (Inr d, v')"
  shows "d = data"
  using yieldsD [OF transform_yields assms(2) [unfolded dpapi_protect_def]]
    yieldsD [OF transform_yields assms(3) [unfolded dpapi_unprotect_def]] assms(1)
  unfolding dpapi_inverse_def by (auto, blast)

subsection \<open>A concrete machine\<close>

definition exz_public :: tpm_public where
  "exz_public = \<lparr>tp_template = sealed_template, tp_x = [], tp_y = []\<rparr>"

text \<open>A TPM with one slot for a loaded object; the handle of an object is its secret's first byte.\<close>

definition exz_x :: seal_ext where
  "exz_x = \<lparr>te_env_tcti = None, te_simulator_feature = False, te_parse_tcti = (\<lambda>_. True), te_context = (\<lambda>_. ret ()),
     te_build = (\<lambda>t. Inr \<lparr>tp_template = t, tp_x = [], tp_y = []\<rparr>), te_create_primary = (\<lambda>_. ret 1),
     te_create = (\<lambda>_ _ _. fail Tpm), te_load = (\<lambda>_ b _. ret (unat (hd b))), te_flush = (\<lambda>_. ret ()),
     te_private = (\<lambda>_. True), te_marshall = (\<lambda>_. Inr [2]), te_unmarshall = (\<lambda>_. Some exz_public),
     se_sensitive = (\<lambda>b. length b \<le> 128),
     se_create_sealed = (\<lambda>_ _ b. if length b = 1 then ret (b, exz_public) else fail Tpm),
     se_unseal = (\<lambda>h. ret [of_nat h])\<rparr>"

lemma exz_unseals: "tpm_unseals exz_x"
  by (auto simp: tpm_unseals_def exz_x_def ret_def fail_def length_Suc_conv split: if_splits)

lemmas exz_eval = run_logged_def protect_def unprotect_def with_loaded_def with_parent_def then_flush_def flush_context_def
  open_context_def create_parent_def log_opened_def log_flushed_def exz_x_def exz_public_def default_tcti_def empty_log_def
  tpm_ext.truncate_def run_simps

definition exz_blob :: "byte list" where
  "exz_blob = [70, 86, 83, 49, 1, 0, 2, 1, 0, 7]"

lemma nat_le_two: "nat_le 2 k = [of_nat (k mod 256), of_nat (k div 256 mod 256)]"
  by (simp add: numeral_2_eq_2)

lemma exz_frame: "seal_encode [2] [7] = Inr exz_blob" "seal_decode exz_blob = Inr ([2], [7])"
proof -
  show *: "seal_encode [2] [7] = Inr exz_blob"
    by (simp add: seal_encode_def exz_blob_def MAGIC_def byte_of_char_def u16_to_le_def nat_le_two)
  then show "seal_decode exz_blob = Inr ([2], [7])" by (simp only: seal_decode_iff)
qed

lemma exz_protects: "run_logged (protect exz_x [7]) quiet_world = (Inr exz_blob, quiet_world)"
  by (simp add: exz_eval exz_frame)

lemma exz_unprotects: "run_logged (unprotect exz_x exz_blob) quiet_world = (Inr [7], quiet_world)"
  by (simp add: exz_eval exz_frame)

theorem sealed_secret_round_trip_witness:
  "(run_logged (protect exz_x [7]) quiet_world = (Inr exz_blob, quiet_world) \<longrightarrow> [7] = [7::byte]) \<and>
    (\<exists>public private. seal_encode public private = Inr exz_blob)"
  by (rule sealed_secret_round_trip [OF exz_unseals exz_unprotects])

end
