(* ===== verification/Host_Process.thy ===== *)
theory Host_Process
  imports Dispatcher
begin

text \<open>
  The process around the connection: the exclusive lock over the data directory
  (\<open>instance_lock.rs\<close>), the reading of the command line and the audit export
  (\<open>bin/fursoy-vault-host.rs\<close>), and the updater (\<open>update.rs\<close>), which may activate a downloaded
  release only while no profile has an exposed lease or an unfinished operation. Velopack, the
  process table, the kernel's \<open>flock\<close> and the JSON parser are parameters.
\<close>

subsection \<open>The instance lock\<close>

definition lock_path :: "path \<Rightarrow> (world, path) host" where
  "lock_path root = seqR (fs_create_dir_all root) (ret (root @ [Name ''host.lock'']))"

definition busy :: fcp_error where
  "busy = Protocol ''another native host instance already owns the data directory''"

text \<open>\<open>OpenOptions::create(true).truncate(false)\<close>: an existing file is left as it is.\<close>

definition fs_open_or_create :: "path \<Rightarrow> (world, unit) host" where
  "fs_open_or_create p = io_call no_effect (\<lambda>w. (Inr (), if lookup w p = None then put_file p [] w else w))"

definition acquire :: "(path \<Rightarrow> (world, bool) host) \<Rightarrow> path \<Rightarrow> (world, unit) host" where
  "acquire flock root =
     bindR (lock_path root) (\<lambda>p.
     seqR (fs_open_or_create p)
    (bindR (flock p) (\<lambda>locked. reject (\<not> locked) busy)))"

subsection \<open>The command line\<close>

datatype invocation = CheckUpdate | SetupLaunch | ExportAudit "uuid option" string | BadProfileId | NativeMessaging

definition parse_invocation :: "(string \<Rightarrow> uuid option) \<Rightarrow> string list \<Rightarrow> invocation" where
  "parse_invocation parse args =
     (if args = [''--check-update''] then CheckUpdate
      else if args = [] then SetupLaunch
      else case args of
        [flag, destination] \<Rightarrow> if flag = ''--export-audit'' then ExportAudit None destination else NativeMessaging
      | [flag, profile_flag, profile_id, destination] \<Rightarrow>
          if flag = ''--export-audit'' \<and> profile_flag = ''--profile''
          then (case parse profile_id of Some i \<Rightarrow> ExportAudit (Some i) destination | None \<Rightarrow> BadProfileId)
          else NativeMessaging
      | _ \<Rightarrow> NativeMessaging)"

text \<open>\<open>destination\<close> is the path as given and \<open>absolute\<close> whether it is absolute.\<close>

definition export_audit ::
    "audit_ext \<Rightarrow> (path \<Rightarrow> (world, bool) host) \<Rightarrow> (string \<Rightarrow> uuid option) \<Rightarrow> path fcp_result \<Rightarrow> path
     \<Rightarrow> uuid option \<Rightarrow> bool \<Rightarrow> path \<Rightarrow> (world, unit) host" where
  "export_audit x flock parse base current_dir profile_id absolute destination =
     bindR (of_result base) (\<lambda>b.
     bindR (discover_for_export parse b profile_id) (\<lambda>paths.
     seqR (acquire flock (dp_root paths))
          (export_verified x (dp_audit_directory paths) (if absolute then destination else current_dir @ destination))))"

subsection \<open>When an update may be activated\<close>

text \<open>\<open>serde_json::Value\<close>; numbers are not looked at.\<close>

datatype json_value = JNull | JBool bool | JNumber | JString string | JArray "json_value list"
  | JObject "(string \<times> json_value) list"

fun json_get :: "string \<Rightarrow> json_value \<Rightarrow> json_value option" where
  "json_get name (JObject members) = map_of members name"
| "json_get name _ = None"

fun as_str :: "json_value \<Rightarrow> string option" where
  "as_str (JString s) = Some s"
| "as_str _ = None"

fun as_array :: "json_value \<Rightarrow> json_value list option" where
  "as_array (JArray vs) = Some vs"
| "as_array _ = None"

type_synonym json_parser = "byte list \<Rightarrow> json_value option"

definition read_json :: "json_parser \<Rightarrow> path \<Rightarrow> (world, json_value) host" where
  "read_json parse p = bindR (fs_read p) (\<lambda>bytes. ok_or (parse bytes) Json)"

definition lease_blocks :: "json_value \<Rightarrow> bool" where
  "lease_blocks v \<longleftrightarrow> Option.bind (json_get ''state'' v) as_str \<in> {Some ''leased'', Some ''evicting'', Some ''injecting''}"

definition terminal_record :: "json_value \<Rightarrow> bool" where
  "terminal_record v \<longleftrightarrow> Option.bind (json_get ''phase'' v) as_str
     \<in> {Some ''completed'', Some ''aborted'', Some ''reconciliation_required''}"

definition journal_blocks :: "json_value \<Rightarrow> bool" where
  "journal_blocks v = (case Option.bind (json_get ''operations'' v) as_array of
       None \<Rightarrow> True
     | Some records \<Rightarrow> \<not> list_all terminal_record records)"

text \<open>One of the two loops over a directory: true when no file blocks.\<close>

fun scan_files :: "json_parser \<Rightarrow> (json_value \<Rightarrow> bool) \<Rightarrow> path list \<Rightarrow> (world, bool) host" where
  "scan_files parse blocks [] = ret True"
| "scan_files parse blocks (p # ps) =
     (if \<not> has_json_extension p then scan_files parse blocks ps
      else bindR (read_json parse p) (\<lambda>v. if blocks v then ret False else scan_files parse blocks ps))"

definition scan_directory :: "json_parser \<Rightarrow> (json_value \<Rightarrow> bool) \<Rightarrow> path \<Rightarrow> (world, bool) host" where
  "scan_directory parse blocks d = bindR (fs_exists d) (\<lambda>present.
     if present then bindR (fs_read_dir d) (scan_files parse blocks) else ret True)"

definition profile_is_safe_for_update :: "json_parser \<Rightarrow> path \<Rightarrow> (world, bool) host" where
  "profile_is_safe_for_update parse data_root =
     bindR (scan_directory parse lease_blocks (data_root @ [Name ''leases'', Name ''groups''])) (\<lambda>leases_safe.
     if \<not> leases_safe then ret False
     else scan_directory parse journal_blocks (data_root @ [Name ''operations'', Name ''groups'']))"

fun profiles_safe :: "json_parser \<Rightarrow> path list \<Rightarrow> (world, bool) host" where
  "profiles_safe parse [] = ret True"
| "profiles_safe parse (p # ps) = bindR (profile_is_safe_for_update parse p) (\<lambda>safe.
     if safe then profiles_safe parse ps else ret False)"

text \<open>\<open>LOCALAPPDATA\<close> as a path; \<open>None\<close> when it is not set.\<close>

definition production_data_root :: "path option \<Rightarrow> path option" where
  "production_data_root local_app_data = map_option (\<lambda>root. root @ [Name ''FursoyVault'']) local_app_data"

definition all_profiles_are_safe_for_update :: "json_parser \<Rightarrow> path option \<Rightarrow> (world, bool) host" where
  "all_profiles_are_safe_for_update parse local_app_data = (case production_data_root local_app_data of
       None \<Rightarrow> ret False
     | Some root \<Rightarrow> bindR (profile_is_safe_for_update parse root) (\<lambda>safe.
         if \<not> safe then ret False
         else let profiles = root @ [Name ''profiles''] in
           bindR (fs_exists profiles) (\<lambda>present.
           if \<not> present then ret True
           else bindR (io_call no_effect (\<lambda>w. (Inr (child_dirs w profiles), w))) (profiles_safe parse))))"

text \<open>
  Velopack's update manager: opening it, the release already downloaded, the check, the download and
  the activation. \<open>applied\<close> collects the releases whose activation was requested.
\<close>

type_synonym release = string

record update_ext =
  ux_manager :: "(world, unit) host"
  ux_pending :: "world \<Rightarrow> release option"
  ux_check :: "(world, release option) host"
  ux_download :: "release \<Rightarrow> (world, unit) host"
  ux_apply :: "release \<Rightarrow> (world, unit) host"

definition redacted_update_error :: "fcp_error \<Rightarrow> fcp_error" where
  "redacted_update_error e = Protocol ''companion update failed''"

definition apply_if_safe ::
    "update_ext \<Rightarrow> json_parser \<Rightarrow> path option \<Rightarrow> release \<Rightarrow> (release list \<times> world, unit) host" where
  "apply_if_safe x parse local_app_data r =
     bindR (on_snd (all_profiles_are_safe_for_update parse local_app_data)) (\<lambda>safe.
     if safe then seqR (modify (\<lambda>(applied, w). (r # applied, w)))
                       (map_err redacted_update_error (on_snd (ux_apply x r)))
     else ret ())"

definition check_and_apply :: "update_ext \<Rightarrow> json_parser \<Rightarrow> path option \<Rightarrow> (release list \<times> world, unit) host" where
  "check_and_apply x parse local_app_data =
     seqR (map_err (\<lambda>_. Protocol ''companion updater is not installed'') (on_snd (ux_manager x)))
    (bindR (gets (ux_pending x \<circ> snd)) (\<lambda>pending. case pending of
       Some r \<Rightarrow> apply_if_safe x parse local_app_data r
     | None \<Rightarrow> bindR (map_err redacted_update_error (on_snd (ux_check x))) (\<lambda>available. case available of
           Some r \<Rightarrow> seqR (map_err redacted_update_error (on_snd (ux_download x r))) (apply_if_safe x parse local_app_data r)
         | None \<Rightarrow> ret ())))"

subsection \<open>Starting the updater\<close>

definition UPDATE_CHECK_INTERVAL :: u64 where "UPDATE_CHECK_INTERVAL = 6 * 60 * 60"

definition should_trigger :: "u64 option \<Rightarrow> u64 \<Rightarrow> u64 \<Rightarrow> bool" where
  "should_trigger previous now interval = (case previous of
       None \<Rightarrow> True | Some v \<Rightarrow> interval \<le> saturating_sub now v)"

text \<open>Seconds of the wall clock; zero for a clock before the epoch.\<close>

definition unix_seconds :: "(world, u64) host" where
  "unix_seconds = (\<lambda>w. (Inr (case clock_ms w (tick w) of None \<Rightarrow> 0 | Some t \<Rightarrow> of_nat (unat t div 1000)), advance w))"

fun decimal_text :: "nat \<Rightarrow> string" where
  "decimal_text n = (if n < 10 then [char_of (48 + n)] else decimal_text (n div 10) @ [char_of (48 + n mod 10)])"

text \<open>\<open>fs::write\<close>: the file is created or truncated, then written.\<close>

definition fs_write :: "path \<Rightarrow> byte list \<Rightarrow> (world, unit) host" where
  "fs_write p bs = io_call (\<lambda>k. put_file p (take k bs)) (\<lambda>w. (Inr (), put_file p bs w))"

record trigger_ext =
  tx_data_dir_overridden :: bool
  tx_local_app_data :: "path option"
  tx_pathbuf :: "string \<Rightarrow> path"
  tx_is_absolute :: "string \<Rightarrow> bool"
  tx_current_exe :: "path option"
  tx_spawn :: "path \<Rightarrow> (world, unit) host"

definition read_valid_updater_path :: "trigger_ext \<Rightarrow> path \<Rightarrow> (world, path option) host" where
  "read_valid_updater_path x data_root =
     bindR (attempt (read_to_string (data_root @ [Name ''native-host'', Name ''updater-path.txt'']))) (\<lambda>r. case r of
       Inl e \<Rightarrow> ret None
     | Inr raw \<Rightarrow>
         let text = trim raw; candidate = tx_pathbuf x text in
         (case (tx_local_app_data x, Option.bind (tx_current_exe x) file_name) of
            (Some local_app_data, Some expected_name) \<Rightarrow>
              if \<not> tx_is_absolute x text \<or> \<not> prefix local_app_data candidate \<or> file_name candidate \<noteq> Some expected_name
              then ret None
              else bindR (fs_is_file candidate) (\<lambda>file. ret (if file then Some candidate else None))
          | _ \<Rightarrow> ret None))"

definition previous_trigger :: "path \<Rightarrow> (world, u64 option) host" where
  "previous_trigger p = bindR (attempt (read_to_string p)) (\<lambda>r.
     ret (case r of Inl e \<Rightarrow> None | Inr text \<Rightarrow> parse_u64 (trim text)))"

text \<open>The result says whether the updater was started.\<close>

definition trigger_background_check :: "trigger_ext \<Rightarrow> (world, bool) host" where
  "trigger_background_check x =
     (if tx_data_dir_overridden x then ret False
      else case production_data_root (tx_local_app_data x) of None \<Rightarrow> ret False
      | Some data_root \<Rightarrow>
          bindR unix_seconds (\<lambda>now.
            let trigger_path = data_root @ [Name ''update-last-trigger''] in
          bindR (previous_trigger trigger_path) (\<lambda>previous.
          if \<not> should_trigger previous now UPDATE_CHECK_INTERVAL then ret False
          else bindR (read_valid_updater_path x data_root) (\<lambda>found. case found of None \<Rightarrow> ret False
          | Some updater \<Rightarrow>
              bindR (attempt (seqR (fs_create_dir_all data_root)
                       (fs_write trigger_path (map byte_of_char (decimal_text (unat now) @ [CHR 0x0A]))))) (\<lambda>written.
              case written of Inl e \<Rightarrow> ret False
              | Inr _ \<Rightarrow> bindR (attempt (tx_spawn x updater)) (\<lambda>spawned. case spawned of
                    Inr _ \<Rightarrow> ret True
                  | Inl e \<Rightarrow> bindR (attempt (fs_remove_file trigger_path)) (\<lambda>_. ret False)))))))"

subsection \<open>Properties\<close>

text \<open>The texts serde gives the states of a lease and the phases of an operation.\<close>

fun state_text :: "group_state \<Rightarrow> string" where
  "state_text Uninitialized = ''uninitialized''"
| "state_text Sealed = ''sealed''"
| "state_text Unlocking = ''unlocking''"
| "state_text Leased = ''leased''"
| "state_text Evicting = ''evicting''"
| "state_text Degraded = ''degraded''"

fun phase_text :: "operation_phase \<Rightarrow> string" where
  "phase_text PhNotCommitted = ''not_committed''"
| "phase_text PhDurabilityUnknown = ''durability_unknown''"
| "phase_text PhCommitted = ''committed''"
| "phase_text BrowserRemovalPending = ''browser_removal_pending''"
| "phase_text Completed = ''completed''"
| "phase_text Aborted = ''aborted''"
| "phase_text ReconciliationRequired = ''reconciliation_required''"

text \<open>The generic JSON parser reads what serde wrote: the state of a lease, the phases of a journal.\<close>

definition parses_leases :: "json_parser \<Rightarrow> lease_metadata codec \<Rightarrow> bool" where
  "parses_leases parse c \<longleftrightarrow> (\<forall>l bs. to_vec c l = Some bs \<longrightarrow>
     (\<exists>v. parse bs = Some v \<and> json_get ''state'' v = Some (JString (state_text (lm_state l)))))"

definition parses_journals :: "json_parser \<Rightarrow> operation_journal codec \<Rightarrow> bool" where
  "parses_journals parse c \<longleftrightarrow> (\<forall>j bs. to_vec c j = Some bs \<longrightarrow>
     (\<exists>v rs. parse bs = Some v \<and> json_get ''operations'' v = Some (JArray rs) \<and>
        map (json_get ''phase'') rs = map (\<lambda>x. Some (JString (phase_text (jo_phase x)))) (oj_operations j)))"

text \<open>What a scan that found nothing has looked at.\<close>

definition scanned :: "json_parser \<Rightarrow> (json_value \<Rightarrow> bool) \<Rightarrow> path set \<Rightarrow> world \<Rightarrow> bool" where
  "scanned parse blocks ps w \<longleftrightarrow> (\<forall>p\<in>ps. has_json_extension p \<longrightarrow>
     (\<forall>bs. lookup w p = Some bs \<longrightarrow> (\<exists>v. parse bs = Some v \<and> \<not> blocks v)))"

abbreviation same_store :: "world \<Rightarrow> world \<Rightarrow> bool" where
  "same_store w w' \<equiv> files w' = files w \<and> stat_fault w' = stat_fault w"

lemma same_lookup: "files w' = files w \<Longrightarrow> lookup w' = lookup w"
  by (simp add: lookup_def fun_eq_iff)

lemma scan_files_spec:
  "wp (scan_files parse blocks ps) (\<lambda>r w'. same_store w w' \<and> (r \<longrightarrow> scanned parse blocks (set ps) w)) (\<lambda>_ _. True) w"
proof (induction ps arbitrary: w)
  case Nil
  then show ?case by (simp add: wp_ret scanned_def)
next
  case (Cons p ps)
  show ?case
  proof (cases "has_json_extension p")
    case False
    then show ?thesis by (auto simp: scanned_def intro!: wp_mono [OF Cons.IH [of w]])
  next
    case True
    have "wp (scan_files parse blocks ps) (\<lambda>r w'. same_store w w' \<and> (r \<longrightarrow> scanned parse blocks (set (p # ps)) w)) (\<lambda>_ _. True) (advance w)"
      if "lookup w p = Some bs" "parse bs = Some v" "\<not> blocks v" for bs v
      by (rule wp_mono [OF Cons.IH [of "advance w"]]) (use that in \<open>auto simp: scanned_def advance_def lookup_def\<close>)
    then show ?thesis
      using True by (auto simp: read_json_def wp_simps advance_def scanned_def split: option.split)
  qed
qed

lemma scan_directory_spec:
  assumes "\<forall>n. \<not> stat_fault w n"
  shows "wp (scan_directory parse blocks d)
    (\<lambda>r w'. same_store w w' \<and> (r \<longrightarrow> scanned parse blocks {p. in_dir d p} w)) (\<lambda>_ _. True) w"
proof -
  let ?w = "advance (advance w)"
  have all: "p \<in> set (filter (in_dir d) (remdups (map fst (files ?w))))" if "in_dir d p" "lookup w p = Some bs" for p bs
    using that by (force simp: lookup_def advance_def dest: map_of_SomeD)
  have none: "lookup w p = None" if "\<not> is_present w d" "in_dir d p" for p
  proof (rule ccontr)
    assume "lookup w p \<noteq> None"
    then have "p \<in> fst ` set (files w)" by (auto simp: lookup_def dest: map_of_SomeD intro: rev_image_eqI)
    with that(2) have "is_present w d" by (auto simp: is_present_def list_ex_iff)
    with that(1) show False by simp
  qed
  have "wp (scan_files parse blocks (filter (in_dir d) (remdups (map fst (files ?w)))))
      (\<lambda>r w'. same_store w w' \<and> (r \<longrightarrow> scanned parse blocks {p. in_dir d p} w)) (\<lambda>_ _. True) ?w"
    by (rule wp_mono [OF scan_files_spec]) (use all in \<open>auto simp: scanned_def advance_def lookup_def; blast\<close>)
  with assms none show ?thesis
    by (auto simp: scan_directory_def wp_simps advance_def scanned_def split: option.split)
qed

lemma safe_profile_scanned:
  assumes "profile_is_safe_for_update parse root w = (Inr True, w')" and "\<forall>n. \<not> stat_fault w n"
  shows "scanned parse lease_blocks {p. in_dir (dp_lease_groups (from_root root)) p} w \<and>
    scanned parse journal_blocks {p. in_dir (dp_operation_journals (from_root root)) p} w"
proof -
  have second: "wp (scan_directory parse journal_blocks d) (\<lambda>r _. r \<longrightarrow> scanned parse journal_blocks {p. in_dir d p} w) (\<lambda>_ _. True) v"
    if "same_store w v" for d v
    using that assms(2) by (intro wp_mono [OF scan_directory_spec]) (auto simp: scanned_def same_lookup [of v w])
  have "wp (profile_is_safe_for_update parse root)
      (\<lambda>r _. r \<longrightarrow> scanned parse lease_blocks {p. in_dir (dp_lease_groups (from_root root)) p} w \<and>
        scanned parse journal_blocks {p. in_dir (dp_operation_journals (from_root root)) p} w) (\<lambda>_ _. True) w"
    unfolding profile_is_safe_for_update_def wp_bindR from_root_def
    by (rule wp_mono [OF scan_directory_spec [OF assms(2)]]) (auto simp: wp_simps intro!: wp_mono [OF second])
  from wp_okD [OF assms(1) this] show ?thesis by simp
qed

lemma group_file_extension: "has_json_extension (d @ [IdName g ''.json''])"
proof -
  have "uuid_text g \<noteq> []" by (simp add: uuid_text_def Let_def)
  then show ?thesis by (simp add: has_json_extension_def file_name_def ends_with_def suffix_def)
qed

lemma scannedD:
  "scanned parse blocks ps w \<Longrightarrow> p \<in> ps \<Longrightarrow> has_json_extension p \<Longrightarrow> lookup w p = Some bs \<Longrightarrow> parse bs = Some v \<Longrightarrow> \<not> blocks v"
  by (auto simp: scanned_def)

text \<open>
  C20. No update is activated over an exposed session: if a profile is reported safe for an update,
  then none of its groups has a stored lease that is leased or being evicted, and every operation in
  every stored journal is finished. The scan reads the very files the lease store and the operation
  journal write, through a generic JSON parser that reads what serde wrote, and relies on metadata
  queries that do not fail.
\<close>

theorem no_update_during_lease:
  assumes "profile_is_safe_for_update parse root w = (Inr True, w')" and "\<forall>n. \<not> stat_fault w n"
    and "parses_leases parse lease_codec" and "parses_journals parse journal_codec"
  shows "(\<forall>g l bs. lookup w (lease_path (from_root root) g) = Some bs \<longrightarrow> to_vec lease_codec l = Some bs \<longrightarrow>
            lm_state l \<noteq> Leased \<and> lm_state l \<noteq> Evicting) \<and>
         (\<forall>g j bs. lookup w (operation_journal_path (from_root root) g) = Some bs \<longrightarrow> to_vec journal_codec j = Some bs \<longrightarrow>
            (\<forall>x \<in> set (oj_operations j). is_terminal (jo_phase x)))"
proof (intro conjI allI impI ballI)
  fix g l bs
  assume f: "lookup w (lease_path (from_root root) g) = Some bs" and c: "to_vec lease_codec l = Some bs"
  from c assms(3) obtain v where v: "parse bs = Some v" "json_get ''state'' v = Some (JString (state_text (lm_state l)))"
    unfolding parses_leases_def by blast
  have "\<not> lease_blocks v"
    by (rule scannedD [OF conjunct1 [OF safe_profile_scanned [OF assms(1,2)]] _ _ f v(1)])
      (simp_all add: lease_path_def in_dir_def group_file_extension)
  then have "state_text (lm_state l) \<noteq> ''leased''" "state_text (lm_state l) \<noteq> ''evicting''"
    using v(2) by (auto simp: lease_blocks_def)
  then show "lm_state l \<noteq> Leased" "lm_state l \<noteq> Evicting" by auto
next
  fix g j bs x
  assume f: "lookup w (operation_journal_path (from_root root) g) = Some bs" and c: "to_vec journal_codec j = Some bs"
    and x: "x \<in> set (oj_operations j)"
  from c assms(4) obtain v rs where v: "parse bs = Some v" "json_get ''operations'' v = Some (JArray rs)"
      and rs: "map (json_get ''phase'') rs = map (\<lambda>x. Some (JString (phase_text (jo_phase x)))) (oj_operations j)"
    unfolding parses_journals_def by blast
  have "\<not> journal_blocks v"
    by (rule scannedD [OF conjunct2 [OF safe_profile_scanned [OF assms(1,2)]] _ _ f v(1)])
      (simp_all add: operation_journal_path_def in_dir_def group_file_extension)
  then have t: "\<forall>r \<in> set rs. terminal_record r" using v(2) by (simp add: journal_blocks_def list_all_iff)
  have "Some (JString (phase_text (jo_phase x))) \<in> json_get ''phase'' ` set rs"
    using x rs by (metis (mono_tags, lifting) image_eqI list.set_map)
  then obtain r where "r \<in> set rs" "json_get ''phase'' r = Some (JString (phase_text (jo_phase x)))" by auto
  with t have "terminal_record r" by blast
  then show "is_terminal (jo_phase x)"
    using \<open>json_get ''phase'' r = _\<close> by (cases "jo_phase x") (simp_all add: terminal_record_def)
qed

text \<open>
  A failing metadata query reads as an absent directory: the profile is reported safe whatever its
  leases and journals are.
\<close>

theorem stat_failure_counts_as_safe:
  assumes "\<forall>n. stat_fault w n"
  shows "fst (profile_is_safe_for_update parse root w) = Inr True"
  using assms by (simp add: profile_is_safe_for_update_def scan_directory_def fs_exists_def monad_defs)

text \<open>A release is activated only right after every profile was reported safe.\<close>

theorem activation_only_when_safe:
  assumes "check_and_apply x parse root ([], w) = (r, (applied, w'))" and "applied \<noteq> []"
  shows "\<exists>v v'. all_profiles_are_safe_for_update parse root v = (Inr True, v')"
proof -
  have a: "wp (apply_if_safe x parse root q) (\<lambda>_ s. fst s \<noteq> [] \<longrightarrow> (\<exists>v v'. all_profiles_are_safe_for_update parse root v = (Inr True, v')))
      (\<lambda>_ s. fst s \<noteq> [] \<longrightarrow> (\<exists>v v'. all_profiles_are_safe_for_update parse root v = (Inr True, v'))) ([], v)" for q v
    by (auto simp: apply_if_safe_def wp_def monad_defs split: prod.split sum.split)
  have "wp (check_and_apply x parse root) (\<lambda>_ s. fst s \<noteq> [] \<longrightarrow> (\<exists>v v'. all_profiles_are_safe_for_update parse root v = (Inr True, v')))
      (\<lambda>_ s. fst s \<noteq> [] \<longrightarrow> (\<exists>v v'. all_profiles_are_safe_for_update parse root v = (Inr True, v'))) ([], w)"
    unfolding check_and_apply_def
    by (auto simp: wp_simps intro!: wp_mono [OF wp_top [of "ux_manager x"]] wp_mono [OF wp_top [of "ux_check x"]]
        wp_mono [OF wp_top [of "ux_download x _"]] a split: option.split)
  with assms show ?thesis by (auto simp: wp_def split: sum.splits)
qed

text \<open>A profile with one sealed group and an empty journal.\<close>

definition exu_lease :: lease_metadata where
  "exu_lease = \<lparr>lm_version = 1, lm_account_group_id = 5, lm_state = Sealed, lm_lease_id = None, lm_granted_at_unix_ms = None,
     lm_expires_at_unix_ms = None, lm_pending_operation_id = None, lm_vault_sequence = 1, lm_transition_sequence = 1,
     lm_protocol_floor = 7, lm_operation_sequence_high_water = 0\<rparr>"

definition exu_root :: path where
  "exu_root = [Name ''r'']"

definition exu_world :: world where
  "exu_world = quiet_world\<lparr>files := [(lease_path (from_root exu_root) 5, [0]),
     (operation_journal_path (from_root exu_root) 5, [0])]\<rparr>"

definition exu_parse :: json_parser where
  "exu_parse bs = Some (JObject [(''state'', JString ''sealed''), (''operations'', JArray [])])"

lemma exu_parses: "parses_leases exu_parse (table_codec [exu_lease])" "parses_journals exu_parse (table_codec [journal_empty 5])"
  by (auto simp: parses_leases_def parses_journals_def exu_parse_def exu_lease_def journal_empty_def dest!: table1_codec)

lemmas exu_extensions =
  group_file_extension [of "[Name ''r'', Name ''leases'', Name ''groups'']" 5, simplified]
  group_file_extension [of "[Name ''r'', Name ''operations'', Name ''groups'']" 5, simplified]

lemmas exu_defs = exu_parse_def exu_world_def exu_root_def lease_path_def operation_journal_path_def from_root_def quiet_world_def

lemma exu_safe: "fst (profile_is_safe_for_update exu_parse exu_root exu_world) = Inr True"
  by (simp add: profile_is_safe_for_update_def scan_directory_def read_json_def exu_defs exu_extensions
      lease_blocks_def journal_blocks_def monad_defs world_defs)

theorem no_update_during_lease_witness:
  "fst (profile_is_safe_for_update exu_parse exu_root exu_world) = Inr True \<and>
   lookup exu_world (lease_path (from_root exu_root) 5) = Some [0] \<and> to_vec (table_codec [exu_lease]) exu_lease = Some [0] \<and>
   lm_state exu_lease \<noteq> Leased"
proof -
  obtain w' where run: "profile_is_safe_for_update exu_parse exu_root exu_world = (Inr True, w')"
    using exu_safe by (metis prod.collapse)
  have "\<forall>n. \<not> stat_fault exu_world n" by (simp add: exu_world_def quiet_world_def)
  moreover have "lookup exu_world (lease_path (from_root exu_root) 5) = Some [0]" "to_vec (table_codec [exu_lease]) exu_lease = Some [0]"
    by (simp_all add: exu_world_def lookup_def table_codec_def upt_rec)
  ultimately show ?thesis using no_update_during_lease [OF run _ exu_parses] run by auto
qed

end
