(* ===== verification/Connection.thy ===== *)
theory Connection
  imports App_Invariant
begin

text \<open>
  A whole connection, from the bytes of the pipe to the state of the application: \<open>host_loop.rs\<close> over
  the application of \<open>dispatcher.rs\<close>. The loop is shown to be a run of the application's handler over
  the messages that arrived, in the order of their sequence numbers and starting with a handshake, so
  that an invariant of single messages is one of every connection.
\<close>

subsection \<open>What arrived\<close>

text \<open>The bytes begin with the frames of the envelopes \<open>es\<close>.\<close>

fun arrives :: "envelope codec \<Rightarrow> envelope list \<Rightarrow> byte list \<Rightarrow> bool" where
  "arrives c [] bs = True"
| "arrives c (e # es) bs = (\<exists>body rest. bs = frame body @ rest \<and> from_slice c body = Some e \<and> arrives c es rest)"

text \<open>The envelopes continue a connection: one version, one nonce, the numbers that follow \<open>n\<close>.\<close>

fun in_sequence :: "u16 \<Rightarrow> nonce32 \<Rightarrow> nat \<Rightarrow> envelope list \<Rightarrow> bool" where
  "in_sequence v nonce n [] = True"
| "in_sequence v nonce n (e # es) = (en_v e = v \<and> en_conn_nonce e = nonce \<and> unat (en_seq e) = Suc n \<and>
     in_sequence v nonce (Suc n) es)"

lemma in_sequence_numbers:
  "in_sequence v nonce n es \<longleftrightarrow> map (unat \<circ> en_seq) es = [Suc n..<Suc n + length es] \<and>
     list_all (\<lambda>e. en_v e = v \<and> en_conn_nonce e = nonce) es"
proof (induction es arbitrary: n)
  case (Cons e es)
  have "[Suc n..<Suc n + length (e # es)] = Suc n # [Suc (Suc n)..<Suc (Suc n) + length es]"
    by (simp add: upt_conv_Cons del: upt_Suc)
  with Cons show ?case by auto
qed simp

lemma wp_read_arrives:
  "wp (read_envelope c) (\<lambda>r p'. \<forall>e es. r = Some e \<longrightarrow> arrives c es (pi_input p') \<longrightarrow> arrives c (e # es) (pi_input p))
     (\<lambda>_ _. True) p"
proof -
  have step: "\<exists>body. b # bs = frame body @ drop n (drop 3 bs) \<and> from_slice c body = Some e"
    if "3 \<le> length bs" "n = unat (u32_from_le (b # take 3 bs))" "n \<le> length (drop 3 bs)"
      "from_slice c (take n (drop 3 bs)) = Some e" for b bs n e
  proof (intro exI conjI)
    have "length (b # take 3 bs) = 4" using that(1) by simp
    then have "u32_to_le (of_nat n) = b # take 3 bs" using that(2) u32_le.enc_dec by simp
    moreover have "length (take n (drop 3 bs)) = n" using that(3) by simp
    moreover have "bs = take 3 bs @ take n (drop 3 bs) @ drop n (drop 3 bs)" by (simp only: append_take_drop_id)
    ultimately show "b # bs = frame (take n (drop 3 bs)) @ drop n (drop 3 bs)" by (simp add: frame_def)
  qed (rule that(4))
  show ?thesis
    by (auto simp: read_envelope_def wp_simps Let_def json_from_slice_def not_less split: option.split list.split)
      (use step in \<open>fastforce simp: min_def\<close>)
qed

subsection \<open>The loop as a run of the application\<close>

text \<open>
  From \<open>s\<close> the connection has brought the application to \<open>t\<close>: by handling, one after the other, the
  messages of envelopes that arrived in sequence.
\<close>

definition served :: "'a host_app \<Rightarrow> envelope codec \<Rightarrow> u16 \<Rightarrow> nonce32 \<Rightarrow> nat \<Rightarrow> byte list \<Rightarrow> 'a \<times> world \<Rightarrow> 'a \<times> world \<Rightarrow> bool" where
  "served app c v nonce n bs s t \<longleftrightarrow> (\<exists>es. in_sequence v nonce n es \<and> arrives c es bs \<and>
     t = run_steps (ap_handle app) (map en_message es) s)"

lemma served_none: "served app c v nonce n bs s s"
  unfolding served_def by (rule exI [of _ "[]"]) simp

lemma process_envelope_runs:
  assumes "process_envelope app c k e s = (r, s')"
  shows "(\<exists>err. r = Inl err) \<and> fst s' = fst s \<or>
     check_envelope k e = Inr () \<and> en_v e = co_version k \<and> fst s' = snd (ap_handle app (en_message e) (fst s)) \<and>
     (\<forall>k'. r = Inr k' \<longrightarrow> co_version k' = co_version k \<and> co_incoming k' = en_seq e \<and>
        co_nonce k' = Some (case co_nonce k of Some n \<Rightarrow> n | None \<Rightarrow> en_conn_nonce e))"
  using assms
  by (auto simp: process_envelope_def monad_defs on_fst_def on_snd_def zoom_def app_output_def Let_def
      split: prod.splits sum.splits if_splits)

lemma check_envelope_next:
  assumes "check_envelope k e = Inr ()" and "co_nonce k = Some nonce"
  shows "en_conn_nonce e = nonce \<and> unat (en_seq e) = Suc (unat (co_incoming k))"
  using assms checked_add_unat [of "co_incoming k" 1 "en_seq e"]
  by (auto simp: check_envelope_def envelope_validate_iff)

lemma wp_serve_runs:
  assumes "co_version k = v" and "co_nonce k = Some nonce"
  shows "wp (serve app c k) (\<lambda>_ s'. served app c v nonce (unat (co_incoming k)) (pi_input (snd s)) (fst s) (fst s'))
     (\<lambda>_ s'. served app c v nonce (unat (co_incoming k)) (pi_input (snd s)) (fst s) (fst s')) s"
  using assms
proof (induction app c k s rule: serve.induct)
  case (1 app c k s)
  let ?n = "unat (co_incoming k)"
  obtain q p1 where read: "read_envelope c (snd s) = (q, p1)" by (rule prod.exhaust)
  then have r: "on_snd (read_envelope c) s = (q, (fst s, p1))" by (simp add: on_snd_def zoom_def)
  show ?case
  proof (cases "\<exists>e. q = Inr (Some e)")
    case False
    then show ?thesis using r
      by (auto simp: wp_def serve.simps split: sum.split option.split intro: served_none)
  next
    case True
    then obtain e where e: "q = Inr (Some e)" by blast
    obtain z s2 where z: "process_envelope app c k e (fst s, p1) = (z, s2)" by (rule prod.exhaust)
    have pipe: "pi_input (snd s2) = pi_input p1" using process_envelope_input [OF z] by simp
    have arrived: "arrives c (e # es) (pi_input (snd s))" if "arrives c es (pi_input p1)" for es
      using wp_okD [OF read [unfolded e] wp_read_arrives] that by blast
    have one: "served app c v nonce ?n (pi_input (snd s)) (fst s) t"
      if rest: "served app c v nonce (Suc ?n) (pi_input p1) (snd (ap_handle app (en_message e) (fst s))) t"
        and ok: "check_envelope k e = Inr ()" "en_v e = co_version k" for t
    proof -
      obtain es where es: "in_sequence v nonce (Suc ?n) es" "arrives c es (pi_input p1)"
          "t = run_steps (ap_handle app) (map en_message es) (snd (ap_handle app (en_message e) (fst s)))"
        using rest unfolding served_def by blast
      show ?thesis unfolding served_def
        by (rule exI [of _ "e # es"])
          (use es arrived check_envelope_next [OF ok(1) 1(3)] ok(2) 1(2) in simp)
    qed
    note runs = process_envelope_runs [OF z]
    show ?thesis
    proof (cases z)
      case (Inl err)
      then have "served app c v nonce ?n (pi_input (snd s)) (fst s) (fst s2)"
        using runs one served_none by fastforce
      then show ?thesis using r e z Inl by (simp add: wp_def serve.simps)
    next
      case (Inr k')
      with runs have k': "check_envelope k e = Inr ()" "en_v e = co_version k"
          "fst s2 = snd (ap_handle app (en_message e) (fst s))"
          "co_version k' = v" "co_incoming k' = en_seq e" "co_nonce k' = Some nonce"
        using 1(2,3) by auto
      have n: "unat (co_incoming k') = Suc ?n" using k'(5) check_envelope_next [OF k'(1) 1(3)] by simp
      have "wp (serve app c k') (\<lambda>_ s'. served app c v nonce (Suc ?n) (pi_input p1) (fst s2) (fst s'))
          (\<lambda>_ s'. served app c v nonce (Suc ?n) (pi_input p1) (fst s2) (fst s')) s2"
        using 1(1) [OF r [symmetric, unfolded e] refl _ z [symmetric] Inr k'(4,6)] n pipe by simp
      then have "wp (serve app c k') (\<lambda>_ s'. served app c v nonce ?n (pi_input (snd s)) (fst s) (fst s'))
          (\<lambda>_ s'. served app c v nonce ?n (pi_input (snd s)) (fst s) (fst s')) s2"
        by (rule wp_mono) (use one k' in auto)
      then show ?thesis using r e z Inr by (simp add: wp_def serve.simps)
    qed
  qed
qed

text \<open>The first envelope was checked before the application was opened, so it is always handled.\<close>

lemma wp_connection_runs:
  assumes "validate_first_envelope first = Inr ()" and "en_v first = v" "en_conn_nonce first = nonce"
  shows "wp (run_connection_with_app app c first)
     (\<lambda>_ s'. served app c v nonce 1 (pi_input (snd s)) (snd (ap_handle app (en_message first) (fst s))) (fst s'))
     (\<lambda>_ s'. served app c v nonce 1 (pi_input (snd s)) (snd (ap_handle app (en_message first) (fst s))) (fst s')) s"
proof -
  let ?k = "\<lparr>co_version = en_v first, co_nonce = None, co_incoming = 0, co_outgoing = 0\<rparr>"
  obtain z s1 where z: "process_envelope app c ?k first s = (z, s1)" by (rule prod.exhaust)
  have handled: "fst s1 = snd (ap_handle app (en_message first) (fst s))"
    using z assms(1)
    by (auto simp: process_envelope_def check_envelope_def monad_defs on_fst_def on_snd_def zoom_def app_output_def Let_def
        split: prod.splits sum.splits if_splits)
  have pipe: "pi_input (snd s1) = pi_input (snd s)" by (rule process_envelope_input [OF z])
  have seq: "en_seq first = 1" using assms(1)
    by (auto simp: validate_first_envelope_def envelope_validate_iff checked_add_def split: message.splits if_splits)
  show ?thesis
  proof (cases z)
    case (Inl err)
    then show ?thesis using z handled
      by (auto simp: run_connection_with_app_def wp_def monad_defs intro: served_none)
  next
    case (Inr k')
    have k': "co_version k' = v" "co_incoming k' = 1" "co_nonce k' = Some nonce"
      using process_envelope_runs [OF z] Inr assms(2,3) seq by auto
    have "wp (serve app c k') (\<lambda>_ s'. served app c v nonce 1 (pi_input (snd s)) (fst s1) (fst s'))
        (\<lambda>_ s'. served app c v nonce 1 (pi_input (snd s)) (fst s1) (fst s')) s1"
      using wp_serve_runs [OF k'(1,3), of app c s1] k'(2) pipe by simp
    then show ?thesis using z Inr handled
      by (simp add: run_connection_with_app_def wp_def monad_defs)
  qed
qed

lemma first_is_handshake: "validate_first_envelope e = Inr u \<Longrightarrow> \<exists>h. en_message e = Handshake h"
  by (cases "en_message e") (simp_all add: validate_first_envelope_def)

subsection \<open>Properties\<close>

text \<open>
  C9. A connection is a run of the application over what arrived: whatever bytes the pipe delivers and
  however it fails, a connection either ends before the application is opened and leaves the world as it
  was, or opening the application for the profile of the handshake fails and nothing else happens, or the
  world at its end is the result of handling, one after the other, the messages of a sequence of
  envelopes whose frames the input begins with. That sequence starts with the handshake that selected the
  profile, has the sequence numbers 1, 2, 3, ... and one version and one nonce throughout.
\<close>

theorem connection_runs_the_messages:
  assumes "run_connection app c (w, p) = (r, (w', p'))"
  shows "(\<exists>err. r = Inl err \<and> w' = w) \<or>
    (\<exists>first h. en_message first = Handshake h \<and> arrives c [first] (pi_input p) \<and>
      ((\<exists>err. r = Inl err \<and> ap_open app (hs_profile_id h) w = (Inl err, w')) \<or>
       (\<exists>a w1 es. ap_open app (hs_profile_id h) w = (Inr a, w1) \<and> arrives c (first # es) (pi_input p) \<and>
          map (unat \<circ> en_seq) (first # es) = [1..<Suc (length (first # es))] \<and>
          list_all (\<lambda>e. en_v e = en_v first \<and> en_conn_nonce e = en_conn_nonce first) es \<and>
          w' = snd (run_steps (ap_handle app) (map en_message (first # es)) (a, w1)))))"
proof -
  obtain q p1 where read: "read_envelope c p = (q, p1)" by (rule prod.exhaust)
  show ?thesis
  proof (cases "\<exists>first h. q = Inr (Some first) \<and> validate_first_envelope first = Inr () \<and> en_message first = Handshake h")
    case False
    then have "\<exists>err. r = Inl err \<and> w' = w"
      using read assms first_is_handshake
      by (auto simp: run_connection_def monad_defs on_snd_def zoom_def split: sum.splits option.splits) metis
    then show ?thesis by blast
  next
    case True
    then obtain first h where f: "q = Inr (Some first)" "validate_first_envelope first = Inr ()" "en_message first = Handshake h"
      by blast
    have arrived: "arrives c (first # es) (pi_input p)" if "arrives c es (pi_input p1)" for es
      using wp_okD [OF read [unfolded f(1)] wp_read_arrives] that by blast
    have seq: "unat (en_seq first) = 1" using f(2,3)
      by (auto simp: validate_first_envelope_def envelope_validate_iff checked_add_def split: if_splits)
    obtain o1 w1 where opened: "ap_open app (hs_profile_id h) w = (o1, w1)" by (rule prod.exhaust)
    show ?thesis
    proof (cases o1)
      case (Inl err)
      then have "r = Inl err" "w' = w1"
        using assms read f opened by (auto simp: run_connection_def monad_defs on_snd_def on_fst_def zoom_def)
      with f(3) opened Inl arrived [of "[]"] show ?thesis by auto
    next
      case (Inr a)
      obtain r2 a2 w2 p2 where run: "run_connection_with_app app c first ((a, w1), p1) = (r2, ((a2, w2), p2))"
        by (metis prod.collapse)
      have "w' = w2" using assms read f opened Inr run
        by (auto simp: run_connection_def monad_defs on_snd_def on_fst_def zoom_def)
      moreover have "served app c (en_v first) (en_conn_nonce first) 1 (pi_input p1)
          (snd (ap_handle app (en_message first) (a, w1))) (a2, w2)"
        using wp_connection_runs [OF f(2) refl refl, of app c "((a, w1), p1)"] run by (auto simp: wp_def split: sum.splits)
      ultimately obtain es where es: "in_sequence (en_v first) (en_conn_nonce first) 1 es" "arrives c es (pi_input p1)"
          "w' = snd (run_steps (ap_handle app) (map en_message (first # es)) (a, w1))"
        unfolding served_def by (metis list.simps(9) run_steps.simps(2) snd_conv)
      have "in_sequence (en_v first) (en_conn_nonce first) 0 (first # es)" using seq es(1) by simp
      then have "map (unat \<circ> en_seq) (first # es) = [1..<Suc (length (first # es))]"
          "list_all (\<lambda>e. en_v e = en_v first \<and> en_conn_nonce e = en_conn_nonce first) es"
        unfolding in_sequence_numbers by simp_all
      with opened [unfolded Inr] arrived [OF es(2)] es(3) have "\<exists>a w1 es. ap_open app (hs_profile_id h) w = (Inr a, w1) \<and>
          arrives c (first # es) (pi_input p) \<and> map (unat \<circ> en_seq) (first # es) = [1..<Suc (length (first # es))] \<and>
          list_all (\<lambda>e. en_v e = en_v first \<and> en_conn_nonce e = en_conn_nonce first) es \<and>
          w' = snd (run_steps (ap_handle app) (map en_message (first # es)) (a, w1))"
        by (intro exI [of _ a] exI [of _ w1] exI [of _ es] conjI)
      with f(3) arrived [OF arrives.simps(1) [THEN iffD2, OF TrueI]] show ?thesis
        by (intro disjI2 exI [of _ first] exI [of _ h] conjI)
    qed
  qed
qed

text \<open>A connection that greets and polls, over the application of \<open>Host_Loop\<close>.\<close>

definition exn_codec :: "envelope codec" where
  "exn_codec = table_codec [exh_first, exh_reply, exh_poll, exh_error]"

definition exn_pipe :: pipe where
  "exn_pipe = exf_pipe [1, 0, 0, 0, 0, 1, 0, 0, 0, 2]"

lemma exn_length: "u32_from_le [1, 0, 0, 0] = 1"
  by code_simp

lemma exn_runs: "fst (run_connection exh_app exn_codec (quiet_world, exn_pipe)) = Inr ()"
  by (simp add: run_simps exh_defs exn_codec_def exn_pipe_def run_connection_def exn_length)

theorem connection_runs_the_messages_witness:
  "\<exists>first h es. en_message first = Handshake h \<and> arrives exn_codec (first # es) (pi_input exn_pipe) \<and>
     snd (run_steps (ap_handle exh_app) (map en_message (first # es)) ((), quiet_world)) =
     fst (snd (run_connection exh_app exn_codec (quiet_world, exn_pipe)))"
proof -
  let ?run = "run_connection exh_app exn_codec (quiet_world, exn_pipe)"
  have run: "?run = (Inr (), (fst (snd ?run), snd (snd ?run)))" using exn_runs by (metis prod.collapse)
  have "ap_open exh_app i w = (Inr (), w)" for i w by (simp add: exh_app_def ret_def)
  with connection_runs_the_messages [OF run] show ?thesis by (metis Inr_not_Inl Pair_inject sum.inject(2))
qed

end
