(* ===== verification/Host_Main.thy ===== *)
theory Host_Main
  imports Host_Process Connection
begin

text \<open>
  The process as a whole: the Windows variant of the instance lock, the lifecycle scripts of an
  installation (\<open>update.rs\<close>) and \<open>main\<close> (\<open>bin/fursoy-vault-host.rs\<close>), which joins the modes of
  \<open>Host_Process\<close> with the connection of \<open>Connection\<close>. What is printed on the standard error stream is
  left out. Velopack's choice of a callback, the exit status of PowerShell and \<open>CreateFileW\<close> are
  parameters.
\<close>

subsection \<open>The instance lock on Windows\<close>

text \<open>\<open>create_file\<close> is \<open>CreateFileW\<close> without sharing: it fails while another handle is open.\<close>

definition acquire_windows :: "(path \<Rightarrow> (world, unit) host) \<Rightarrow> path \<Rightarrow> (world, unit) host" where
  "acquire_windows create_file root = bindR (lock_path root) (\<lambda>p. map_err (\<lambda>_. busy) (create_file p))"

subsection \<open>Lifecycle scripts\<close>

datatype argument = Text string | PathArg path

definition release_script_arguments :: "path \<Rightarrow> path \<Rightarrow> string \<Rightarrow> bool \<Rightarrow> argument list" where
  "release_script_arguments executable directory name install =
     map Text [''-NoProfile'', ''-NonInteractive'', ''-ExecutionPolicy'', ''Bypass'', ''-File'']
     @ [PathArg (directory @ [Name name])]
     @ (if install then [Text ''-UpdaterPath'', PathArg executable] else [])"

text \<open>\<open>status\<close> runs \<open>powershell.exe\<close> and tells whether it succeeded; the result is false for \<open>exit(1)\<close>.\<close>

definition run_required_release_script ::
    "(argument list \<Rightarrow> (world, bool) host) \<Rightarrow> path option \<Rightarrow> string \<Rightarrow> bool \<Rightarrow> world \<Rightarrow> bool \<times> world" where
  "run_required_release_script status executable name install w =
     (case executable of None \<Rightarrow> (False, w)
      | Some executable \<Rightarrow> (case path_parent executable of None \<Rightarrow> (False, w)
        | Some directory \<Rightarrow>
            (case status (release_script_arguments executable directory name install) w of
               (Inr success, w') \<Rightarrow> (success, w') | (Inl _, w') \<Rightarrow> (False, w'))))"

datatype lifecycle = AfterInstall | AfterUpdate | BeforeUninstall

datatype exit_status = ExitSuccess | ExitFailure

text \<open>
  Velopack looks at the arguments and, for a lifecycle event, runs the callback and ends the process;
  otherwise it returns.
\<close>

record hooks_ext =
  vh_event :: "string list \<Rightarrow> lifecycle option"
  vh_status :: "argument list \<Rightarrow> (world, bool) host"
  vh_current_exe :: "path option"

fun lifecycle_script :: "lifecycle \<Rightarrow> string \<times> bool" where
  "lifecycle_script AfterInstall = (''install.ps1'', True)"
| "lifecycle_script AfterUpdate = (''install.ps1'', True)"
| "lifecycle_script BeforeUninstall = (''uninstall.ps1'', False)"

definition run_startup_hooks :: "hooks_ext \<Rightarrow> string list \<Rightarrow> world \<Rightarrow> exit_status option \<times> world" where
  "run_startup_hooks x args w = (case vh_event x args of None \<Rightarrow> (None, w)
     | Some event \<Rightarrow> (case lifecycle_script event of (name, install) \<Rightarrow>
         (case run_required_release_script (vh_status x) (vh_current_exe x) name install w of
            (success, w') \<Rightarrow> (Some (if success then ExitSuccess else ExitFailure), w'))))"

subsection \<open>The entry point\<close>

record process_ext =
  mx_windows :: bool
  mx_hooks :: hooks_ext
  mx_update :: update_ext
  mx_trigger :: trigger_ext
  mx_json :: json_parser
  mx_local_app_data :: "path option"
  mx_audit :: audit_ext
  mx_flock :: "path \<Rightarrow> (world, bool) host"
  mx_parse_uuid :: "string \<Rightarrow> uuid option"
  mx_base :: "path fcp_result"
  mx_current_dir :: path
  mx_is_absolute :: "string \<Rightarrow> bool"
  mx_pathbuf :: "string \<Rightarrow> path"

definition exit_on :: "(fcp_error + 'a) \<times> 's \<Rightarrow> exit_status \<times> 's" where
  "exit_on r = (case r of (Inl _, s) \<Rightarrow> (ExitFailure, s) | (Inr _, s) \<Rightarrow> (ExitSuccess, s))"

text \<open>\<open>println!\<close> panics when the standard output cannot be written.\<close>

definition export_mode :: "process_ext \<Rightarrow> uuid option \<Rightarrow> string \<Rightarrow> world \<times> pipe \<Rightarrow> exit_status \<times> world \<times> pipe" where
  "export_mode x profile_id destination = (\<lambda>s. exit_on (
     seqR (on_fst (export_audit (mx_audit x) (mx_flock x) (mx_parse_uuid x) (mx_base x) (mx_current_dir x) profile_id
             (mx_is_absolute x destination) (mx_pathbuf x destination)))
          (on_snd (pipe_write_all (map byte_of_char (''Verified audit export written to '' @ destination @ [CHR 0x0A])))) s))"

definition update_mode :: "process_ext \<Rightarrow> world \<times> pipe \<Rightarrow> exit_status \<times> world \<times> pipe" where
  "update_mode x = (\<lambda>(w, p). if mx_windows x
     then (case check_and_apply (mx_update x) (mx_json x) (mx_local_app_data x) ([], w) of
         (Inl _, (_, w')) \<Rightarrow> (ExitFailure, (w', p)) | (Inr _, (_, w')) \<Rightarrow> (ExitSuccess, (w', p)))
     else (ExitSuccess, (w, p)))"

definition messaging_mode ::
    "process_ext \<Rightarrow> 'a host_app \<Rightarrow> envelope codec \<Rightarrow> string list \<Rightarrow> world \<times> pipe \<Rightarrow> exit_status \<times> world \<times> pipe" where
  "messaging_mode x app c args = (\<lambda>(w, p). case validate_caller_origin args of
       Inl _ \<Rightarrow> (ExitFailure, (w, p))
     | Inr _ \<Rightarrow> exit_on (run_connection app c
         (if mx_windows x then snd (trigger_background_check (mx_trigger x) w) else w, p)))"

definition host_main ::
    "process_ext \<Rightarrow> 'a host_app \<Rightarrow> envelope codec \<Rightarrow> string list \<Rightarrow> world \<times> pipe \<Rightarrow> exit_status \<times> world \<times> pipe" where
  "host_main x app c args = (\<lambda>(w, p).
     case (if mx_windows x then run_startup_hooks (mx_hooks x) args w else (None, w)) of
       (Some status, w') \<Rightarrow> (status, (w', p))
     | (None, w') \<Rightarrow> (case parse_invocation (mx_parse_uuid x) args of
         CheckUpdate \<Rightarrow> update_mode x (w', p)
       | SetupLaunch \<Rightarrow> (ExitSuccess, (w', p))
       | ExportAudit profile_id destination \<Rightarrow> export_mode x profile_id destination (w', p)
       | BadProfileId \<Rightarrow> (ExitFailure, (w', p))
       | NativeMessaging \<Rightarrow> messaging_mode x app c args (w', p)))"

subsection \<open>Laws\<close>

text \<open>A second instance is refused on both platforms, and only the lock file may have been created.\<close>

lemma second_instance_refused:
  assumes "acquire (\<lambda>_. ret False) root w = (r, w')"
  shows "\<exists>e. r = Inl e" and "q \<noteq> root @ [Name ''host.lock''] \<Longrightarrow> lookup w' q = lookup w q"
  using assms
  by (auto simp: acquire_def lock_path_def fs_open_or_create_def fs_create_dir_all_def io_call_def monad_defs
      lookup_def advance_def put_file_def update_conv' split: option.splits if_splits sum.splits)

lemma second_windows_instance_refused:
  assumes "acquire_windows (\<lambda>_. fail e) root w = (r, w')"
  shows "\<exists>e. r = Inl e" and "lookup w' = lookup w"
  using assms
  by (auto simp: acquire_windows_def lock_path_def fs_create_dir_all_def io_call_def monad_defs
      lookup_def advance_def fun_eq_iff split: option.splits if_splits sum.splits)

lemma export_mode_input: "export_mode x i d s = (st, s') \<Longrightarrow> pi_input (snd s') = pi_input (snd s)"
  by (auto simp: export_mode_def exit_on_def monad_defs on_fst_def on_snd_def pipe_write_all_def pipe_call_def Let_def
      split: prod.splits sum.splits option.splits)

lemma update_mode_pipe: "update_mode x s = (st, s') \<Longrightarrow> snd s' = snd s"
  by (auto simp: update_mode_def split: prod.splits sum.splits if_splits)

subsection \<open>Properties\<close>

text \<open>
  C22. Only the browser extension is served: apart from the line an audit export prints, a process of the
  host reads from and writes to its standard streams only if it was started with the origin of the
  product's own extension as its first argument, and then exactly as one connection does; its exit
  status is a failure if and only if that connection ended in an error.
\<close>

theorem only_the_extension_is_served:
  assumes "host_main x app c args (w, p) = (st, (w', p'))" and "p' \<noteq> p"
    and "\<forall>i d. parse_invocation (mx_parse_uuid x) args \<noteq> ExportAudit i d"
  shows "(\<exists>rest. args = (''chrome-extension://'' @ PRODUCT_EXTENSION_ID @ ''/'') # rest) \<and>
    (\<exists>v r. run_connection app c (v, p) = (r, (w', p')) \<and> (st = ExitFailure \<longleftrightarrow> isl r))"
proof -
  obtain v where "messaging_mode x app c args (v, p) = (st, (w', p'))"
    using assms
    by (auto simp: host_main_def split: prod.splits option.splits if_splits invocation.splits dest: update_mode_pipe)
  with assms(2) obtain rest v' where args: "args = (''chrome-extension://'' @ PRODUCT_EXTENSION_ID @ ''/'') # rest"
      and run: "exit_on (run_connection app c (v', p)) = (st, (w', p'))"
    by (auto simp: messaging_mode_def validate_caller_origin_def Let_def split: list.splits if_splits sum.splits)
  obtain r where "run_connection app c (v', p) = (r, (w', p'))" "st = ExitFailure \<longleftrightarrow> isl r"
    using run by (auto simp: exit_on_def split: prod.splits sum.splits)
  with args show ?thesis by blast
qed

text \<open>A Linux process started by Chrome, over the connection of \<open>Connection\<close>.\<close>

definition exn_process :: process_ext where
  "exn_process = \<lparr>mx_windows = False, mx_hooks = \<lparr>vh_event = (\<lambda>_. None), vh_status = (\<lambda>_. ret True), vh_current_exe = None\<rparr>,
     mx_update = \<lparr>ux_manager = ret (), ux_pending = (\<lambda>_. None), ux_check = ret None, ux_download = (\<lambda>_. ret ()), ux_apply = (\<lambda>_. ret ())\<rparr>,
     mx_trigger = \<lparr>tx_data_dir_overridden = True, tx_local_app_data = None, tx_pathbuf = (\<lambda>_. []), tx_is_absolute = (\<lambda>_. False),
       tx_current_exe = None, tx_spawn = (\<lambda>_. ret ())\<rparr>,
     mx_json = exu_parse, mx_local_app_data = None, mx_audit = exa_x, mx_flock = (\<lambda>_. ret True), mx_parse_uuid = (\<lambda>_. None),
     mx_base = Inr [], mx_current_dir = [], mx_is_absolute = (\<lambda>_. False), mx_pathbuf = (\<lambda>_. [])\<rparr>"

definition exn_args :: "string list" where
  "exn_args = [''chrome-extension://ibjddphkjppgkdbegjibddbjkagdlaea/'']"

lemma exn_serves:
  "fst (host_main exn_process exh_app exn_codec exn_args (quiet_world, exn_pipe)) = ExitSuccess"
  "pi_output (snd (snd (host_main exn_process exh_app exn_codec exn_args (quiet_world, exn_pipe)))) \<noteq> pi_output exn_pipe"
  by (simp_all add: host_main_def exn_process_def parse_invocation_def exn_args_def messaging_mode_def validate_caller_origin_def
      PRODUCT_EXTENSION_ID_def exit_on_def run_simps exh_defs exn_codec_def exn_pipe_def run_connection_def exn_length)

theorem only_the_extension_is_served_witness:
  "\<exists>v r s'. run_connection exh_app exn_codec (v, exn_pipe) = (r, s') \<and> \<not> isl r \<and>
     s' = snd (host_main exn_process exh_app exn_codec exn_args (quiet_world, exn_pipe))"
proof -
  obtain w' p' where run: "host_main exn_process exh_app exn_codec exn_args (quiet_world, exn_pipe) = (ExitSuccess, (w', p'))"
    using exn_serves(1) by (metis prod.collapse)
  then have touched: "p' \<noteq> exn_pipe" using exn_serves(2) by auto
  have "\<forall>i d. parse_invocation (mx_parse_uuid exn_process) exn_args \<noteq> ExportAudit i d"
    by (simp add: parse_invocation_def exn_args_def)
  from only_the_extension_is_served [OF run touched this] run show ?thesis by auto
qed

end
