(* ===== verification/Spec2Isabelle.thy ===== *)
theory Spec2Isabelle
  imports Config_Change Removal_Check Injection Hello_Authorizer Cng_Kek Sealed_Secret Host_Main
begin

text \<open>
  A verification library for the native host of FURSOY Vault (\<open>src/native-host/src\<close>, Rust).

  \<^bold>\<open>The program.\<close> The host is a process Chrome starts and talks to over its standard streams. It keeps,
  per browser profile, an encrypted vault of session cookies for each configured group of sites. A
  browser extension asks it to hand cookies out for a while (a lease, after the user was verified by
  the platform), to take a snapshot of the cookies back, and then to confirm that they may be deleted
  from the browser. What must never happen: that cookies are deleted in the browser which are not in the
  vault, that a vault is lost or half written, that cookies are handed out without a fresh user
  verification, or that a capability is used twice.

  \<^bold>\<open>Layers and theories.\<close> Each theory names the source file it translates; names are the source's,
  with a prefix where two files use the same one.

  \<^item> \<open>Prelude\<close>: the result-and-state monad \<open>rm\<close> the model is written in, its weakest-precondition
    calculus \<open>wp\<close>, machine integers, and the shared lemmas. \<open>Invariance\<close>: \<open>keeps I m\<close>, that a program
    preserves \<open>I\<close> on success and on failure, and \<open>yields\<close>, what a program's answers satisfy. \<open>Bytes\<close>, \<open>Rust_String\<close>: fixed-width codecs (the locale
    \<open>fixed_codec\<close>), hex, UTF-8, the string functions the sources use. \<open>Host_Error\<close>: \<open>error.rs\<close>.
  \<^item> \<open>World\<close>: the operating system as the host sees it: a file system as an association list of paths
    and contents, directories, a clock, a source of random bytes, fresh identifiers, and a stream of
    failures that may make any call fail. Every call of \<open>std::fs\<close> is a function of it.
  \<^item> \<open>Atomic_File\<close> (\<open>atomic_file.rs\<close>): the verified durable write: temporary file, write, sync, read
    back, rename, directory sync, and its three outcomes. Everything durable goes through it.
  \<^item> \<open>Config\<close> (\<open>config.rs\<close>), \<open>Messages\<close> (\<open>protocol/messages.rs\<close>), \<open>Framing\<close> (\<open>protocol/framing.rs\<close>,
    \<open>envelope.rs\<close>), \<open>Host_Loop\<close> (\<open>host_loop.rs\<close>): groups and policies, the wire types, the
    length-prefixed frames over a pipe that may fail, and the loop that serves them over an arbitrary
    application.
  \<^item> \<open>Capability_Ledger\<close> (\<open>lease/state_machine.rs\<close>, \<open>lease/store.rs\<close>, \<open>crypto/capability.rs\<close>),
    \<open>Lease_Metadata\<close> (\<open>lease/metadata.rs\<close>), \<open>Operation_Journal\<close> (\<open>operation/model.rs\<close>,
    \<open>operation/journal.rs\<close>): the three durable state machines of a group.
  \<^item> \<open>Vault_Format\<close>, \<open>Vault_Store\<close>, \<open>Transaction\<close>, \<open>Operation_Coordinator\<close> (\<open>vault/\<close>, \<open>crypto/aead.rs\<close>,
    \<open>transaction.rs\<close>, \<open>operation/\<close>): the byte format of a vault, the files of the store with staged
    deletion, authorised reads and replacement of a vault, and the coordination of journal and vault
    with the recovery after a crash.
  \<^item> \<open>Audit_Log\<close> (\<open>audit.rs\<close>), \<open>Monitor\<close> (\<open>monitor/\<close>), \<open>Data_Paths\<close> (\<open>paths.rs\<close>), \<open>Local_Secret\<close> and
    \<open>Sealed_Secret\<close> (\<open>local_secret/\<close>): the authenticated log, the event queue with the command-line
    parser, the directory layout with its migrations, and the protection of small keys.
  \<^item> \<open>Group_Runtime\<close> and \<open>Dispatcher\<close> (\<open>dispatcher.rs\<close>): every handler of a group and of the
    application. The state of a group is the record \<open>group_runtime\<close>; the state a handler works on is
    that record, the authorizer slot, the audit logger and the world.
  \<^item> \<open>Webauthn_Codec\<close> (\<open>crypto/webauthn_codec.rs\<close>), \<open>Tpm_Session\<close>, \<open>Tpm_Kek\<close>, \<open>Tpm_Authorizer\<close>,
    \<open>Cng_Kek\<close>, \<open>Hello_Authorizer\<close> (\<open>crypto/platform_kek/\<close>, \<open>crypto/authorizer/\<close>): the parsers of what
    an authenticator returns and the two platforms' key and authorisation backends.
  \<^item> \<open>Host_Process\<close> and \<open>Host_Main\<close> (\<open>instance_lock.rs\<close>, \<open>update.rs\<close>, \<open>bin/fursoy-vault-host.rs\<close>): the
    single-instance lock, the updater with its lifecycle scripts, and \<open>main\<close> with its modes.
  \<^item> \<open>Snapshot_Protocol\<close>, \<open>Group_Invariant\<close>, \<open>App_Invariant\<close>, \<open>Config_Change\<close>, \<open>Removal_Check\<close>, \<open>Connection\<close>
    and \<open>Injection\<close> define nothing of the program: they hold the lemmas and properties that span
    several of the components above.

  \<^bold>\<open>What the lemmas show.\<close>

  \<^item> Durability: a write that reports a commit is on disk, and a failed one left the old file
    (\<open>Atomic_File\<close>); the ledger and the journal only move forward over any sequence of calls, failures
    and restarts (\<open>capability_single_use\<close>, \<open>journal_never_rewinds\<close>, by rule induction over a transition
    system whose steps are the operations).
    \<open>Path::exists\<close> answers that a file is absent when its metadata cannot be read, so a failing
    metadata query is the one failure these statements exclude, each in its hypotheses or steps;
    \<open>unreadable_ledger_is_forgotten\<close> and \<open>unreadable_journal_is_forgotten\<close> state what happens then.
  \<^item> The snapshot protocol: a confirmation the extension receives, in either protocol, means that the
    cookies it sent are in the vault file, or that it sent none and the previous vault was kept
    (\<open>Snapshot_Protocol\<close>); removal is authorised only for cookies of the committed
    snapshot (\<open>Removal_Check\<close>); recovery after a crash settles every operation (\<open>Operation_Coordinator\<close>).
  \<^item> Invariants: \<open>Group_Invariant\<close> and \<open>App_Invariant\<close> show that every message keeps the runtimes, the
    configuration and the bounds on buffered snapshots consistent; \<open>Config_Change\<close> that a failed
    configuration change does not cost a vault: it is in place or staged whatever fails, and back in
    place after a recovery that succeeded with readable metadata.
  \<^item> Composition: \<open>Connection\<close> shows that a connection, from the bytes of the pipe, is a run of the
    application over the messages that arrived in sequence after a handshake, so that what holds of
    every message holds of every connection; \<open>Host_Main\<close> that only the product's extension is served.
    \<open>Injection\<close> searches every handler for answers that carry cookies and follows the only one back
    through the ledger to the verified user, for any messages after the profile was opened. The
    argument is made once, in the locale \<open>verifying_backend\<close>, and holds for the PIN the TPM accepted on
    Linux and for the Windows Hello assertion on Windows.
  \<^item> Authorisation: an authorised read carries a signature of a verified user. \<open>Tpm_Authorizer\<close> and
    \<open>Hello_Authorizer\<close> prove it of the two backends, with the refusals that never enrol anew and the
    handles that are always released. \<open>Tpm_Kek\<close> and \<open>Cng_Kek\<close> discharge, for the two key backends, the
    contract \<open>kek_sound\<close> under which \<open>Transaction\<close> is verified.
  \<^item> Formats: round trips and canonicity of the vault record, the frames, the sealed blob, DER and COSE.
  \<^item> The audit log: a log that verifies is the authentic one, and a record extends it.

  \<^bold>\<open>Interfaces.\<close> Code outside the repository is a parameter: \<open>serde_json\<close> as a \<open>codec\<close> with the law that
  what was written reads back, AES-GCM, HMAC, SHA-256, RSA-OAEP and ECDSA as functions with the laws
  of their documentation, \<open>tss_esapi\<close>, NCrypt, DPAPI, WebAuthn and WMI as records of calls that may
  fail. Their laws appear as named hypotheses (\<open>kek_sound\<close>, \<open>rsa_oaep_sound\<close>, \<open>tpm_unseals\<close>,
  \<open>key_requires_pin\<close> and others) and every property that has one comes with a witness in which the parameter is a
  concrete function. Locales state the contracts several definitions share: \<open>fixed_codec\<close> of the integer
  codecs, \<open>durable_write\<close> of a verified write, \<open>slice_reader\<close> of the two byte readers and others, each
  interpreted on the definitions of the model.

  \<^bold>\<open>Termination and fuel.\<close> All definitions are total. Loops over lists are structural. The COSE loop runs
  as many times as the input says, up to \<open>2 ^ 64\<close>; \<open>cose_loop_bounded_by_input\<close> shows that it ends after
  at most as many rounds as there are bytes. The directory walk of \<open>dispatcher.rs: visit\<close> is given the
  depth of the tree as fuel, and \<open>visit_fuel\<close> shows that this is enough. The connection loop is structural
  in the bytes of the pipe.

  \<^bold>\<open>Not modelled.\<close> The browser extension, the website, the installers and the experiments under \<open>poc/\<close> are
  not part of the host. Of the host: the reconciliation fixture of debug builds and \<open>test_support.rs\<close>
  (compiled only into tests); the threads of the monitor and of the logger's mutex (calls are
  sequential); the WMI and Authenticode calls, and the assembly of the argument structures of Win32
  calls (no logic of the program); what is printed on the standard error stream; zeroing of memory,
  which no function of the program observes; the Windows variant of the file replacement, which
  differs from the modelled one only in the system call. Three simplifications of the operating
  system: a lifecycle script has no access to the standard streams of the host, the export mode takes
  the instance lock in its Unix variant, and renaming a directory onto an existing empty one fails.
\<close>

end
